(* ===== verification/Prelude.thy ===== *)
theory Prelude
  imports Main "HOL-Library.Sublist"
begin

text \<open>
  What every theory of the development shares: the collections of rewrite rules the component
  proofs use, the result type of code that may throw, the sequencing of guards, and generic lemmas
  on lists. Nothing here depends on the program.
\<close>

named_theorems accept_simps \<open>when a guard, a check or a sequence of checks returns normally\<close>
named_theorems fault_intros \<open>that a check throws nothing but the faults of a given class\<close>

section \<open>Results of code that may throw\<close>

text \<open>
  \<open>'e + 'a\<close> is the result of a JavaScript function that either throws (\<open>Inl\<close>) or returns
  (\<open>Inr\<close>). A validator returns nothing of interest, so its result is \<open>'e + unit\<close>.
\<close>

abbreviation ok :: "'e + unit" where
  "ok \<equiv> Inr ()"

definition returns :: "'e + 'a \<Rightarrow> bool" where
  "returns r \<longleftrightarrow> (case r of Inl _ \<Rightarrow> False | Inr _ \<Rightarrow> True)"

lemma returns_simps [simp]: "returns (Inr x)" "\<not> returns (Inl e)"
  by (simp_all add: returns_def)

lemma returns_unit: "returns r \<longleftrightarrow> r = ok"
  by (cases r) simp_all

text \<open>\<open>throw_if b e\<close> is the statement \<open>if (b) throw e;\<close>.\<close>

definition throw_if :: "bool \<Rightarrow> 'e \<Rightarrow> 'e + unit" where
  "throw_if b e = (if b then Inl e else ok)"

text \<open>\<open>checks cs\<close> runs the statements \<open>cs\<close> in order; the first throw ends the run.\<close>

fun checks :: "('e + unit) list \<Rightarrow> 'e + unit" where
  "checks [] = ok"
| "checks (c # cs) = (case c of Inl e \<Rightarrow> Inl e | Inr _ \<Rightarrow> checks cs)"

declare checks.simps(2) [simp del]

text \<open>\<open>only_if b c\<close> is the statement \<open>if (b) c;\<close> and \<open>for_each c xs\<close> is
  \<open>for (const x of xs) c(x);\<close>.\<close>

definition only_if :: "bool \<Rightarrow> 'e + unit \<Rightarrow> 'e + unit" where
  "only_if b c = (if b then c else ok)"

definition for_each :: "('a \<Rightarrow> 'e + unit) \<Rightarrow> 'a list \<Rightarrow> 'e + unit" where
  "for_each c xs = checks (map c xs)"

lemma throw_if_ok [accept_simps]: "returns (throw_if b e) \<longleftrightarrow> \<not> b"
  by (simp add: throw_if_def)

lemma throw_if_Inl: "throw_if b e = Inl e' \<longleftrightarrow> b \<and> e' = e"
  by (auto simp: throw_if_def)

lemma when_ok [accept_simps]: "returns (only_if b c) \<longleftrightarrow> (b \<longrightarrow> returns c)"
  by (simp add: only_if_def)

lemma checks_Nil_ok [accept_simps]: "returns (checks [])"
  by simp

lemma checks_Cons_ok [accept_simps]: "returns (checks (c # cs)) \<longleftrightarrow> returns c \<and> returns (checks cs)"
  by (cases c) (simp_all add: checks.simps)

lemma checks_ok: "returns (checks cs) \<longleftrightarrow> (\<forall>c\<in>set cs. returns c)"
  by (induction cs) (simp_all add: checks_Cons_ok)

lemma for_each_ok [accept_simps]: "returns (for_each c xs) \<longleftrightarrow> (\<forall>x\<in>set xs. returns (c x))"
  by (simp add: for_each_def checks_ok)

lemma checks_append: "checks (cs @ ds) = (case checks cs of Inl e \<Rightarrow> Inl e | Inr _ \<Rightarrow> checks ds)"
  by (induction cs) (auto simp: checks.simps split: sum.split)

text \<open>\<open>thrown_in E r\<close>: whatever \<open>r\<close> throws satisfies \<open>E\<close>.\<close>

definition thrown_in :: "('e \<Rightarrow> bool) \<Rightarrow> 'e + 'a \<Rightarrow> bool" where
  "thrown_in E r \<longleftrightarrow> (case r of Inl e \<Rightarrow> E e | Inr _ \<Rightarrow> True)"

lemma thrown_in_Inl [simp]: "thrown_in E (Inl e) \<longleftrightarrow> E e"
  and thrown_in_Inr [simp]: "thrown_in E (Inr x)"
  by (simp_all add: thrown_in_def)

lemma thrown_inD: "thrown_in E r \<Longrightarrow> r = Inl e \<Longrightarrow> E e"
  by simp

lemma thrown_in_throw_if [fault_intros]: "E e \<Longrightarrow> thrown_in E (throw_if b e)"
  by (simp add: throw_if_def)

lemma thrown_in_when [fault_intros]: "thrown_in E c \<Longrightarrow> thrown_in E (only_if b c)"
  by (simp add: only_if_def)

lemma thrown_in_checks_Nil [fault_intros]: "thrown_in E (checks [])"
  by simp

lemma thrown_in_checks_Cons [fault_intros]:
  "thrown_in E c \<Longrightarrow> thrown_in E (checks cs) \<Longrightarrow> thrown_in E (checks (c # cs))"
  by (cases c) (simp_all add: checks.simps)

lemma thrown_in_checks: "(\<And>c. c \<in> set cs \<Longrightarrow> thrown_in E c) \<Longrightarrow> thrown_in E (checks cs)"
  by (induction cs) (auto intro: thrown_in_checks_Cons)

lemma thrown_in_for_each [fault_intros]:
  "(\<And>x. x \<in> set xs \<Longrightarrow> thrown_in E (c x)) \<Longrightarrow> thrown_in E (for_each c xs)"
  unfolding for_each_def by (rule thrown_in_checks) auto

lemma thrown_in_If [fault_intros]:
  "(b \<Longrightarrow> thrown_in E r) \<Longrightarrow> (\<not> b \<Longrightarrow> thrown_in E s) \<Longrightarrow> thrown_in E (if b then r else s)"
  by simp

text \<open>\<open>bind_res r f\<close> runs \<open>r\<close> and, if it returns, continues with \<open>f\<close> on its value.\<close>

fun bind_res :: "'e + 'a \<Rightarrow> ('a \<Rightarrow> 'e + 'b) \<Rightarrow> 'e + 'b" where
  "bind_res (Inl e) f = Inl e"
| "bind_res (Inr x) f = f x"

lemma bind_res_Inr: "bind_res r f = Inr y \<longleftrightarrow> (\<exists>x. r = Inr x \<and> f x = Inr y)"
  by (cases r) auto

lemma bind_res_Inl: "bind_res r f = Inl e \<longleftrightarrow> r = Inl e \<or> (\<exists>x. r = Inr x \<and> f x = Inl e)"
  by (cases r) auto

lemma bind_res_cong [fundef_cong]:
  "r = s \<Longrightarrow> (\<And>x. s = Inr x \<Longrightarrow> f x = g x) \<Longrightarrow> bind_res r f = bind_res s g"
  by (cases s) auto

section \<open>Lists\<close>

text \<open>The predicate \<open>xs.find\<close> of JavaScript arrays is \<open>List.find\<close>.\<close>

lemma find_None_iff_all: "List.find P xs = None \<longleftrightarrow> (\<forall>x\<in>set xs. \<not> P x)"
  by (auto simp: find_None_iff)

lemma find_SomeD: "List.find P xs = Some x \<Longrightarrow> x \<in> set xs \<and> P x"
  by (auto simp: find_Some_iff)

lemma filter_length_1: "length (filter P xs) = 1 \<Longrightarrow> distinct xs \<Longrightarrow> \<exists>!x. x \<in> set xs \<and> P x"
proof -
  assume "length (filter P xs) = 1" and "distinct xs"
  then obtain y where y: "filter P xs = [y]"
    by (metis One_nat_def length_0_conv length_Suc_conv)
  have "set (filter P xs) = {y}"
    by (simp add: y)
  then show ?thesis
    by (metis (mono_tags, lifting) mem_Collect_eq set_filter singleton_iff)
qed

text \<open>\<open>[...new Set(xs)]\<close>: the first occurrence of each element, in order.\<close>

definition unique :: "'a list \<Rightarrow> 'a list" where
  "unique xs = rev (remdups (rev xs))"

lemma set_unique [simp]: "set (unique xs) = set xs"
  by (simp add: unique_def)

lemma distinct_unique: "distinct (unique xs)"
  by (simp add: unique_def)

end
