(* ===== verification/Js_Values.thy ===== *)
theory Js_Values
  imports Prelude Complex_Main "HOL-Library.Word" "HOL-Library.Log_Nat"
begin

text \<open>
  The JavaScript values the extension handles and the parts of the language and its standard
  library it uses on them: strings of UTF-16 code units, numbers, property reads, truthiness,
  \<open>trim\<close>, digit strings, UTF-8 lengths. Messages arrive as JSON, so a value has no functions
  and no cycles; an object is the list of its own properties in enumeration order.
\<close>

section \<open>Strings\<close>

text \<open>
  A JavaScript string is a sequence of 16-bit code units: \<open>length\<close> counts those, the spread
  \<open>[...s]\<close> counts code points and \<open>TextEncoder\<close> counts UTF-8 bytes. \<open>lit\<close> gives the
  code units of an ASCII literal.
\<close>

type_synonym jsstr = "16 word list"

definition lit :: "string \<Rightarrow> jsstr" where
  "lit s = map of_char s"

lemma unat_of_char: "unat (of_char c :: 16 word) = of_char c"
proof -
  have small: "(of_char c :: nat) < 256"
    by (metis of_char_mod_256 mod_less_divisor zero_less_numeral)
  then have "(of_char c :: nat) < 65536" by (rule less_trans) simp
  then show ?thesis
    by (simp add: of_nat_of_char [symmetric, where 'a = "16 word"] unat_of_nat)
qed

lemma of_char_word_inj: "(of_char c :: 16 word) = of_char d \<longleftrightarrow> c = d"
  by (metis unat_of_char of_char_eq_iff)

lemma lit_eq_iff [simp]: "lit s = lit t \<longleftrightarrow> s = t"
  unfolding lit_def
  by (rule inj_map_eq_map) (simp add: inj_def of_char_word_inj)

lemma lit_Nil [simp]: "lit [] = []"
  and lit_eq_Nil [simp]: "lit s = [] \<longleftrightarrow> s = []"
  and Nil_eq_lit [simp]: "[] = lit s \<longleftrightarrow> s = []"
  and length_lit [simp]: "length (lit s) = length s"
  by (auto simp: lit_def)

lemma lit_Cons: "lit (c # s) = of_char c # lit s"
  by (simp add: lit_def)

text \<open>Code equations that read the code unit of a character off its bits, so that the evaluation of concrete
  strings needs no arithmetic.\<close>

definition bit_num :: "bool \<Rightarrow> num \<Rightarrow> num" where
  "bit_num b n = (if b then num.Bit1 n else num.Bit0 n)"

fun char_int :: "char \<Rightarrow> int" where
  "char_int (Char b0 b1 b2 b3 b4 b5 b6 b7) =
     (if b7 then Int.Pos (bit_num b0 (bit_num b1 (bit_num b2 (bit_num b3 (bit_num b4 (bit_num b5 (bit_num b6 num.One)))))))
      else if b6 then Int.Pos (bit_num b0 (bit_num b1 (bit_num b2 (bit_num b3 (bit_num b4 (bit_num b5 num.One))))))
      else if b5 then Int.Pos (bit_num b0 (bit_num b1 (bit_num b2 (bit_num b3 (bit_num b4 num.One)))))
      else of_bool b0 + 2 * (of_bool b1 + 2 * (of_bool b2 + 2 * (of_bool b3 + 2 * of_bool b4))))"

definition char_unit :: "char \<Rightarrow> 16 word" where
  "char_unit = of_char"

lemma numeral_bit_num: "(numeral (bit_num b n) :: int) = of_bool b + 2 * numeral n"
  by (simp add: bit_num_def)

lemma char_int_of_char: "char_int c = of_char c"
  by (cases c) (simp add: of_char_def Int.Pos_def numeral_bit_num)

lemma char_unit_code [code abstract]: "Word.the_int (char_unit c) = char_int c"
proof -
  have "uint (char_unit c) = int (unat (of_char c :: 16 word))" by (simp add: char_unit_def)
  then show ?thesis by (simp add: unat_of_char char_int_of_char of_nat_of_char)
qed

lemma lit_code [code]: "lit s = map char_unit s"
  by (simp add: lit_def char_unit_def)

text \<open>White space of \<open>trim\<close> and of \<open>\s\<close> in regular expressions: WhiteSpace and
  LineTerminator of the language.\<close>

definition is_space :: "16 word \<Rightarrow> bool" where
  "is_space u \<longleftrightarrow> (9 \<le> u \<and> u \<le> 13) \<or> u = 32 \<or> u = 0xA0 \<or> u = 0x1680 \<or> (0x2000 \<le> u \<and> u \<le> 0x200A)
     \<or> u = 0x2028 \<or> u = 0x2029 \<or> u = 0x202F \<or> u = 0x205F \<or> u = 0x3000 \<or> u = 0xFEFF"

definition trim :: "jsstr \<Rightarrow> jsstr" where
  "trim s = rev (dropWhile is_space (rev (dropWhile is_space s)))"

lemma trim_Nil [simp]: "trim [] = []"
  by (simp add: trim_def)

lemma trim_eq_Nil_iff: "trim s = [] \<longleftrightarrow> (\<forall>u\<in>set s. is_space u)"
proof -
  have "trim s = [] \<longleftrightarrow> (\<forall>u\<in>set (dropWhile is_space s). is_space u)"
    by (simp add: trim_def)
  also have "\<dots> \<longleftrightarrow> (\<forall>u\<in>set s. is_space u)"
    by (induction s) auto
  finally show ?thesis .
qed

text \<open>Trimming a string whose ends are not white space changes nothing.\<close>

lemma trim_id: "s \<noteq> [] \<Longrightarrow> \<not> is_space (hd s) \<Longrightarrow> \<not> is_space (last s) \<Longrightarrow> trim s = s"
  by (simp add: trim_def dropWhile_eq_self_iff [THEN iffD2] hd_rev)

text \<open>ASCII letters and digits, as the classes \<open>[A-Za-z]\<close> and \<open>\d\<close> match them.\<close>

definition is_digit :: "16 word \<Rightarrow> bool" where
  "is_digit u \<longleftrightarrow> 48 \<le> u \<and> u \<le> 57"

definition is_upper :: "16 word \<Rightarrow> bool" where
  "is_upper u \<longleftrightarrow> 65 \<le> u \<and> u \<le> 90"

definition is_lower :: "16 word \<Rightarrow> bool" where
  "is_lower u \<longleftrightarrow> 97 \<le> u \<and> u \<le> 122"

definition is_letter :: "16 word \<Rightarrow> bool" where
  "is_letter u \<longleftrightarrow> is_upper u \<or> is_lower u"

definition is_alnum :: "16 word \<Rightarrow> bool" where
  "is_alnum u \<longleftrightarrow> is_letter u \<or> is_digit u"

lemma digit_not_space: "is_digit u \<Longrightarrow> \<not> is_space u"
  by (auto simp: is_digit_def is_space_def word_le_nat_alt word_unat_eq_iff)

text \<open>Case folding of a code unit for the \<open>i\<close> flag, on the ASCII strings it is used for.\<close>

definition ascii_lower :: "16 word \<Rightarrow> 16 word" where
  "ascii_lower u = (if is_upper u then u + 32 else u)"

text \<open>Digit strings: \<open>/^\d+$/\<close> and the number such a string denotes. \<open>Number\<close> and
  \<open>parseInt\<close> round it to a double; rounding is monotone and every bound the code compares with
  is a double, so the comparisons agree with those on the exact value.\<close>

definition digit_string :: "jsstr \<Rightarrow> bool" where
  "digit_string s \<longleftrightarrow> s \<noteq> [] \<and> list_all is_digit s"

definition dec_value :: "jsstr \<Rightarrow> nat" where
  "dec_value s = foldl (\<lambda>n u. 10 * n + (unat u - 48)) 0 s"

lemma dec_value_snoc: "dec_value (s @ [u]) = 10 * dec_value s + (unat u - 48)"
  by (simp add: dec_value_def)

lemma digit_string_snoc: "digit_string (s @ [u]) \<longleftrightarrow> (s = [] \<or> digit_string s) \<and> is_digit u"
  by (auto simp: digit_string_def)

text \<open>The code unit of a decimal digit.\<close>

definition digit_unit :: "nat \<Rightarrow> 16 word" where
  "digit_unit d = word_of_nat (48 + d)"

lemma unat_digit_unit: "d < 10 \<Longrightarrow> unat (digit_unit d) = 48 + d"
  unfolding digit_unit_def by (simp only: unat_of_nat) simp

lemma is_digit_unit: "d < 10 \<Longrightarrow> is_digit (digit_unit d)"
  by (simp add: is_digit_def word_le_nat_alt unat_digit_unit)

text \<open>The decimal numeral of a natural number, as \<open>String(n)\<close> prints it.\<close>

fun show_nat :: "nat \<Rightarrow> jsstr" where
  "show_nat n = (if n < 10 then [digit_unit n]
                 else show_nat (n div 10) @ [digit_unit (n mod 10)])"

declare show_nat.simps [simp del]

lemma digit_string_show_nat: "digit_string (show_nat n)"
proof (induction n rule: show_nat.induct)
  case (1 n)
  then show ?case
    by (subst show_nat.simps) (simp add: digit_string_snoc is_digit_unit, simp add: digit_string_def is_digit_unit)
qed

lemma digits_show: "u \<in> set (show_nat n) \<Longrightarrow> is_digit u" "show_nat n \<noteq> []"
  using digit_string_show_nat [of n] by (auto simp: digit_string_def list_all_iff)

lemma dec_value_show_nat: "dec_value (show_nat n) = n"
proof (induction n rule: show_nat.induct)
  case (1 n)
  then show ?case
    by (subst show_nat.simps) (simp add: dec_value_snoc unat_digit_unit, simp add: dec_value_def unat_digit_unit)
qed

text \<open>The code points of a string, \<open>[...s]\<close>: a high surrogate followed by a low one is a
  single code point.\<close>

definition is_high_surrogate :: "16 word \<Rightarrow> bool" where
  "is_high_surrogate u \<longleftrightarrow> 0xD800 \<le> u \<and> u \<le> 0xDBFF"

definition is_low_surrogate :: "16 word \<Rightarrow> bool" where
  "is_low_surrogate u \<longleftrightarrow> 0xDC00 \<le> u \<and> u \<le> 0xDFFF"

fun code_points :: "jsstr \<Rightarrow> nat list" where
  "code_points (u # v # s) =
     (if is_high_surrogate u \<and> is_low_surrogate v
      then (0x10000 + (unat u - 0xD800) * 0x400 + (unat v - 0xDC00)) # code_points s
      else unat u # code_points (v # s))"
| "code_points [u] = [unat u]"
| "code_points [] = []"

text \<open>UTF-8 bytes that \<open>TextEncoder\<close> writes for a code point; a lone surrogate is encoded as
  U+FFFD, three bytes, as every other code point of its range is.\<close>

definition utf8_size :: "nat \<Rightarrow> nat" where
  "utf8_size c = (if c < 0x80 then 1 else if c < 0x800 then 2 else if c < 0x10000 then 3 else 4)"

definition utf8_length :: "jsstr \<Rightarrow> nat" where
  "utf8_length s = sum_list (map utf8_size (code_points s))"

lemma length_code_points: "length (code_points s) \<le> length s"
  by (induction s rule: code_points.induct) auto

lemma utf8_length_bounds: "length s \<le> utf8_length s \<and> utf8_length s \<le> 3 * length s"
proof (induction s rule: code_points.induct)
  case (1 u v s)
  show ?case
  proof (cases "is_high_surrogate u \<and> is_low_surrogate v")
    case True
    with "1.IH"(1) show ?thesis
      by (simp add: utf8_length_def) (simp add: utf8_size_def)
  next
    case False
    have "unat u < 0x10000"
      using unsigned_less [of u, where 'a = nat] by simp
    then have "1 \<le> utf8_size (unat u) \<and> utf8_size (unat u) \<le> 3"
      by (simp add: utf8_size_def)
    with False "1.IH"(2) show ?thesis
      by (auto simp: utf8_length_def)
  qed
next
  case (2 u)
  have "unat u < 0x10000"
    using unsigned_less [of u, where 'a = nat] by simp
  then show ?case by (simp add: utf8_length_def utf8_size_def)
qed (simp add: utf8_length_def)

section \<open>Numbers\<close>

text \<open>
  A number is a double: an exact rational, an infinity or NaN (\<open>JSON.parse\<close> yields
  \<open>Infinity\<close> for \<open>1e999\<close>). Comparisons need no rounding. The one sum the modelled code
  forms, and its fractional literals, are rounded by \<open>fl\<close>: to 53 significant bits, ties to even
  (the operands are far from the subnormal and overflow ranges).
\<close>

datatype jsnum = Fin rat | PosInf | NegInf | NaN

fun num_lt :: "jsnum \<Rightarrow> jsnum \<Rightarrow> bool" where
  "num_lt (Fin a) (Fin b) = (a < b)"
| "num_lt (Fin a) PosInf = True"
| "num_lt NegInf (Fin b) = True"
| "num_lt NegInf PosInf = True"
| "num_lt _ _ = False"

definition num_ge :: "jsnum \<Rightarrow> jsnum \<Rightarrow> bool" where
  "num_ge a b \<longleftrightarrow> num_lt b a \<or> (a = b \<and> a \<noteq> NaN)"

definition rat_is_int :: "rat \<Rightarrow> bool" where
  "rat_is_int r \<longleftrightarrow> of_int \<lfloor>r\<rfloor> = r"

lemma rat_is_int_iff: "rat_is_int r \<longleftrightarrow> r \<in> \<int>"
  unfolding rat_is_int_def by (metis Ints_cases Ints_of_int floor_of_int)

definition round_half_even :: "rat \<Rightarrow> int" where
  "round_half_even x =
     (let f = \<lfloor>x\<rfloor>; d = x - of_int f
      in if d < 1/2 then f else if d > 1/2 then f + 1 else if even f then f else f + 1)"

definition binary_exponent :: "rat \<Rightarrow> int" where
  "binary_exponent x =
     (let (n, d) = quotient_of x; e = bitlen n - bitlen d
      in if 2 powi e \<le> x then e else e - 1)"

definition fl :: "rat \<Rightarrow> rat" where
  "fl x = (if x = 0 then 0
           else let u = 2 powi (binary_exponent \<bar>x\<bar> - 52) in of_int (round_half_even (x / u)) * u)"

definition MAX_SAFE_INTEGER :: rat where
  "MAX_SAFE_INTEGER = 9007199254740991"

section \<open>Values\<close>

datatype jsval =
    Undefined
  | Null
  | Bool bool
  | Num jsnum
  | Str jsstr
  | Arr "jsval list"
  | Obj "(jsstr \<times> jsval) list"

abbreviation jstr :: "string \<Rightarrow> jsval" where
  "jstr s \<equiv> Str (lit s)"

abbreviation jnum :: "rat \<Rightarrow> jsval" where
  "jnum r \<equiv> Num (Fin r)"

definition obj :: "(string \<times> jsval) list \<Rightarrow> jsval" where
  "obj ps = Obj (map (\<lambda>(k, v). (lit k, v)) ps)"

text \<open>
  Property reads. \<open>getp v k\<close> is \<open>v.k\<close> for an object and \<open>v?.k\<close> in general: on any other value
  the names the code reads are absent. (\<open>v.k\<close> throws when \<open>v\<close> is null or undefined; the code
  reads such a property only behind a check of \<open>v\<close>, kept in the model.)
\<close>

definition getp :: "jsval \<Rightarrow> string \<Rightarrow> jsval" where
  "getp v k = (case v of Obj ps \<Rightarrow> (case map_of ps (lit k) of None \<Rightarrow> Undefined | Some x \<Rightarrow> x)
                       | _ \<Rightarrow> Undefined)"

definition object_keys :: "jsval \<Rightarrow> jsstr list" where
  "object_keys v = (case v of Obj ps \<Rightarrow> map fst ps | _ \<Rightarrow> [])"

fun truthy :: "jsval \<Rightarrow> bool" where
  "truthy Undefined = False"
| "truthy Null = False"
| "truthy (Bool b) = b"
| "truthy (Num n) = (n \<noteq> Fin 0 \<and> n \<noteq> NaN)"
| "truthy (Str s) = (s \<noteq> [])"
| "truthy (Arr _) = True"
| "truthy (Obj _) = True"

definition nullish :: "jsval \<Rightarrow> bool" where
  "nullish v \<longleftrightarrow> v = Undefined \<or> v = Null"

definition js_or :: "jsval \<Rightarrow> jsval \<Rightarrow> jsval" where
  "js_or v w = (if truthy v then v else w)"

definition is_string :: "jsval \<Rightarrow> bool" where
  "is_string v = (case v of Str _ \<Rightarrow> True | _ \<Rightarrow> False)"

definition is_boolean :: "jsval \<Rightarrow> bool" where
  "is_boolean v = (case v of Bool _ \<Rightarrow> True | _ \<Rightarrow> False)"

definition is_array :: "jsval \<Rightarrow> bool" where
  "is_array v = (case v of Arr _ \<Rightarrow> True | _ \<Rightarrow> False)"

text \<open>\<open>typeof v === "object"\<close>, true of null and of arrays.\<close>

definition typeof_object :: "jsval \<Rightarrow> bool" where
  "typeof_object v = (case v of Null \<Rightarrow> True | Arr _ \<Rightarrow> True | Obj _ \<Rightarrow> True | _ \<Rightarrow> False)"

text \<open>The string and the elements of a value; only used behind \<open>is_string\<close>, \<open>is_array\<close>.\<close>

definition str_of :: "jsval \<Rightarrow> jsstr" where
  "str_of v = (case v of Str s \<Rightarrow> s | _ \<Rightarrow> [])"

definition elems :: "jsval \<Rightarrow> jsval list" where
  "elems v = (case v of Arr vs \<Rightarrow> vs | _ \<Rightarrow> [])"

definition is_finite :: "jsval \<Rightarrow> bool" where
  "is_finite v = (case v of Num (Fin _) \<Rightarrow> True | _ \<Rightarrow> False)"

definition is_integer :: "jsval \<Rightarrow> bool" where
  "is_integer v = (case v of Num (Fin r) \<Rightarrow> rat_is_int r | _ \<Rightarrow> False)"

text \<open>
  Relational operators against a constant. An operand that is not a number stands for the NaN that
  \<open>undefined\<close> converts to; the code compares only numbers and \<open>undefined\<close>.
\<close>

definition num_of :: "jsval \<Rightarrow> jsnum" where
  "num_of v = (case v of Num n \<Rightarrow> n | _ \<Rightarrow> NaN)"

abbreviation less_than :: "jsval \<Rightarrow> rat \<Rightarrow> bool" where
  "less_than v k \<equiv> num_lt (num_of v) (Fin k)"

abbreviation greater_than :: "jsval \<Rightarrow> rat \<Rightarrow> bool" where
  "greater_than v k \<equiv> num_lt (Fin k) (num_of v)"

text \<open>\<open>allowed.includes(v)\<close> for an array of string literals.\<close>

definition js_includes :: "string list \<Rightarrow> jsval \<Rightarrow> bool" where
  "js_includes allowed v \<longleftrightarrow> v \<in> set (map jstr allowed)"

lemma includes_Nil [simp]: "\<not> js_includes [] v"
  and includes_Cons [simp]: "js_includes (a # as) v \<longleftrightarrow> v = jstr a \<or> js_includes as v"
  by (simp_all add: js_includes_def)

lemma includes_iff: "js_includes allowed v \<longleftrightarrow> (\<exists>a\<in>set allowed. v = jstr a)"
  by (auto simp: js_includes_def)

lemma getp_Obj_Nil [simp]: "getp (Obj []) k = Undefined"
  and getp_obj_Nil [simp]: "getp (obj []) k = Undefined"
  and getp_obj_Cons [simp]: "getp (obj ((l, v) # ps)) k = (if k = l then v else getp (obj ps) k)"
  by (simp_all add: getp_def obj_def)

lemma getp_simps [simp]: "getp Undefined k = Undefined" "getp Null k = Undefined"
  "getp (Bool b) k = Undefined" "getp (Num n) k = Undefined" "getp (Str s) k = Undefined"
  "getp (Arr vs) k = Undefined"
  by (simp_all add: getp_def)

lemma object_keys_simps [simp]: "object_keys (Obj ps) = map fst ps" "object_keys Undefined = []"
  "object_keys Null = []" "object_keys (Bool b) = []" "object_keys (Num n) = []"
  "object_keys (Str s) = []" "object_keys (Arr vs) = []"
  by (simp_all add: object_keys_def)

lemma object_keys_obj [simp]: "object_keys (obj ps) = map (lit \<circ> fst) ps"
  by (auto simp: obj_def)

lemma getp_not_key: "lit k \<notin> set (object_keys v) \<Longrightarrow> getp v k = Undefined"
  by (cases v) (simp_all add: getp_def object_keys_def map_of_eq_None_iff [THEN iffD2])

lemma kind_simps [simp]:
  "is_string v \<longleftrightarrow> (\<exists>s. v = Str s)"
  "is_boolean v \<longleftrightarrow> (\<exists>b. v = Bool b)"
  "is_array v \<longleftrightarrow> (\<exists>vs. v = Arr vs)"
  "is_finite v \<longleftrightarrow> (\<exists>r. v = jnum r)"
  by (auto simp: is_string_def is_boolean_def is_array_def is_finite_def split: jsval.splits jsnum.splits)

lemma is_integer_iff: "is_integer v \<longleftrightarrow> (\<exists>i. v = jnum (of_int i))"
  by (auto simp: is_integer_def rat_is_int_def split: jsval.splits jsnum.splits)

lemma projections [simp]: "str_of (Str s) = s" "elems (Arr vs) = vs" "num_of (Num n) = n"
  "num_of Undefined = NaN" "num_of (Str s) = NaN"
  by (simp_all add: str_of_def elems_def num_of_def)

lemma typeof_object_simps [simp]: "typeof_object (Obj ps)" "typeof_object (Arr vs)" "typeof_object Null"
  "\<not> typeof_object Undefined" "\<not> typeof_object (Bool b)" "\<not> typeof_object (Num n)"
  "\<not> typeof_object (Str s)"
  by (simp_all add: typeof_object_def)

text \<open>The check \<open>v && typeof v === "object" && !Array.isArray(v)\<close>.\<close>

lemma plain_object_iff: "truthy v \<and> typeof_object v \<and> \<not> is_array v \<longleftrightarrow> (\<exists>ps. v = Obj ps)"
  by (cases v) auto

text \<open>Strict equality \<open>===\<close>: objects and arrays parsed from different places of a message are
  different objects, and NaN differs from itself.\<close>

fun strict_eq :: "jsval \<Rightarrow> jsval \<Rightarrow> bool" where
  "strict_eq (Num m) (Num n) = (m = n \<and> m \<noteq> NaN)"
| "strict_eq (Arr _) _ = False"
| "strict_eq (Obj _) _ = False"
| "strict_eq v w = (v = w)"

lemma strict_eq_imp_eq: "strict_eq v w \<Longrightarrow> v = w"
  by (cases "(v, w)" rule: strict_eq.cases) auto

lemma strict_eq_Str [simp]: "strict_eq (Str s) w \<longleftrightarrow> w = Str s"
  by (cases w) auto

text \<open>\<open>{ ...v, k: w }\<close>: an own property that is set again keeps its place in the order.\<close>

fun assoc_set :: "'k \<Rightarrow> 'v \<Rightarrow> ('k \<times> 'v) list \<Rightarrow> ('k \<times> 'v) list" where
  "assoc_set k w [] = [(k, w)]"
| "assoc_set k w ((l, v) # ps) = (if k = l then (l, w) # ps else (l, v) # assoc_set k w ps)"

fun assoc_spread :: "('k \<times> 'v) list \<Rightarrow> ('k \<times> 'v) list \<Rightarrow> ('k \<times> 'v) list" where
  "assoc_spread ps [] = ps"
| "assoc_spread ps ((k, w) # qs) = assoc_spread (assoc_set k w ps) qs"

lemma map_of_assoc_set: "map_of (assoc_set k w ps) = (map_of ps)(k \<mapsto> w)"
  by (induction ps) auto

lemma set_assoc_set: "set (map fst (assoc_set k v m)) = insert k (set (map fst m))"
  by (induction k v m rule: assoc_set.induct) auto

lemma distinct_assoc_set: "distinct (map fst m) \<Longrightarrow> distinct (map fst (assoc_set k v m))"
  by (induction k v m rule: assoc_set.induct) (simp_all add: set_assoc_set del: set_map)

lemma assoc_set_subset: "(l, w) \<in> set (assoc_set k v m) \<Longrightarrow> (l, w) \<in> set m \<or> (l, w) = (k, v)"
  by (induction k v m rule: assoc_set.induct) (auto split: if_splits)

lemma map_of_assoc_spread: "map_of (assoc_spread ps qs) = map_of ps ++ map_of (rev qs)"
  by (induction qs arbitrary: ps) (auto simp: map_of_assoc_set map_add_assoc [symmetric])

section \<open>The browser platform\<close>

text \<open>
  What the code calls but does not define: the URL parser (\<open>None\<close> where the constructor throws),
  \<open>Date.parse\<close>, Unicode lower-casing, and the shortest decimal of a number that is not an integer
  below \<open>1e21\<close>. They are parameters of the definitions that use them.
\<close>

record url =
  url_protocol :: jsstr
  url_hostname :: jsstr
  url_username :: jsstr
  url_password :: jsstr
  url_hash :: jsstr
  url_search :: jsstr
  url_pathname :: jsstr
  url_origin :: jsstr
  url_href :: jsstr

record platform =
  parseURL :: "jsval \<Rightarrow> url option"
  dateParse :: "jsstr \<Rightarrow> jsnum"
  toLowerCase :: "jsstr \<Rightarrow> jsstr"
  toLocaleLowerCase :: "jsstr \<Rightarrow> jsstr"
  numberToString :: "rat \<Rightarrow> jsstr"

text \<open>\<open>String(v)\<close>.\<close>

definition string_of_num :: "platform \<Rightarrow> jsnum \<Rightarrow> jsstr" where
  "string_of_num P n =
     (case n of NaN \<Rightarrow> lit ''NaN'' | PosInf \<Rightarrow> lit ''Infinity'' | NegInf \<Rightarrow> lit ''-Infinity''
        | Fin r \<Rightarrow> if rat_is_int r \<and> \<bar>r\<bar> < 10 ^ 21
                   then (if r < 0 then lit ''-'' else []) @ show_nat (nat \<lfloor>\<bar>r\<bar>\<rfloor>)
                   else numberToString P r)"

fun join_with :: "jsstr \<Rightarrow> jsstr list \<Rightarrow> jsstr" where
  "join_with sep [] = []"
| "join_with sep [x] = x"
| "join_with sep (x # y # xs) = x @ sep @ join_with sep (y # xs)"

fun string_of :: "platform \<Rightarrow> jsval \<Rightarrow> jsstr" where
  "string_of P Undefined = lit ''undefined''"
| "string_of P Null = lit ''null''"
| "string_of P (Bool b) = (if b then lit ''true'' else lit ''false'')"
| "string_of P (Num n) = string_of_num P n"
| "string_of P (Str s) = s"
| "string_of P (Arr vs) = join_with (lit '','') (map (\<lambda>v. if nullish v then [] else string_of P v) vs)"
| "string_of P (Obj ps) = lit ''[object Object]''"

text \<open>A platform for closed examples: an ASCII locale and no URLs or dates.\<close>

definition demo_platform :: platform where
  "demo_platform = \<lparr>parseURL = (\<lambda>_. None), dateParse = (\<lambda>_. NaN), toLowerCase = map ascii_lower,
     toLocaleLowerCase = map ascii_lower, numberToString = (\<lambda>_. [])\<rparr>"

end
