(* ===== verification/Protocol.thy ===== *)
theory Protocol
  imports Js_Values
begin

text \<open>
  The wire protocol of the extension (\<open>chrome-extension/src/protocol.js\<close>): the message types and
  error codes, how errors are made, normalised and derived from browser errors, and the validation
  of incoming messages, their targets and their locators.
\<close>

section \<open>Constants and enumerations\<close>

definition PROTOCOL_VERSION :: string where
  "PROTOCOL_VERSION = ''1.0''"

definition MAX_TIMEOUT_MS :: rat where
  "MAX_TIMEOUT_MS = 120000"

definition MAX_LOCATOR_NTH :: rat where
  "MAX_LOCATOR_NTH = 10000"

definition MAX_COORDINATE :: rat where
  "MAX_COORDINATE = 1000000"

datatype MessageType =
    HELLO | WELCOME | AUTH_ERROR | REVOKE | REQUEST | RESPONSE | CANCEL | EVENT | PING | PONG
  | CAPABILITIES_CHANGED

fun message_type_name :: "MessageType \<Rightarrow> string" where
  "message_type_name HELLO = ''hello''"
| "message_type_name WELCOME = ''welcome''"
| "message_type_name AUTH_ERROR = ''auth_error''"
| "message_type_name REVOKE = ''revoke''"
| "message_type_name REQUEST = ''request''"
| "message_type_name RESPONSE = ''response''"
| "message_type_name CANCEL = ''cancel''"
| "message_type_name EVENT = ''event''"
| "message_type_name PING = ''ping''"
| "message_type_name PONG = ''pong''"
| "message_type_name CAPABILITIES_CHANGED = ''capabilities_changed''"

definition message_types :: "MessageType list" where
  "message_types = [HELLO, WELCOME, AUTH_ERROR, REVOKE, REQUEST, RESPONSE, CANCEL, EVENT, PING, PONG,
     CAPABILITIES_CHANGED]"

datatype ErrorCode =
    NO_BROWSER_CONNECTED | AMBIGUOUS_BROWSER | BROWSER_NOT_FOUND | BROWSER_DISCONNECTED
  | WINDOW_NOT_FOUND | TAB_NOT_FOUND | TAB_GROUP_NOT_FOUND | SESSION_NOT_FOUND
  | DOWNLOAD_NOT_FOUND | FRAME_NOT_FOUND | STALE_TARGET | ELEMENT_NOT_FOUND
  | STRICT_MODE_VIOLATION | PERMISSION_REQUIRED | CAPABILITY_UNAVAILABLE | PAIRING_REQUIRED
  | UNSUPPORTED_PROTOCOL_VERSION | INVALID_MESSAGE | INVALID_COMMAND | TIMEOUT | CANCELLED
  | PAYLOAD_TOO_LARGE | RESTRICTED_URL | CONFIRMATION_REQUIRED | BACKPRESSURE | INTERNAL_ERROR

fun error_code_name :: "ErrorCode \<Rightarrow> string" where
  "error_code_name NO_BROWSER_CONNECTED = ''NO_BROWSER_CONNECTED''"
| "error_code_name AMBIGUOUS_BROWSER = ''AMBIGUOUS_BROWSER''"
| "error_code_name BROWSER_NOT_FOUND = ''BROWSER_NOT_FOUND''"
| "error_code_name BROWSER_DISCONNECTED = ''BROWSER_DISCONNECTED''"
| "error_code_name WINDOW_NOT_FOUND = ''WINDOW_NOT_FOUND''"
| "error_code_name TAB_NOT_FOUND = ''TAB_NOT_FOUND''"
| "error_code_name TAB_GROUP_NOT_FOUND = ''TAB_GROUP_NOT_FOUND''"
| "error_code_name SESSION_NOT_FOUND = ''SESSION_NOT_FOUND''"
| "error_code_name DOWNLOAD_NOT_FOUND = ''DOWNLOAD_NOT_FOUND''"
| "error_code_name FRAME_NOT_FOUND = ''FRAME_NOT_FOUND''"
| "error_code_name STALE_TARGET = ''STALE_TARGET''"
| "error_code_name ELEMENT_NOT_FOUND = ''ELEMENT_NOT_FOUND''"
| "error_code_name STRICT_MODE_VIOLATION = ''STRICT_MODE_VIOLATION''"
| "error_code_name PERMISSION_REQUIRED = ''PERMISSION_REQUIRED''"
| "error_code_name CAPABILITY_UNAVAILABLE = ''CAPABILITY_UNAVAILABLE''"
| "error_code_name PAIRING_REQUIRED = ''PAIRING_REQUIRED''"
| "error_code_name UNSUPPORTED_PROTOCOL_VERSION = ''UNSUPPORTED_PROTOCOL_VERSION''"
| "error_code_name INVALID_MESSAGE = ''INVALID_MESSAGE''"
| "error_code_name INVALID_COMMAND = ''INVALID_COMMAND''"
| "error_code_name TIMEOUT = ''TIMEOUT''"
| "error_code_name CANCELLED = ''CANCELLED''"
| "error_code_name PAYLOAD_TOO_LARGE = ''PAYLOAD_TOO_LARGE''"
| "error_code_name RESTRICTED_URL = ''RESTRICTED_URL''"
| "error_code_name CONFIRMATION_REQUIRED = ''CONFIRMATION_REQUIRED''"
| "error_code_name BACKPRESSURE = ''BACKPRESSURE''"
| "error_code_name INTERNAL_ERROR = ''INTERNAL_ERROR''"

lemma error_code_name_inj: "error_code_name c = error_code_name d \<longleftrightarrow> c = d"
  by (cases c; cases d) simp_all

lemma error_code_name_not_Nil [simp]: "error_code_name c \<noteq> []"
  by (cases c) simp_all

section \<open>Errors\<close>

text \<open>
  An error message is a template: fixed text and substituted values (\<open>`${path} ...`\<close>).
  \<open>render\<close> gives the string. What a function throws is a protocol error or a value thrown by the
  platform or the language (a \<open>TypeError\<close>, a \<open>DOMException\<close>), seen through its properties.
\<close>

datatype msg_part = Txt string | Val jsval

type_synonym msg = "msg_part list"

fun render :: "platform \<Rightarrow> msg \<Rightarrow> jsstr" where
  "render P [] = []"
| "render P (Txt s # m) = lit s @ render P m"
| "render P (Val v # m) = string_of P v @ render P m"

record perror =
  err_code :: ErrorCode
  err_message :: msg
  err_retryable :: bool
  err_details :: jsval

datatype exn = ProtocolError perror | ForeignError jsval

type_synonym 'a res = "exn + 'a"

definition protocolError :: "ErrorCode \<Rightarrow> msg \<Rightarrow> bool \<Rightarrow> jsval \<Rightarrow> exn" where
  "protocolError code message retryable details =
     ProtocolError \<lparr>err_code = code, err_message = message, err_retryable = retryable,
       err_details = details\<rparr>"

abbreviation fault :: "ErrorCode \<Rightarrow> msg \<Rightarrow> exn" where
  "fault code message \<equiv> protocolError code message False Undefined"

abbreviation invalid :: "string \<Rightarrow> exn" where
  "invalid message \<equiv> fault INVALID_MESSAGE [Txt message]"

definition exn_code :: "exn \<Rightarrow> ErrorCode option" where
  "exn_code e = (case e of ProtocolError p \<Rightarrow> Some (err_code p) | ForeignError _ \<Rightarrow> None)"

lemma exn_code_protocolError [simp]: "exn_code (protocolError c m r d) = Some c"
  by (simp add: exn_code_def protocolError_def)

text \<open>The properties of an error that other code reads.\<close>

definition error_value :: "platform \<Rightarrow> exn \<Rightarrow> jsval" where
  "error_value P e =
     (case e of ProtocolError p \<Rightarrow>
        obj [(''message'', Str (render P (err_message p))),
             (''code'', jstr (error_code_name (err_code p))),
             (''retryable'', Bool (err_retryable p)), (''details'', err_details p)]
      | ForeignError v \<Rightarrow> v)"

definition normalizeError :: "platform \<Rightarrow> exn \<Rightarrow> jsval \<Rightarrow> jsval" where
  "normalizeError P e context =
     (let error = error_value P e;
          requestId = js_or (getp error ''requestId'') (getp context ''requestId'');
          target = js_or (getp error ''target'') (getp context ''target'')
      in obj ([(''code'', js_or (getp error ''code'') (jstr (error_code_name INTERNAL_ERROR))),
               (''message'', js_or (getp error ''message'') (jstr ''An unexpected extension error occurred'')),
               (''retryable'', Bool (truthy (getp error ''retryable'')))]
              @ (if truthy requestId then [(''requestId'', requestId)] else [])
              @ (if truthy target then [(''target'', target)] else [])
              @ (if truthy (getp error ''details'') then [(''details'', getp error ''details'')] else [])))"

definition mapChromeError :: "platform \<Rightarrow> exn \<Rightarrow> exn" where
  "mapChromeError P e =
     (let error = error_value P e;
          message = toLowerCase P (string_of P (js_or (getp error ''message'') (js_or error (Str []))));
          mentions = (\<lambda>s. sublist (lit s) message)
      in if mentions ''no window with id'' \<or> mentions ''invalid window id'' then
           protocolError WINDOW_NOT_FOUND [Txt ''The target window is no longer available''] True Undefined
         else if mentions ''no frame with id'' \<or> mentions ''frame was removed'' then
           protocolError FRAME_NOT_FOUND [Txt ''The target frame is no longer available''] True Undefined
         else if mentions ''no tab with id'' \<or> mentions ''invalid tab id'' \<or> mentions ''tab was closed'' then
           protocolError TAB_NOT_FOUND [Txt ''The target tab is no longer available''] True Undefined
         else if mentions ''no group with id'' \<or> mentions ''tab group not found'' then
           protocolError TAB_GROUP_NOT_FOUND [Txt ''The target tab group is no longer available''] True Undefined
         else if mentions ''session'' \<and> (mentions ''not found'' \<or> mentions ''could not restore'') then
           protocolError SESSION_NOT_FOUND [Txt ''The recently closed session is no longer available''] True Undefined
         else if mentions ''chrome://'' \<or> mentions ''edge://''
                 \<or> mentions ''extensions gallery cannot be scripted'' then
           fault RESTRICTED_URL [Txt ''The browser does not allow access to this page'']
         else if mentions ''missing host permission'' \<or> mentions ''cannot access contents of url''
                 \<or> mentions ''permission is required'' \<or> mentions ''requires permission'' then
           fault PERMISSION_REQUIRED
             [Txt ''Website access is required. Grant it from the extension popup.'']
         else fault INTERNAL_ERROR [Txt ''A browser API operation failed''])"

section \<open>Messages\<close>

definition createMessage :: "jsstr \<Rightarrow> MessageType \<Rightarrow> (jsstr \<times> jsval) list \<Rightarrow> jsval" where
  "createMessage now type given =
     Obj (assoc_set (lit ''timestamp'') (Str now)
       (assoc_spread [(lit ''protocolVersion'', jstr PROTOCOL_VERSION),
                      (lit ''type'', jstr (message_type_name type))] given))"

definition stripBrackets :: "jsstr \<Rightarrow> jsstr" where
  "stripBrackets h =
     (let h' = (if h \<noteq> [] \<and> hd h = 0x5B then tl h else h)
      in if h' \<noteq> [] \<and> last h' = 0x5D then butlast h' else h')"

definition validateServerEndpoint :: "platform \<Rightarrow> jsval \<Rightarrow> jsstr res" where
  "validateServerEndpoint P value =
     (case parseURL P value of
        None \<Rightarrow> Inl (invalid ''Server endpoint is not a valid URL'')
      | Some endpoint \<Rightarrow>
          if url_protocol endpoint \<noteq> lit ''ws:'' \<and> url_protocol endpoint \<noteq> lit ''wss:'' then
            Inl (invalid ''Server endpoint must use ws:// or wss://'')
          else
            let host = map ascii_lower (stripBrackets (url_hostname endpoint))
            in if host \<noteq> lit ''localhost'' \<and> host \<noteq> lit ''127.0.0.1'' \<and> host \<noteq> lit ''::1'' then
                 Inl (fault RESTRICTED_URL
                   [Txt ''The first release only allows loopback WebSocket endpoints''])
               else Inr (url_href endpoint))"

definition normalizePairingCode :: "platform \<Rightarrow> jsval \<Rightarrow> jsstr res" where
  "normalizePairingCode P value =
     (let digits = filter (\<lambda>u. \<not> is_space u \<and> u \<noteq> 0x2D) (string_of P (js_or value (Str [])))
      in if \<not> (length digits = 8 \<and> list_all is_digit digits) then
           Inl (invalid ''Pairing code must contain eight digits'')
         else Inr (take 4 digits @ lit ''-'' @ drop 4 digits))"

definition isNonEmptyString :: "jsval \<Rightarrow> bool" where
  "isNonEmptyString value \<longleftrightarrow> is_string value \<and> trim (str_of value) \<noteq> []"

definition isValidCoordinate :: "jsval \<Rightarrow> bool" where
  "isValidCoordinate value \<longleftrightarrow>
     is_finite value \<and> \<not> less_than value 0 \<and> \<not> greater_than value MAX_COORDINATE"

section \<open>Targets\<close>

definition validateTarget :: "jsval \<Rightarrow> jsstr \<Rightarrow> unit res" where
  "validateTarget target browserId =
     (if nullish target then ok
      else checks [
        throw_if (\<not> typeof_object target \<or> is_array target) (invalid ''target must be an object''),
        throw_if (\<not> truthy (getp target ''browserId'') \<or> getp target ''browserId'' \<noteq> Str browserId)
          (invalid ''target.browserId must match the resolved browser''),
        for_each (\<lambda>field.
            throw_if (getp target field \<noteq> Undefined
                \<and> (\<not> is_integer (getp target field) \<or> less_than (getp target field) 0))
              (invalid (''target.'' @ field @ '' must not be negative'')))
          [''windowId'', ''tabId'', ''frameId''],
        throw_if (getp target ''tabId'' = Undefined
            \<and> (getp target ''frameId'' \<noteq> Undefined \<or> getp target ''documentId'' \<noteq> Undefined))
          (invalid ''target.frameId and documentId require tabId''),
        throw_if (getp target ''documentId'' \<noteq> Undefined \<and> \<not> isNonEmptyString (getp target ''documentId''))
          (invalid ''target.documentId must not be empty'')])"

section \<open>Locators\<close>

definition assertFreshDocument :: "jsval \<Rightarrow> jsval \<Rightarrow> unit res" where
  "assertFreshDocument expectedDocumentId actualDocumentId =
     (if truthy expectedDocumentId \<and> strict_eq expectedDocumentId actualDocumentId then ok
      else Inl (protocolError STALE_TARGET [Txt ''The referenced document is no longer current''] False
             (obj [(''expectedDocumentId'', expectedDocumentId)])))"

definition validateCoordinates :: "jsval \<Rightarrow> unit res" where
  "validateCoordinates coordinates = checks [
     throw_if (\<not> truthy coordinates \<or> \<not> typeof_object coordinates \<or> is_array coordinates)
       (invalid ''locator.coordinates must be an object''),
     throw_if (\<not> list_all isValidCoordinate [getp coordinates ''x'', getp coordinates ''y''])
       (fault INVALID_MESSAGE [Txt ''locator coordinates must be between 0 and '', Val (jnum MAX_COORDINATE)])]"

definition validateElementReference :: "jsval \<Rightarrow> unit res" where
  "validateElementReference reference =
     throw_if (\<not> truthy reference \<or> \<not> typeof_object reference
         \<or> \<not> isNonEmptyString (getp reference ''elementId'')
         \<or> \<not> isNonEmptyString (getp reference ''documentId''))
       (invalid ''element reference requires elementId and documentId'')"

definition strategyFields :: "string list" where
  "strategyFields = [''css'', ''xpath'', ''text'', ''role'', ''label'', ''placeholder'', ''alt'', ''title'',
     ''testId'']"

definition locatorFields :: "string list" where
  "locatorFields = strategyFields @ [''name'', ''coordinates'', ''element'', ''nth'', ''strict'',
     ''includeShadowDOM'']"

text \<open>The number of primary strategies a locator names.\<close>

definition strategyCount :: "jsval \<Rightarrow> nat" where
  "strategyCount locator =
     length (filter (\<lambda>field. isNonEmptyString (getp locator field)) strategyFields)
     + (if getp locator ''coordinates'' \<noteq> Undefined then 1 else 0)
     + (if getp locator ''element'' \<noteq> Undefined then 1 else 0)"

text \<open>\<open>Object.keys(v).find((k) => !allowed.has(k))\<close>, and the throw that follows only if the name
  found is truthy: the empty name is not.\<close>

definition unexpectedProperty :: "string list \<Rightarrow> jsval \<Rightarrow> jsstr option" where
  "unexpectedProperty allowed v = List.find (\<lambda>k. k \<notin> set (map lit allowed)) (object_keys v)"

definition throw_unexpected :: "string \<Rightarrow> string list \<Rightarrow> jsval \<Rightarrow> unit res" where
  "throw_unexpected text allowed v =
     (case unexpectedProperty allowed v of
        None \<Rightarrow> ok
      | Some k \<Rightarrow> throw_if (k \<noteq> []) (fault INVALID_MESSAGE [Txt text, Val (Str k), Txt [CHR 0x22]]))"

definition validateLocator :: "jsval \<Rightarrow> jsval \<Rightarrow> unit res" where
  "validateLocator locator target = checks [
     throw_if (\<not> truthy locator \<or> \<not> typeof_object locator \<or> is_array locator)
       (invalid ''locator is required''),
     throw_unexpected (''Unexpected locator property '' @ [CHR 0x22]) locatorFields locator,
     for_each (\<lambda>field.
         throw_if (getp locator field \<noteq> Undefined \<and> \<not> isNonEmptyString (getp locator field))
           (invalid (''locator.'' @ field @ '' must not be empty''))) strategyFields,
     throw_if (strategyCount locator \<noteq> 1) (invalid ''locator must contain exactly one primary strategy''),
     throw_if (getp locator ''name'' \<noteq> Undefined \<and> \<not> isNonEmptyString (getp locator ''name''))
       (invalid ''locator.name must not be empty''),
     throw_if (isNonEmptyString (getp locator ''name'') \<and> \<not> isNonEmptyString (getp locator ''role''))
       (invalid ''locator.name requires locator.role''),
     throw_if (getp locator ''nth'' \<noteq> Undefined
         \<and> (\<not> is_integer (getp locator ''nth'') \<or> less_than (getp locator ''nth'') 0
            \<or> greater_than (getp locator ''nth'') MAX_LOCATOR_NTH))
       (fault INVALID_MESSAGE [Txt ''locator.nth must be between 0 and '', Val (jnum MAX_LOCATOR_NTH)]),
     throw_if (getp locator ''strict'' \<noteq> Undefined \<and> \<not> is_boolean (getp locator ''strict''))
       (invalid ''locator.strict must be a boolean''),
     throw_if (getp locator ''includeShadowDOM'' \<noteq> Undefined
         \<and> \<not> is_boolean (getp locator ''includeShadowDOM''))
       (invalid ''locator.includeShadowDOM must be a boolean''),
     only_if (getp locator ''coordinates'' \<noteq> Undefined) (validateCoordinates (getp locator ''coordinates'')),
     only_if (getp locator ''element'' \<noteq> Undefined) (checks [
       validateElementReference (getp locator ''element''),
       only_if (truthy (getp target ''documentId''))
         (assertFreshDocument (getp (getp locator ''element'') ''documentId'') (getp target ''documentId''))])]"

section \<open>Incoming messages\<close>

definition validateIncomingMessage :: "jsval \<Rightarrow> jsstr \<Rightarrow> unit res" where
  "validateIncomingMessage message browserId = checks [
     throw_if (\<not> truthy message \<or> \<not> typeof_object message) (invalid ''Message must be an object''),
     throw_if (getp message ''protocolVersion'' \<noteq> jstr PROTOCOL_VERSION)
       (fault INVALID_MESSAGE [Txt (''Unsupported protocol version '' @ [CHR 0x22]),
          Val (getp message ''protocolVersion''), Txt [CHR 0x22]]),
     throw_if (\<not> js_includes (map message_type_name message_types) (getp message ''type''))
       (fault INVALID_MESSAGE [Txt (''Unknown message type '' @ [CHR 0x22]), Val (getp message ''type''),
          Txt [CHR 0x22]]),
     throw_if (truthy (getp message ''browserId'') \<and> getp message ''browserId'' \<noteq> Str browserId)
       (invalid ''Message targets another browser instance''),
     throw_if (getp message ''timeoutMs'' \<noteq> Undefined
         \<and> (\<not> is_integer (getp message ''timeoutMs'') \<or> less_than (getp message ''timeoutMs'') 1
            \<or> greater_than (getp message ''timeoutMs'') MAX_TIMEOUT_MS))
       (fault INVALID_MESSAGE [Txt ''timeoutMs must be between 1 and '', Val (jnum MAX_TIMEOUT_MS)]),
     validateTarget (getp message ''target'') browserId,
     validateTarget (getp (getp message ''error'') ''target'') browserId,
     only_if (getp (getp message ''params'') ''locator'' \<noteq> Undefined)
       (validateLocator (getp (getp message ''params'') ''locator'') (getp message ''target''))]"



section \<open>What the checks of this file throw\<close>

text \<open>The faults of the caller: protocol errors that a retry cannot cure.\<close>

definition caller_fault :: "exn \<Rightarrow> bool" where
  "caller_fault e \<longleftrightarrow> (\<exists>c m d. e = protocolError c m False d
     \<and> c \<in> {INVALID_MESSAGE, INVALID_COMMAND, CONFIRMATION_REQUIRED, STALE_TARGET})"

lemma caller_fault_protocolError [fault_intros]:
  "c \<in> {INVALID_MESSAGE, INVALID_COMMAND, CONFIRMATION_REQUIRED, STALE_TARGET} \<Longrightarrow>
   caller_fault (protocolError c m False d)"
  by (auto simp: caller_fault_def)

lemma throw_unexpected_fault [fault_intros]: "thrown_in caller_fault (throw_unexpected text allowed v)"
  unfolding throw_unexpected_def
  by (cases "unexpectedProperty allowed v") (auto intro!: fault_intros)

lemma throw_unexpected_ok [accept_simps]:
  "returns (throw_unexpected text allowed v) \<longleftrightarrow> unexpectedProperty allowed v \<in> {None, Some []}"
  by (cases "unexpectedProperty allowed v") (auto simp: throw_unexpected_def throw_if_def)

text \<open>Without an empty property name, the guard admits exactly the allowed names.\<close>

lemma throw_unexpected_closed:
  "returns (throw_unexpected text allowed v) \<Longrightarrow> [] \<notin> set (object_keys v) \<Longrightarrow>
   set (object_keys v) \<subseteq> set (map lit allowed)"
  by (auto simp: throw_unexpected_ok unexpectedProperty_def find_None_iff_all dest!: find_SomeD)

lemma assertFreshDocument_ok [accept_simps]:
  "returns (assertFreshDocument a b) \<longleftrightarrow> truthy a \<and> strict_eq a b"
  by (simp add: assertFreshDocument_def)

lemma assertFreshDocument_fault [fault_intros]: "thrown_in caller_fault (assertFreshDocument a b)"
  by (auto simp: assertFreshDocument_def intro!: fault_intros)

lemma validateCoordinates_fault [fault_intros]: "thrown_in caller_fault (validateCoordinates c)"
  unfolding validateCoordinates_def by (intro fault_intros) simp_all

lemma validateElementReference_fault [fault_intros]: "thrown_in caller_fault (validateElementReference r)"
  unfolding validateElementReference_def by (intro fault_intros) simp_all

lemma validateLocator_fault [fault_intros]: "thrown_in caller_fault (validateLocator l t)"
  unfolding validateLocator_def by (intro fault_intros) simp_all

lemma validateTarget_fault [fault_intros]: "thrown_in caller_fault (validateTarget t b)"
  unfolding validateTarget_def by (intro fault_intros) simp_all

lemma validateIncomingMessage_fault [fault_intros]: "thrown_in caller_fault (validateIncomingMessage m b)"
  unfolding validateIncomingMessage_def by (intro fault_intros) simp_all

lemma isNonEmptyString_iff: "isNonEmptyString v \<longleftrightarrow> (\<exists>s. v = Str s \<and> trim s \<noteq> [])"
  by (auto simp: isNonEmptyString_def)

lemma isNonEmptyString_Undefined [simp]: "\<not> isNonEmptyString Undefined"
  by (simp add: isNonEmptyString_def)

lemma isNonEmptyString_truthy: "isNonEmptyString v \<Longrightarrow> truthy v"
  by (auto simp: isNonEmptyString_iff)

lemmas validateLocator_accept =
  validateLocator_def validateCoordinates_def validateElementReference_def

text \<open>All strategies a locator may name.\<close>

definition locatorStrategies :: "string list" where
  "locatorStrategies = strategyFields @ [''coordinates'', ''element'']"

lemma strategyCount_filter:
  assumes "\<forall>f\<in>set strategyFields. getp l f \<noteq> Undefined \<longrightarrow> isNonEmptyString (getp l f)"
  shows "strategyCount l = length (filter (\<lambda>f. getp l f \<noteq> Undefined) locatorStrategies)"
proof -
  have "filter (\<lambda>f. isNonEmptyString (getp l f)) strategyFields
      = filter (\<lambda>f. getp l f \<noteq> Undefined) strategyFields"
    using assms by (auto intro!: filter_cong)
  then show ?thesis
    by (simp add: strategyCount_def locatorStrategies_def)
qed

lemma distinct_locatorStrategies: "distinct locatorStrategies"
  by (simp add: locatorStrategies_def strategyFields_def)

lemma locator_one_strategy:
  assumes "returns (validateLocator l t)"
  shows "\<exists>!f. f \<in> set locatorStrategies \<and> getp l f \<noteq> Undefined"
proof -
  have 1: "\<forall>f\<in>set strategyFields. getp l f \<noteq> Undefined \<longrightarrow> isNonEmptyString (getp l f)"
    and 2: "strategyCount l = 1"
    using assms by (auto simp: validateLocator_def accept_simps)
  from 2 have "length (filter (\<lambda>f. getp l f \<noteq> Undefined) locatorStrategies) = 1"
    by (simp only: strategyCount_filter [OF 1])
  then show ?thesis
    by (rule filter_length_1) (rule distinct_locatorStrategies)
qed

lemma locator_name_role:
  assumes "returns (validateLocator l t)" and "getp l ''name'' \<noteq> Undefined"
  shows "isNonEmptyString (getp l ''role'')"
  using assms by (auto simp: validateLocator_def accept_simps)

lemma locator_element_fresh:
  assumes "returns (validateLocator l t)" and "getp l ''element'' \<noteq> Undefined" and "truthy (getp t ''documentId'')"
  shows "getp (getp l ''element'') ''documentId'' = getp t ''documentId''"
  using assms by (auto simp: validateLocator_def accept_simps dest: strict_eq_imp_eq)

lemma locator_keys_closed:
  assumes "returns (validateLocator l t)" and "[] \<notin> set (object_keys l)"
  shows "set (object_keys l) \<subseteq> set (map lit locatorFields)"
proof -
  from assms(1) obtain pre where "returns (throw_unexpected pre locatorFields l)"
    unfolding validateLocator_def checks_Cons_ok by blast
  then show ?thesis using assms(2) by (rule throw_unexpected_closed)
qed

lemma target_own_browser:
  "returns (validateTarget t b) \<Longrightarrow> \<not> nullish t \<Longrightarrow> getp t ''browserId'' = Str b"
  by (auto simp: validateTarget_def accept_simps split: if_splits)

lemma target_ids:
  assumes "returns (validateTarget t b)" and "f \<in> {''windowId'', ''tabId'', ''frameId''}"
    and "getp t f \<noteq> Undefined"
  shows "\<exists>n. getp t f = jnum (of_nat n)"
proof -
  from assms(3) have "\<not> nullish t"
    by (auto simp: nullish_def)
  with assms have "is_integer (getp t f) \<and> \<not> less_than (getp t f) 0"
    by (auto simp: validateTarget_def accept_simps)
  then obtain i where "getp t f = jnum (of_int i)" and "0 \<le> i"
    by (auto simp: is_integer_iff)
  then show ?thesis
    by (metis nonneg_int_cases of_int_of_nat_eq)
qed

lemma filter_trivial_digits: "list_all is_digit ds \<Longrightarrow>
    filter (\<lambda>u. \<not> is_space u \<and> u \<noteq> 0x2D) ds = ds"
  by (induction ds) (auto simp: digit_not_space, auto simp: is_digit_def)

definition gone_codes :: "ErrorCode set" where
  "gone_codes = {WINDOW_NOT_FOUND, FRAME_NOT_FOUND, TAB_NOT_FOUND, TAB_GROUP_NOT_FOUND, SESSION_NOT_FOUND}"

definition browser_fault :: "exn \<Rightarrow> bool" where
  "browser_fault e \<longleftrightarrow> (\<exists>c t.
     e = protocolError c [Txt t] (c \<in> gone_codes) Undefined
     \<and> c \<in> gone_codes \<union> {RESTRICTED_URL, PERMISSION_REQUIRED, INTERNAL_ERROR})"

lemma browser_faultI:
  "c \<in> gone_codes \<Longrightarrow> browser_fault (protocolError c [Txt t] True Undefined)"
  "c \<in> {RESTRICTED_URL, PERMISSION_REQUIRED, INTERNAL_ERROR} \<Longrightarrow>
   browser_fault (protocolError c [Txt t] False Undefined)"
  unfolding browser_fault_def
  by (rule exI [of _ c], rule exI [of _ t], simp) (rule exI [of _ c], rule exI [of _ t], auto simp: gone_codes_def)

lemma browser_fault_If: "browser_fault x \<Longrightarrow> browser_fault y \<Longrightarrow> browser_fault (if b then x else y)"
  by simp

lemma getp_obj_append: "getp (obj (ps @ qs)) k = (if k \<in> set (map fst ps) then getp (obj ps) k else getp (obj qs) k)"
  by (induction ps) (auto simp del: set_map)

section \<open>Properties\<close>

text \<open>C35: an accepted locator names exactly one primary strategy; an accessible name comes only with
  a role; and an element reference is of the document the target addresses.\<close>

theorem locator_sound:
  assumes "returns (validateLocator l t)"
  shows "(\<exists>!f. f \<in> set locatorStrategies \<and> getp l f \<noteq> Undefined)
    \<and> (getp l ''name'' \<noteq> Undefined \<longrightarrow> isNonEmptyString (getp l ''role''))
    \<and> (getp l ''element'' \<noteq> Undefined \<and> truthy (getp t ''documentId'') \<longrightarrow>
        getp (getp l ''element'') ''documentId'' = getp t ''documentId'')"
  using assms locator_one_strategy locator_name_role locator_element_fresh by blast

theorem locator_sound_witness:
  "(\<exists>!f. f \<in> set locatorStrategies
      \<and> getp (obj [(''role'', jstr ''button''), (''name'', jstr ''OK'')]) f \<noteq> Undefined)"
proof -
  have "returns (validateLocator (obj [(''role'', jstr ''button''), (''name'', jstr ''OK'')]) Undefined)"
    by code_simp
  from locator_sound [OF this] show ?thesis by blast
qed

text \<open>C36: No message is accepted by two browsers unless it addresses none: it carries no browser id,
  no target and no error target.\<close>

theorem incoming_one_browser:
  assumes "returns (validateIncomingMessage m a)" and "returns (validateIncomingMessage m b)" and "a \<noteq> b"
  shows "\<not> truthy (getp m ''browserId'') \<and> nullish (getp m ''target'')
    \<and> nullish (getp (getp m ''error'') ''target'')"
proof -
  have "returns (validateTarget (getp m ''target'') c)
      \<and> returns (validateTarget (getp (getp m ''error'') ''target'') c)
      \<and> (truthy (getp m ''browserId'') \<longrightarrow> getp m ''browserId'' = Str c)"
    if "returns (validateIncomingMessage m c)" for c
    using that by (auto simp: validateIncomingMessage_def accept_simps)
  note this [OF assms(1)] this [OF assms(2)]
  then show ?thesis
    using target_own_browser assms(3) by (metis jsval.inject(3))
qed

theorem incoming_one_browser_witness:
  "nullish (getp (obj [(''protocolVersion'', jstr ''1.0''), (''type'', jstr ''ping'')]) ''target'')"
proof -
  let ?m = "obj [(''protocolVersion'', jstr ''1.0''), (''type'', jstr ''ping'')]"
  have "returns (validateIncomingMessage ?m (lit ''a''))" "returns (validateIncomingMessage ?m (lit ''b''))"
    by code_simp+
  from incoming_one_browser [OF this] show ?thesis by simp
qed

text \<open>C38: A pairing code that is accepted is the eight digits of the input, in order, as \<open>dddd-dddd\<close>;
  and the normal form is a fixed point of the normalisation.\<close>

theorem pairing_code_canonical:
  assumes "normalizePairingCode P v = Inr c"
  shows "\<exists>ds. length ds = 8 \<and> list_all is_digit ds \<and> c = take 4 ds @ lit ''-'' @ drop 4 ds
    \<and> ds = filter (\<lambda>u. \<not> is_space u \<and> u \<noteq> 0x2D) (string_of P (js_or v (Str [])))
    \<and> normalizePairingCode P (Str c) = Inr c"
proof -
  let ?f = "filter (\<lambda>u. \<not> is_space u \<and> u \<noteq> 0x2D)"
  define ds where "ds = ?f (string_of P (js_or v (Str [])))"
  have ds: "length ds = 8" "list_all is_digit ds" and c: "c = take 4 ds @ lit ''-'' @ drop 4 ds"
    using assms by (auto simp: normalizePairingCode_def ds_def Let_def split: if_splits)
  have "list_all is_digit (take 4 ds)" "list_all is_digit (drop 4 ds)"
    using ds(2) by (auto simp: list_all_iff dest: in_set_takeD in_set_dropD)
  then have "?f c = ds"
    by (simp add: c filter_trivial_digits lit_Cons)
  moreover have "c \<noteq> []"
    by (simp add: c)
  ultimately have "normalizePairingCode P (Str c) = Inr c"
    using ds c by (simp add: normalizePairingCode_def js_or_def Let_def)
  with ds c ds_def show ?thesis by blast
qed

theorem pairing_code_canonical_witness:
  "normalizePairingCode demo_platform (jstr ''1234-5678'') = Inr (lit ''1234-5678'')"
proof -
  have "normalizePairingCode demo_platform (jstr '' 12 34-5678'') = Inr (lit ''1234-5678'')"
    by code_simp
  from pairing_code_canonical [OF this] show ?thesis by blast
qed

text \<open>Every error made from a browser failure is one of eight codes, is retryable exactly when
  the addressed object is gone, and its message is fixed text: nothing of the browser's own error
  text, which may quote the page, reaches the server.\<close>

theorem chrome_error_shape: "browser_fault (mapChromeError P e)"
  unfolding mapChromeError_def Let_def by (intro browser_fault_If browser_faultI) (simp_all add: gone_codes_def)

text \<open>A protocol error survives normalisation: code, message, retryability and details are those
  of the error, request id and target those of the context.\<close>

theorem normalize_protocol_error:
  fixes c :: ErrorCode and retry :: bool and d ctx :: jsval
  assumes "truthy (Str (render P m))"
  defines "r \<equiv> normalizeError P (protocolError c m retry d) ctx"
  shows "getp r ''code'' = jstr (error_code_name c) \<and> getp r ''message'' = Str (render P m)
    \<and> getp r ''retryable'' = Bool retry
    \<and> getp r ''details'' = (if truthy d then d else Undefined)
    \<and> getp r ''requestId'' = (if truthy (getp ctx ''requestId'') then getp ctx ''requestId'' else Undefined)
    \<and> getp r ''target'' = (if truthy (getp ctx ''target'') then getp ctx ''target'' else Undefined)"
  using assms(1)
  by (simp add: r_def normalizeError_def error_value_def protocolError_def Let_def js_or_def getp_obj_append)

theorem normalize_protocol_error_witness:
  "getp (normalizeError demo_platform (protocolError CANCELLED [Txt ''Command was cancelled''] True Undefined)
     (obj [(''requestId'', jstr ''r1'')])) ''requestId'' = jstr ''r1''"
  using normalize_protocol_error [of demo_platform "[Txt ''Command was cancelled'']" CANCELLED True Undefined
      "obj [(''requestId'', jstr ''r1'')]"]
  by simp

text \<open>Whatever is thrown, also by the platform, the normalised error has a code, a message and a
  boolean retry flag.\<close>

theorem normalize_foreign_error:
  "truthy (getp (normalizeError P e ctx) ''code'') \<and> truthy (getp (normalizeError P e ctx) ''message'')
   \<and> (\<exists>b. getp (normalizeError P e ctx) ''retryable'' = Bool b)"
  by (simp add: normalizeError_def Let_def js_or_def)


text \<open>The endpoint the extension connects to is a WebSocket URL on the loopback host.\<close>

theorem endpoint_loopback:
  assumes "validateServerEndpoint P v = Inr s"
  shows "\<exists>u. parseURL P v = Some u \<and> s = url_href u \<and> url_protocol u \<in> {lit ''ws:'', lit ''wss:''}
    \<and> map ascii_lower (stripBrackets (url_hostname u)) \<in> {lit ''localhost'', lit ''127.0.0.1'', lit ''::1''}"
  using assms
  by (auto simp: validateServerEndpoint_def Let_def split: option.splits if_splits)

theorem endpoint_loopback_witness:
  "map ascii_lower (stripBrackets (lit ''LOCALHOST'')) \<in> {lit ''localhost'', lit ''127.0.0.1'', lit ''::1''}"
proof -
  let ?u = "\<lparr>url_protocol = lit ''ws:'', url_hostname = lit ''LOCALHOST'', url_username = [], url_password = [],
    url_hash = [], url_search = [], url_pathname = lit ''/'', url_origin = lit ''ws://localhost'',
    url_href = lit ''ws://localhost/''\<rparr>"
  have "validateServerEndpoint (demo_platform\<lparr>parseURL := \<lambda>_. Some ?u\<rparr>) (jstr ''ws://LOCALHOST'')
      = Inr (lit ''ws://localhost/'')"
    by code_simp
  from endpoint_loopback [OF this] show ?thesis by simp
qed

text \<open>The unknown-property guard of locators stops at an empty property name: after one, any other
  unknown property is accepted.\<close>

theorem locator_empty_name_bypass:
  "returns (validateLocator (obj [([], Null), (''shadow'', Null), (''css'', jstr ''a'')]) t)"
  by code_simp

end
