(* ===== verification/Param_Checks.thy ===== *)
theory Param_Checks
  imports Protocol
begin

text \<open>
  The checks the command validators of \<open>chrome-extension/src/command-router.js\<close> share: on the
  parameter object and its property names, on strings, numbers, enumerations, booleans and cursors,
  on the address of an element, and on the target of a command. A validator gets the parameters and
  the target of a request, throws or returns nothing, and is the sequence of its statements.
\<close>

section \<open>The parameter object\<close>

definition validateParamsObject :: "jsval \<Rightarrow> unit res" where
  "validateParamsObject params =
     throw_if (\<not> truthy params \<or> \<not> typeof_object params \<or> is_array params)
       (invalid ''params must be an object'')"

definition assertAllowedProperties :: "jsval \<Rightarrow> string list \<Rightarrow> unit res" where
  "assertAllowedProperties params allowed =
     throw_unexpected (''Unexpected parameter '' @ [CHR 0x22]) allowed params"

definition validateEmpty :: "jsval \<Rightarrow> unit res" where
  "validateEmpty params = checks [
     validateParamsObject params,
     assertAllowedProperties params []]"

section \<open>Single values\<close>

definition assertNonEmptyString :: "jsval \<Rightarrow> string \<Rightarrow> unit res" where
  "assertNonEmptyString value path =
     throw_if (\<not> is_string value \<or> trim (str_of value) = []) (invalid (path @ '' must not be empty''))"

definition between :: "string \<Rightarrow> rat \<Rightarrow> rat \<Rightarrow> exn" where
  "between path minimum maximum = fault INVALID_MESSAGE
     [Txt (path @ '' must be between ''), Val (jnum minimum), Txt '' and '', Val (jnum maximum)]"

definition validateIntegerRange :: "jsval \<Rightarrow> string \<Rightarrow> rat \<Rightarrow> rat \<Rightarrow> unit res" where
  "validateIntegerRange value path minimum maximum =
     throw_if (value \<noteq> Undefined
         \<and> (\<not> is_integer value \<or> less_than value minimum \<or> greater_than value maximum))
       (between path minimum maximum)"

definition requireIntegerRange :: "jsval \<Rightarrow> string \<Rightarrow> rat \<Rightarrow> rat \<Rightarrow> unit res" where
  "requireIntegerRange value path minimum maximum =
     throw_if (\<not> is_integer value \<or> less_than value minimum \<or> greater_than value maximum)
       (between path minimum maximum)"

definition validateNumberRange :: "jsval \<Rightarrow> string \<Rightarrow> rat \<Rightarrow> rat \<Rightarrow> unit res" where
  "validateNumberRange value path minimum maximum =
     throw_if (value \<noteq> Undefined
         \<and> (\<not> is_finite value \<or> less_than value minimum \<or> greater_than value maximum))
       (between path minimum maximum)"

definition requireNumberRange :: "jsval \<Rightarrow> string \<Rightarrow> rat \<Rightarrow> rat \<Rightarrow> unit res" where
  "requireNumberRange value path minimum maximum =
     throw_if (\<not> is_finite value \<or> less_than value minimum \<or> greater_than value maximum)
       (between path minimum maximum)"

definition validateEnum :: "jsval \<Rightarrow> string \<Rightarrow> string list \<Rightarrow> unit res" where
  "validateEnum value path allowed =
     throw_if (value \<noteq> Undefined \<and> \<not> js_includes allowed value)
       (fault INVALID_MESSAGE [Txt (path @ '' must be one of ''),
          Val (Str (join_with (lit '', '') (map lit allowed)))])"

definition validateOptionalBoolean :: "jsval \<Rightarrow> string \<Rightarrow> unit res" where
  "validateOptionalBoolean value path =
     throw_if (value \<noteq> Undefined \<and> \<not> is_boolean value) (invalid (path @ '' must be a boolean''))"

definition requireBoolean :: "jsval \<Rightarrow> string \<Rightarrow> unit res" where
  "requireBoolean value path = throw_if (\<not> is_boolean value) (invalid (path @ '' must be a boolean''))"

definition validateOptionalIdentifier :: "jsval \<Rightarrow> string \<Rightarrow> unit res" where
  "validateOptionalIdentifier value path =
     throw_if (value \<noteq> Undefined \<and> (\<not> is_integer value \<or> less_than value 0))
       (invalid (path @ '' must be a non-negative integer''))"

definition assertBoundedString :: "jsval \<Rightarrow> string \<Rightarrow> nat \<Rightarrow> bool \<Rightarrow> unit res" where
  "assertBoundedString value path maximum allowEmpty =
     throw_if (\<not> is_string value \<or> length (str_of value) > maximum
         \<or> (\<not> allowEmpty \<and> trim (str_of value) = []))
       (fault INVALID_MESSAGE
         [Txt (path @ '' must be a'' @ (if allowEmpty then '''' else '' non-empty'')
               @ '' string no longer than ''), Val (jnum (of_nat maximum))])"

definition assertOptionalBoundedString :: "jsval \<Rightarrow> string \<Rightarrow> nat \<Rightarrow> unit res" where
  "assertOptionalBoundedString value path maximum =
     throw_if (value \<noteq> Undefined
         \<and> (\<not> is_string value \<or> length (code_points (str_of value)) > maximum))
       (invalid (path @ '' exceeds its string limit''))"

definition requireStorageString :: "jsval \<Rightarrow> string \<Rightarrow> nat \<Rightarrow> unit res" where
  "requireStorageString value path maximumBytes =
     throw_if (\<not> is_string value \<or> utf8_length (str_of value) > maximumBytes)
       (invalid (path @ '' exceeds its UTF-8 byte limit''))"

definition validateIndex :: "jsval \<Rightarrow> unit res" where
  "validateIndex index =
     throw_if (index \<noteq> Undefined \<and> (\<not> is_integer index \<or> less_than index 0))
       (invalid ''params.index must be a non-negative integer'')"

definition validateCursor :: "jsval \<Rightarrow> unit res" where
  "validateCursor cursor =
     throw_if (cursor \<noteq> Undefined
         \<and> (\<not> is_string cursor \<or> \<not> digit_string (str_of cursor) \<or> dec_value (str_of cursor) > 1000000))
       (invalid ''params.cursor must be a numeric string no greater than 1000000'')"

definition validateSelectors :: "jsval \<Rightarrow> string \<Rightarrow> unit res" where
  "validateSelectors selectors path =
     (if selectors = Undefined then ok
      else throw_if (\<not> is_array selectors \<or> length (elems selectors) > 50
             \<or> list_ex (\<lambda>selector. \<not> is_string selector \<or> trim (str_of selector) = []) (elems selectors))
           (invalid (path @ '' must contain at most 50 non-empty CSS selectors'')))"

definition validateEnumArray :: "jsval \<Rightarrow> string \<Rightarrow> string list \<Rightarrow> unit res" where
  "validateEnumArray values path allowed =
     (if values = Undefined then ok
      else throw_if (\<not> is_array values \<or> length (elems values) > length allowed
             \<or> list_ex (\<lambda>value. \<not> js_includes allowed value) (elems values)
             \<or> \<not> distinct (elems values))
           (invalid (path @ '' contains invalid values'')))"

definition validateInteractionOptions :: "jsval \<Rightarrow> unit res" where
  "validateInteractionOptions params = checks [
     validateEnum (getp params ''backend'') ''params.backend'' [''auto'', ''content'', ''cdp''],
     validateOptionalBoolean (getp params ''waitForNavigation'') ''params.waitForNavigation'']"

definition rejectCDPBackend :: "jsval \<Rightarrow> unit res" where
  "rejectCDPBackend params =
     throw_if (getp params ''backend'' = jstr ''cdp'')
       (invalid ''params.backend cdp is unavailable for this DOM-semantic action'')"

section \<open>The address of an element\<close>

definition validateElementAddress :: "jsval \<Rightarrow> jsval \<Rightarrow> unit res" where
  "validateElementAddress params target =
     (let addresses = filter (\<lambda>value. value \<noteq> Undefined)
            [getp params ''selector'', getp params ''coordinates'', getp params ''locator'']
      in checks [
        throw_if (length addresses \<noteq> 1)
          (invalid ''Exactly one of params.selector, params.coordinates, or params.locator is required''),
        only_if (getp params ''selector'' \<noteq> Undefined)
          (assertNonEmptyString (getp params ''selector'') ''params.selector''),
        only_if (getp params ''coordinates'' \<noteq> Undefined)
          (validateLocator (obj [(''coordinates'', getp params ''coordinates'')]) target),
        only_if (getp params ''locator'' \<noteq> Undefined) (validateLocator (getp params ''locator'') target),
        throw_if (getp params ''index'' \<noteq> Undefined \<and> getp params ''selector'' = Undefined)
          (invalid ''params.index can only be used with params.selector'')])"

definition validateOptionalElementAddress :: "jsval \<Rightarrow> jsval \<Rightarrow> unit res" where
  "validateOptionalElementAddress params target =
     (let hasAddress = list_ex (\<lambda>value. value \<noteq> Undefined)
            [getp params ''selector'', getp params ''coordinates'', getp params ''locator'']
      in only_if hasAddress (validateElementAddress params target))"

section \<open>Targets of commands\<close>

definition requireWindowTarget :: "jsval \<Rightarrow> unit res" where
  "requireWindowTarget target = checks [
     throw_if (\<not> is_integer (getp target ''windowId'') \<or> less_than (getp target ''windowId'') 0)
       (invalid ''target.windowId is required''),
     throw_if (getp target ''tabId'' \<noteq> Undefined \<or> getp target ''frameId'' \<noteq> Undefined
         \<or> getp target ''documentId'' \<noteq> Undefined)
       (invalid ''Window commands require a window-only target'')]"

definition validateOptionalTabTarget :: "jsval \<Rightarrow> unit res" where
  "validateOptionalTabTarget target =
     (if nullish target then ok
      else checks [
        throw_if (\<not> is_integer (getp target ''tabId'') \<or> less_than (getp target ''tabId'') 0)
          (invalid ''target.tabId is required when target is set''),
        throw_if (getp target ''frameId'' \<noteq> Undefined \<or> getp target ''documentId'' \<noteq> Undefined)
          (invalid ''Tab commands require a tab-only target'')])"

text \<open>
  Seven functions of the source have the same body up to the last message: the target may be absent,
  or names a tab and at most its root frame.
\<close>

definition rootFrameTarget :: "string \<Rightarrow> jsval \<Rightarrow> unit res" where
  "rootFrameTarget message target =
     (if nullish target then ok
      else checks [
        throw_if (\<not> is_integer (getp target ''tabId'') \<or> less_than (getp target ''tabId'') 0)
          (invalid ''target.tabId is required when target is set''),
        throw_if (getp target ''windowId'' \<noteq> Undefined
            \<or> (getp target ''frameId'' \<noteq> Undefined \<and> getp target ''frameId'' \<noteq> jnum 0))
          (invalid message)])"

definition validateEmulationTarget :: "jsval \<Rightarrow> unit res" where
  "validateEmulationTarget = rootFrameTarget ''Emulation commands accept only the root frame of a tab''"

definition validateEvaluationTarget :: "jsval \<Rightarrow> unit res" where
  "validateEvaluationTarget =
     rootFrameTarget ''JavaScript evaluation accepts only the root frame of a tab''"

definition validateRawCDPTarget :: "jsval \<Rightarrow> unit res" where
  "validateRawCDPTarget = rootFrameTarget ''Raw CDP commands accept only the root frame of a tab''"

definition validatePerformanceTarget :: "jsval \<Rightarrow> unit res" where
  "validatePerformanceTarget =
     rootFrameTarget ''Performance commands accept only the root frame of a tab''"

definition validateNetworkTarget :: "jsval \<Rightarrow> unit res" where
  "validateNetworkTarget = rootFrameTarget ''Network commands accept only the root frame of a tab''"

definition validateCookieTarget :: "jsval \<Rightarrow> unit res" where
  "validateCookieTarget = rootFrameTarget ''Cookie commands accept only the root frame of a tab''"

definition validateAccessibilityTarget :: "jsval \<Rightarrow> unit res" where
  "validateAccessibilityTarget =
     rootFrameTarget ''Accessibility commands accept only the root frame of a tab''"

definition validateConsoleTarget :: "jsval \<Rightarrow> unit res" where
  "validateConsoleTarget target =
     throw_if (getp target ''windowId'' \<noteq> Undefined)
       (invalid ''Console commands do not accept windowId'')"

definition validateNoTarget :: "jsval \<Rightarrow> string \<Rightarrow> unit res" where
  "validateNoTarget target message =
     throw_if (target \<noteq> Undefined \<and> target \<noteq> Null) (invalid message)"

section \<open>When they return, and what they throw\<close>

text \<open>The integer read from a value that an integer check has passed.\<close>

lemma integer_in_range:
  "is_integer v \<and> \<not> less_than v a \<and> \<not> greater_than v b \<longleftrightarrow> (\<exists>i. v = jnum (of_int i) \<and> a \<le> of_int i \<and> of_int i \<le> b)"
  by (auto simp: is_integer_iff)

lemma finite_in_range:
  "is_finite v \<and> \<not> less_than v a \<and> \<not> greater_than v b \<longleftrightarrow> (\<exists>r. v = jnum r \<and> a \<le> r \<and> r \<le> b)"
  by auto

lemma validateParamsObject_ok [accept_simps]: "returns (validateParamsObject v) \<longleftrightarrow> (\<exists>ps. v = Obj ps)"
  by (cases v) (auto simp: validateParamsObject_def accept_simps)

lemma assertAllowedProperties_ok [accept_simps]:
  "returns (assertAllowedProperties v allowed) \<longleftrightarrow> unexpectedProperty allowed v \<in> {None, Some []}"
  by (simp add: assertAllowedProperties_def accept_simps)

lemma assertAllowedProperties_closed:
  "returns (assertAllowedProperties v allowed) \<Longrightarrow> [] \<notin> set (object_keys v) \<Longrightarrow>
   set (object_keys v) \<subseteq> set (map lit allowed)"
  unfolding assertAllowedProperties_def by (rule throw_unexpected_closed)

lemma range_checks_ok [accept_simps]:
  "returns (validateIntegerRange v p a b) \<longleftrightarrow>
     v = Undefined \<or> (\<exists>i. v = jnum (of_int i) \<and> a \<le> of_int i \<and> of_int i \<le> b)"
  "returns (requireIntegerRange v p a b) \<longleftrightarrow> (\<exists>i. v = jnum (of_int i) \<and> a \<le> of_int i \<and> of_int i \<le> b)"
  "returns (validateNumberRange v p a b) \<longleftrightarrow> v = Undefined \<or> (\<exists>r. v = jnum r \<and> a \<le> r \<and> r \<le> b)"
  "returns (requireNumberRange v p a b) \<longleftrightarrow> (\<exists>r. v = jnum r \<and> a \<le> r \<and> r \<le> b)"
  by (simp_all add: validateIntegerRange_def requireIntegerRange_def validateNumberRange_def
      requireNumberRange_def throw_if_ok integer_in_range [symmetric] finite_in_range [symmetric]
      del: kind_simps)

lemma value_checks_ok [accept_simps]:
  "returns (assertNonEmptyString v p) \<longleftrightarrow> (\<exists>s. v = Str s \<and> trim s \<noteq> [])"
  "returns (validateEnum v p allowed) \<longleftrightarrow> v = Undefined \<or> (\<exists>a\<in>set allowed. v = jstr a)"
  "returns (validateOptionalBoolean v p) \<longleftrightarrow> v = Undefined \<or> (\<exists>b. v = Bool b)"
  "returns (requireBoolean v p) \<longleftrightarrow> (\<exists>b. v = Bool b)"
  "returns (assertBoundedString v p n e) \<longleftrightarrow> (\<exists>s. v = Str s \<and> length s \<le> n \<and> (e \<or> trim s \<noteq> []))"
  "returns (assertOptionalBoundedString v p n) \<longleftrightarrow> v = Undefined \<or> (\<exists>s. v = Str s \<and> length (code_points s) \<le> n)"
  "returns (requireStorageString v p n) \<longleftrightarrow> (\<exists>s. v = Str s \<and> utf8_length s \<le> n)"
  by (auto simp: assertNonEmptyString_def validateEnum_def validateOptionalBoolean_def requireBoolean_def
      assertBoundedString_def assertOptionalBoundedString_def requireStorageString_def throw_if_ok includes_iff)

lemma validateOptionalIdentifier_ok [accept_simps]:
  "returns (validateOptionalIdentifier v p) \<longleftrightarrow> v = Undefined \<or> (\<exists>i\<ge>0. v = jnum (of_int i))"
  by (auto simp: validateOptionalIdentifier_def throw_if_ok is_integer_iff)

lemma rootFrameTarget_ok [accept_simps]:
  "returns (rootFrameTarget m t) \<longleftrightarrow>
     nullish t \<or> ((\<exists>i\<ge>0. getp t ''tabId'' = jnum (of_int i)) \<and> getp t ''windowId'' = Undefined
       \<and> getp t ''frameId'' \<in> {Undefined, jnum 0})"
  by (auto simp: rootFrameTarget_def accept_simps is_integer_iff)

lemma validateNoTarget_ok [accept_simps]: "returns (validateNoTarget t m) \<longleftrightarrow> nullish t"
  by (auto simp: validateNoTarget_def accept_simps nullish_def)

lemmas root_frame_targets =
  validateEmulationTarget_def validateEvaluationTarget_def validateRawCDPTarget_def
  validatePerformanceTarget_def validateNetworkTarget_def validateCookieTarget_def
  validateAccessibilityTarget_def

lemma between_fault [fault_intros]: "caller_fault (between p a b)"
  by (auto simp: between_def intro!: fault_intros)

lemma helper_faults [fault_intros]:
  "thrown_in caller_fault (validateParamsObject v)"
  "thrown_in caller_fault (assertAllowedProperties v allowed)"
  "thrown_in caller_fault (assertNonEmptyString v p)"
  "thrown_in caller_fault (validateIntegerRange v p a b)"
  "thrown_in caller_fault (requireIntegerRange v p a b)"
  "thrown_in caller_fault (validateNumberRange v p a b)"
  "thrown_in caller_fault (requireNumberRange v p a b)"
  "thrown_in caller_fault (validateEnum v p allowed)"
  "thrown_in caller_fault (validateOptionalBoolean v p)"
  "thrown_in caller_fault (requireBoolean v p)"
  "thrown_in caller_fault (validateOptionalIdentifier v p)"
  "thrown_in caller_fault (assertBoundedString v p n e)"
  "thrown_in caller_fault (assertOptionalBoundedString v p n)"
  "thrown_in caller_fault (requireStorageString v p n)"
  "thrown_in caller_fault (validateIndex v)"
  "thrown_in caller_fault (validateCursor v)"
  "thrown_in caller_fault (validateSelectors v p)"
  "thrown_in caller_fault (validateEnumArray v p allowed)"
  "thrown_in caller_fault (rejectCDPBackend v)"
  "thrown_in caller_fault (validateConsoleTarget v)"
  "thrown_in caller_fault (validateNoTarget v m)"
  unfolding validateParamsObject_def assertAllowedProperties_def assertNonEmptyString_def
    validateIntegerRange_def requireIntegerRange_def validateNumberRange_def requireNumberRange_def
    validateEnum_def validateOptionalBoolean_def requireBoolean_def validateOptionalIdentifier_def
    assertBoundedString_def assertOptionalBoundedString_def requireStorageString_def validateIndex_def
    validateCursor_def validateSelectors_def validateEnumArray_def rejectCDPBackend_def
    validateConsoleTarget_def validateNoTarget_def
  by (intro fault_intros; simp)+

lemma composite_faults [fault_intros]:
  "thrown_in caller_fault (validateEmpty v)"
  "thrown_in caller_fault (validateInteractionOptions v)"
  "thrown_in caller_fault (validateElementAddress v t)"
  "thrown_in caller_fault (validateOptionalElementAddress v t)"
  "thrown_in caller_fault (requireWindowTarget t)"
  "thrown_in caller_fault (validateOptionalTabTarget t)"
  "thrown_in caller_fault (rootFrameTarget m t)"
  unfolding validateEmpty_def validateInteractionOptions_def validateElementAddress_def Let_def
    validateOptionalElementAddress_def requireWindowTarget_def validateOptionalTabTarget_def
    rootFrameTarget_def
  by (intro fault_intros; simp)+

text \<open>The address of an element: exactly one of the three kinds.\<close>

lemma element_address_one:
  assumes "returns (validateElementAddress params target)"
  shows "\<exists>!k. k \<in> {''selector'', ''coordinates'', ''locator''} \<and> getp params k \<noteq> Undefined"
proof -
  let ?ks = "[''selector'', ''coordinates'', ''locator'']"
  have "length (filter (\<lambda>v. v \<noteq> Undefined) (map (getp params) ?ks)) = 1"
    using assms by (simp add: validateElementAddress_def Let_def checks_Cons_ok throw_if_ok split: if_split_asm)
  then have "length (filter (\<lambda>k. getp params k \<noteq> Undefined) ?ks) = 1"
    by (simp only: filter_map comp_def length_map)
  then have "\<exists>!k. k \<in> set ?ks \<and> getp params k \<noteq> Undefined"
    by (rule filter_length_1) simp
  then show ?thesis by simp
qed

end
