(* ===== verification/Window_Tab_Commands.thy ===== *)
theory Window_Tab_Commands
  imports Param_Checks
begin

text \<open>
  The validators of the window, tab, tab-group and session commands of
  \<open>chrome-extension/src/command-router.js\<close>.
\<close>

section \<open>Windows\<close>

definition validateWindowState :: "jsval \<Rightarrow> unit res" where
  "validateWindowState state =
     validateEnum state ''params.state'' [''normal'', ''minimized'', ''maximized'', ''fullscreen'']"

definition validateWindowBounds :: "jsval \<Rightarrow> unit res" where
  "validateWindowBounds params = checks [
     for_each (\<lambda>property.
         throw_if (getp params property \<noteq> Undefined \<and> \<not> is_integer (getp params property))
           (invalid (''params.'' @ property @ '' must be an integer'')))
       [''left'', ''top''],
     for_each (\<lambda>property.
         throw_if (getp params property \<noteq> Undefined
             \<and> (\<not> is_integer (getp params property) \<or> less_than (getp params property) 1))
           (invalid (''params.'' @ property @ '' must be a positive integer'')))
       [''width'', ''height'']]"

definition assertStateAndBoundsCompatible :: "jsval \<Rightarrow> unit res" where
  "assertStateAndBoundsCompatible params =
     (let hasBounds = list_ex (\<lambda>property. getp params property \<noteq> Undefined)
            [''left'', ''top'', ''width'', ''height'']
      in throw_if (hasBounds \<and> getp params ''state'' \<noteq> Undefined \<and> getp params ''state'' \<noteq> jstr ''normal'')
           (invalid ''Window bounds can only be combined with the normal state''))"

definition validateWindowTarget :: "jsval \<Rightarrow> jsval \<Rightarrow> unit res" where
  "validateWindowTarget params target = checks [
     validateEmpty params,
     requireWindowTarget target]"

definition validateWindowCreate :: "jsval \<Rightarrow> jsval \<Rightarrow> unit res" where
  "validateWindowCreate params target = checks [
     validateParamsObject params,
     assertAllowedProperties params [''urls'', ''type'', ''state'', ''focused'', ''incognito'', ''left'', ''top'',
       ''width'', ''height''],
     only_if (getp params ''urls'' \<noteq> Undefined)
       (throw_if (\<not> is_array (getp params ''urls'') \<or> elems (getp params ''urls'') = []
           \<or> length (elems (getp params ''urls'')) > 50
           \<or> list_ex (\<lambda>url. \<not> is_string url \<or> trim (str_of url) = []) (elems (getp params ''urls'')))
         (invalid ''params.urls must contain between 1 and 50 non-empty URLs'')),
     validateEnum (getp params ''type'') ''params.type'' [''normal'', ''popup''],
     validateWindowState (getp params ''state''),
     validateOptionalBoolean (getp params ''focused'') ''params.focused'',
     validateOptionalBoolean (getp params ''incognito'') ''params.incognito'',
     validateWindowBounds params,
     assertStateAndBoundsCompatible params]"

definition validateWindowUpdate :: "jsval \<Rightarrow> jsval \<Rightarrow> unit res" where
  "validateWindowUpdate params target = checks [
     validateParamsObject params,
     assertAllowedProperties params [''state'', ''focused'', ''drawAttention'', ''left'', ''top'', ''width'',
       ''height''],
     throw_if (object_keys params = []) (invalid ''At least one window update is required''),
     requireWindowTarget target,
     validateWindowState (getp params ''state''),
     validateOptionalBoolean (getp params ''focused'') ''params.focused'',
     validateOptionalBoolean (getp params ''drawAttention'') ''params.drawAttention'',
     validateWindowBounds params,
     assertStateAndBoundsCompatible params]"

section \<open>Tabs\<close>

definition validateTabEmpty :: "jsval \<Rightarrow> jsval \<Rightarrow> unit res" where
  "validateTabEmpty params target = checks [
     validateEmpty params,
     validateOptionalTabTarget target]"

definition validateTabCreate :: "jsval \<Rightarrow> jsval \<Rightarrow> unit res" where
  "validateTabCreate params target = checks [
     validateParamsObject params,
     assertAllowedProperties params [''windowId'', ''url'', ''index'', ''active'', ''pinned''],
     validateOptionalIdentifier (getp params ''windowId'') ''params.windowId'',
     only_if (getp params ''url'' \<noteq> Undefined) (assertNonEmptyString (getp params ''url'') ''params.url''),
     validateOptionalIdentifier (getp params ''index'') ''params.index'',
     validateOptionalBoolean (getp params ''active'') ''params.active'',
     validateOptionalBoolean (getp params ''pinned'') ''params.pinned'']"

definition validateTabNavigate :: "jsval \<Rightarrow> jsval \<Rightarrow> unit res" where
  "validateTabNavigate params target = checks [
     validateParamsObject params,
     assertAllowedProperties params [''url''],
     assertNonEmptyString (getp params ''url'') ''params.url'',
     validateOptionalTabTarget target]"

definition validateTabReload :: "jsval \<Rightarrow> jsval \<Rightarrow> unit res" where
  "validateTabReload params target = checks [
     validateParamsObject params,
     assertAllowedProperties params [''bypassCache''],
     validateOptionalBoolean (getp params ''bypassCache'') ''params.bypassCache'',
     validateOptionalTabTarget target]"

definition validateTabMove :: "jsval \<Rightarrow> jsval \<Rightarrow> unit res" where
  "validateTabMove params target = checks [
     validateParamsObject params,
     assertAllowedProperties params [''windowId'', ''index''],
     validateOptionalIdentifier (getp params ''windowId'') ''params.windowId'',
     throw_if (\<not> is_integer (getp params ''index'') \<or> less_than (getp params ''index'') (-1))
       (invalid ''params.index must be an integer of at least -1''),
     validateOptionalTabTarget target]"

definition validateRequiredBoolean :: "jsval \<Rightarrow> jsval \<Rightarrow> string \<Rightarrow> unit res" where
  "validateRequiredBoolean params target property = checks [
     validateParamsObject params,
     assertAllowedProperties params [property],
     requireBoolean (getp params property) (''params.'' @ property),
     validateOptionalTabTarget target]"

definition validateTabPin :: "jsval \<Rightarrow> jsval \<Rightarrow> unit res" where
  "validateTabPin params target = validateRequiredBoolean params target ''pinned''"

definition validateTabMute :: "jsval \<Rightarrow> jsval \<Rightarrow> unit res" where
  "validateTabMute params target = validateRequiredBoolean params target ''muted''"

definition validateTabSetZoom :: "jsval \<Rightarrow> jsval \<Rightarrow> unit res" where
  "validateTabSetZoom params target = checks [
     validateParamsObject params,
     assertAllowedProperties params [''factor''],
     throw_if (\<not> is_finite (getp params ''factor'') \<or> less_than (getp params ''factor'') (1/4)
         \<or> greater_than (getp params ''factor'') 5)
       (invalid ''params.factor must be between 0.25 and 5''),
     validateOptionalTabTarget target]"

section \<open>Tab groups and sessions\<close>

definition validateTabIDs :: "jsval \<Rightarrow> unit res" where
  "validateTabIDs tabIds =
     throw_if (\<not> is_array tabIds \<or> elems tabIds = [] \<or> length (elems tabIds) > 100
         \<or> list_ex (\<lambda>tabId. \<not> is_integer tabId \<or> less_than tabId 0) (elems tabIds)
         \<or> \<not> distinct (elems tabIds))
       (invalid ''params.tabIds must contain between 1 and 100 unique non-negative integers'')"

definition validateTabGroup :: "jsval \<Rightarrow> jsval \<Rightarrow> unit res" where
  "validateTabGroup params target = checks [
     validateParamsObject params,
     assertAllowedProperties params [''tabIds'', ''groupId'', ''windowId''],
     validateTabIDs (getp params ''tabIds''),
     validateOptionalIdentifier (getp params ''groupId'') ''params.groupId'',
     validateOptionalIdentifier (getp params ''windowId'') ''params.windowId'',
     throw_if (getp params ''groupId'' \<noteq> Undefined \<and> getp params ''windowId'' \<noteq> Undefined)
       (invalid ''params.groupId and params.windowId cannot be used together'')]"

definition validateTabUngroup :: "jsval \<Rightarrow> jsval \<Rightarrow> unit res" where
  "validateTabUngroup params target = checks [
     validateParamsObject params,
     assertAllowedProperties params [''tabIds''],
     validateTabIDs (getp params ''tabIds'')]"

definition validateTabGroupUpdate :: "jsval \<Rightarrow> jsval \<Rightarrow> unit res" where
  "validateTabGroupUpdate params target = checks [
     validateParamsObject params,
     assertAllowedProperties params [''groupId'', ''title'', ''color'', ''collapsed''],
     validateOptionalIdentifier (getp params ''groupId'') ''params.groupId'',
     throw_if (getp params ''groupId'' = Undefined) (invalid ''params.groupId is required''),
     throw_if (length (object_keys params) = 1) (invalid ''At least one tab group update is required''),
     throw_if (getp params ''title'' \<noteq> Undefined \<and> \<not> is_string (getp params ''title''))
       (invalid ''params.title must be a string''),
     validateEnum (getp params ''color'') ''params.color''
       [''grey'', ''blue'', ''red'', ''yellow'', ''green'', ''pink'', ''purple'', ''cyan'', ''orange''],
     validateOptionalBoolean (getp params ''collapsed'') ''params.collapsed'']"

definition validateRecentlyClosed :: "jsval \<Rightarrow> jsval \<Rightarrow> unit res" where
  "validateRecentlyClosed params target = checks [
     validateParamsObject params,
     assertAllowedProperties params [''maxResults''],
     throw_if (getp params ''maxResults'' \<noteq> Undefined
         \<and> (\<not> is_integer (getp params ''maxResults'') \<or> less_than (getp params ''maxResults'') 1
            \<or> greater_than (getp params ''maxResults'') 25))
       (invalid ''params.maxResults must be between 1 and 25'')]"

definition validateSessionRestore :: "jsval \<Rightarrow> jsval \<Rightarrow> unit res" where
  "validateSessionRestore params target = checks [
     validateParamsObject params,
     assertAllowedProperties params [''sessionId''],
     only_if (getp params ''sessionId'' \<noteq> Undefined)
       (assertNonEmptyString (getp params ''sessionId'') ''params.sessionId'')]"

section \<open>What they throw\<close>

lemma window_helper_faults [fault_intros]:
  "thrown_in caller_fault (validateWindowState v)"
  "thrown_in caller_fault (validateWindowBounds v)"
  "thrown_in caller_fault (assertStateAndBoundsCompatible v)"
  "thrown_in caller_fault (validateTabIDs v)"
  "thrown_in caller_fault (validateRequiredBoolean v t p)"
  unfolding validateWindowState_def validateWindowBounds_def assertStateAndBoundsCompatible_def Let_def
    validateTabIDs_def validateRequiredBoolean_def
  by (intro fault_intros; simp)+

lemma window_tab_faults [fault_intros]:
  "thrown_in caller_fault (validateWindowTarget v t)"
  "thrown_in caller_fault (validateWindowCreate v t)"
  "thrown_in caller_fault (validateWindowUpdate v t)"
  "thrown_in caller_fault (validateTabEmpty v t)"
  "thrown_in caller_fault (validateTabCreate v t)"
  "thrown_in caller_fault (validateTabNavigate v t)"
  "thrown_in caller_fault (validateTabReload v t)"
  "thrown_in caller_fault (validateTabMove v t)"
  "thrown_in caller_fault (validateTabPin v t)"
  "thrown_in caller_fault (validateTabMute v t)"
  "thrown_in caller_fault (validateTabSetZoom v t)"
  "thrown_in caller_fault (validateTabGroup v t)"
  "thrown_in caller_fault (validateTabUngroup v t)"
  "thrown_in caller_fault (validateTabGroupUpdate v t)"
  "thrown_in caller_fault (validateRecentlyClosed v t)"
  "thrown_in caller_fault (validateSessionRestore v t)"
  unfolding validateWindowTarget_def validateWindowCreate_def validateWindowUpdate_def validateTabEmpty_def
    validateTabCreate_def validateTabNavigate_def validateTabReload_def validateTabMove_def
    validateTabPin_def validateTabMute_def validateTabSetZoom_def validateTabGroup_def
    validateTabUngroup_def validateTabGroupUpdate_def validateRecentlyClosed_def
    validateSessionRestore_def
  by (intro fault_intros; simp)+

end
