(* ===== verification/Page_Commands.thy ===== *)
theory Page_Commands
  imports Param_Checks
begin

text \<open>
  The validators of the page commands of \<open>chrome-extension/src/command-router.js\<close>: inspection,
  interaction, waits, screenshots and PDF printing, with the page-range parser.
\<close>

section \<open>Inspection\<close>

definition validateSelector :: "jsval \<Rightarrow> jsval \<Rightarrow> unit res" where
  "validateSelector params target = checks [
     validateParamsObject params,
     assertAllowedProperties params [''selector''],
     assertNonEmptyString (getp params ''selector'') ''params.selector'']"

definition validateGetHTML :: "jsval \<Rightarrow> jsval \<Rightarrow> unit res" where
  "validateGetHTML params target = checks [
     validateParamsObject params,
     assertAllowedProperties params [''maxChars'', ''maxDepth'', ''includeSelectors'', ''excludeSelectors''],
     validateIntegerRange (getp params ''maxChars'') ''params.maxChars'' 1 1000000,
     validateIntegerRange (getp params ''maxDepth'') ''params.maxDepth'' 0 200,
     validateSelectors (getp params ''includeSelectors'') ''params.includeSelectors'',
     validateSelectors (getp params ''excludeSelectors'') ''params.excludeSelectors'']"

definition validateGetText :: "jsval \<Rightarrow> jsval \<Rightarrow> unit res" where
  "validateGetText params target = checks [
     validateParamsObject params,
     assertAllowedProperties params [''maxChars'', ''cursor'', ''includeSelectors'', ''excludeSelectors''],
     validateIntegerRange (getp params ''maxChars'') ''params.maxChars'' 1 1000000,
     validateCursor (getp params ''cursor''),
     validateSelectors (getp params ''includeSelectors'') ''params.includeSelectors'',
     validateSelectors (getp params ''excludeSelectors'') ''params.excludeSelectors'']"

definition validateQuery :: "jsval \<Rightarrow> jsval \<Rightarrow> unit res" where
  "validateQuery params target = checks [
     validateParamsObject params,
     assertAllowedProperties params [''locator'', ''cursor'', ''limit''],
     validateLocator (getp params ''locator'') target,
     validateCursor (getp params ''cursor''),
     validateIntegerRange (getp params ''limit'') ''params.limit'' 1 100]"

definition validateGetElement :: "jsval \<Rightarrow> jsval \<Rightarrow> unit res" where
  "validateGetElement params target = checks [
     validateParamsObject params,
     assertAllowedProperties params [''locator'', ''maxHTMLChars''],
     validateLocator (getp params ''locator'') target,
     validateIntegerRange (getp params ''maxHTMLChars'') ''params.maxHTMLChars'' 1 100000]"

definition validateSnapshot :: "jsval \<Rightarrow> jsval \<Rightarrow> unit res" where
  "validateSnapshot params target = checks [
     validateParamsObject params,
     assertAllowedProperties params [''interactiveOnly'', ''maxDepth'', ''maxNodes'', ''includeShadowDOM''],
     validateOptionalBoolean (getp params ''interactiveOnly'') ''params.interactiveOnly'',
     validateIntegerRange (getp params ''maxDepth'') ''params.maxDepth'' 0 50,
     validateIntegerRange (getp params ''maxNodes'') ''params.maxNodes'' 1 5000,
     validateOptionalBoolean (getp params ''includeShadowDOM'') ''params.includeShadowDOM'']"

section \<open>Interaction\<close>

definition validateAction :: "jsval \<Rightarrow> jsval \<Rightarrow> unit res" where
  "validateAction params target = checks [
     validateParamsObject params,
     assertAllowedProperties params [''selector'', ''coordinates'', ''locator'', ''index'', ''button'',
       ''clickCount'', ''backend'', ''waitForNavigation''],
     validateElementAddress params target,
     validateIndex (getp params ''index''),
     validateEnum (getp params ''button'') ''params.button'' [''left'', ''middle'', ''right''],
     validateIntegerRange (getp params ''clickCount'') ''params.clickCount'' 1 2,
     validateInteractionOptions params]"

definition validateFill :: "jsval \<Rightarrow> jsval \<Rightarrow> unit res" where
  "validateFill params target = checks [
     validateParamsObject params,
     assertAllowedProperties params [''selector'', ''coordinates'', ''locator'', ''index'', ''value'', ''clear'',
       ''backend'', ''waitForNavigation''],
     validateElementAddress params target,
     validateIndex (getp params ''index''),
     assertBoundedString (getp params ''value'') ''params.value'' 100000 True,
     throw_if (getp params ''clear'' \<noteq> Undefined \<and> \<not> is_boolean (getp params ''clear''))
       (invalid ''params.clear must be a boolean''),
     validateInteractionOptions params]"

definition validateSimpleAction :: "jsval \<Rightarrow> jsval \<Rightarrow> unit res" where
  "validateSimpleAction params target = checks [
     validateParamsObject params,
     assertAllowedProperties params [''selector'', ''coordinates'', ''locator'', ''index'', ''backend'',
       ''waitForNavigation''],
     validateElementAddress params target,
     validateIndex (getp params ''index''),
     validateInteractionOptions params]"

definition validateContentOnlySimpleAction :: "jsval \<Rightarrow> jsval \<Rightarrow> unit res" where
  "validateContentOnlySimpleAction params target = checks [
     validateSimpleAction params target,
     rejectCDPBackend params]"

definition validateType :: "jsval \<Rightarrow> jsval \<Rightarrow> unit res" where
  "validateType params target = checks [
     validateParamsObject params,
     assertAllowedProperties params [''selector'', ''coordinates'', ''locator'', ''index'', ''text'', ''delayMs'',
       ''backend'', ''waitForNavigation''],
     validateElementAddress params target,
     validateIndex (getp params ''index''),
     assertBoundedString (getp params ''text'') ''params.text'' 100000 False,
     validateIntegerRange (getp params ''delayMs'') ''params.delayMs'' 0 1000,
     throw_if (greater_than (getp params ''delayMs'') 0
         \<and> length (code_points (str_of (getp params ''text''))) > 10000)
       (invalid ''params.text must contain at most 10000 characters when delayMs is non-zero''),
     validateInteractionOptions params]"

definition validatePress :: "jsval \<Rightarrow> jsval \<Rightarrow> unit res" where
  "validatePress params target = checks [
     validateParamsObject params,
     assertAllowedProperties params [''selector'', ''coordinates'', ''locator'', ''index'', ''key'', ''modifiers'',
       ''backend'', ''waitForNavigation''],
     validateElementAddress params target,
     validateIndex (getp params ''index''),
     assertBoundedString (getp params ''key'') ''params.key'' 100 False,
     throw_if (getp params ''modifiers'' \<noteq> Undefined
         \<and> (\<not> is_array (getp params ''modifiers'') \<or> length (elems (getp params ''modifiers'')) > 4
            \<or> \<not> distinct (elems (getp params ''modifiers''))
            \<or> list_ex (\<lambda>modifier. \<not> js_includes [''Alt'', ''Control'', ''Meta'', ''Shift''] modifier)
                (elems (getp params ''modifiers''))))
       (invalid ''params.modifiers contains invalid keys''),
     validateInteractionOptions params]"

definition validateSelect :: "jsval \<Rightarrow> jsval \<Rightarrow> unit res" where
  "validateSelect params target = checks [
     validateParamsObject params,
     assertAllowedProperties params [''selector'', ''coordinates'', ''locator'', ''index'', ''values'', ''backend'',
       ''waitForNavigation''],
     validateElementAddress params target,
     validateIndex (getp params ''index''),
     throw_if (\<not> is_array (getp params ''values'') \<or> elems (getp params ''values'') = []
         \<or> length (elems (getp params ''values'')) > 100
         \<or> list_ex (\<lambda>value. \<not> is_string value) (elems (getp params ''values'')))
       (invalid ''params.values must contain 1 to 100 strings''),
     validateInteractionOptions params,
     rejectCDPBackend params]"

definition validateSetChecked :: "jsval \<Rightarrow> jsval \<Rightarrow> unit res" where
  "validateSetChecked params target = checks [
     validateParamsObject params,
     assertAllowedProperties params [''selector'', ''coordinates'', ''locator'', ''index'', ''checked'', ''backend'',
       ''waitForNavigation''],
     validateElementAddress params target,
     validateIndex (getp params ''index''),
     validateOptionalBoolean (getp params ''checked'') ''params.checked'',
     validateInteractionOptions params]"

text \<open>\<open>Math.abs(v) > k\<close>.\<close>

definition abs_greater_than :: "jsval \<Rightarrow> rat \<Rightarrow> bool" where
  "abs_greater_than v k \<longleftrightarrow> greater_than v k \<or> less_than v (- k)"

definition validateScroll :: "jsval \<Rightarrow> jsval \<Rightarrow> unit res" where
  "validateScroll params target = checks [
     validateParamsObject params,
     assertAllowedProperties params [''selector'', ''coordinates'', ''locator'', ''index'', ''deltaX'', ''deltaY'',
       ''behavior'', ''backend'', ''waitForNavigation''],
     validateOptionalElementAddress params target,
     validateIndex (getp params ''index''),
     for_each (\<lambda>property.
         throw_if (getp params property \<noteq> Undefined
             \<and> (\<not> is_finite (getp params property) \<or> abs_greater_than (getp params property) 1000000))
           (invalid (''params.'' @ property @ '' is out of range'')))
       [''deltaX'', ''deltaY''],
     throw_if (\<not> truthy (getp params ''deltaX'') \<and> \<not> truthy (getp params ''deltaY''))
       (invalid ''A non-zero scroll delta is required''),
     validateEnum (getp params ''behavior'') ''params.behavior'' [''auto'', ''smooth''],
     validateInteractionOptions params,
     throw_if (getp params ''backend'' = jstr ''cdp'' \<and> getp params ''behavior'' = jstr ''smooth'')
       (invalid ''params.behavior smooth is unavailable with the cdp backend'')]"

definition validateDrag :: "jsval \<Rightarrow> jsval \<Rightarrow> unit res" where
  "validateDrag params target =
     (let targets = filter (\<lambda>value. value \<noteq> Undefined)
            [getp params ''targetLocator'', getp params ''targetCoordinates'']
      in checks [
        validateParamsObject params,
        assertAllowedProperties params [''source'', ''targetLocator'', ''targetCoordinates'', ''backend'',
          ''waitForNavigation''],
        validateLocator (getp params ''source'') target,
        throw_if (length targets \<noteq> 1)
          (invalid ''Exactly one drag target locator or coordinates is required''),
        only_if (getp params ''targetLocator'' \<noteq> Undefined)
          (validateLocator (getp params ''targetLocator'') target),
        only_if (getp params ''targetCoordinates'' \<noteq> Undefined)
          (validateLocator (obj [(''coordinates'', getp params ''targetCoordinates'')]) target),
        validateInteractionOptions params,
        rejectCDPBackend params])"

text \<open>\<open>/^[A-Za-z][A-Za-z0-9:_-]{0,99}$/\<close> and \<open>/^[A-Za-z0-9:_-]{1,200}$/\<close>.\<close>

definition is_name_unit :: "16 word \<Rightarrow> bool" where
  "is_name_unit u \<longleftrightarrow> is_alnum u \<or> u = 0x3A \<or> u = 0x5F \<or> u = 0x2D"

definition eventType_pattern :: "jsstr \<Rightarrow> bool" where
  "eventType_pattern s \<longleftrightarrow> s \<noteq> [] \<and> is_letter (hd s) \<and> list_all is_name_unit (tl s) \<and> length (tl s) \<le> 99"

definition attribute_pattern :: "jsstr \<Rightarrow> bool" where
  "attribute_pattern s \<longleftrightarrow> list_all is_name_unit s \<and> 1 \<le> length s \<and> length s \<le> 200"

definition validateDispatch :: "jsval \<Rightarrow> jsval \<Rightarrow> unit res" where
  "validateDispatch params target = checks [
     validateParamsObject params,
     assertAllowedProperties params [''selector'', ''coordinates'', ''locator'', ''index'', ''eventType'', ''detail'',
       ''backend'', ''waitForNavigation''],
     validateElementAddress params target,
     validateIndex (getp params ''index''),
     throw_if (\<not> is_string (getp params ''eventType'') \<or> \<not> eventType_pattern (str_of (getp params ''eventType'')))
       (invalid ''params.eventType is invalid''),
     throw_if (getp params ''detail'' \<noteq> Undefined
         \<and> (\<not> truthy (getp params ''detail'') \<or> \<not> typeof_object (getp params ''detail'')
            \<or> is_array (getp params ''detail'')))
       (invalid ''params.detail must be an object''),
     validateInteractionOptions params,
     rejectCDPBackend params]"

section \<open>Waits\<close>

definition validateStringWait :: "jsval \<Rightarrow> unit res" where
  "validateStringWait params = checks [
     assertBoundedString (getp params ''expected'') ''params.expected'' 100000 True,
     validateEnum (getp params ''matchOperator'') ''params.matchOperator'' [''equals'', ''contains''],
     validateOptionalBoolean (getp params ''caseSensitive'') ''params.caseSensitive'']"

text \<open>
  \<open>/(?:password|secret|token|credential|authorization|cookie|api[-_]?key)/i.test(s)\<close>, for an \<open>s\<close>
  that has passed the attribute pattern and so is ASCII.
\<close>

definition sensitive_words :: "string list" where
  "sensitive_words = [''password'', ''secret'', ''token'', ''credential'', ''authorization'', ''cookie'',
     ''apikey'', ''api-key'', ''api_key'']"

definition sensitive_attribute :: "jsstr \<Rightarrow> bool" where
  "sensitive_attribute s \<longleftrightarrow> list_ex (\<lambda>w. sublist (lit w) (map ascii_lower s)) sensitive_words"

definition waitCommon :: "string list" where
  "waitCommon = [''condition'', ''mode'', ''pollIntervalMs'']"

definition validateWait :: "jsval \<Rightarrow> jsval \<Rightarrow> unit res" where
  "validateWait params target =
     (let condition = getp params ''condition'' in checks [
     validateParamsObject params,
     validateEnum condition ''params.condition'' [''delay'', ''loadState'', ''url'', ''element'', ''text'', ''value'',
       ''count'', ''navigation'', ''networkIdle'', ''attribute''],
     throw_if (\<not> is_string condition) (invalid ''params.condition is required''),
     validateEnum (getp params ''mode'') ''params.mode'' [''auto'', ''polling'', ''event''],
     validateIntegerRange (getp params ''pollIntervalMs'') ''params.pollIntervalMs'' 25 1000,
     (if condition = jstr ''delay'' then checks [
        assertAllowedProperties params (waitCommon @ [''delayMs'']),
        requireIntegerRange (getp params ''delayMs'') ''params.delayMs'' 0 120000]
      else if condition = jstr ''loadState'' then checks [
        assertAllowedProperties params (waitCommon @ [''readyState'']),
        validateEnum (getp params ''readyState'') ''params.readyState'' [''interactive'', ''complete''],
        throw_if (getp params ''readyState'' = Undefined) (invalid ''params.readyState is required'')]
      else if condition = jstr ''url'' then
        (let addresses = filter (\<lambda>value. value \<noteq> Undefined) [getp params ''url'', getp params ''urlPattern'']
         in checks [
           assertAllowedProperties params (waitCommon @ [''url'', ''urlPattern'']),
           throw_if (length addresses \<noteq> 1)
             (invalid ''Exactly one of params.url or params.urlPattern is required''),
           assertBoundedString (hd addresses) ''URL wait value'' 4096 False])
      else if condition = jstr ''element'' then checks [
        assertAllowedProperties params (waitCommon @ [''locator'', ''elementState'']),
        validateLocator (getp params ''locator'') target,
        validateEnum (getp params ''elementState'') ''params.elementState''
          [''attached'', ''detached'', ''visible'', ''hidden'', ''enabled'', ''disabled''],
        throw_if (getp params ''elementState'' = Undefined) (invalid ''params.elementState is required'')]
      else if condition = jstr ''text'' then checks [
        assertAllowedProperties params (waitCommon @ [''locator'', ''expected'', ''matchOperator'',
          ''caseSensitive'']),
        only_if (getp params ''locator'' \<noteq> Undefined) (validateLocator (getp params ''locator'') target),
        validateStringWait params]
      else if condition = jstr ''value'' then checks [
        assertAllowedProperties params (waitCommon @ [''locator'', ''expected'', ''matchOperator'',
          ''caseSensitive'']),
        validateLocator (getp params ''locator'') target,
        validateStringWait params]
      else if condition = jstr ''count'' then checks [
        assertAllowedProperties params (waitCommon @ [''locator'', ''count'', ''countOperator'']),
        validateLocator (getp params ''locator'') target,
        requireIntegerRange (getp params ''count'') ''params.count'' 0 1000000,
        validateEnum (getp params ''countOperator'') ''params.countOperator''
          [''equals'', ''atLeast'', ''atMost'']]
      else if condition = jstr ''navigation'' then
        assertAllowedProperties params waitCommon
      else if condition = jstr ''networkIdle'' then checks [
        assertAllowedProperties params (waitCommon @ [''idleMs'']),
        requireIntegerRange (getp params ''idleMs'') ''params.idleMs'' 100 30000]
      else if condition = jstr ''attribute'' then checks [
        assertAllowedProperties params (waitCommon @ [''locator'', ''attribute'', ''attributeState'', ''expected'',
          ''caseSensitive'']),
        validateLocator (getp params ''locator'') target,
        throw_if (\<not> is_string (getp params ''attribute'')
            \<or> \<not> attribute_pattern (str_of (getp params ''attribute'')))
          (invalid ''params.attribute is invalid''),
        throw_if (sensitive_attribute (str_of (getp params ''attribute'')))
          (invalid ''params.attribute is sensitive''),
        validateEnum (getp params ''attributeState'') ''params.attributeState''
          [''present'', ''absent'', ''equals'', ''contains''],
        throw_if (getp params ''attributeState'' = Undefined) (invalid ''params.attributeState is required''),
        (if js_includes [''equals'', ''contains''] (getp params ''attributeState'') then
           assertBoundedString (getp params ''expected'') ''params.expected'' 100000 True
         else throw_if (getp params ''expected'' \<noteq> Undefined)
           (invalid ''params.expected is only valid for equals or contains attribute waits'')),
        validateOptionalBoolean (getp params ''caseSensitive'') ''params.caseSensitive'']
      else Inl (invalid ''params.condition is invalid''))])"

section \<open>Screenshots and PDF\<close>

definition validateScreenshot :: "jsval \<Rightarrow> jsval \<Rightarrow> unit res" where
  "validateScreenshot params target = checks [
     validateParamsObject params,
     assertAllowedProperties params [''capture'', ''locator'', ''format'', ''quality'', ''maxWidth'', ''maxHeight'',
       ''maxBytes''],
     validateAccessibilityTarget target,
     validateEnum (getp params ''capture'') ''params.capture'' [''viewport'', ''fullPage'', ''element''],
     (if js_or (getp params ''capture'') (jstr ''viewport'') = jstr ''element''
      then validateLocator (getp params ''locator'') target
      else throw_if (getp params ''locator'' \<noteq> Undefined)
        (invalid ''params.locator is only valid for element capture'')),
     validateEnum (getp params ''format'') ''params.format'' [''png'', ''jpeg''],
     validateIntegerRange (getp params ''quality'') ''params.quality'' 0 100,
     throw_if (getp params ''quality'' \<noteq> Undefined \<and> getp params ''format'' \<noteq> jstr ''jpeg'')
       (invalid ''params.quality is only valid for JPEG''),
     validateIntegerRange (getp params ''maxWidth'') ''params.maxWidth'' 1 16384,
     validateIntegerRange (getp params ''maxHeight'') ''params.maxHeight'' 1 16384,
     validateIntegerRange (getp params ''maxBytes'') ''params.maxBytes'' 1024 2000000]"

text \<open>
  \<open>s.split(c)\<close> for a single code unit, and \<open>/^(\d+)(?:\s*-\s*(\d+))?$/\<close> on a trimmed range: the
  first and last page. The pattern is deterministic, for no digit is a space or a hyphen.
\<close>

fun split_at :: "16 word \<Rightarrow> jsstr \<Rightarrow> jsstr list" where
  "split_at c [] = [[]]"
| "split_at c (u # s) = (if u = c then [] # split_at c s
                         else case split_at c s of [] \<Rightarrow> [[u]] | p # ps \<Rightarrow> (u # p) # ps)"

definition match_range :: "jsstr \<Rightarrow> (nat \<times> nat) option" where
  "match_range s =
     (let ds = takeWhile is_digit s; rest = dropWhile is_space (dropWhile is_digit s)
      in if ds = [] then None
         else if dropWhile is_digit s = [] then Some (dec_value ds, dec_value ds)
         else case rest of
                [] \<Rightarrow> None
              | u # rest' \<Rightarrow>
                  let es = dropWhile is_space rest'
                  in if u = 0x2D \<and> digit_string es then Some (dec_value ds, dec_value es) else None)"

definition valid_range :: "nat \<times> nat \<Rightarrow> bool" where
  "valid_range r \<longleftrightarrow> (case r of (start, end) \<Rightarrow> 1 \<le> start \<and> start \<le> end \<and> end \<le> 100000)"

definition validatePageRanges :: "jsval \<Rightarrow> unit res" where
  "validatePageRanges pageRanges =
     (if pageRanges = Undefined \<or> pageRanges = Str [] then ok
      else checks [
        throw_if (\<not> is_string pageRanges \<or> length (str_of pageRanges) > 256)
          (invalid ''params.pageRanges is too long''),
        throw_if (length (split_at 0x2C (str_of pageRanges)) > 50)
          (invalid ''params.pageRanges contains too many ranges''),
        for_each (\<lambda>range.
            throw_if (case match_range (trim range) of None \<Rightarrow> True | Some r \<Rightarrow> \<not> valid_range r)
              (invalid ''params.pageRanges is invalid''))
          (split_at 0x2C (str_of pageRanges))])"

text \<open>\<open>v ?? d\<close> for a margin or a paper size that has passed its range check, and the rounded sum.\<close>

definition number_or :: "jsval \<Rightarrow> rat \<Rightarrow> rat" where
  "number_or v d = (case v of Num (Fin r) \<Rightarrow> r | _ \<Rightarrow> d)"

definition validatePrintToPDF :: "jsval \<Rightarrow> jsval \<Rightarrow> unit res" where
  "validatePrintToPDF params target =
     (let paperWidth = number_or (getp params ''paperWidth'') (17/2);
          paperHeight = number_or (getp params ''paperHeight'') 11;
          margin = (\<lambda>field. number_or (getp params field) (fl (4/10)))
      in checks [
        validateParamsObject params,
        validateOptionalTabTarget target,
        assertAllowedProperties params [''landscape'', ''printBackground'', ''scale'', ''paperWidth'',
          ''paperHeight'', ''marginTop'', ''marginBottom'', ''marginLeft'', ''marginRight'', ''pageRanges'',
          ''preferCSSPageSize'', ''maxBytes''],
        validateOptionalBoolean (getp params ''landscape'') ''params.landscape'',
        validateOptionalBoolean (getp params ''printBackground'') ''params.printBackground'',
        validateOptionalBoolean (getp params ''preferCSSPageSize'') ''params.preferCSSPageSize'',
        validateNumberRange (getp params ''scale'') ''params.scale'' (fl (1/10)) 2,
        validateNumberRange (getp params ''paperWidth'') ''params.paperWidth'' 1 200,
        validateNumberRange (getp params ''paperHeight'') ''params.paperHeight'' 1 200,
        for_each (\<lambda>field. validateNumberRange (getp params field) (''params.'' @ field) 0 10)
          [''marginTop'', ''marginBottom'', ''marginLeft'', ''marginRight''],
        validatePageRanges (getp params ''pageRanges''),
        validateIntegerRange (getp params ''maxBytes'') ''params.maxBytes'' 1024 2000000,
        throw_if (fl (margin ''marginLeft'' + margin ''marginRight'') \<ge> paperWidth)
          (invalid ''Horizontal PDF margins exceed paper width''),
        throw_if (fl (margin ''marginTop'' + margin ''marginBottom'') \<ge> paperHeight)
          (invalid ''Vertical PDF margins exceed paper height'')])"

section \<open>What they throw\<close>

lemma page_helper_faults [fault_intros]:
  "thrown_in caller_fault (validateSimpleAction v t)"
  "thrown_in caller_fault (validateStringWait v)"
  "thrown_in caller_fault (validatePageRanges v)"
  unfolding validateSimpleAction_def validateStringWait_def validatePageRanges_def
  by (intro fault_intros; simp)+

lemma root_frame_target_faults [fault_intros]:
  "thrown_in caller_fault (validateEmulationTarget t)"
  "thrown_in caller_fault (validateEvaluationTarget t)"
  "thrown_in caller_fault (validateRawCDPTarget t)"
  "thrown_in caller_fault (validatePerformanceTarget t)"
  "thrown_in caller_fault (validateNetworkTarget t)"
  "thrown_in caller_fault (validateCookieTarget t)"
  "thrown_in caller_fault (validateAccessibilityTarget t)"
  unfolding root_frame_targets by (rule composite_faults)+

lemma page_faults [fault_intros]:
  "thrown_in caller_fault (validateSelector v t)"
  "thrown_in caller_fault (validateGetHTML v t)"
  "thrown_in caller_fault (validateGetText v t)"
  "thrown_in caller_fault (validateQuery v t)"
  "thrown_in caller_fault (validateGetElement v t)"
  "thrown_in caller_fault (validateSnapshot v t)"
  "thrown_in caller_fault (validateAction v t)"
  "thrown_in caller_fault (validateFill v t)"
  "thrown_in caller_fault (validateContentOnlySimpleAction v t)"
  "thrown_in caller_fault (validateType v t)"
  "thrown_in caller_fault (validatePress v t)"
  "thrown_in caller_fault (validateSelect v t)"
  "thrown_in caller_fault (validateSetChecked v t)"
  "thrown_in caller_fault (validateScroll v t)"
  "thrown_in caller_fault (validateDrag v t)"
  "thrown_in caller_fault (validateDispatch v t)"
  "thrown_in caller_fault (validateScreenshot v t)"
  "thrown_in caller_fault (validatePrintToPDF v t)"
  unfolding validateSelector_def validateGetHTML_def validateGetText_def validateQuery_def
    validateGetElement_def validateSnapshot_def validateAction_def validateFill_def
    validateContentOnlySimpleAction_def validateType_def validatePress_def validateSelect_def
    validateSetChecked_def validateScroll_def validateDrag_def validateDispatch_def
    validateScreenshot_def validatePrintToPDF_def Let_def
  by (intro fault_intros; simp)+

lemma validateWait_fault [fault_intros]: "thrown_in caller_fault (validateWait v t)"
  unfolding validateWait_def Let_def by (intro fault_intros thrown_in_Inl [THEN iffD2]; simp)+

end
