(* ===== verification/Inspection_Commands.thy ===== *)
theory Inspection_Commands
  imports Page_Commands
begin

text \<open>
  The validators of the commands of \<open>chrome-extension/src/command-router.js\<close> that go through the
  debugger or the page console: accessibility trees, emulation, evaluation, the read-only CDP
  subset, performance, network capture and console capture.
\<close>

section \<open>Accessibility\<close>

definition validateAccessibilityTree :: "platform \<Rightarrow> jsval \<Rightarrow> jsval \<Rightarrow> unit res" where
  "validateAccessibilityTree P params target = checks [
     validateParamsObject params,
     validateAccessibilityTarget target,
     assertAllowedProperties params [''mode'', ''backendNodeId'', ''fetchRelatives'', ''roles'', ''nameContains'',
       ''includeIgnored'', ''includeLocators'', ''includeElementReferences'', ''maxDepth'', ''maxNodes'',
       ''maxProperties'', ''maxValueChars'', ''maxElementReferences'', ''maxBytes''],
     throw_if (\<not> js_includes [''full'', ''partial''] (getp params ''mode''))
       (invalid ''params.mode must be full or partial''),
     (if getp params ''mode'' = jstr ''full'' then checks [
        requireIntegerRange (getp params ''maxDepth'') ''params.maxDepth'' 0 50,
        throw_if (getp params ''backendNodeId'' \<noteq> Undefined \<or> getp params ''fetchRelatives'' \<noteq> Undefined)
          (invalid ''backendNodeId and fetchRelatives require partial mode'')]
      else if getp params ''mode'' = jstr ''partial'' then checks [
        requireIntegerRange (getp params ''backendNodeId'') ''params.backendNodeId'' 1 MAX_SAFE_INTEGER,
        throw_if (\<not> is_boolean (getp params ''fetchRelatives'') \<or> getp params ''maxDepth'' \<noteq> Undefined)
          (invalid ''partial mode requires fetchRelatives and does not accept maxDepth'')]
      else ok),
     throw_if (\<not> is_array (getp params ''roles'') \<or> length (elems (getp params ''roles'')) > 50
         \<or> list_ex (\<lambda>role. \<not> is_string role \<or> length (str_of role) > 100 \<or> trim (str_of role) = []
              \<or> str_of role \<noteq> toLocaleLowerCase P (trim (str_of role))) (elems (getp params ''roles''))
         \<or> \<not> distinct (elems (getp params ''roles'')))
       (invalid ''params.roles contains invalid values''),
     assertBoundedString (getp params ''nameContains'') ''params.nameContains'' 500 True,
     for_each (\<lambda>field. requireBoolean (getp params field) (''params.'' @ field))
       [''includeIgnored'', ''includeLocators'', ''includeElementReferences''],
     requireIntegerRange (getp params ''maxNodes'') ''params.maxNodes'' 1 5000,
     requireIntegerRange (getp params ''maxProperties'') ''params.maxProperties'' 0 50,
     requireIntegerRange (getp params ''maxValueChars'') ''params.maxValueChars'' 1 2000,
     requireIntegerRange (getp params ''maxElementReferences'') ''params.maxElementReferences'' 0 100,
     requireIntegerRange (getp params ''maxBytes'') ''params.maxBytes'' (64 * 1024) 1500000,
     throw_if (\<not> truthy (getp params ''includeElementReferences'')
         \<and> getp params ''maxElementReferences'' \<noteq> jnum 0)
       (invalid ''maxElementReferences must be zero when element references are disabled'')]"

section \<open>Emulation\<close>

definition validateNonEmptyEmulationObject :: "jsval \<Rightarrow> string \<Rightarrow> string list \<Rightarrow> unit res" where
  "validateNonEmptyEmulationObject value name allowed = checks [
     validateParamsObject value,
     assertAllowedProperties value allowed,
     throw_if (object_keys value = []) (invalid (''params.'' @ name @ '' must not be empty''))]"

text \<open>A control character: a code point below 32, or 127.\<close>

definition has_control :: "jsstr \<Rightarrow> bool" where
  "has_control s \<longleftrightarrow> list_ex (\<lambda>c. c < 32 \<or> c = 127) (code_points s)"

definition validateSafeEmulationString :: "jsval \<Rightarrow> string \<Rightarrow> nat \<Rightarrow> nat \<Rightarrow> unit res" where
  "validateSafeEmulationString value path minimum maximum =
     (if value = Undefined \<and> minimum = 0 then ok
      else throw_if (\<not> is_string value \<or> length (str_of value) < minimum \<or> length (str_of value) > maximum
             \<or> str_of value \<noteq> trim (str_of value) \<or> has_control (str_of value))
           (invalid (path @ '' contains invalid characters or length'')))"

text \<open>\<open>/^[A-Za-z]{2,8}(?:[_-][A-Za-z0-9]{1,8})*$/\<close>: the subtags between the separators, and
  \<open>/^[A-Za-z0-9_+./-]+$/\<close>.\<close>

fun split_when :: "('a \<Rightarrow> bool) \<Rightarrow> 'a list \<Rightarrow> 'a list list" where
  "split_when p [] = [[]]"
| "split_when p (u # s) = (if p u then [] # split_when p s
                           else case split_when p s of [] \<Rightarrow> [[u]] | q # qs \<Rightarrow> (u # q) # qs)"

definition locale_pattern :: "jsstr \<Rightarrow> bool" where
  "locale_pattern s =
     (case split_when (\<lambda>u. u = 0x5F \<or> u = 0x2D) s of
        [] \<Rightarrow> False
      | q # qs \<Rightarrow> list_all is_letter q \<and> 2 \<le> length q \<and> length q \<le> 8
          \<and> list_all (\<lambda>r. list_all is_alnum r \<and> 1 \<le> length r \<and> length r \<le> 8) qs)"

definition timezone_pattern :: "jsstr \<Rightarrow> bool" where
  "timezone_pattern s \<longleftrightarrow> s \<noteq> []
     \<and> list_all (\<lambda>u. is_alnum u \<or> u \<in> {0x5F, 0x2B, 0x2E, 0x2F, 0x2D}) s"

definition validateEmulationSet :: "jsval \<Rightarrow> jsval \<Rightarrow> unit res" where
  "validateEmulationSet params target =
     (let fields = [''viewport'', ''touch'', ''network'', ''userAgent'', ''locale'', ''timezoneId'', ''geolocation'',
            ''media''];
          viewport = getp params ''viewport''; touch = getp params ''touch'';
          network = getp params ''network''; userAgent = getp params ''userAgent'';
          locale = getp params ''locale''; timezoneId = getp params ''timezoneId'';
          geolocation = getp params ''geolocation''; media = getp params ''media''
      in checks [
     validateParamsObject params,
     validateEmulationTarget target,
     assertAllowedProperties params fields,
     throw_if (\<not> list_ex (\<lambda>field. getp params field \<noteq> Undefined) fields)
       (invalid ''At least one emulation setting is required''),
     only_if (viewport \<noteq> Undefined) (checks [
       validateParamsObject viewport,
       assertAllowedProperties viewport [''width'', ''height'', ''deviceScaleFactor'', ''mobile'', ''orientation''],
       requireIntegerRange (getp viewport ''width'') ''params.viewport.width'' 1 10000,
       requireIntegerRange (getp viewport ''height'') ''params.viewport.height'' 1 10000,
       requireNumberRange (getp viewport ''deviceScaleFactor'') ''params.viewport.deviceScaleFactor''
         (fl (1/10)) 10,
       requireBoolean (getp viewport ''mobile'') ''params.viewport.mobile'',
       validateEnum (getp viewport ''orientation'') ''params.viewport.orientation''
         [''portraitPrimary'', ''portraitSecondary'', ''landscapePrimary'', ''landscapeSecondary'']]),
     only_if (touch \<noteq> Undefined) (checks [
       validateParamsObject touch,
       assertAllowedProperties touch [''enabled'', ''maxTouchPoints''],
       requireBoolean (getp touch ''enabled'') ''params.touch.enabled'',
       validateIntegerRange (getp touch ''maxTouchPoints'') ''params.touch.maxTouchPoints'' 1 10,
       throw_if (\<not> truthy (getp touch ''enabled'') \<and> getp touch ''maxTouchPoints'' \<noteq> Undefined)
         (invalid ''params.touch.maxTouchPoints requires enabled touch'')]),
     only_if (network \<noteq> Undefined) (checks [
       validateNonEmptyEmulationObject network ''network''
         [''offline'', ''latencyMs'', ''downloadKbps'', ''uploadKbps'', ''connectionType''],
       validateOptionalBoolean (getp network ''offline'') ''params.network.offline'',
       validateNumberRange (getp network ''latencyMs'') ''params.network.latencyMs'' 0 300000,
       validateNumberRange (getp network ''downloadKbps'') ''params.network.downloadKbps'' 0 10000000,
       validateNumberRange (getp network ''uploadKbps'') ''params.network.uploadKbps'' 0 10000000,
       validateEnum (getp network ''connectionType'') ''params.network.connectionType''
         [''none'', ''cellular2g'', ''cellular3g'', ''cellular4g'', ''bluetooth'', ''ethernet'', ''wifi'', ''wimax'',
          ''other'']]),
     only_if (userAgent \<noteq> Undefined) (checks [
       validateParamsObject userAgent,
       assertAllowedProperties userAgent [''value'', ''acceptLanguage'', ''platform''],
       validateSafeEmulationString (getp userAgent ''value'') ''params.userAgent.value'' 1 1000,
       validateSafeEmulationString (getp userAgent ''acceptLanguage'') ''params.userAgent.acceptLanguage'' 0 200,
       validateSafeEmulationString (getp userAgent ''platform'') ''params.userAgent.platform'' 0 100]),
     only_if (locale \<noteq> Undefined)
       (throw_if (\<not> is_string locale \<or> length (str_of locale) > 100
           \<or> str_of locale \<noteq> trim (str_of locale) \<or> \<not> locale_pattern (str_of locale))
         (invalid ''params.locale is invalid'')),
     only_if (timezoneId \<noteq> Undefined)
       (throw_if (\<not> is_string timezoneId \<or> length (str_of timezoneId) > 100
           \<or> str_of timezoneId \<noteq> trim (str_of timezoneId) \<or> \<not> timezone_pattern (str_of timezoneId))
         (invalid ''params.timezoneId is invalid'')),
     only_if (geolocation \<noteq> Undefined) (checks [
       validateParamsObject geolocation,
       assertAllowedProperties geolocation [''latitude'', ''longitude'', ''accuracy'', ''altitude'', ''heading'',
         ''speed''],
       requireNumberRange (getp geolocation ''latitude'') ''params.geolocation.latitude'' (-90) 90,
       requireNumberRange (getp geolocation ''longitude'') ''params.geolocation.longitude'' (-180) 180,
       requireNumberRange (getp geolocation ''accuracy'') ''params.geolocation.accuracy'' 0 1000000,
       validateNumberRange (getp geolocation ''altitude'') ''params.geolocation.altitude'' (-10000) 100000,
       validateNumberRange (getp geolocation ''heading'') ''params.geolocation.heading'' 0 360,
       validateNumberRange (getp geolocation ''speed'') ''params.geolocation.speed'' 0 1000000]),
     only_if (media \<noteq> Undefined) (checks [
       validateNonEmptyEmulationObject media ''media''
         [''type'', ''colorScheme'', ''reducedMotion'', ''forcedColors'', ''contrast''],
       validateEnum (getp media ''type'') ''params.media.type'' [''screen'', ''print''],
       validateEnum (getp media ''colorScheme'') ''params.media.colorScheme''
         [''light'', ''dark'', ''no-preference''],
       validateEnum (getp media ''reducedMotion'') ''params.media.reducedMotion''
         [''reduce'', ''no-preference''],
       validateEnum (getp media ''forcedColors'') ''params.media.forcedColors'' [''active'', ''none''],
       validateEnum (getp media ''contrast'') ''params.media.contrast''
         [''more'', ''less'', ''custom'', ''no-preference'']])])"

definition validateEmulationEmpty :: "jsval \<Rightarrow> jsval \<Rightarrow> unit res" where
  "validateEmulationEmpty params target = checks [
     validateEmpty params,
     validateEmulationTarget target]"

definition validateEmulationReset :: "jsval \<Rightarrow> jsval \<Rightarrow> unit res" where
  "validateEmulationReset params target = checks [
     validateEmpty params,
     validateEmulationTarget target,
     throw_if (getp target ''documentId'' \<noteq> Undefined) (invalid ''Emulation reset is tab-scoped'')]"

section \<open>Evaluation and the read-only CDP subset\<close>

definition validateEvaluation :: "jsval \<Rightarrow> jsval \<Rightarrow> unit res" where
  "validateEvaluation params target = checks [
     validateParamsObject params,
     validateEvaluationTarget target,
     assertAllowedProperties params [''expression'', ''awaitPromise'', ''maxDepth'', ''maxNodes'', ''maxStringChars'',
       ''maxBytes''],
     assertBoundedString (getp params ''expression'') ''params.expression'' 32768 False,
     requireBoolean (getp params ''awaitPromise'') ''params.awaitPromise'',
     requireIntegerRange (getp params ''maxDepth'') ''params.maxDepth'' 0 10,
     requireIntegerRange (getp params ''maxNodes'') ''params.maxNodes'' 1 5000,
     requireIntegerRange (getp params ''maxStringChars'') ''params.maxStringChars'' 1 100000,
     requireIntegerRange (getp params ''maxBytes'') ''params.maxBytes'' (64 * 1024) 1000000]"

definition RAW_CDP_METHODS :: "string list" where
  "RAW_CDP_METHODS = [''Accessibility.getFullAXTree'', ''Accessibility.getPartialAXTree'',
     ''Accessibility.queryAXTree'', ''DOM.describeNode'', ''DOM.getBoxModel'', ''Page.getLayoutMetrics'',
     ''Performance.getMetrics'']"

definition rawCDPAllowed :: "jsval \<Rightarrow> string list" where
  "rawCDPAllowed method =
     (if method = jstr ''Accessibility.getFullAXTree'' then [''depth'']
      else if method = jstr ''Accessibility.getPartialAXTree'' then [''backendNodeId'', ''fetchRelatives'']
      else if method = jstr ''Accessibility.queryAXTree'' then [''backendNodeId'', ''accessibleName'', ''role'']
      else if method = jstr ''DOM.describeNode'' then [''backendNodeId'', ''depth'']
      else if method = jstr ''DOM.getBoxModel'' then [''backendNodeId'']
      else [])"

definition validateRawCDP :: "jsval \<Rightarrow> jsval \<Rightarrow> unit res" where
  "validateRawCDP params target =
     (let method = getp params ''method''; inner = getp params ''params'' in checks [
     validateParamsObject params,
     validateRawCDPTarget target,
     assertAllowedProperties params [''method'', ''params'', ''maxDepth'', ''maxNodes'', ''maxStringChars'',
       ''maxBytes''],
     throw_if (\<not> js_includes RAW_CDP_METHODS method)
       (fault INVALID_COMMAND [Txt ''params.method is not allowlisted'']),
     requireIntegerRange (getp params ''maxDepth'') ''params.maxDepth'' 1 20,
     requireIntegerRange (getp params ''maxNodes'') ''params.maxNodes'' 2 5000,
     requireIntegerRange (getp params ''maxStringChars'') ''params.maxStringChars'' 1 10000,
     requireIntegerRange (getp params ''maxBytes'') ''params.maxBytes'' (64 * 1024) 1000000,
     validateParamsObject inner,
     assertAllowedProperties inner (rawCDPAllowed method),
     only_if (js_includes [''Accessibility.getPartialAXTree'', ''Accessibility.queryAXTree'', ''DOM.describeNode'',
         ''DOM.getBoxModel''] method)
       (requireIntegerRange (getp inner ''backendNodeId'') ''params.params.backendNodeId'' 1 MAX_SAFE_INTEGER),
     only_if (method = jstr ''Accessibility.getPartialAXTree'')
       (validateOptionalBoolean (getp inner ''fetchRelatives'') ''params.params.fetchRelatives''),
     only_if (method = jstr ''Accessibility.queryAXTree'') (checks [
       assertOptionalBoundedString (getp inner ''accessibleName'') ''params.params.accessibleName'' 500,
       assertOptionalBoundedString (getp inner ''role'') ''params.params.role'' 100]),
     only_if (method = jstr ''Accessibility.getFullAXTree'')
       (validateIntegerRange (getp inner ''depth'') ''params.params.depth'' 0 50),
     only_if (method = jstr ''DOM.describeNode'')
       (validateIntegerRange (getp inner ''depth'') ''params.params.depth'' 0 10)])"

section \<open>Performance\<close>

definition validatePerformanceMetrics :: "jsval \<Rightarrow> jsval \<Rightarrow> unit res" where
  "validatePerformanceMetrics params target = checks [
     validateEmpty params,
     validatePerformanceTarget target]"

definition validatePerformanceCapture :: "jsval \<Rightarrow> jsval \<Rightarrow> unit res" where
  "validatePerformanceCapture params target = checks [
     validateParamsObject params,
     validatePerformanceTarget target,
     assertAllowedProperties params [''kind'', ''durationMs'', ''maxBytes''],
     throw_if (\<not> js_includes [''trace'', ''coverage'', ''cpuProfile'', ''audits''] (getp params ''kind''))
       (fault INVALID_COMMAND [Txt ''params.kind is not allowlisted'']),
     requireIntegerRange (getp params ''durationMs'') ''params.durationMs'' 100 10000,
     requireIntegerRange (getp params ''maxBytes'') ''params.maxBytes'' (64 * 1024) 2000000]"

section \<open>Network capture\<close>

definition NETWORK_RESOURCE_TYPES :: "string list" where
  "NETWORK_RESOURCE_TYPES = [''Document'', ''Stylesheet'', ''Image'', ''Media'', ''Font'', ''Script'', ''TextTrack'',
     ''XHR'', ''Fetch'', ''Prefetch'', ''EventSource'', ''WebSocket'', ''Manifest'', ''SignedExchange'', ''Ping'',
     ''CSPViolationReport'', ''Preflight'', ''Other'']"

text \<open>A cursor or entry id: a digit string for a positive safe integer.\<close>

definition positive_id :: "jsval \<Rightarrow> bool" where
  "positive_id v \<longleftrightarrow> is_string v \<and> digit_string (str_of v) \<and> 1 \<le> dec_value (str_of v)
     \<and> of_nat (dec_value (str_of v)) \<le> MAX_SAFE_INTEGER"

definition validateNetworkStart :: "jsval \<Rightarrow> jsval \<Rightarrow> unit res" where
  "validateNetworkStart params target = checks [
     validateParamsObject params,
     validateNetworkTarget target,
     assertAllowedProperties params [''maxEntries''],
     requireIntegerRange (getp params ''maxEntries'') ''params.maxEntries'' 1 5000]"

definition validateNetworkEmpty :: "jsval \<Rightarrow> jsval \<Rightarrow> unit res" where
  "validateNetworkEmpty params target = checks [
     validateEmpty params,
     validateNetworkTarget target]"

text \<open>\<open>/^\d{4}-\d{2}-\d{2}T/\<close>.\<close>

definition date_prefix :: "jsstr \<Rightarrow> bool" where
  "date_prefix s \<longleftrightarrow> length s \<ge> 11 \<and> list_all is_digit (take 4 s) \<and> s ! 4 = 0x2D
     \<and> list_all is_digit (take 2 (drop 5 s)) \<and> s ! 7 = 0x2D
     \<and> list_all is_digit (take 2 (drop 8 s)) \<and> s ! 10 = 0x54"

definition is_date :: "platform \<Rightarrow> jsstr \<Rightarrow> bool" where
  "is_date P s = (case dateParse P s of Fin _ \<Rightarrow> True | _ \<Rightarrow> False)"

definition validateNetworkRead :: "platform \<Rightarrow> jsval \<Rightarrow> jsval \<Rightarrow> unit res" where
  "validateNetworkRead P params target = checks [
     validateParamsObject params,
     validateNetworkTarget target,
     assertAllowedProperties params [''cursor'', ''limit'', ''resourceTypes'', ''failedOnly'', ''statusMin'',
       ''statusMax'', ''since'', ''maxBytes''],
     requireIntegerRange (getp params ''limit'') ''params.limit'' 1 200,
     requireIntegerRange (getp params ''maxBytes'') ''params.maxBytes'' (64 * 1024) 1000000,
     throw_if (getp params ''cursor'' \<noteq> Undefined \<and> \<not> positive_id (getp params ''cursor''))
       (invalid ''params.cursor is invalid''),
     throw_if (getp params ''resourceTypes'' \<noteq> Undefined
         \<and> (\<not> is_array (getp params ''resourceTypes'')
            \<or> length (elems (getp params ''resourceTypes'')) > length NETWORK_RESOURCE_TYPES
            \<or> \<not> distinct (elems (getp params ''resourceTypes''))
            \<or> list_ex (\<lambda>value. \<not> js_includes NETWORK_RESOURCE_TYPES value)
                (elems (getp params ''resourceTypes''))))
       (invalid ''params.resourceTypes is invalid''),
     validateOptionalBoolean (getp params ''failedOnly'') ''params.failedOnly'',
     validateIntegerRange (getp params ''statusMin'') ''params.statusMin'' 100 599,
     validateIntegerRange (getp params ''statusMax'') ''params.statusMax'' 100 599,
     throw_if (getp params ''statusMin'' \<noteq> Undefined \<and> getp params ''statusMax'' \<noteq> Undefined
         \<and> num_lt (num_of (getp params ''statusMax'')) (num_of (getp params ''statusMin'')))
       (invalid ''Network status bounds are invalid''),
     throw_if (getp params ''since'' \<noteq> Undefined
         \<and> (\<not> is_string (getp params ''since'') \<or> \<not> date_prefix (str_of (getp params ''since''))
            \<or> \<not> is_date P (str_of (getp params ''since''))))
       (invalid ''params.since must be an RFC 3339 timestamp'')]"

definition validateNetworkBody :: "jsval \<Rightarrow> jsval \<Rightarrow> unit res" where
  "validateNetworkBody params target = checks [
     validateParamsObject params,
     validateNetworkTarget target,
     assertAllowedProperties params [''entryId'', ''direction'', ''maxBytes''],
     throw_if (\<not> positive_id (getp params ''entryId'')) (invalid ''params.entryId is invalid''),
     validateEnum (getp params ''direction'') ''params.direction'' [''request'', ''response''],
     requireIntegerRange (getp params ''maxBytes'') ''params.maxBytes'' 1024 1000000]"

definition validateNetworkHAR :: "jsval \<Rightarrow> jsval \<Rightarrow> unit res" where
  "validateNetworkHAR params target = checks [
     validateParamsObject params,
     validateNetworkTarget target,
     assertAllowedProperties params [''maxBytes''],
     requireIntegerRange (getp params ''maxBytes'') ''params.maxBytes'' (64 * 1024) 2000000]"

section \<open>Console capture\<close>

definition validateConsoleStart :: "jsval \<Rightarrow> jsval \<Rightarrow> unit res" where
  "validateConsoleStart params target = checks [
     validateParamsObject params,
     validateConsoleTarget target,
     assertAllowedProperties params [''bufferSize'', ''captureConsole'', ''captureErrors''],
     validateIntegerRange (getp params ''bufferSize'') ''params.bufferSize'' 1 5000,
     validateOptionalBoolean (getp params ''captureConsole'') ''params.captureConsole'',
     validateOptionalBoolean (getp params ''captureErrors'') ''params.captureErrors'',
     throw_if (getp params ''captureConsole'' = Bool False \<and> getp params ''captureErrors'' = Bool False)
       (invalid ''At least one capture source must be enabled'')]"

definition validateConsoleEmpty :: "jsval \<Rightarrow> jsval \<Rightarrow> unit res" where
  "validateConsoleEmpty params target = checks [
     validateEmpty params,
     validateConsoleTarget target]"

definition validateConsoleCursor :: "jsval \<Rightarrow> unit res" where
  "validateConsoleCursor cursor =
     (if cursor = Undefined then ok
      else throw_if (\<not> is_string cursor \<or> \<not> digit_string (str_of cursor)
             \<or> of_nat (dec_value (str_of cursor)) > MAX_SAFE_INTEGER)
           (invalid ''params.cursor is out of range''))"

definition validateConsoleRead :: "platform \<Rightarrow> jsval \<Rightarrow> jsval \<Rightarrow> unit res" where
  "validateConsoleRead P params target = checks [
     validateParamsObject params,
     validateConsoleTarget target,
     assertAllowedProperties params [''levels'', ''kinds'', ''cursor'', ''limit'', ''since''],
     validateEnumArray (getp params ''levels'') ''params.levels''
       [''debug'', ''log'', ''info'', ''warn'', ''error''],
     validateEnumArray (getp params ''kinds'') ''params.kinds''
       [''console'', ''exception'', ''unhandledRejection'', ''resourceError''],
     validateConsoleCursor (getp params ''cursor''),
     validateIntegerRange (getp params ''limit'') ''params.limit'' 1 200,
     throw_if (getp params ''since'' \<noteq> Undefined
         \<and> (\<not> is_string (getp params ''since'') \<or> length (str_of (getp params ''since'')) > 100
            \<or> \<not> is_date P (str_of (getp params ''since''))))
       (invalid ''params.since must be an RFC 3339 timestamp'')]"

section \<open>What they throw\<close>

lemma inspection_helper_faults [fault_intros]:
  "thrown_in caller_fault (validateNonEmptyEmulationObject v name allowed)"
  "thrown_in caller_fault (validateSafeEmulationString v p m n)"
  "thrown_in caller_fault (validateConsoleCursor v)"
  unfolding validateNonEmptyEmulationObject_def validateSafeEmulationString_def validateConsoleCursor_def
  by (intro fault_intros; simp)+

lemma inspection_faults [fault_intros]:
  "thrown_in caller_fault (validateAccessibilityTree P v t)"
  "thrown_in caller_fault (validateEmulationEmpty v t)"
  "thrown_in caller_fault (validateEmulationReset v t)"
  "thrown_in caller_fault (validateEvaluation v t)"
  "thrown_in caller_fault (validateRawCDP v t)"
  "thrown_in caller_fault (validatePerformanceMetrics v t)"
  "thrown_in caller_fault (validatePerformanceCapture v t)"
  "thrown_in caller_fault (validateNetworkStart v t)"
  "thrown_in caller_fault (validateNetworkEmpty v t)"
  "thrown_in caller_fault (validateNetworkRead P v t)"
  "thrown_in caller_fault (validateNetworkBody v t)"
  "thrown_in caller_fault (validateNetworkHAR v t)"
  "thrown_in caller_fault (validateConsoleStart v t)"
  "thrown_in caller_fault (validateConsoleEmpty v t)"
  "thrown_in caller_fault (validateConsoleRead P v t)"
  unfolding validateAccessibilityTree_def validateEmulationEmpty_def validateEmulationReset_def
    validateEvaluation_def validateRawCDP_def validatePerformanceMetrics_def
    validatePerformanceCapture_def validateNetworkStart_def validateNetworkEmpty_def
    validateNetworkRead_def validateNetworkBody_def validateNetworkHAR_def validateConsoleStart_def
    validateConsoleEmpty_def validateConsoleRead_def Let_def
  by (intro fault_intros; simp)+

lemma validateEmulationSet_fault [fault_intros]: "thrown_in caller_fault (validateEmulationSet v t)"
  unfolding validateEmulationSet_def Let_def by (intro fault_intros; simp)+

end
