(* ===== verification/Data_Commands.thy ===== *)
theory Data_Commands
  imports Inspection_Commands
begin

text \<open>
  The validators of the commands of \<open>chrome-extension/src/command-router.js\<close> on the user's data:
  cookies, origin storage, downloads, history, bookmarks and the reading list.
\<close>

section \<open>Cookies\<close>

definition validateCookieURL :: "platform \<Rightarrow> jsval \<Rightarrow> string \<Rightarrow> unit res" where
  "validateCookieURL P value path =
     (case parseURL P value of
        None \<Rightarrow> Inl (invalid (path @ '' is invalid''))
      | Some parsed \<Rightarrow>
          throw_if (\<not> is_string value \<or> length (str_of value) > 8192
              \<or> url_protocol parsed \<notin> {lit ''http:'', lit ''https:''}
              \<or> url_username parsed \<noteq> [] \<or> url_password parsed \<noteq> [] \<or> url_hash parsed \<noteq> [])
            (invalid (path @ '' must be a safe HTTP(S) URL'')))"

text \<open>\<open>/^[!#$%&'*+\-.^_`|~0-9A-Za-z]+$/\<close>, the token characters of a cookie name.\<close>

definition is_cookie_unit :: "16 word \<Rightarrow> bool" where
  "is_cookie_unit u \<longleftrightarrow> is_alnum u
     \<or> u \<in> {0x21, 0x23, 0x24, 0x25, 0x26, 0x27, 0x2A, 0x2B, 0x2D, 0x2E, 0x5E, 0x5F, 0x60, 0x7C, 0x7E}"

definition validateCookieName :: "jsval \<Rightarrow> string \<Rightarrow> unit res" where
  "validateCookieName value path =
     throw_if (\<not> is_string value \<or> length (str_of value) < 1 \<or> length (str_of value) > 256
         \<or> \<not> list_all is_cookie_unit (str_of value))
       (invalid (path @ '' is invalid''))"

definition validateOptionalCookieName :: "jsval \<Rightarrow> string \<Rightarrow> unit res" where
  "validateOptionalCookieName value path = only_if (value \<noteq> Undefined) (validateCookieName value path)"

definition hasCookieControl :: "jsstr \<Rightarrow> bool" where
  "hasCookieControl value \<longleftrightarrow> list_ex (\<lambda>code. code < 32 \<or> code = 127) (code_points value)"

definition validateOptionalCookiePath :: "jsval \<Rightarrow> string \<Rightarrow> unit res" where
  "validateOptionalCookiePath value path =
     throw_if (value \<noteq> Undefined
         \<and> (\<not> is_string value \<or> \<not> prefix (lit ''/'') (str_of value) \<or> length (str_of value) > 2048
            \<or> sublist (lit '';'') (str_of value) \<or> hasCookieControl (str_of value)))
       (invalid (path @ '' is invalid''))"

definition validateOptionalBoundedString :: "jsval \<Rightarrow> string \<Rightarrow> nat \<Rightarrow> unit res" where
  "validateOptionalBoundedString value path maximum =
     throw_if (value \<noteq> Undefined
         \<and> (\<not> is_string value \<or> length (str_of value) > maximum \<or> hasCookieControl (str_of value)))
       (invalid (path @ '' is invalid''))"

definition validateCookiePartitionKey :: "platform \<Rightarrow> jsval \<Rightarrow> unit res" where
  "validateCookiePartitionKey P value =
     (if value = Undefined then ok
      else checks [
        validateParamsObject value,
        assertAllowedProperties value [''topLevelSite'', ''hasCrossSiteAncestor''],
        validateCookieURL P (getp value ''topLevelSite'') ''params.partitionKey.topLevelSite'',
        validateOptionalBoolean (getp value ''hasCrossSiteAncestor'') ''params.partitionKey.hasCrossSiteAncestor''])"

definition validateCookieList :: "platform \<Rightarrow> jsval \<Rightarrow> jsval \<Rightarrow> unit res" where
  "validateCookieList P params target = checks [
     validateParamsObject params,
     validateCookieTarget target,
     assertAllowedProperties params [''url'', ''domain'', ''name'', ''path'', ''secure'', ''session'', ''storeId'',
       ''partitionKey'', ''cursor'', ''limit''],
     validateCookieURL P (getp params ''url'') ''params.url'',
     validateOptionalBoundedString (getp params ''domain'') ''params.domain'' 253,
     validateOptionalCookieName (getp params ''name'') ''params.name'',
     validateOptionalCookiePath (getp params ''path'') ''params.path'',
     validateOptionalBoolean (getp params ''secure'') ''params.secure'',
     validateOptionalBoolean (getp params ''session'') ''params.session'',
     validateOptionalBoundedString (getp params ''storeId'') ''params.storeId'' 256,
     validateCookiePartitionKey P (getp params ''partitionKey''),
     throw_if (getp params ''cursor'' \<noteq> Undefined \<and> \<not> positive_id (getp params ''cursor''))
       (invalid ''params.cursor is invalid''),
     requireIntegerRange (getp params ''limit'') ''params.limit'' 1 200]"

definition validateCookieIdentity :: "platform \<Rightarrow> jsval \<Rightarrow> jsval \<Rightarrow> unit res" where
  "validateCookieIdentity P params target = checks [
     validateParamsObject params,
     validateCookieTarget target,
     assertAllowedProperties params [''url'', ''name'', ''storeId'', ''partitionKey''],
     validateCookieURL P (getp params ''url'') ''params.url'',
     validateCookieName (getp params ''name'') ''params.name'',
     validateOptionalBoundedString (getp params ''storeId'') ''params.storeId'' 256,
     validateCookiePartitionKey P (getp params ''partitionKey'')]"

definition validateCookieSet :: "platform \<Rightarrow> jsval \<Rightarrow> jsval \<Rightarrow> unit res" where
  "validateCookieSet P params target = checks [
     validateParamsObject params,
     validateCookieTarget target,
     assertAllowedProperties params [''url'', ''name'', ''value'', ''domain'', ''path'', ''secure'', ''httpOnly'',
       ''sameSite'', ''expirationDate'', ''storeId'', ''partitionKey''],
     validateCookieURL P (getp params ''url'') ''params.url'',
     validateCookieName (getp params ''name'') ''params.name'',
     throw_if (\<not> is_string (getp params ''value'') \<or> utf8_length (str_of (getp params ''value'')) > 4096
         \<or> sublist (lit '';'') (str_of (getp params ''value''))
         \<or> hasCookieControl (str_of (getp params ''value'')))
       (invalid ''params.value is invalid''),
     validateOptionalBoundedString (getp params ''domain'') ''params.domain'' 253,
     validateOptionalCookiePath (getp params ''path'') ''params.path'',
     validateOptionalBoolean (getp params ''secure'') ''params.secure'',
     validateOptionalBoolean (getp params ''httpOnly'') ''params.httpOnly'',
     throw_if (getp params ''sameSite'' \<noteq> Undefined
         \<and> \<not> js_includes [''no_restriction'', ''lax'', ''strict'', ''unspecified''] (getp params ''sameSite''))
       (invalid ''params.sameSite is unsupported''),
     throw_if (getp params ''sameSite'' = jstr ''no_restriction'' \<and> getp params ''secure'' \<noteq> Bool True)
       (invalid ''SameSite=None requires secure=true''),
     throw_if (getp params ''expirationDate'' \<noteq> Undefined
         \<and> (\<not> is_finite (getp params ''expirationDate'')
            \<or> num_ge (Fin 0) (num_of (getp params ''expirationDate''))))
       (invalid ''params.expirationDate is invalid''),
     validateOptionalBoundedString (getp params ''storeId'') ''params.storeId'' 256,
     validateCookiePartitionKey P (getp params ''partitionKey'')]"

section \<open>Origin storage\<close>

definition STORAGE_TYPES :: "string list" where
  "STORAGE_TYPES = [''localStorage'', ''sessionStorage'']"

definition CLEAR_STORAGE_TYPES :: "string list" where
  "CLEAR_STORAGE_TYPES = [''localStorage'', ''sessionStorage'', ''cacheStorage'', ''indexedDB'']"

definition validateStorageOrigin :: "platform \<Rightarrow> jsval \<Rightarrow> unit res" where
  "validateStorageOrigin P value = checks [
     validateCookieURL P value ''params.origin'',
     (case parseURL P value of
        None \<Rightarrow> ok
      | Some parsed \<Rightarrow>
          throw_if (Str (url_origin parsed) \<noteq> value \<or> url_pathname parsed \<noteq> lit ''/''
              \<or> url_search parsed \<noteq> [] \<or> url_hash parsed \<noteq> [])
            (invalid ''params.origin must be an exact HTTP(S) origin''))]"

definition validateStorageCursor :: "jsval \<Rightarrow> unit res" where
  "validateStorageCursor value =
     throw_if (value \<noteq> Undefined \<and> \<not> positive_id value) (invalid ''params.cursor is invalid'')"

definition validateStorageList :: "platform \<Rightarrow> jsval \<Rightarrow> jsval \<Rightarrow> unit res" where
  "validateStorageList P params target = checks [
     validateParamsObject params,
     validateCookieTarget target,
     assertAllowedProperties params [''origin'', ''storageType'', ''cursor'', ''limit''],
     validateStorageOrigin P (getp params ''origin''),
     validateEnum (getp params ''storageType'') ''params.storageType'' STORAGE_TYPES,
     validateStorageCursor (getp params ''cursor''),
     requireIntegerRange (getp params ''limit'') ''params.limit'' 1 200]"

definition validateStorageItem :: "platform \<Rightarrow> jsval \<Rightarrow> jsval \<Rightarrow> unit res" where
  "validateStorageItem P params target = checks [
     validateParamsObject params,
     validateCookieTarget target,
     assertAllowedProperties params [''origin'', ''storageType'', ''key''],
     validateStorageOrigin P (getp params ''origin''),
     validateEnum (getp params ''storageType'') ''params.storageType'' STORAGE_TYPES,
     requireStorageString (getp params ''key'') ''params.key'' 1024]"

definition validateStorageSet :: "platform \<Rightarrow> jsval \<Rightarrow> jsval \<Rightarrow> unit res" where
  "validateStorageSet P params target = checks [
     validateParamsObject params,
     validateCookieTarget target,
     assertAllowedProperties params [''origin'', ''storageType'', ''key'', ''value''],
     validateStorageOrigin P (getp params ''origin''),
     validateEnum (getp params ''storageType'') ''params.storageType'' STORAGE_TYPES,
     requireStorageString (getp params ''key'') ''params.key'' 1024,
     requireStorageString (getp params ''value'') ''params.value'' (64 * 1024)]"

definition validateStorageMetadata :: "platform \<Rightarrow> jsval \<Rightarrow> jsval \<Rightarrow> unit res" where
  "validateStorageMetadata P params target = checks [
     validateParamsObject params,
     validateCookieTarget target,
     assertAllowedProperties params [''origin'', ''cursor'', ''limit''],
     validateStorageOrigin P (getp params ''origin''),
     validateStorageCursor (getp params ''cursor''),
     requireIntegerRange (getp params ''limit'') ''params.limit'' 1 200]"

definition validateStorageClear :: "platform \<Rightarrow> jsval \<Rightarrow> jsval \<Rightarrow> unit res" where
  "validateStorageClear P params target = checks [
     validateParamsObject params,
     validateCookieTarget target,
     assertAllowedProperties params [''origin'', ''types'', ''confirm''],
     validateStorageOrigin P (getp params ''origin''),
     throw_if (getp params ''confirm'' \<noteq> Bool True)
       (fault CONFIRMATION_REQUIRED [Txt ''Clearing origin storage requires confirm: true'']),
     throw_if (\<not> is_array (getp params ''types'') \<or> length (elems (getp params ''types'')) < 1
         \<or> length (elems (getp params ''types'')) > length CLEAR_STORAGE_TYPES
         \<or> \<not> distinct (elems (getp params ''types''))
         \<or> list_ex (\<lambda>value. \<not> js_includes CLEAR_STORAGE_TYPES value) (elems (getp params ''types'')))
       (invalid ''params.types is invalid'')]"

section \<open>Downloads\<close>

definition requireServerIncognitoFlag :: "jsval \<Rightarrow> unit res" where
  "requireServerIncognitoFlag value =
     throw_if (\<not> is_boolean value) (invalid ''params.allowIncognito must be a boolean'')"

definition validateDownloadList :: "jsval \<Rightarrow> jsval \<Rightarrow> unit res" where
  "validateDownloadList params target = checks [
     validateNoTarget target ''Download commands are browser-scoped'',
     validateParamsObject params,
     assertAllowedProperties params [''cursor'', ''limit'', ''state'', ''paused'', ''allowIncognito''],
     requireIntegerRange (getp params ''limit'') ''params.limit'' 1 200,
     throw_if (getp params ''cursor'' \<noteq> Undefined
         \<and> (\<not> positive_id (getp params ''cursor'') \<or> dec_value (str_of (getp params ''cursor'')) \<ge> 10000))
       (invalid ''params.cursor is invalid''),
     validateEnum (getp params ''state'') ''params.state'' [''in_progress'', ''interrupted'', ''complete''],
     validateOptionalBoolean (getp params ''paused'') ''params.paused'',
     requireServerIncognitoFlag (getp params ''allowIncognito'')]"

definition validateDownloadID :: "jsval \<Rightarrow> jsval \<Rightarrow> unit res" where
  "validateDownloadID params target = checks [
     validateNoTarget target ''Download commands are browser-scoped'',
     validateParamsObject params,
     assertAllowedProperties params [''downloadId'', ''allowIncognito''],
     requireIntegerRange (getp params ''downloadId'') ''params.downloadId'' 0 MAX_SAFE_INTEGER,
     requireServerIncognitoFlag (getp params ''allowIncognito'')]"

definition validateDownloadCreate :: "jsval \<Rightarrow> jsval \<Rightarrow> unit res" where
  "validateDownloadCreate params target = checks [
     validateNoTarget target ''Download commands are browser-scoped'',
     validateParamsObject params,
     assertAllowedProperties params [''url'', ''allowIncognito''],
     assertBoundedString (getp params ''url'') ''params.url'' 8192 False,
     requireServerIncognitoFlag (getp params ''allowIncognito'')]"

definition validateDownloadErase :: "jsval \<Rightarrow> jsval \<Rightarrow> unit res" where
  "validateDownloadErase params target = checks [
     validateNoTarget target ''Download commands are browser-scoped'',
     validateParamsObject params,
     assertAllowedProperties params [''downloadId'', ''confirm'', ''allowIncognito''],
     requireIntegerRange (getp params ''downloadId'') ''params.downloadId'' 0 MAX_SAFE_INTEGER,
     throw_if (getp params ''confirm'' \<noteq> Bool True)
       (fault CONFIRMATION_REQUIRED [Txt ''Erasing download history requires confirm: true'']),
     requireServerIncognitoFlag (getp params ''allowIncognito'')]"

section \<open>History, bookmarks and the reading list\<close>

definition validatePersonalDataScope :: "jsval \<Rightarrow> jsval \<Rightarrow> string list \<Rightarrow> unit res" where
  "validatePersonalDataScope params target properties = checks [
     validateNoTarget target ''Personal-data commands are browser-scoped'',
     validateParamsObject params,
     assertAllowedProperties params properties]"

text \<open>\<open>/^[1-9][0-9]*$/\<close>.\<close>

definition positive_numeral :: "jsstr \<Rightarrow> bool" where
  "positive_numeral s \<longleftrightarrow> s \<noteq> [] \<and> is_digit (hd s) \<and> hd s \<noteq> 0x30 \<and> list_all is_digit (tl s)"

definition validatePersonalPage :: "jsval \<Rightarrow> unit res" where
  "validatePersonalPage params = checks [
     requireIntegerRange (getp params ''limit'') ''params.limit'' 1 200,
     throw_if (getp params ''cursor'' \<noteq> Undefined
         \<and> (\<not> is_string (getp params ''cursor'') \<or> \<not> positive_numeral (str_of (getp params ''cursor''))
            \<or> of_nat (dec_value (str_of (getp params ''cursor''))) > MAX_SAFE_INTEGER
            \<or> dec_value (str_of (getp params ''cursor'')) \<ge> 10000))
       (invalid ''params.cursor is invalid'')]"

definition validatePersonalURL :: "platform \<Rightarrow> jsval \<Rightarrow> unit res" where
  "validatePersonalURL P value = checks [
     assertBoundedString value ''params.url'' 8192 False,
     (case parseURL P value of
        None \<Rightarrow> Inl (invalid ''params.url is invalid'')
      | Some parsed \<Rightarrow>
          throw_if (url_protocol parsed \<notin> {lit ''http:'', lit ''https:''} \<or> url_hostname parsed = []
              \<or> url_username parsed \<noteq> [] \<or> url_password parsed \<noteq> [])
            (invalid ''params.url must be an HTTP(S) URL without credentials''))]"

definition validatePersonalID :: "jsval \<Rightarrow> string \<Rightarrow> unit res" where
  "validatePersonalID value path = assertBoundedString value path 256 False"

definition validateOptionalPersonalID :: "jsval \<Rightarrow> string \<Rightarrow> unit res" where
  "validateOptionalPersonalID value path = only_if (value \<noteq> Undefined) (validatePersonalID value path)"

definition requireEpochTime :: "jsval \<Rightarrow> string \<Rightarrow> unit res" where
  "requireEpochTime value path =
     throw_if (\<not> is_finite value \<or> less_than value 0 \<or> greater_than value MAX_SAFE_INTEGER)
       (invalid (path @ '' must be a non-negative epoch time''))"

definition validateOptionalEpochTime :: "jsval \<Rightarrow> string \<Rightarrow> unit res" where
  "validateOptionalEpochTime value path = only_if (value \<noteq> Undefined) (requireEpochTime value path)"

definition requireConfirmation :: "jsval \<Rightarrow> string \<Rightarrow> unit res" where
  "requireConfirmation value action =
     throw_if (value \<noteq> Bool True) (fault CONFIRMATION_REQUIRED [Txt (action @ '' requires confirm: true'')])"

definition validateHistorySearch :: "jsval \<Rightarrow> jsval \<Rightarrow> unit res" where
  "validateHistorySearch params target = checks [
     validatePersonalDataScope params target [''text'', ''startTime'', ''endTime'', ''cursor'', ''limit''],
     validateOptionalBoundedString (getp params ''text'') ''params.text'' 1024,
     validatePersonalPage params,
     validateOptionalEpochTime (getp params ''startTime'') ''params.startTime'',
     validateOptionalEpochTime (getp params ''endTime'') ''params.endTime'',
     throw_if (getp params ''startTime'' \<noteq> Undefined \<and> getp params ''endTime'' \<noteq> Undefined
         \<and> num_ge (num_of (getp params ''startTime'')) (num_of (getp params ''endTime'')))
       (invalid ''params.startTime must be before params.endTime'')]"

definition validateHistoryVisits :: "platform \<Rightarrow> jsval \<Rightarrow> jsval \<Rightarrow> unit res" where
  "validateHistoryVisits P params target = checks [
     validatePersonalDataScope params target [''url'', ''cursor'', ''limit''],
     validatePersonalURL P (getp params ''url''),
     validatePersonalPage params]"

definition validateHistoryDeleteURL :: "platform \<Rightarrow> jsval \<Rightarrow> jsval \<Rightarrow> unit res" where
  "validateHistoryDeleteURL P params target = checks [
     validatePersonalDataScope params target [''url'', ''confirm''],
     validatePersonalURL P (getp params ''url''),
     requireConfirmation (getp params ''confirm'') ''Deleting URL history'']"

definition validateHistoryDeleteRange :: "jsval \<Rightarrow> jsval \<Rightarrow> unit res" where
  "validateHistoryDeleteRange params target = checks [
     validatePersonalDataScope params target [''startTime'', ''endTime'', ''confirm''],
     requireEpochTime (getp params ''startTime'') ''params.startTime'',
     requireEpochTime (getp params ''endTime'') ''params.endTime'',
     throw_if (num_ge (num_of (getp params ''startTime'')) (num_of (getp params ''endTime'')))
       (invalid ''params.startTime must be before params.endTime''),
     requireConfirmation (getp params ''confirm'') ''Deleting a history range'']"

definition validateHistoryDeleteAll :: "jsval \<Rightarrow> jsval \<Rightarrow> unit res" where
  "validateHistoryDeleteAll params target = checks [
     validatePersonalDataScope params target [''confirm''],
     requireConfirmation (getp params ''confirm'') ''Clearing browser history'']"

definition validateBookmarkList :: "jsval \<Rightarrow> jsval \<Rightarrow> unit res" where
  "validateBookmarkList params target = checks [
     validatePersonalDataScope params target [''query'', ''parentId'', ''cursor'', ''limit''],
     validateOptionalBoundedString (getp params ''query'') ''params.query'' 1024,
     validateOptionalPersonalID (getp params ''parentId'') ''params.parentId'',
     throw_if (truthy (getp params ''query'') \<and> truthy (getp params ''parentId''))
       (invalid ''params.query and params.parentId are mutually exclusive''),
     validatePersonalPage params]"

definition validateBookmarkCreate :: "platform \<Rightarrow> jsval \<Rightarrow> jsval \<Rightarrow> unit res" where
  "validateBookmarkCreate P params target = checks [
     validatePersonalDataScope params target [''title'', ''url'', ''parentId'', ''index''],
     assertBoundedString (getp params ''title'') ''params.title'' 2048 False,
     only_if (getp params ''url'' \<noteq> Undefined) (validatePersonalURL P (getp params ''url'')),
     validateOptionalPersonalID (getp params ''parentId'') ''params.parentId'',
     validateIntegerRange (getp params ''index'') ''params.index'' 0 MAX_SAFE_INTEGER]"

definition validateBookmarkUpdate :: "platform \<Rightarrow> jsval \<Rightarrow> jsval \<Rightarrow> unit res" where
  "validateBookmarkUpdate P params target = checks [
     validatePersonalDataScope params target [''bookmarkId'', ''title'', ''url''],
     validatePersonalID (getp params ''bookmarkId'') ''params.bookmarkId'',
     only_if (getp params ''title'' \<noteq> Undefined)
       (assertBoundedString (getp params ''title'') ''params.title'' 2048 False),
     only_if (getp params ''url'' \<noteq> Undefined) (validatePersonalURL P (getp params ''url'')),
     throw_if (getp params ''title'' = Undefined \<and> getp params ''url'' = Undefined)
       (invalid ''params.title or params.url is required'')]"

definition validateBookmarkMove :: "jsval \<Rightarrow> jsval \<Rightarrow> unit res" where
  "validateBookmarkMove params target = checks [
     validatePersonalDataScope params target [''bookmarkId'', ''parentId'', ''index''],
     validatePersonalID (getp params ''bookmarkId'') ''params.bookmarkId'',
     validateOptionalPersonalID (getp params ''parentId'') ''params.parentId'',
     validateIntegerRange (getp params ''index'') ''params.index'' 0 MAX_SAFE_INTEGER,
     throw_if (getp params ''parentId'' = Undefined \<and> getp params ''index'' = Undefined)
       (invalid ''params.parentId or params.index is required'')]"

definition validateBookmarkRemove :: "jsval \<Rightarrow> jsval \<Rightarrow> unit res" where
  "validateBookmarkRemove params target = checks [
     validatePersonalDataScope params target [''bookmarkId'', ''recursive'', ''confirm''],
     validatePersonalID (getp params ''bookmarkId'') ''params.bookmarkId'',
     validateOptionalBoolean (getp params ''recursive'') ''params.recursive'',
     validateOptionalBoolean (getp params ''confirm'') ''params.confirm'',
     only_if (getp params ''recursive'' = Bool True)
       (requireConfirmation (getp params ''confirm'') ''Recursive bookmark removal'')]"

definition validateReadingListList :: "platform \<Rightarrow> jsval \<Rightarrow> jsval \<Rightarrow> unit res" where
  "validateReadingListList P params target = checks [
     validatePersonalDataScope params target [''title'', ''url'', ''hasBeenRead'', ''cursor'', ''limit''],
     validateOptionalBoundedString (getp params ''title'') ''params.title'' 2048,
     only_if (getp params ''url'' \<noteq> Undefined) (validatePersonalURL P (getp params ''url'')),
     validateOptionalBoolean (getp params ''hasBeenRead'') ''params.hasBeenRead'',
     validatePersonalPage params]"

definition validateReadingListAdd :: "platform \<Rightarrow> jsval \<Rightarrow> jsval \<Rightarrow> unit res" where
  "validateReadingListAdd P params target = checks [
     validatePersonalDataScope params target [''url'', ''title'', ''hasBeenRead''],
     validatePersonalURL P (getp params ''url''),
     assertBoundedString (getp params ''title'') ''params.title'' 2048 False,
     requireBoolean (getp params ''hasBeenRead'') ''params.hasBeenRead'']"

definition validateReadingListUpdate :: "platform \<Rightarrow> jsval \<Rightarrow> jsval \<Rightarrow> unit res" where
  "validateReadingListUpdate P params target = checks [
     validatePersonalDataScope params target [''url'', ''title'', ''hasBeenRead''],
     validatePersonalURL P (getp params ''url''),
     only_if (getp params ''title'' \<noteq> Undefined)
       (assertBoundedString (getp params ''title'') ''params.title'' 2048 False),
     validateOptionalBoolean (getp params ''hasBeenRead'') ''params.hasBeenRead'',
     throw_if (getp params ''title'' = Undefined \<and> getp params ''hasBeenRead'' = Undefined)
       (invalid ''params.title or params.hasBeenRead is required'')]"

definition validateReadingListRemove :: "platform \<Rightarrow> jsval \<Rightarrow> jsval \<Rightarrow> unit res" where
  "validateReadingListRemove P params target = checks [
     validatePersonalDataScope params target [''url''],
     validatePersonalURL P (getp params ''url'')]"

section \<open>What they throw\<close>

lemma data_helper_faults [fault_intros]:
  "thrown_in caller_fault (validateCookieURL P v p)"
  "thrown_in caller_fault (validateCookieName v p)"
  "thrown_in caller_fault (validateOptionalBoundedString v p m)"
  "thrown_in caller_fault (validateOptionalCookiePath v p)"
  "thrown_in caller_fault (validateStorageCursor v)"
  "thrown_in caller_fault (requireServerIncognitoFlag v)"
  "thrown_in caller_fault (validatePersonalDataScope v t ps)"
  "thrown_in caller_fault (validatePersonalPage v)"
  "thrown_in caller_fault (validatePersonalID v p)"
  "thrown_in caller_fault (requireEpochTime v p)"
  "thrown_in caller_fault (requireConfirmation v p)"
  unfolding validateCookieURL_def validateCookieName_def validateOptionalBoundedString_def
    validateOptionalCookiePath_def validateStorageCursor_def requireServerIncognitoFlag_def
    validatePersonalDataScope_def validatePersonalPage_def validatePersonalID_def requireEpochTime_def
    requireConfirmation_def
  by (cases "parseURL P v"; auto intro!: fault_intros)+

lemma data_composite_faults [fault_intros]:
  "thrown_in caller_fault (validateOptionalCookieName v p)"
  "thrown_in caller_fault (validateCookiePartitionKey P v)"
  "thrown_in caller_fault (validateStorageOrigin P v)"
  "thrown_in caller_fault (validatePersonalURL P v)"
  "thrown_in caller_fault (validateOptionalPersonalID v p)"
  "thrown_in caller_fault (validateOptionalEpochTime v p)"
  unfolding validateOptionalCookieName_def validateCookiePartitionKey_def validateStorageOrigin_def
    validatePersonalURL_def validateOptionalPersonalID_def validateOptionalEpochTime_def
  by (cases "parseURL P v"; auto intro!: fault_intros)+

lemma data_faults [fault_intros]:
  "thrown_in caller_fault (validateCookieList P v t)"
  "thrown_in caller_fault (validateCookieIdentity P v t)"
  "thrown_in caller_fault (validateCookieSet P v t)"
  "thrown_in caller_fault (validateStorageList P v t)"
  "thrown_in caller_fault (validateStorageItem P v t)"
  "thrown_in caller_fault (validateStorageSet P v t)"
  "thrown_in caller_fault (validateStorageMetadata P v t)"
  "thrown_in caller_fault (validateStorageClear P v t)"
  "thrown_in caller_fault (validateDownloadList v t)"
  "thrown_in caller_fault (validateDownloadID v t)"
  "thrown_in caller_fault (validateDownloadCreate v t)"
  "thrown_in caller_fault (validateDownloadErase v t)"
  unfolding validateCookieList_def validateCookieIdentity_def validateCookieSet_def
    validateStorageList_def validateStorageItem_def validateStorageSet_def
    validateStorageMetadata_def validateStorageClear_def validateDownloadList_def
    validateDownloadID_def validateDownloadCreate_def validateDownloadErase_def
  by (intro fault_intros; simp)+

lemma personal_faults [fault_intros]:
  "thrown_in caller_fault (validateHistorySearch v t)"
  "thrown_in caller_fault (validateHistoryVisits P v t)"
  "thrown_in caller_fault (validateHistoryDeleteURL P v t)"
  "thrown_in caller_fault (validateHistoryDeleteRange v t)"
  "thrown_in caller_fault (validateHistoryDeleteAll v t)"
  "thrown_in caller_fault (validateBookmarkList v t)"
  "thrown_in caller_fault (validateBookmarkCreate P v t)"
  "thrown_in caller_fault (validateBookmarkUpdate P v t)"
  "thrown_in caller_fault (validateBookmarkMove v t)"
  "thrown_in caller_fault (validateBookmarkRemove v t)"
  "thrown_in caller_fault (validateReadingListList P v t)"
  "thrown_in caller_fault (validateReadingListAdd P v t)"
  "thrown_in caller_fault (validateReadingListUpdate P v t)"
  "thrown_in caller_fault (validateReadingListRemove P v t)"
  unfolding validateHistorySearch_def validateHistoryVisits_def validateHistoryDeleteURL_def
    validateHistoryDeleteRange_def validateHistoryDeleteAll_def validateBookmarkList_def
    validateBookmarkCreate_def validateBookmarkUpdate_def validateBookmarkMove_def
    validateBookmarkRemove_def validateReadingListList_def validateReadingListAdd_def
    validateReadingListUpdate_def validateReadingListRemove_def
  by (intro fault_intros; simp)+

end
