(* ===== verification/Command_Table.thy ===== *)
theory Command_Table
  imports Window_Tab_Commands Data_Commands
begin

text \<open>
  The table \<open>COMMANDS\<close> of \<open>chrome-extension/src/command-router.js\<close>: every command the
  extension knows, with the handler it is routed to and the validator of its parameters, and the
  lookup in it.
\<close>

record command_def =
  cmd_domain :: string
  cmd_handler :: string
  cmd_validate :: "platform \<Rightarrow> jsval \<Rightarrow> jsval \<Rightarrow> unit res"

definition command ::
    "string \<Rightarrow> string \<Rightarrow> string \<Rightarrow> (platform \<Rightarrow> jsval \<Rightarrow> jsval \<Rightarrow> unit res) \<Rightarrow> string \<times> command_def" where
  "command name domain handler validate =
     (name, \<lparr>cmd_domain = domain, cmd_handler = handler, cmd_validate = validate\<rparr>)"

definition windowTabCommands :: "(string \<times> command_def) list" where
  "windowTabCommands = [
     command ''browser.ping'' ''browser'' ''ping'' (\<lambda>_ params _. validateEmpty params),
     command ''windows.list'' ''windows'' ''list'' (\<lambda>_ params _. validateEmpty params),
     command ''windows.get'' ''windows'' ''get'' (\<lambda>_. validateWindowTarget),
     command ''windows.create'' ''windows'' ''create'' (\<lambda>_. validateWindowCreate),
     command ''windows.update'' ''windows'' ''update'' (\<lambda>_. validateWindowUpdate),
     command ''windows.focus'' ''windows'' ''focus'' (\<lambda>_. validateWindowTarget),
     command ''windows.close'' ''windows'' ''close'' (\<lambda>_. validateWindowTarget),
     command ''tabs.list'' ''tabs'' ''list'' (\<lambda>_ params _. validateEmpty params),
     command ''tabs.get'' ''tabs'' ''get'' (\<lambda>_. validateTabEmpty),
     command ''tabs.create'' ''tabs'' ''create'' (\<lambda>_. validateTabCreate),
     command ''tabs.activate'' ''tabs'' ''activate'' (\<lambda>_. validateTabEmpty),
     command ''tabs.navigate'' ''tabs'' ''navigate'' (\<lambda>_. validateTabNavigate),
     command ''tabs.reload'' ''tabs'' ''reload'' (\<lambda>_. validateTabReload),
     command ''tabs.stop'' ''tabs'' ''stop'' (\<lambda>_. validateTabEmpty),
     command ''tabs.back'' ''tabs'' ''back'' (\<lambda>_. validateTabEmpty),
     command ''tabs.forward'' ''tabs'' ''forward'' (\<lambda>_. validateTabEmpty),
     command ''tabs.move'' ''tabs'' ''move'' (\<lambda>_. validateTabMove),
     command ''tabs.duplicate'' ''tabs'' ''duplicate'' (\<lambda>_. validateTabEmpty),
     command ''tabs.close'' ''tabs'' ''close'' (\<lambda>_. validateTabEmpty),
     command ''tabs.pin'' ''tabs'' ''pin'' (\<lambda>_. validateTabPin),
     command ''tabs.mute'' ''tabs'' ''mute'' (\<lambda>_. validateTabMute),
     command ''tabs.getZoom'' ''tabs'' ''getZoom'' (\<lambda>_. validateTabEmpty),
     command ''tabs.setZoom'' ''tabs'' ''setZoom'' (\<lambda>_. validateTabSetZoom),
     command ''tabs.group'' ''tabGroups'' ''group'' (\<lambda>_. validateTabGroup),
     command ''tabs.ungroup'' ''tabGroups'' ''ungroup'' (\<lambda>_. validateTabUngroup),
     command ''tabGroups.update'' ''tabGroups'' ''update'' (\<lambda>_. validateTabGroupUpdate),
     command ''sessions.recentlyClosed'' ''sessions'' ''recentlyClosed'' (\<lambda>_. validateRecentlyClosed),
     command ''sessions.restore'' ''sessions'' ''restore'' (\<lambda>_. validateSessionRestore)]"

definition cookieStorageCommands :: "(string \<times> command_def) list" where
  "cookieStorageCommands = [
     command ''cookies.list'' ''cookies'' ''list'' validateCookieList,
     command ''cookies.get'' ''cookies'' ''get'' validateCookieIdentity,
     command ''cookies.set'' ''cookies'' ''set'' validateCookieSet,
     command ''cookies.remove'' ''cookies'' ''remove'' validateCookieIdentity,
     command ''cookies.listSensitive'' ''cookies'' ''listSensitive'' validateCookieList,
     command ''cookies.getSensitive'' ''cookies'' ''getSensitive'' validateCookieIdentity,
     command ''storage.list'' ''storageData'' ''list'' validateStorageList,
     command ''storage.get'' ''storageData'' ''get'' validateStorageItem,
     command ''storage.set'' ''storageData'' ''set'' validateStorageSet,
     command ''storage.remove'' ''storageData'' ''remove'' validateStorageItem,
     command ''storage.cacheMetadata'' ''storageData'' ''cacheMetadata'' validateStorageMetadata,
     command ''storage.indexedDBMetadata'' ''storageData'' ''indexedDBMetadata'' validateStorageMetadata,
     command ''storage.clear'' ''storageData'' ''clear'' validateStorageClear,
     command ''storage.listSensitive'' ''storageData'' ''listSensitive'' validateStorageList,
     command ''storage.getSensitive'' ''storageData'' ''getSensitive'' validateStorageItem]"

definition personalDataCommands :: "(string \<times> command_def) list" where
  "personalDataCommands = [
     command ''downloads.list'' ''downloads'' ''list'' (\<lambda>_. validateDownloadList),
     command ''downloads.get'' ''downloads'' ''get'' (\<lambda>_. validateDownloadID),
     command ''downloads.create'' ''downloads'' ''create'' (\<lambda>_. validateDownloadCreate),
     command ''downloads.pause'' ''downloads'' ''pause'' (\<lambda>_. validateDownloadID),
     command ''downloads.resume'' ''downloads'' ''resume'' (\<lambda>_. validateDownloadID),
     command ''downloads.cancel'' ''downloads'' ''cancel'' (\<lambda>_. validateDownloadID),
     command ''downloads.erase'' ''downloads'' ''erase'' (\<lambda>_. validateDownloadErase),
     command ''history.search'' ''history'' ''search'' (\<lambda>_. validateHistorySearch),
     command ''history.getVisits'' ''history'' ''getVisits'' validateHistoryVisits,
     command ''history.deleteUrl'' ''history'' ''deleteUrl'' validateHistoryDeleteURL,
     command ''history.deleteRange'' ''history'' ''deleteRange'' (\<lambda>_. validateHistoryDeleteRange),
     command ''history.deleteAll'' ''history'' ''deleteAll'' (\<lambda>_. validateHistoryDeleteAll),
     command ''bookmarks.list'' ''bookmarks'' ''list'' (\<lambda>_. validateBookmarkList),
     command ''bookmarks.create'' ''bookmarks'' ''create'' validateBookmarkCreate,
     command ''bookmarks.update'' ''bookmarks'' ''update'' validateBookmarkUpdate,
     command ''bookmarks.move'' ''bookmarks'' ''move'' (\<lambda>_. validateBookmarkMove),
     command ''bookmarks.remove'' ''bookmarks'' ''remove'' (\<lambda>_. validateBookmarkRemove),
     command ''readingList.list'' ''readingList'' ''list'' validateReadingListList,
     command ''readingList.add'' ''readingList'' ''add'' validateReadingListAdd,
     command ''readingList.update'' ''readingList'' ''update'' validateReadingListUpdate,
     command ''readingList.remove'' ''readingList'' ''remove'' validateReadingListRemove]"

definition pageCommands :: "(string \<times> command_def) list" where
  "pageCommands = [
     command ''page.info'' ''page'' ''info'' (\<lambda>_ params _. validateEmpty params),
     command ''page.getHTML'' ''page'' ''getHTML'' (\<lambda>_. validateGetHTML),
     command ''page.getHTMLBySelector'' ''page'' ''getHTMLBySelector'' (\<lambda>_. validateSelector),
     command ''page.getText'' ''page'' ''getText'' (\<lambda>_. validateGetText),
     command ''page.query'' ''page'' ''query'' (\<lambda>_. validateQuery),
     command ''page.getElement'' ''page'' ''getElement'' (\<lambda>_. validateGetElement),
     command ''page.snapshot'' ''page'' ''snapshot'' (\<lambda>_. validateSnapshot),
     command ''page.click'' ''page'' ''click'' (\<lambda>_. validateAction),
     command ''page.fill'' ''page'' ''fill'' (\<lambda>_. validateFill),
     command ''page.hover'' ''page'' ''hover'' (\<lambda>_. validateSimpleAction),
     command ''page.focus'' ''page'' ''focus'' (\<lambda>_. validateContentOnlySimpleAction),
     command ''page.blur'' ''page'' ''blur'' (\<lambda>_. validateContentOnlySimpleAction),
     command ''page.type'' ''page'' ''type'' (\<lambda>_. validateType),
     command ''page.clear'' ''page'' ''clear'' (\<lambda>_. validateSimpleAction),
     command ''page.press'' ''page'' ''press'' (\<lambda>_. validatePress),
     command ''page.select'' ''page'' ''select'' (\<lambda>_. validateSelect),
     command ''page.setChecked'' ''page'' ''setChecked'' (\<lambda>_. validateSetChecked),
     command ''page.scroll'' ''page'' ''scroll'' (\<lambda>_. validateScroll),
     command ''page.drag'' ''page'' ''drag'' (\<lambda>_. validateDrag),
     command ''page.dispatch'' ''page'' ''dispatch'' (\<lambda>_. validateDispatch),
     command ''page.submit'' ''page'' ''submit'' (\<lambda>_. validateContentOnlySimpleAction),
     command ''page.wait'' ''page'' ''wait'' (\<lambda>_. validateWait),
     command ''page.screenshot'' ''page'' ''screenshot'' (\<lambda>_. validateScreenshot),
     command ''page.printToPDF'' ''page'' ''printToPDF'' (\<lambda>_. validatePrintToPDF)]"

definition debuggerCommands :: "(string \<times> command_def) list" where
  "debuggerCommands = [
     command ''accessibility.getTree'' ''accessibility'' ''getTree'' validateAccessibilityTree,
     command ''emulation.set'' ''emulation'' ''set'' (\<lambda>_. validateEmulationSet),
     command ''emulation.get'' ''emulation'' ''get'' (\<lambda>_. validateEmulationEmpty),
     command ''emulation.reset'' ''emulation'' ''reset'' (\<lambda>_. validateEmulationReset),
     command ''runtime.evaluateIsolated'' ''evaluation'' ''evaluate'' (\<lambda>_. validateEvaluation),
     command ''cdp.sendReadOnly'' ''rawCDP'' ''sendReadOnly'' (\<lambda>_. validateRawCDP),
     command ''performance.metrics'' ''performance'' ''metrics'' (\<lambda>_. validatePerformanceMetrics),
     command ''performance.capture'' ''performance'' ''capture'' (\<lambda>_. validatePerformanceCapture),
     command ''network.start'' ''network'' ''start'' (\<lambda>_. validateNetworkStart),
     command ''network.stop'' ''network'' ''stop'' (\<lambda>_. validateNetworkEmpty),
     command ''network.clear'' ''network'' ''clear'' (\<lambda>_. validateNetworkEmpty),
     command ''network.read'' ''network'' ''read'' validateNetworkRead,
     command ''network.getBody'' ''network'' ''getBody'' (\<lambda>_. validateNetworkBody),
     command ''network.exportHAR'' ''network'' ''exportHAR'' (\<lambda>_. validateNetworkHAR),
     command ''console.start'' ''console'' ''start'' (\<lambda>_. validateConsoleStart),
     command ''console.stop'' ''console'' ''stop'' (\<lambda>_. validateConsoleEmpty),
     command ''console.clear'' ''console'' ''clear'' (\<lambda>_. validateConsoleEmpty),
     command ''console.read'' ''console'' ''read'' validateConsoleRead]"

definition COMMANDS :: "(string \<times> command_def) list" where
  "COMMANDS = windowTabCommands @ cookieStorageCommands @ personalDataCommands @ pageCommands @ debuggerCommands"

definition COMMAND_NAMES :: "string list" where
  "COMMAND_NAMES = map fst COMMANDS"

text \<open>
  \<open>COMMANDS[name]\<close> on a plain object: an own entry, or a member the object inherits from
  \<open>Object.prototype\<close>, or undefined.
\<close>

datatype table_entry = Own command_def | Inherited | Missing

definition object_prototype_members :: "string list" where
  "object_prototype_members = [''constructor'', ''__defineGetter__'', ''__defineSetter__'', ''hasOwnProperty'',
     ''__lookupGetter__'', ''__lookupSetter__'', ''isPrototypeOf'', ''propertyIsEnumerable'', ''toString'',
     ''valueOf'', ''__proto__'', ''toLocaleString'']"

definition lookup_command :: "jsstr \<Rightarrow> table_entry" where
  "lookup_command name =
     (case map_of (map (\<lambda>(n, d). (lit n, d)) COMMANDS) name of
        Some d \<Rightarrow> Own d
      | None \<Rightarrow> if name \<in> set (map lit object_prototype_members) then Inherited else Missing)"

text \<open>
  The handlers the service worker registers: for each domain the methods of the object its
  factory returns.
\<close>

definition handlerRegistry :: "(string \<times> string list) list" where
  "handlerRegistry = [
     (''accessibility'', [''getTree'']),
     (''browser'', [''ping'']),
     (''console'', [''start'', ''stop'', ''clear'', ''read'']),
     (''emulation'', [''set'', ''get'', ''reset'']),
     (''evaluation'', [''evaluate'']),
     (''rawCDP'', [''sendReadOnly'']),
     (''performance'', [''metrics'', ''capture'']),
     (''network'', [''start'', ''stop'', ''clear'', ''read'', ''getBody'', ''exportHAR'']),
     (''cookies'', [''list'', ''listSensitive'', ''get'', ''getSensitive'', ''set'', ''remove'']),
     (''storageData'', [''list'', ''listSensitive'', ''get'', ''getSensitive'', ''set'', ''remove'',
        ''cacheMetadata'', ''indexedDBMetadata'', ''clear'']),
     (''downloads'', [''list'', ''get'', ''create'', ''pause'', ''resume'', ''cancel'', ''erase'']),
     (''history'', [''search'', ''getVisits'', ''deleteUrl'', ''deleteRange'', ''deleteAll'']),
     (''bookmarks'', [''list'', ''create'', ''update'', ''move'', ''remove'']),
     (''readingList'', [''list'', ''add'', ''update'', ''remove'']),
     (''page'', [''info'', ''getHTML'', ''getHTMLBySelector'', ''getText'', ''query'', ''getElement'', ''snapshot'',
        ''click'', ''fill'', ''hover'', ''focus'', ''blur'', ''type'', ''clear'', ''press'', ''select'', ''setChecked'',
        ''scroll'', ''drag'', ''dispatch'', ''submit'', ''wait'', ''screenshot'', ''printToPDF'']),
     (''sessions'', [''recentlyClosed'', ''restore'']),
     (''tabs'', [''list'', ''get'', ''create'', ''activate'', ''navigate'', ''reload'', ''stop'', ''back'', ''forward'',
        ''move'', ''duplicate'', ''close'', ''pin'', ''mute'', ''getZoom'', ''setZoom'']),
     (''tabGroups'', [''group'', ''ungroup'', ''update'']),
     (''windows'', [''list'', ''get'', ''create'', ''update'', ''focus'', ''close''])]"

definition hasHandler :: "string \<Rightarrow> string \<Rightarrow> bool" where
  "hasHandler domain handler \<longleftrightarrow>
     (case map_of handlerRegistry domain of None \<Rightarrow> False | Some methods \<Rightarrow> handler \<in> set methods)"

section \<open>Lemmas on the table\<close>

lemmas command_tables =
  windowTabCommands_def cookieStorageCommands_def personalDataCommands_def pageCommands_def
  debuggerCommands_def

lemma lookup_Own_in_table: "lookup_command name = Own d \<Longrightarrow> \<exists>n. (n, d) \<in> set COMMANDS \<and> name = lit n"
  by (auto simp: lookup_command_def dest!: map_of_SomeD split: option.splits if_splits)

text \<open>Elements with different keys are different: a list is without duplicates if its buckets by a key are.\<close>

fun into_bucket :: "'a \<Rightarrow> nat \<Rightarrow> 'a list list \<Rightarrow> 'a list list" where
  "into_bucket x 0 [] = [[x]]"
| "into_bucket x 0 (b # bs) = (x # b) # bs"
| "into_bucket x (Suc n) [] = [] # into_bucket x n []"
| "into_bucket x (Suc n) (b # bs) = b # into_bucket x n bs"

fun buckets :: "('a \<Rightarrow> nat) \<Rightarrow> 'a list \<Rightarrow> 'a list list" where
  "buckets key [] = []"
| "buckets key (x # xs) = into_bucket x (key x) (buckets key xs)"

fun bucket :: "nat \<Rightarrow> 'a list list \<Rightarrow> 'a list" where
  "bucket i [] = []"
| "bucket 0 (b # bs) = b"
| "bucket (Suc i) (b # bs) = bucket i bs"

lemma bucket_into: "bucket i (into_bucket x n bs) = (if i = n then x # bucket i bs else bucket i bs)"
proof (induction x n bs arbitrary: i rule: into_bucket.induct)
  case (1 x)
  then show ?case by (cases i) auto
next
  case (2 x b bs)
  then show ?case by (cases i) auto
next
  case (3 x n)
  then show ?case by (cases i) auto
next
  case (4 x n b bs)
  then show ?case by (cases i) auto
qed

lemma bucket_distinct: "list_all distinct bs \<Longrightarrow> distinct (bucket i bs)"
  by (induction i bs rule: bucket.induct) auto

lemma bucket_filter: "bucket i (buckets key xs) = filter (\<lambda>x. key x = i) xs"
  by (induction xs) (auto simp: bucket_into)

lemma distinct_buckets:
  assumes "list_all distinct (buckets key xs)"
  shows "distinct xs"
proof (rule ccontr)
  assume "\<not> distinct xs"
  then obtain as x bs cs where "xs = as @ [x] @ bs @ [x] @ cs" by (meson not_distinct_decomp)
  then have "\<not> distinct (bucket (key x) (buckets key xs))" by (simp add: bucket_filter)
  moreover have "distinct (bucket (key x) (buckets key xs))"
    by (rule bucket_distinct [OF assms])
  ultimately show False by simp
qed

lemma COMMAND_NAMES_distinct: "distinct COMMAND_NAMES"
  by (rule distinct_buckets [where key = length]) code_simp

lemma lookup_in_table: "(n, d) \<in> set COMMANDS \<Longrightarrow> lookup_command (lit n) = Own d"
proof -
  have "distinct (map fst (map (\<lambda>(n, d). (lit n, d)) COMMANDS))"
    using COMMAND_NAMES_distinct
    by (auto simp: COMMAND_NAMES_def distinct_map comp_def case_prod_unfold inj_on_def)
  moreover assume "(n, d) \<in> set COMMANDS"
  then have "(lit n, d) \<in> set (map (\<lambda>(n, d). (lit n, d)) COMMANDS)"
    by force
  ultimately have "map_of (map (\<lambda>(n, d). (lit n, d)) COMMANDS) (lit n) = Some d"
    by (rule map_of_is_SomeI)
  then show ?thesis
    by (simp add: lookup_command_def)
qed

lemma table_faults:
  "list_all (\<lambda>(n, d). thrown_in caller_fault (cmd_validate d P params target)) COMMANDS"
  unfolding COMMANDS_def command_tables command_def list_all_append list.pred_inject prod.case
    command_def.simps
  by (intro conjI fault_intros; simp)

lemma command_fault: "(n, d) \<in> set COMMANDS \<Longrightarrow> thrown_in caller_fault (cmd_validate d P params target)"
  using table_faults [of P params target] by (auto simp: list_all_iff)

lemma routes_registered: "list_all (\<lambda>(n, d). hasHandler (cmd_domain d) (cmd_handler d)) COMMANDS"
  by code_simp

lemma routes_distinct: "distinct (map (\<lambda>(n, d). (cmd_domain d, cmd_handler d)) COMMANDS)"
  by (rule distinct_buckets [where key = "\<lambda>(d, h). length d + length h"]) code_simp

section \<open>Scopes and confirmations\<close>


text \<open>The shape of a root-frame target.\<close>

definition root_frame :: "jsval \<Rightarrow> bool" where
  "root_frame target \<longleftrightarrow> nullish target
     \<or> ((\<exists>i\<ge>0. getp target ''tabId'' = jnum (of_int i)) \<and> getp target ''windowId'' = Undefined
        \<and> getp target ''frameId'' \<in> {Undefined, jnum 0})"

lemma rootFrameTarget_root_frame: "returns (rootFrameTarget m t) \<longleftrightarrow> root_frame t"
  by (simp add: rootFrameTarget_ok root_frame_def)

lemmas data_validators =
  validateCookieList_def validateCookieIdentity_def validateCookieSet_def
  validateStorageList_def validateStorageItem_def validateStorageSet_def
  validateStorageMetadata_def validateStorageClear_def

lemmas debugger_validators =
  validateAccessibilityTree_def validateEmulationSet_def validateEmulationEmpty_def validateEmulationReset_def
  validateEvaluation_def validateRawCDP_def validatePerformanceMetrics_def
  validatePerformanceCapture_def validateNetworkStart_def validateNetworkEmpty_def
  validateNetworkRead_def validateNetworkBody_def validateNetworkHAR_def

lemmas personal_validators =
  validateDownloadList_def validateDownloadID_def validateDownloadCreate_def validateDownloadErase_def
  validateHistorySearch_def validateHistoryVisits_def validateHistoryDeleteURL_def
  validateHistoryDeleteRange_def validateHistoryDeleteAll_def validateBookmarkList_def
  validateBookmarkCreate_def validateBookmarkUpdate_def validateBookmarkMove_def
  validateBookmarkRemove_def validateReadingListList_def validateReadingListAdd_def
  validateReadingListUpdate_def validateReadingListRemove_def

lemmas table_simps = list_all_append list.pred_inject prod.case command_def.simps command_def

lemma cookie_storage_scope:
  "list_all (\<lambda>(n, d). returns (cmd_validate d P params target) \<longrightarrow> root_frame target) cookieStorageCommands"
  unfolding cookieStorageCommands_def table_simps
  by (simp add: data_validators checks_Cons_ok root_frame_targets rootFrameTarget_root_frame
      del: kind_simps)

lemma debugger_scope:
  "list_all (\<lambda>(n, d). returns (cmd_validate d P params target) \<longrightarrow>
      root_frame target \<or> (cmd_domain d = ''console'' \<and> getp target ''windowId'' = Undefined)) debuggerCommands"
  unfolding debuggerCommands_def table_simps
  by (simp add: debugger_validators checks_Cons_ok root_frame_targets rootFrameTarget_root_frame Let_def
      validateConsoleStart_def validateConsoleEmpty_def validateConsoleRead_def validateConsoleTarget_def throw_if_ok
      del: kind_simps)

lemma personal_scope:
  "list_all (\<lambda>(n, d). returns (cmd_validate d P params target) \<longrightarrow> nullish target) personalDataCommands"
  unfolding personalDataCommands_def table_simps
  by (simp add: personal_validators validatePersonalDataScope_def checks_Cons_ok validateNoTarget_ok del: kind_simps)

lemma confirmed:
  "list_all (\<lambda>(n, d). n \<in> {''storage.clear'', ''downloads.erase'', ''history.deleteUrl'', ''history.deleteRange'', ''history.deleteAll''}
       \<or> (n = ''bookmarks.remove'' \<and> getp params ''recursive'' = Bool True)
     \<longrightarrow> returns (cmd_validate d P params target) \<longrightarrow> getp params ''confirm'' = Bool True) COMMANDS"
  unfolding COMMANDS_def command_tables table_simps
  by (simp add: validateStorageClear_def validateDownloadErase_def validateHistoryDeleteURL_def
      validateHistoryDeleteRange_def validateHistoryDeleteAll_def validateBookmarkRemove_def
      requireConfirmation_def checks_Cons_ok throw_if_ok when_ok del: kind_simps)

section \<open>Properties\<close>

text \<open>C34: The command table is a routing: no command name and no route occurs twice, and every route
  leads to a method that the service worker registers.\<close>

theorem command_routing:
  "distinct COMMAND_NAMES
   \<and> distinct (map (\<lambda>(n, d). (cmd_domain d, cmd_handler d)) COMMANDS)
   \<and> list_all (\<lambda>(n, d). hasHandler (cmd_domain d) (cmd_handler d)) COMMANDS"
  using COMMAND_NAMES_distinct routes_distinct routes_registered by blast

text \<open>C33: Whatever the parameters and the target, a validator of the table fails only with a protocol
  error that blames the caller: never retryable, never an internal error, never a crash.\<close>

theorem validators_blame_caller:
  "list_all (\<lambda>(n, d). thrown_in caller_fault (cmd_validate d P params target)) COMMANDS"
  unfolding list_all_iff using command_fault by blast

text \<open>Scopes. A cookie, storage or debugger command that is accepted addresses no window, and but for the console commands no
  child frame; a download, history, bookmark or reading-list command addresses no target at all.\<close>

theorem command_scopes:
  "list_all (\<lambda>(n, d). returns (cmd_validate d P params target) \<longrightarrow> root_frame target) cookieStorageCommands
   \<and> list_all (\<lambda>(n, d). returns (cmd_validate d P params target) \<longrightarrow>
       root_frame target \<or> (cmd_domain d = ''console'' \<and> getp target ''windowId'' = Undefined)) debuggerCommands
   \<and> list_all (\<lambda>(n, d). returns (cmd_validate d P params target) \<longrightarrow> nullish target) personalDataCommands"
  using cookie_storage_scope debugger_scope personal_scope by blast

definition demo_tab :: jsval where
  "demo_tab = obj [(''tabId'', jnum 3)]"

theorem command_scopes_witness: "root_frame demo_tab"
proof -
  have "returns (validateNetworkEmpty (obj []) demo_tab)" by code_simp
  moreover have "(''network.stop'', \<lparr>cmd_domain = ''network'', cmd_handler = ''stop'', cmd_validate = (\<lambda>_. validateNetworkEmpty)\<rparr>)
      \<in> set debuggerCommands"
    by (simp add: debuggerCommands_def command_def)
  ultimately show ?thesis
    using command_scopes [of demo_platform "obj []" demo_tab] by (fastforce simp: list_all_iff)
qed

end
