(* ===== verification/Router.thy ===== *)
theory Router
  imports Command_Table
begin

text \<open>
  The class \<open>CommandRouter\<close> of \<open>chrome-extension/src/command-router.js\<close>: requests are executed
  concurrently, each through the asynchronous function \<open>dispatch\<close>, and may be cancelled at any time.
  An execution is cut at its \<open>await\<close>s into the synchronous pieces the code runs without
  interruption; a step of the router is one such piece. What is awaited (the browser id, the
  capabilities, the handler's result) is carried by the step's event, as a value or a rejection.
\<close>

section \<open>State\<close>

record request =
  req_id :: jsstr
  req_command :: jsstr
  req_target :: jsval
  req_params :: jsval

text \<open>The table of commands, the registered handlers and the platform.\<close>

record router_config =
  cfg_commands :: "jsstr \<Rightarrow> table_entry"
  cfg_handlers :: "string \<Rightarrow> string \<Rightarrow> bool"
  cfg_platform :: platform

definition extension_router :: "platform \<Rightarrow> router_config" where
  "extension_router P = \<lparr>cfg_commands = lookup_command, cfg_handlers = hasHandler, cfg_platform = P\<rparr>"

datatype outcome = Success jsval | Failure jsval

text \<open>Where an execution stands: the \<open>await\<close> it is suspended at, with the local variables that the
  rest of the code reads. \<open>Settled\<close>: the promise of \<open>dispatch\<close> is settled and \<open>execute\<close> has not yet
  resumed; \<open>Responding\<close>: \<open>respond\<close> has been called.\<close>

datatype phase =
    AwaitBrowserId table_entry
  | AwaitCapabilities command_def jsstr
  | Running
  | Settled "jsval res"
  | Responding

record execution =
  exe_request :: request
  exe_aborted :: bool
  exe_phase :: phase

text \<open>The map of active requests. The other fields are history, which the code does not keep: the
  requests accepted, the handler calls (with the route, the browser id and the capabilities they were
  admitted under), and the calls of \<open>respond\<close>.\<close>

record invocation =
  inv_request :: request
  inv_definition :: command_def
  inv_browserId :: jsstr
  inv_capabilities :: "jsstr list"

record router =
  activeRequests :: "jsstr \<Rightarrow> execution option"
  accepted :: "jsstr list"
  invoked :: "invocation list"
  responded :: "(jsstr \<times> outcome) list"

definition initial_router :: router where
  "initial_router = \<lparr>activeRequests = (\<lambda>_. None), accepted = [], invoked = [], responded = []\<rparr>"

section \<open>The pieces of dispatch\<close>

definition cancelled :: exn where
  "cancelled = protocolError CANCELLED [Txt ''Command was cancelled''] True Undefined"

definition throwIfCancelled :: "bool \<Rightarrow> unit res" where
  "throwIfCancelled aborted = throw_if aborted cancelled"

definition dispatch_lookup :: "router_config \<Rightarrow> request \<Rightarrow> bool \<Rightarrow> table_entry res" where
  "dispatch_lookup C req aborted = bind_res (throwIfCancelled aborted) (\<lambda>_.
     case cfg_commands C (req_command req) of
       Missing \<Rightarrow> Inl (fault INVALID_COMMAND
         [Txt (''The extension does not support command '' @ [CHR 0x22]), Val (Str (req_command req)), Txt [CHR 0x22]])
     | entry \<Rightarrow> Inr entry)"

text \<open>An inherited member has no function \<open>validate\<close>: the call is a \<open>TypeError\<close>.\<close>

definition validate_not_a_function :: exn where
  "validate_not_a_function =
     ForeignError (obj [(''message'', jstr ''definition.validate is not a function'')])"

definition dispatch_validate :: "router_config \<Rightarrow> request \<Rightarrow> table_entry \<Rightarrow> jsstr \<Rightarrow> (command_def \<times> jsstr) res" where
  "dispatch_validate C req entry browserId = bind_res (validateTarget (req_target req) browserId) (\<lambda>_.
     case entry of
       Own d \<Rightarrow> bind_res (cmd_validate d (cfg_platform C) (req_params req) (req_target req)) (\<lambda>_. Inr (d, browserId))
     | _ \<Rightarrow> Inl validate_not_a_function)"

definition dispatch_authorize :: "router_config \<Rightarrow> request \<Rightarrow> command_def \<Rightarrow> jsstr list \<Rightarrow> bool \<Rightarrow> unit res" where
  "dispatch_authorize C req d capabilities aborted = checks [
     throw_if (req_command req \<notin> set capabilities)
       (fault CAPABILITY_UNAVAILABLE [Txt (''Command '' @ [CHR 0x22]), Val (Str (req_command req)),
          Txt ([CHR 0x22] @ '' is not available with the current browser permissions'')]),
     throw_if (\<not> cfg_handlers C (cmd_domain d) (cmd_handler d))
       (fault INTERNAL_ERROR [Txt ''The command handler is unavailable'']),
     throwIfCancelled aborted]"

text \<open>\<open>dispatch\<close> read from top to bottom: the promises it awaits are the arguments \<open>browserId\<close>,
  \<open>capabilities\<close> and \<open>handler\<close>; \<open>first\<close> and \<open>second\<close> say whether the signal is aborted at the first and at the second call
  of \<open>throwIfCancelled\<close>.\<close>

definition dispatch ::
    "router_config \<Rightarrow> request \<Rightarrow> bool \<Rightarrow> bool \<Rightarrow> jsstr res \<Rightarrow> (jsstr list) res \<Rightarrow> (request \<Rightarrow> jsval res) \<Rightarrow> jsval res" where
  "dispatch C req first second browserId capabilities handler =
     bind_res (dispatch_lookup C req first) (\<lambda>entry.
     bind_res browserId (\<lambda>b.
     bind_res (dispatch_validate C req entry b) (\<lambda>(d, _).
     bind_res capabilities (\<lambda>caps.
     bind_res (dispatch_authorize C req d caps second) (\<lambda>_. handler req)))))"

definition request_context :: "request \<Rightarrow> jsval" where
  "request_context req = obj [(''requestId'', Str (req_id req)), (''target'', req_target req)]"

text \<open>The \<open>try\<close>/\<open>catch\<close> of \<open>execute\<close> around the result of \<open>dispatch\<close>.\<close>

definition outcome_of :: "router_config \<Rightarrow> request \<Rightarrow> bool \<Rightarrow> jsval res \<Rightarrow> outcome" where
  "outcome_of C req aborted result =
     (case bind_res result (\<lambda>v. bind_res (throwIfCancelled aborted) (\<lambda>_. Inr v)) of
        Inr v \<Rightarrow> Success v
      | Inl e \<Rightarrow> Failure (normalizeError (cfg_platform C) (if aborted then cancelled else e) (request_context req)))"

section \<open>Steps\<close>

text \<open>The synchronous pieces: \<open>execute\<close> up to the first \<open>await\<close>, the continuations of \<open>dispatch\<close>, the
  rest of \<open>execute\<close>, and \<open>cancel\<close>. The Booleans of \<open>execute_begin\<close> and \<open>cancel\<close> are the results of
  \<open>execute\<close> (false for a duplicate) and \<open>cancel\<close>.\<close>

definition execute_begin :: "router_config \<Rightarrow> request \<Rightarrow> router \<Rightarrow> bool \<times> router" where
  "execute_begin C req s =
     (if activeRequests s (req_id req) \<noteq> None then (False, s)
      else (True, s\<lparr>activeRequests := (activeRequests s)(req_id req \<mapsto>
              \<lparr>exe_request = req, exe_aborted = False,
               exe_phase = (case dispatch_lookup C req False of
                  Inl e \<Rightarrow> Settled (Inl e) | Inr entry \<Rightarrow> AwaitBrowserId entry)\<rparr>),
            accepted := accepted s @ [req_id req]\<rparr>))"

definition after_browser_id :: "router_config \<Rightarrow> request \<Rightarrow> table_entry \<Rightarrow> jsstr res \<Rightarrow> phase" where
  "after_browser_id C req entry browserId =
     (case bind_res browserId (dispatch_validate C req entry) of
        Inl e \<Rightarrow> Settled (Inl e) | Inr (d, b) \<Rightarrow> AwaitCapabilities d b)"

definition after_capabilities ::
    "router_config \<Rightarrow> request \<Rightarrow> command_def \<Rightarrow> bool \<Rightarrow> (jsstr list) res \<Rightarrow> phase" where
  "after_capabilities C req d aborted capabilities =
     (case bind_res capabilities (\<lambda>caps. dispatch_authorize C req d caps aborted) of
        Inl e \<Rightarrow> Settled (Inl e) | Inr _ \<Rightarrow> Running)"

definition set_phase :: "jsstr \<Rightarrow> execution \<Rightarrow> phase \<Rightarrow> router \<Rightarrow> router" where
  "set_phase i x ph s = s\<lparr>activeRequests := (activeRequests s)(i \<mapsto> x\<lparr>exe_phase := ph\<rparr>)\<rparr>"

definition cancel :: "jsstr \<Rightarrow> router \<Rightarrow> bool \<times> router" where
  "cancel i s =
     (case activeRequests s i of
        None \<Rightarrow> (False, s)
      | Some x \<Rightarrow> (True, s\<lparr>activeRequests := (activeRequests s)(i \<mapsto> x\<lparr>exe_aborted := True\<rparr>)\<rparr>))"

datatype event =
    Execute request
  | BrowserId jsstr "jsstr res"
  | Capabilities jsstr "(jsstr list) res"
  | HandlerSettled jsstr "jsval res"
  | Resume jsstr
  | ResponseSettled jsstr
  | Cancel jsstr

inductive router_step :: "router_config \<Rightarrow> router \<Rightarrow> event \<Rightarrow> router \<Rightarrow> bool" for C where
  execute: "router_step C s (Execute req) (snd (execute_begin C req s))"
| browser_id: "activeRequests s i = Some x \<Longrightarrow> exe_phase x = AwaitBrowserId entry \<Longrightarrow>
    router_step C s (BrowserId i r) (set_phase i x (after_browser_id C (exe_request x) entry r) s)"
| refused: "activeRequests s i = Some x \<Longrightarrow> exe_phase x = AwaitCapabilities d b \<Longrightarrow>
    after_capabilities C (exe_request x) d (exe_aborted x) r = Settled q \<Longrightarrow>
    router_step C s (Capabilities i r) (set_phase i x (Settled q) s)"
| invoke: "activeRequests s i = Some x \<Longrightarrow> exe_phase x = AwaitCapabilities d b \<Longrightarrow>
    after_capabilities C (exe_request x) d (exe_aborted x) (Inr caps) = Running \<Longrightarrow>
    router_step C s (Capabilities i (Inr caps))
      ((set_phase i x Running s)\<lparr>invoked := invoked s @
         [\<lparr>inv_request = exe_request x, inv_definition = d, inv_browserId = b,
           inv_capabilities = caps\<rparr>]\<rparr>)"
| handler: "activeRequests s i = Some x \<Longrightarrow> exe_phase x = Running \<Longrightarrow>
    router_step C s (HandlerSettled i r) (set_phase i x (Settled r) s)"
| resume: "activeRequests s i = Some x \<Longrightarrow> exe_phase x = Settled r \<Longrightarrow>
    router_step C s (Resume i)
      ((set_phase i x Responding s)\<lparr>responded := responded s @
         [(i, outcome_of C (exe_request x) (exe_aborted x) r)]\<rparr>)"
| finish: "activeRequests s i = Some x \<Longrightarrow> exe_phase x = Responding \<Longrightarrow>
    router_step C s (ResponseSettled i) (s\<lparr>activeRequests := (activeRequests s)(i := None)\<rparr>)"
| cancel: "router_step C s (Cancel i) (snd (cancel i s))"

inductive_cases router_stepE: "router_step C s e s'"

text \<open>The same steps as a function of the event.\<close>

fun fire :: "router_config \<Rightarrow> event \<Rightarrow> router \<Rightarrow> router option" where
  "fire C (Execute req) s = Some (snd (execute_begin C req s))"
| "fire C (BrowserId i r) s = (case activeRequests s i of None \<Rightarrow> None | Some x \<Rightarrow>
     (case exe_phase x of AwaitBrowserId entry \<Rightarrow> Some (set_phase i x (after_browser_id C (exe_request x) entry r) s)
      | _ \<Rightarrow> None))"
| "fire C (Capabilities i r) s = (case activeRequests s i of None \<Rightarrow> None | Some x \<Rightarrow>
     (case exe_phase x of AwaitCapabilities d b \<Rightarrow>
        (case after_capabilities C (exe_request x) d (exe_aborted x) r of
           Running \<Rightarrow> (case r of Inr caps \<Rightarrow> Some ((set_phase i x Running s)\<lparr>invoked := invoked s @
             [\<lparr>inv_request = exe_request x, inv_definition = d, inv_browserId = b,
           inv_capabilities = caps\<rparr>]\<rparr>) | Inl _ \<Rightarrow> None)
         | ph \<Rightarrow> Some (set_phase i x ph s))
      | _ \<Rightarrow> None))"
| "fire C (HandlerSettled i r) s = (case activeRequests s i of None \<Rightarrow> None | Some x \<Rightarrow>
     (case exe_phase x of Running \<Rightarrow> Some (set_phase i x (Settled r) s) | _ \<Rightarrow> None))"
| "fire C (Resume i) s = (case activeRequests s i of None \<Rightarrow> None | Some x \<Rightarrow>
     (case exe_phase x of Settled r \<Rightarrow>
        Some ((set_phase i x Responding s)\<lparr>responded := responded s @
          [(i, outcome_of C (exe_request x) (exe_aborted x) r)]\<rparr>)
      | _ \<Rightarrow> None))"
| "fire C (ResponseSettled i) s = (case activeRequests s i of None \<Rightarrow> None | Some x \<Rightarrow>
     (case exe_phase x of Responding \<Rightarrow> Some (s\<lparr>activeRequests := (activeRequests s)(i := None)\<rparr>)
      | _ \<Rightarrow> None))"
| "fire C (Cancel i) s = Some (snd (cancel i s))"

fun run_events :: "router_config \<Rightarrow> event list \<Rightarrow> router \<Rightarrow> router option" where
  "run_events C [] s = Some s"
| "run_events C (e # es) s = (case fire C e s of None \<Rightarrow> None | Some s' \<Rightarrow> run_events C es s')"

inductive reachable :: "router_config \<Rightarrow> router \<Rightarrow> bool" for C where
  init: "reachable C initial_router"
| step: "reachable C s \<Longrightarrow> router_step C s e s' \<Longrightarrow> reachable C s'"

section \<open>Lemmas\<close>

lemma after_browser_id_cases:
  obtains e where "after_browser_id C req entry r = Settled (Inl e)"
  | d b where "r = Inr b" "dispatch_validate C req entry b = Inr (d, b)"
      "after_browser_id C req entry r = AwaitCapabilities d b"
proof (cases "bind_res r (dispatch_validate C req entry)")
  case (Inl e)
  then show ?thesis by (auto intro: that(1) simp: after_browser_id_def)
next
  case (Inr u)
  then obtain b where "r = Inr b" and v: "dispatch_validate C req entry b = Inr u"
    by (auto simp: bind_res_Inr)
  moreover from v obtain d where "u = (d, b)"
    by (auto simp: dispatch_validate_def bind_res_Inr split: table_entry.splits)
  ultimately show ?thesis using Inr by (auto intro: that(2) simp: after_browser_id_def)
qed

lemma after_capabilities_cases:
  obtains e where "after_capabilities C req d a r = Settled (Inl e)"
  | caps where "r = Inr caps" "dispatch_authorize C req d caps a = ok"
      "after_capabilities C req d a r = Running"
proof (cases "bind_res r (\<lambda>caps. dispatch_authorize C req d caps a)")
  case (Inl e)
  then show ?thesis by (auto intro: that(1) simp: after_capabilities_def)
next
  case (Inr u)
  then obtain caps where "r = Inr caps" "dispatch_authorize C req d caps a = ok"
    by (auto simp: bind_res_Inr)
  with Inr show ?thesis by (auto intro: that(2) simp: after_capabilities_def)
qed

lemma router_step_fire: "router_step C s e s' \<longleftrightarrow> fire C e s = Some s'"
proof
  show "fire C e s = Some s'" if "router_step C s e s'"
    using that
    by cases (auto split: phase.splits elim: after_capabilities_cases)
  show "router_step C s e s'" if f: "fire C e s = Some s'"
  proof (cases e)
    case (Capabilities i r)
    with f obtain x d b where x: "activeRequests s i = Some x" "exe_phase x = AwaitCapabilities d b"
      by (auto split: option.splits phase.splits)
    show ?thesis
      by (rule after_capabilities_cases [of C "exe_request x" d "exe_aborted x" r])
        (use f x Capabilities in \<open>auto intro: router_step.intros\<close>)
  qed (use f in \<open>auto split: option.splits phase.splits intro: router_step.intros\<close>)
qed

lemma run_events_reachable: "run_events C es s = Some s' \<Longrightarrow> reachable C s \<Longrightarrow> reachable C s'"
  by (induction es arbitrary: s) (auto split: option.splits simp flip: router_step_fire intro: reachable.step)

subsection \<open>One response for each request\<close>

text \<open>Whether an execution still owes its response.\<close>

definition owes :: "router \<Rightarrow> jsstr \<Rightarrow> nat" where
  "owes s i = (case activeRequests s i of None \<Rightarrow> 0 | Some x \<Rightarrow> if exe_phase x = Responding then 0 else 1)"

lemma after_browser_id_not_Responding [simp]: "after_browser_id C req entry r \<noteq> Responding"
  by (auto simp: after_browser_id_def split: sum.split)

definition balanced :: "router \<Rightarrow> bool" where
  "balanced s \<longleftrightarrow> (\<forall>i. count_list (accepted s) i = count_list (map fst (responded s)) i + owes s i)"

lemma balanced_step: "router_step C s e s' \<Longrightarrow> balanced s \<Longrightarrow> balanced s'"
  by (erule router_stepE)
    (auto simp: balanced_def owes_def execute_begin_def set_phase_def cancel_def split: option.splits sum.split)

lemma balanced_init: "balanced initial_router"
  by (simp add: balanced_def owes_def initial_router_def)

lemma balanced_reachable: "reachable C s \<Longrightarrow> balanced s"
  by (induction rule: reachable.induct) (blast intro: balanced_init balanced_step)+

subsection \<open>What admits a handler call\<close>

text \<open>A request that \<open>dispatch\<close> has found in the table and validated.\<close>

definition validated :: "router_config \<Rightarrow> request \<Rightarrow> command_def \<Rightarrow> jsstr \<Rightarrow> bool" where
  "validated C req d b \<longleftrightarrow> cfg_commands C (req_command req) = Own d
     \<and> returns (validateTarget (req_target req) b)
     \<and> returns (cmd_validate d (cfg_platform C) (req_params req) (req_target req))"

definition execution_ok :: "router_config \<Rightarrow> jsstr \<Rightarrow> execution \<Rightarrow> bool" where
  "execution_ok C i x \<longleftrightarrow> req_id (exe_request x) = i \<and>
     (case exe_phase x of
        AwaitBrowserId entry \<Rightarrow> cfg_commands C (req_command (exe_request x)) = entry \<and> entry \<noteq> Missing
      | AwaitCapabilities d b \<Rightarrow> validated C (exe_request x) d b
      | _ \<Rightarrow> True)"

definition invocation_ok :: "router_config \<Rightarrow> invocation \<Rightarrow> bool" where
  "invocation_ok C v \<longleftrightarrow> validated C (inv_request v) (inv_definition v) (inv_browserId v)
     \<and> req_command (inv_request v) \<in> set (inv_capabilities v)
     \<and> cfg_handlers C (cmd_domain (inv_definition v)) (cmd_handler (inv_definition v))"

definition router_ok :: "router_config \<Rightarrow> router \<Rightarrow> bool" where
  "router_ok C s \<longleftrightarrow> (\<forall>i x. activeRequests s i = Some x \<longrightarrow> execution_ok C i x)
     \<and> (\<forall>v\<in>set (invoked s). invocation_ok C v)"

lemma dispatch_lookup_Inr: "dispatch_lookup C req a = Inr entry \<longleftrightarrow>
    \<not> a \<and> cfg_commands C (req_command req) = entry \<and> entry \<noteq> Missing"
  by (auto simp: dispatch_lookup_def throwIfCancelled_def bind_res_Inr throw_if_def split: table_entry.splits)

lemma dispatch_validate_Inr: "dispatch_validate C req entry b = Inr u \<longleftrightarrow>
    (\<exists>d. u = (d, b) \<and> entry = Own d \<and> returns (validateTarget (req_target req) b)
      \<and> returns (cmd_validate d (cfg_platform C) (req_params req) (req_target req)))"
  by (auto simp: dispatch_validate_def bind_res_Inr returns_unit split: table_entry.splits)

lemma dispatch_authorize_ok: "dispatch_authorize C req d caps a = ok \<longleftrightarrow>
    req_command req \<in> set caps \<and> cfg_handlers C (cmd_domain d) (cmd_handler d) \<and> \<not> a"
  by (auto simp: dispatch_authorize_def throwIfCancelled_def simp flip: returns_unit simp: accept_simps)

lemma after_capabilities_Running: "after_capabilities C req d a r = Running \<longleftrightarrow>
    (\<exists>caps. r = Inr caps \<and> dispatch_authorize C req d caps a = ok)"
  by (rule after_capabilities_cases [of C req d a r]) (auto simp: after_capabilities_def)

lemma execution_ok_id: "execution_ok C i x \<Longrightarrow> req_id (exe_request x) = i"
  by (simp add: execution_ok_def)

lemma execution_ok_browser_id:
  assumes "execution_ok C i x" and "exe_phase x = AwaitBrowserId entry"
  shows "execution_ok C i (x\<lparr>exe_phase := after_browser_id C (exe_request x) entry r\<rparr>)"
  using assms
  by (cases rule: after_browser_id_cases [of C "exe_request x" entry r])
    (auto simp: execution_ok_def validated_def dispatch_validate_Inr)

lemma execution_ok_begin:
  "execution_ok C (req_id req) \<lparr>exe_request = req, exe_aborted = False,
     exe_phase = (case dispatch_lookup C req False of Inl e \<Rightarrow> Settled (Inl e) | Inr entry \<Rightarrow> AwaitBrowserId entry)\<rparr>"
  by (cases "dispatch_lookup C req False") (auto simp: execution_ok_def dest: dispatch_lookup_Inr [THEN iffD1])

lemma execution_ok_abort: "execution_ok C i x \<Longrightarrow> execution_ok C i (x\<lparr>exe_aborted := True\<rparr>)"
  by (cases "exe_phase x") (simp_all add: execution_ok_def)

lemma router_ok_set_phase:
  "router_ok C s \<Longrightarrow> execution_ok C i (x\<lparr>exe_phase := ph\<rparr>) \<Longrightarrow> router_ok C (set_phase i x ph s)"
  by (auto simp: router_ok_def set_phase_def)

lemma router_ok_active: "router_ok C s \<Longrightarrow> activeRequests s i = Some x \<Longrightarrow> execution_ok C i x"
  by (simp add: router_ok_def)

lemma execution_ok_late:
  assumes "router_ok C s" and "activeRequests s i = Some x"
  shows "execution_ok C i (x\<lparr>exe_phase := Running\<rparr>)" "execution_ok C i (x\<lparr>exe_phase := Settled q\<rparr>)"
    "execution_ok C i (x\<lparr>exe_phase := Responding\<rparr>)"
  using execution_ok_id [OF router_ok_active [OF assms]] by (simp_all add: execution_ok_def)

lemma invoked_set_phase [simp]: "invoked (set_phase i x ph s) = invoked s"
  and responded_set_phase [simp]: "responded (set_phase i x ph s) = responded s"
  by (simp_all add: set_phase_def)

lemma router_ok_invoke:
  assumes "router_ok C s" and "activeRequests s i = Some x" and "exe_phase x = AwaitCapabilities d b"
    and "after_capabilities C (exe_request x) d (exe_aborted x) (Inr caps) = Running"
  shows "invocation_ok C \<lparr>inv_request = exe_request x, inv_definition = d, inv_browserId = b, inv_capabilities = caps\<rparr>"
  using router_ok_active [OF assms(1,2)] assms(3,4)
  by (auto simp: execution_ok_def invocation_ok_def after_capabilities_Running dispatch_authorize_ok)

lemma router_ok_step:
  assumes "router_step C s e s'" and ok: "router_ok C s"
  shows "router_ok C s'"
  using assms(1)
proof cases
  case (execute req)
  then show ?thesis
    using ok execution_ok_begin [of C req] by (auto simp: execute_begin_def router_ok_def)
next
  case (browser_id i x entry r)
  then show ?thesis
    using ok by (auto intro!: router_ok_set_phase execution_ok_browser_id dest: router_ok_active)
next
  case (refused i x d r q b)
  then show ?thesis
    using ok by (auto intro!: router_ok_set_phase execution_ok_late)
next
  case (invoke i x d b caps)
  then have "router_ok C (set_phase i x Running s)"
    using ok by (auto intro!: router_ok_set_phase execution_ok_late)
  then show ?thesis
    using router_ok_invoke [OF ok] invoke by (auto simp: router_ok_def)
next
  case (handler i x r)
  then show ?thesis
    using ok by (auto intro!: router_ok_set_phase execution_ok_late)
next
  case (resume i x r)
  then have "router_ok C (set_phase i x Responding s)"
    using ok by (auto intro!: router_ok_set_phase execution_ok_late)
  then show ?thesis
    using resume by (simp add: router_ok_def)
next
  case (finish i x)
  then show ?thesis using ok by (auto simp: router_ok_def)
next
  case (cancel i)
  then show ?thesis
    using ok by (auto simp: cancel_def router_ok_def execution_ok_abort split: option.split)
qed

lemma router_ok_init: "router_ok C initial_router"
  by (simp add: router_ok_def initial_router_def)

lemma router_ok_reachable: "reachable C s \<Longrightarrow> router_ok C s"
  by (induction rule: reachable.induct) (blast intro: router_ok_init router_ok_step)+


subsection \<open>Cancellation\<close>

definition responses :: "jsstr \<Rightarrow> router \<Rightarrow> outcome list" where
  "responses i s = map snd (filter (\<lambda>p. fst p = i) (responded s))"

definition invocations :: "jsstr \<Rightarrow> router \<Rightarrow> invocation list" where
  "invocations i s = filter (\<lambda>v. req_id (inv_request v) = i) (invoked s)"

text \<open>A request that has been cancelled and not been answered.\<close>

definition cancel_pending :: "router \<Rightarrow> jsstr \<Rightarrow> bool" where
  "cancel_pending s i \<longleftrightarrow> (case activeRequests s i of None \<Rightarrow> False
     | Some x \<Rightarrow> exe_aborted x \<and> exe_phase x \<noteq> Responding)"

definition is_cancelled :: "outcome \<Rightarrow> bool" where
  "is_cancelled out = (case out of Success _ \<Rightarrow> False
     | Failure v \<Rightarrow> getp v ''code'' = jstr ''CANCELLED'' \<and> getp v ''retryable'' = Bool True)"

lemma outcome_aborted: "is_cancelled (outcome_of C req True r)"
  by (cases r) (simp_all add: outcome_of_def throwIfCancelled_def throw_if_def is_cancelled_def
      normalizeError_def cancelled_def error_value_def protocolError_def Let_def js_or_def getp_obj_append)

lemmas router_updates = execute_begin_def set_phase_def cancel_def cancel_pending_def responses_def invocations_def

lemma router_ok_req_id: "router_ok C s \<Longrightarrow> activeRequests s i = Some x \<Longrightarrow> req_id (exe_request x) = i"
  using router_ok_active execution_ok_id by blast

lemma cancel_pending_step:
  assumes "router_step C s e s'" and ok: "router_ok C s" and pending: "cancel_pending s i"
  shows "invocations i s' = invocations i s \<and>
    (cancel_pending s' i \<and> responses i s' = responses i s
     \<or> (\<exists>out. responses i s' = responses i s @ [out] \<and> is_cancelled out))"
  using assms(1)
proof cases
  case (refused j x d r q b)
  then show ?thesis
    using pending by (auto simp: router_updates split: option.splits)
next
  case (invoke j x d b caps)
  then have "j \<noteq> i"
    using pending by (auto simp: cancel_pending_def after_capabilities_Running dispatch_authorize_ok)
  then show ?thesis
    using invoke pending router_ok_req_id [OF ok] by (auto simp: router_updates split: option.splits)
next
  case (resume j x r)
  then show ?thesis
    using pending outcome_aborted [of C "exe_request x" r] by (auto simp: router_updates split: option.splits)
qed (use pending in \<open>auto simp: router_updates split: option.splits sum.splits\<close>)

lemma responses_step: "router_step C s e s' \<Longrightarrow> prefix (responses i s) (responses i s')"
  by (erule router_stepE) (auto simp: router_updates split: option.splits)

lemma responses_run: "run_events C es s = Some s' \<Longrightarrow> prefix (responses i s) (responses i s')"
proof (induction es arbitrary: s)
  case (Cons e es)
  then obtain t where "router_step C s e t" "run_events C es t = Some s'"
    by (auto simp: router_step_fire split: option.splits)
  with Cons.IH responses_step prefix_order.trans show ?case by blast
qed simp

lemma cancel_pending_run:
  assumes "run_events C es s = Some s'" and "router_ok C s" and "cancel_pending s i"
  shows "\<exists>rs. responses i s' = responses i s @ rs \<and>
    (case rs of [] \<Rightarrow> cancel_pending s' i \<and> invocations i s' = invocations i s | out # _ \<Rightarrow> is_cancelled out)"
  using assms
proof (induction es arbitrary: s)
  case (Cons e es)
  then obtain t where st: "router_step C s e t" and run: "run_events C es t = Some s'"
    by (auto simp: router_step_fire split: option.splits)
  from cancel_pending_step [OF st Cons.prems(2,3)] show ?case
  proof (elim conjE disjE exE)
    assume "cancel_pending t i" "responses i t = responses i s" "invocations i t = invocations i s"
    then show ?thesis
      using Cons.IH [OF run router_ok_step [OF st Cons.prems(2)]] by (simp cong: list.case_cong)
  next
    fix out assume "responses i t = responses i s @ [out]" "is_cancelled out"
    moreover obtain rs where "responses i s' = responses i t @ rs"
      using responses_run [OF run] by (auto simp: prefix_def)
    ultimately show ?thesis by (intro exI [of _ "out # rs"]) simp
  qed
qed simp

subsection \<open>Progress\<close>

text \<open>How many steps an execution has before it at most.\<close>

fun phase_rank :: "phase \<Rightarrow> nat" where
  "phase_rank (AwaitBrowserId _) = 5"
| "phase_rank (AwaitCapabilities _ _) = 4"
| "phase_rank Running = 3"
| "phase_rank (Settled _) = 2"
| "phase_rank Responding = 1"

definition remaining :: "router \<Rightarrow> jsstr \<Rightarrow> nat" where
  "remaining s i = (case activeRequests s i of None \<Rightarrow> 0 | Some x \<Rightarrow> phase_rank (exe_phase x))"

lemma after_browser_id_rank: "phase_rank (after_browser_id C req entry r) < 5"
  by (rule after_browser_id_cases [of C req entry r]) auto

lemma after_capabilities_rank: "phase_rank (after_capabilities C req d a r) < 4"
  by (rule after_capabilities_cases [of C req d a r]) auto

text \<open>Which request an event advances.\<close>

fun advances :: "event \<Rightarrow> jsstr option" where
  "advances (Execute _) = None"
| "advances (BrowserId i _) = Some i"
| "advances (Capabilities i _) = Some i"
| "advances (HandlerSettled i _) = Some i"
| "advances (Resume i) = Some i"
| "advances (ResponseSettled i) = Some i"
| "advances (Cancel _) = None"

lemma advance_decreases: "router_step C s e s' \<Longrightarrow> advances e = Some i \<Longrightarrow> remaining s' i < remaining s i"
  by (erule router_stepE) (auto simp: remaining_def set_phase_def after_browser_id_rank)

lemma others_unchanged:
  assumes "router_step C s e s'" and "advances e \<noteq> Some i" and "remaining s i > 0"
  shows "remaining s' i = remaining s i"
  using assms
  by (elim router_stepE) (auto simp: remaining_def set_phase_def execute_begin_def cancel_def split: option.splits)

lemma advance_enabled:
  assumes "remaining s i > 0"
  shows "\<exists>e\<in>{BrowserId i b, Capabilities i caps, HandlerSettled i h, Resume i, ResponseSettled i}. \<exists>s'.
    router_step C s e s'"
proof -
  obtain x where x: "activeRequests s i = Some x"
    using assms by (auto simp: remaining_def split: option.splits)
  show ?thesis
  proof (cases "exe_phase x")
    case (AwaitCapabilities d a)
    show ?thesis
      by (rule after_capabilities_cases [of C "exe_request x" d "exe_aborted x" caps])
        (use x AwaitCapabilities in \<open>auto intro: router_step.intros\<close>)
  qed (use x in \<open>auto intro: router_step.intros\<close>)
qed

subsection \<open>The steps implement dispatch\<close>

text \<open>The promises that \<open>dispatch\<close> awaits before it settles, in order.\<close>

definition awaits ::
    "router_config \<Rightarrow> request \<Rightarrow> jsstr res \<Rightarrow> (jsstr list) res \<Rightarrow> jsval res \<Rightarrow> event list" where
  "awaits C req browserId capabilities h =
     (case dispatch_lookup C req False of Inl _ \<Rightarrow> [] | Inr entry \<Rightarrow> BrowserId (req_id req) browserId #
     (case bind_res browserId (dispatch_validate C req entry) of Inl _ \<Rightarrow> [] | Inr (d, _) \<Rightarrow>
        Capabilities (req_id req) capabilities #
     (case bind_res capabilities (\<lambda>caps. dispatch_authorize C req d caps False) of Inl _ \<Rightarrow> [] | Inr _ \<Rightarrow>
        [HandlerSettled (req_id req) h])))"

lemma map_upd_same: "m i = None \<Longrightarrow> (m(i := None)) = m"
  by auto

lemma dispatch_stages:
  obtains (missing) e where "dispatch_lookup C req False = Inl e"
  | (no_id) entry e where "dispatch_lookup C req False = Inr entry" "r = Inl e"
  | (rejected) entry b e where "dispatch_lookup C req False = Inr entry" "r = Inr b"
      "dispatch_validate C req entry b = Inl e"
  | (admitted) entry b d where "dispatch_lookup C req False = Inr entry" "r = Inr b"
      "dispatch_validate C req entry b = Inr (d, b)"
proof (cases "dispatch_lookup C req False")
  case (Inl e)
  then show ?thesis by (rule missing)
next
  case (Inr entry)
  show ?thesis
  proof (cases r)
    case (Inl e)
    with Inr show ?thesis by (rule no_id)
  next
    case r: (Inr b)
    show ?thesis
    proof (cases "dispatch_validate C req entry b")
      case (Inl e)
      with Inr r show ?thesis by (rule rejected)
    next
      case v: (Inr u)
      then have "\<exists>d. u = (d, b)" by (auto simp: dispatch_validate_Inr)
      with Inr r v show ?thesis by (auto intro: admitted)
    qed
  qed
qed

lemmas stage_simps = awaits_def dispatch_def execute_begin_def set_phase_def after_browser_id_def after_capabilities_def

lemma run_awaits:
  assumes "activeRequests s (req_id req) = None"
  shows "\<exists>s'. run_events C (Execute req # awaits C req r c h @ [Resume (req_id req), ResponseSettled (req_id req)]) s
      = Some s' \<and> activeRequests s' = activeRequests s
    \<and> responded s' = responded s @ [(req_id req, outcome_of C req False (dispatch C req False False r c (\<lambda>_. h)))]"
proof -
  note [simp] = assms map_upd_same
  show ?thesis
  proof (cases rule: dispatch_stages [where C = C and req = req and r = r])
    case (missing e)
    then show ?thesis by (simp add: stage_simps)
  next
    case (no_id entry e)
    then show ?thesis by (simp add: stage_simps)
  next
    case (rejected entry b e)
    then show ?thesis by (simp add: stage_simps)
  next
    case (admitted entry b d)
    then show ?thesis
    proof (cases c)
      case (Inl e)
      then show ?thesis using admitted by (simp add: stage_simps)
    next
      case (Inr caps)
      then show ?thesis using admitted
        by (cases "dispatch_authorize C req d caps False") (simp_all add: stage_simps)
    qed
  qed
qed


section \<open>The contract between the router and its table\<close>

text \<open>What the router relies on: a validator of the table throws nothing but faults of the caller, and
  the handler of every entry is registered.\<close>

locale command_table =
  fixes C :: router_config
  assumes own_fault: "cfg_commands C name = Own d \<Longrightarrow>
      thrown_in caller_fault (cmd_validate d (cfg_platform C) params target)"
    and own_handler: "cfg_commands C name = Own d \<Longrightarrow> cfg_handlers C (cmd_domain d) (cmd_handler d)"
begin

lemma validate_fault:
  assumes "dispatch_validate C req entry b = Inl e" and "cfg_commands C (req_command req) = entry" and "entry \<noteq> Missing"
  shows "caller_fault e \<or> entry = Inherited"
proof (cases entry)
  case (Own d)
  with assms show ?thesis
    using own_fault [of "req_command req" d "req_params req" "req_target req"] validateTarget_fault [of "req_target req" b]
    by (auto simp: dispatch_validate_def bind_res_Inl thrown_in_def)
qed (use assms in auto)

lemma authorize_fault:
  assumes "dispatch_authorize C req d caps False = Inl e" and "cfg_commands C (req_command req) = Own d"
  shows "req_command req \<notin> set caps \<and> exn_code e = Some CAPABILITY_UNAVAILABLE"
  using assms own_handler [OF assms(2)]
  by (auto simp: dispatch_authorize_def checks.simps throw_if_def throwIfCancelled_def split: if_splits)

lemma lookup_fault:
  "dispatch_lookup C req False = Inl e \<Longrightarrow> cfg_commands C (req_command req) = Missing \<and> exn_code e = Some INVALID_COMMAND"
  by (auto simp: dispatch_lookup_def throwIfCancelled_def throw_if_def split: table_entry.splits)

lemma dispatch_fault:
  assumes "dispatch C req a1 a2 r c h = Inl e" and "cfg_commands C (req_command req) \<noteq> Inherited"
  shows "(a1 \<or> a2) \<and> e = cancelled
    \<or> cfg_commands C (req_command req) = Missing \<and> exn_code e = Some INVALID_COMMAND
    \<or> r = Inl e
    \<or> caller_fault e \<and> (\<exists>b d. r = Inr b \<and> cfg_commands C (req_command req) = Own d \<and> \<not> validated C req d b)
    \<or> c = Inl e
    \<or> exn_code e = Some CAPABILITY_UNAVAILABLE \<and> (\<exists>caps. c = Inr caps \<and> req_command req \<notin> set caps)
    \<or> h req = Inl e"
proof (cases "dispatch_lookup C req a1")
  case (Inl e')
  then show ?thesis using assms(1)
    by (auto simp: dispatch_def dispatch_lookup_def throwIfCancelled_def throw_if_def split: table_entry.splits if_splits)
next
  case (Inr entry)
  then have entry: "cfg_commands C (req_command req) = entry" "entry \<noteq> Missing" by (simp_all add: dispatch_lookup_Inr)
  show ?thesis
  proof (cases "bind_res r (dispatch_validate C req entry)")
    case (Inl e')
    then have e: "e' = e" using assms(1) \<open>dispatch_lookup C req a1 = Inr entry\<close> by (cases r) (auto simp: dispatch_def)
    show ?thesis
    proof (cases r)
      case (Inr b)
      with Inl e have v: "dispatch_validate C req entry b = Inl e" by simp
      from validate_fault [OF this entry] assms(2) entry have "caller_fault e" by auto
      moreover obtain d where d: "entry = Own d" using assms(2) entry by (cases entry) auto
      moreover have "\<not> validated C req d b"
        using v by (auto simp: d validated_def dispatch_validate_def returns_def bind_res_Inl)
      ultimately show ?thesis using Inr entry by blast
    qed (use Inl e in simp)
  next
    case v: (Inr u)
    then obtain b d where b: "r = Inr b" "dispatch_validate C req entry b = Inr (d, b)" "u = (d, b)"
      by (auto simp: bind_res_Inr dispatch_validate_Inr)
    then have own: "cfg_commands C (req_command req) = Own d" using entry by (simp add: dispatch_validate_Inr)
    from assms(1) Inr b have rest: "bind_res c (\<lambda>caps. bind_res (dispatch_authorize C req d caps a2) (\<lambda>_. h req)) = Inl e"
      by (simp add: dispatch_def)
    then consider "c = Inl e" | caps where "c = Inr caps" "dispatch_authorize C req d caps a2 = Inl e" | "h req = Inl e"
      by (cases c) (auto simp: bind_res_Inl)
    then show ?thesis
    proof cases
      case 2
      then show ?thesis using own_handler [OF own]
        by (auto simp: dispatch_authorize_def checks.simps throw_if_def throwIfCancelled_def split: if_splits)
    qed simp_all
  qed
qed

lemma dispatch_returns:
  "dispatch C req a1 a2 r c h = Inr v \<longleftrightarrow>
   \<not> a1 \<and> \<not> a2 \<and> (\<exists>b caps d. r = Inr b \<and> c = Inr caps \<and> validated C req d b \<and> req_command req \<in> set caps \<and> h req = Inr v)"
proof -
  have "dispatch_lookup C req a1 = Inr entry \<Longrightarrow> \<not> a1" for entry
    by (auto simp: dispatch_lookup_def throwIfCancelled_def throw_if_def)
  moreover have "dispatch_authorize C req d caps a2 = Inr u \<Longrightarrow> \<not> a2" for d caps u
    by (auto simp: dispatch_authorize_def checks.simps throwIfCancelled_def throw_if_def split: if_splits)
  ultimately have "dispatch C req a1 a2 r c h = Inr v \<Longrightarrow> \<not> a1 \<and> \<not> a2"
    by (auto simp: dispatch_def bind_res_Inr)
  moreover have "dispatch C req False False r c h = Inr v \<longleftrightarrow>
      (\<exists>b caps d. r = Inr b \<and> c = Inr caps \<and> validated C req d b \<and> req_command req \<in> set caps \<and> h req = Inr v)"
    using own_handler
    by (auto simp: dispatch_def bind_res_Inr dispatch_lookup_Inr dispatch_validate_Inr dispatch_authorize_ok validated_def)
  ultimately show ?thesis by (cases a1; cases a2) auto
qed

end

lemma extension_router_simps [simp]:
  "cfg_commands (extension_router P) = lookup_command"
  "cfg_handlers (extension_router P) = hasHandler"
  "cfg_platform (extension_router P) = P"
  by (simp_all add: extension_router_def)

lemma route_registered: "(n, d) \<in> set COMMANDS \<Longrightarrow> hasHandler (cmd_domain d) (cmd_handler d)"
  using routes_registered by (auto simp: list_all_iff simp del: hasHandler_def)

lemma own_handler_registered: "lookup_command name = Own d \<Longrightarrow> hasHandler (cmd_domain d) (cmd_handler d)"
  using lookup_Own_in_table route_registered by blast

lemma own_validator_fault: "lookup_command name = Own d \<Longrightarrow> thrown_in caller_fault (cmd_validate d P params target)"
  using lookup_Own_in_table command_fault by blast

lemma map_of_lit: "map_of (map (\<lambda>(n, d). (lit n, d)) xs) (lit n) = map_of xs n"
  by (induction xs) auto

lemma prototype_members_not_commands: "list_all (\<lambda>n. \<not> List.member COMMAND_NAMES n) object_prototype_members"
proof -
  have "list_all (\<lambda>n. n \<notin> set (bucket (length n) (buckets length COMMAND_NAMES))) object_prototype_members"
    unfolding object_prototype_members_def by code_simp
  then show ?thesis unfolding list_all_iff bucket_filter by simp
qed

lemma lookup_inherited: "n \<in> set object_prototype_members \<Longrightarrow> lookup_command (lit n) = Inherited"
proof -
  assume n: "n \<in> set object_prototype_members"
  with prototype_members_not_commands have "map_of COMMANDS n = None"
    by (auto simp: list_all_iff COMMAND_NAMES_def map_of_eq_None_iff)
  with n show ?thesis
    by (simp add: lookup_command_def map_of_lit)
qed

interpretation tbl: command_table "extension_router P" for P
  by unfold_locales (simp_all add: own_handler_registered own_validator_fault)

lemmas validated_defs = validated_def invocation_ok_def

text \<open>The commands for which \<open>chrome-extension/INSTALL.md\<close> promises confirmation: clearing of storage, erasure of a
  download from the history of downloads, deletion of history, and the recursive removal of a bookmark folder.\<close>

definition documented_confirmation :: "string \<Rightarrow> jsval \<Rightarrow> bool" where
  "documented_confirmation n params \<longleftrightarrow>
     n \<in> {''storage.clear'', ''downloads.erase'', ''history.deleteUrl'', ''history.deleteRange'', ''history.deleteAll''}
     \<or> (n = ''bookmarks.remove'' \<and> getp params ''recursive'' = Bool True)"

lemma lit_inj: "lit a = lit b \<longleftrightarrow> a = b"
  by (rule lit_eq_iff)

section \<open>Properties\<close>

text \<open>C3: every accepted request is answered exactly once: at any moment, under every interleaving of
  requests, cancellations and settling promises, the calls of \<open>respond\<close> for an id are as many as
  the accepted executions of that id, less the one still active that owes its response.\<close>

theorem one_response_per_request:
  assumes "reachable C s"
  shows "count_list (accepted s) i = count_list (map fst (responded s)) i + owes s i"
  using balanced_reachable [OF assms] by (simp add: balanced_def)

text \<open>C2: a handler is called only for a request whose command is in the table, whose target is of the
  browser's own id, whose parameters its validator accepts, and whose command is among the
  capabilities read just before; and it is the registered handler.\<close>

theorem handler_calls_admitted:
  assumes "reachable (extension_router P) s" and "v \<in> set (invoked s)"
  shows "\<exists>n. (n, inv_definition v) \<in> set COMMANDS
    \<and> req_command (inv_request v) = lit n \<and> lit n \<in> set (inv_capabilities v)
    \<and> returns (validateTarget (req_target (inv_request v)) (inv_browserId v))
    \<and> returns (cmd_validate (inv_definition v) P (req_params (inv_request v)) (req_target (inv_request v)))
    \<and> hasHandler (cmd_domain (inv_definition v)) (cmd_handler (inv_definition v))"
  using router_ok_reachable [OF assms(1)] assms(2) lookup_Own_in_table
  by (fastforce simp: router_ok_def validated_defs)

text \<open>C5: the confirmations that the installation guide promises. Whatever the interleaving, no handler of \<open>storage.clear\<close>,
  \<open>downloads.erase\<close>, \<open>history.deleteUrl\<close>, \<open>history.deleteRange\<close> or \<open>history.deleteAll\<close>, and none of \<open>bookmarks.remove\<close> with
  \<open>recursive: true\<close>, is called for a request without \<open>confirm: true\<close> among its parameters. (Other commands that remove something,
  such as \<open>cookies.remove\<close>, ask for no confirmation.)\<close>

theorem documented_calls_confirmed:
  assumes "reachable (extension_router P) s" and "v \<in> set (invoked s)"
    and "req_command (inv_request v) = lit n" and "documented_confirmation n (req_params (inv_request v))"
  shows "getp (req_params (inv_request v)) ''confirm'' = Bool True"
proof -
  from assms(1,2) have ok: "validated (extension_router P) (inv_request v) (inv_definition v) (inv_browserId v)"
    using router_ok_reachable by (fastforce simp: router_ok_def invocation_ok_def)
  then obtain m where "(m, inv_definition v) \<in> set COMMANDS" "lit n = lit m"
    using lookup_Own_in_table assms(3) by (fastforce simp: validated_def)
  then have "(n, inv_definition v) \<in> set COMMANDS"
    by (simp add: lit_inj)
  with ok assms(4) show ?thesis
    using confirmed [of "req_params (inv_request v)" P "req_target (inv_request v)"]
    by (fastforce simp: validated_def documented_confirmation_def list_all_iff)
qed

text \<open>C1: cancellation wins. Once a request that is not yet answered is cancelled, whatever happens
  afterwards, its handler is not called before its response, and that response is the retryable
  error \<open>CANCELLED\<close>, also when the handler returned a result.\<close>

theorem cancel_wins:
  assumes "reachable C s" and "activeRequests s i = Some x" and "exe_phase x \<noteq> Responding"
    and "run_events C (Cancel i # es) s = Some s'"
  shows "\<exists>rs. responses i s' = responses i s @ rs \<and>
    (case rs of [] \<Rightarrow> cancel_pending s' i \<and> invocations i s' = invocations i s | out # _ \<Rightarrow> is_cancelled out)"
proof -
  let ?t = "snd (cancel i s)"
  have st: "router_step C s (Cancel i) ?t" by (rule router_step.cancel)
  have "run_events C es ?t = Some s'" using assms(4) by simp
  moreover have "router_ok C ?t" using router_ok_step [OF st router_ok_reachable [OF assms(1)]] .
  moreover have "cancel_pending ?t i" "responses i ?t = responses i s" "invocations i ?t = invocations i s"
    using assms(2,3) by (simp_all add: router_updates)
  ultimately show ?thesis using cancel_pending_run [of C es ?t s' i] by (simp cong: list.case_cong)
qed

text \<open>C4: progress. Whatever the awaited promises settle with, a step of an active request is enabled;
  every such step brings the request strictly closer to its end, which is at most five steps away;
  and no other event moves it.\<close>

theorem request_progress:
  "(remaining s i > 0 \<longrightarrow>
      (\<exists>e\<in>{BrowserId i b, Capabilities i caps, HandlerSettled i h, Resume i, ResponseSettled i}. \<exists>s'.
         router_step C s e s'))
   \<and> (\<forall>e s'. router_step C s e s' \<and> advances e = Some i \<longrightarrow> remaining s' i < remaining s i)
   \<and> (\<forall>e s'. router_step C s e s' \<and> advances e \<noteq> Some i \<and> remaining s i > 0 \<longrightarrow> remaining s' i = remaining s i)
   \<and> remaining s i \<le> 5"
proof -
  have "remaining s i \<le> 5"
    by (cases "activeRequests s i"; cases "exe_phase (the (activeRequests s i))") (simp_all add: remaining_def)
  then show ?thesis
    using advance_enabled advance_decreases others_unchanged by blast
qed

text \<open>C6: a dispatch succeeds exactly when the signal is aborted at neither of its two checks, the browser id and the capabilities
  are provided, the command is in the table, the target is of this browser,
  the validator accepts, the command is among the capabilities, and the handler returns that value; the handler
  is never missing.\<close>

theorem dispatch_succeeds_iff:
  "dispatch (extension_router P) req first second browserId capabilities h = Inr v \<longleftrightarrow>
   \<not> first \<and> \<not> second \<and> (\<exists>b caps d. browserId = Inr b \<and> capabilities = Inr caps
     \<and> lookup_command (req_command req) = Own d \<and> returns (validateTarget (req_target req) b)
     \<and> returns (cmd_validate d P (req_params req) (req_target req))
     \<and> req_command req \<in> set caps \<and> h req = Inr v)"
  using tbl.dispatch_returns [of P req first second browserId capabilities h v] by (auto simp: validated_def)

text \<open>C7: Why a dispatch throws, for a command whose name is not inherited from \<open>Object.prototype\<close>: it is cancelled, and throws
  \<open>CANCELLED\<close>; the command is unknown, and it throws \<open>INVALID_COMMAND\<close>; it throws what the provider of the browser id rejects with; the
  target is of another browser or the validator rejects the parameters, and it throws a fault of the caller; it throws what the
  provider of the capabilities rejects with; the command is not among the capabilities, and it throws
  \<open>CAPABILITY_UNAVAILABLE\<close>; or it throws what the handler rejects with.\<close>

theorem dispatch_error_codes:
  assumes "dispatch (extension_router P) req first second browserId capabilities h = Inl e"
    and "lookup_command (req_command req) \<noteq> Inherited"
  shows "(first \<or> second) \<and> e = cancelled
    \<or> lookup_command (req_command req) = Missing \<and> exn_code e = Some INVALID_COMMAND
    \<or> browserId = Inl e
    \<or> caller_fault e \<and> (\<exists>b d. browserId = Inr b \<and> lookup_command (req_command req) = Own d
         \<and> \<not> (returns (validateTarget (req_target req) b) \<and> returns (cmd_validate d P (req_params req) (req_target req))))
    \<or> capabilities = Inl e
    \<or> exn_code e = Some CAPABILITY_UNAVAILABLE \<and> (\<exists>caps. capabilities = Inr caps \<and> req_command req \<notin> set caps)
    \<or> h req = Inl e"
  using tbl.dispatch_fault [of P req first second browserId capabilities h e] assms by (auto simp: validated_def)

text \<open>The exception of the last property is real: for a command named like a member of
  \<open>Object.prototype\<close> the response is \<open>INTERNAL_ERROR\<close> with the text of a \<open>TypeError\<close>, where every
  other unknown command is \<open>INVALID_COMMAND\<close>.\<close>

theorem inherited_command_crashes:
  assumes "n \<in> set object_prototype_members" and "req_command req = lit n" and "nullish (req_target req)"
  shows "dispatch (extension_router P) req False aborted (Inr b) caps h = Inl validate_not_a_function
    \<and> getp (normalizeError P validate_not_a_function ctx) ''code'' = jstr ''INTERNAL_ERROR''"
proof -
  have "lookup_command (req_command req) = Inherited"
    using assms(1,2) by (simp add: lookup_inherited)
  moreover have "validateTarget (req_target req) b = ok"
    using assms(3) by (simp add: validateTarget_def)
  moreover have "getp (normalizeError P validate_not_a_function ctx) ''code'' = jstr ''INTERNAL_ERROR''"
    by (simp add: normalizeError_def validate_not_a_function_def error_value_def Let_def js_or_def getp_obj_append)
  ultimately show ?thesis
    by (simp add: dispatch_def dispatch_lookup_def dispatch_validate_def throwIfCancelled_def throw_if_def)
qed


section \<open>Witnesses: a concrete run\<close>

definition demo_erase :: request where
  "demo_erase = \<lparr>req_id = lit ''r1'', req_command = lit ''downloads.erase'', req_target = Undefined,
     req_params = obj [(''downloadId'', jnum 7), (''confirm'', Bool True), (''allowIncognito'', Bool False)]\<rparr>"

definition demo_erase_entry :: command_def where
  "demo_erase_entry = \<lparr>cmd_domain = ''downloads'', cmd_handler = ''erase'',
     cmd_validate = (\<lambda>_. validateDownloadErase)\<rparr>"

abbreviation demo_router :: router_config where
  "demo_router \<equiv> extension_router demo_platform"

definition demo_events :: "event list" where
  "demo_events = [Execute demo_erase, BrowserId (lit ''r1'') (Inr (lit ''b1'')),
     Capabilities (lit ''r1'') (Inr [lit ''downloads.erase''])]"

lemma demo_erase_simps [simp]:
  "req_id demo_erase = lit ''r1''" "req_command demo_erase = lit ''downloads.erase''"
  "req_target demo_erase = Undefined" "getp (req_params demo_erase) ''confirm'' = Bool True"
  by (simp_all add: demo_erase_def)

lemma demo_in_table: "(''downloads.erase'', demo_erase_entry) \<in> set COMMANDS"
  by (simp add: COMMANDS_def personalDataCommands_def command_def demo_erase_entry_def)

lemma demo_lookup: "lookup_command (lit ''downloads.erase'') = Own demo_erase_entry"
  using demo_in_table by (rule lookup_in_table)

lemma demo_validate: "validateDownloadErase (req_params demo_erase) Undefined = ok"
  by code_simp

lemma demo_stages:
  "dispatch_lookup demo_router demo_erase False = Inr (Own demo_erase_entry)"
  "dispatch_validate demo_router demo_erase (Own demo_erase_entry) b = Inr (demo_erase_entry, b)"
  "dispatch_authorize demo_router demo_erase demo_erase_entry [lit ''downloads.erase''] False = ok"
  using demo_lookup demo_validate route_registered [OF demo_in_table]
  by (simp_all add: dispatch_lookup_Inr dispatch_validate_Inr dispatch_authorize_ok validateTarget_def nullish_def)
     (simp add: demo_erase_entry_def)

lemma demo_run:
  "\<exists>s x. run_events demo_router demo_events initial_router = Some s
    \<and> accepted s = [lit ''r1''] \<and> responded s = []
    \<and> activeRequests s (lit ''r1'') = Some x \<and> exe_phase x = Running
    \<and> invoked s = [\<lparr>inv_request = demo_erase, inv_definition = demo_erase_entry, inv_browserId = lit ''b1'',
        inv_capabilities = [lit ''downloads.erase'']\<rparr>]"
  by (simp add: demo_events_def execute_begin_def initial_router_def demo_stages after_browser_id_def
      after_capabilities_def set_phase_def)

lemma demo_reachable: "run_events demo_router es initial_router = Some s \<Longrightarrow> reachable demo_router s"
  by (rule run_events_reachable [OF _ reachable.init])


theorem one_response_per_request_witness:
  "\<exists>s. run_events demo_router demo_events initial_router = Some s
     \<and> count_list (accepted s) (lit ''r1'') = count_list (map fst (responded s)) (lit ''r1'') + owes s (lit ''r1'')"
proof -
  obtain s where s: "run_events demo_router demo_events initial_router = Some s"
    using demo_run by blast
  then show ?thesis
    using one_response_per_request [OF demo_reachable [OF s]] by blast
qed

theorem handler_calls_admitted_witness:
  "\<exists>n. (n, demo_erase_entry) \<in> set COMMANDS \<and> lit ''downloads.erase'' = lit n
     \<and> lit n \<in> set [lit ''downloads.erase'']"
proof -
  obtain s where s: "run_events demo_router demo_events initial_router = Some s"
    and v: "\<lparr>inv_request = demo_erase, inv_definition = demo_erase_entry, inv_browserId = lit ''b1'',
        inv_capabilities = [lit ''downloads.erase'']\<rparr> \<in> set (invoked s)"
    using demo_run by force
  show ?thesis
    using handler_calls_admitted [OF demo_reachable [OF s] v] by auto
qed

theorem documented_calls_confirmed_witness: "getp (req_params demo_erase) ''confirm'' = Bool True"
proof -
  obtain s where s: "run_events demo_router demo_events initial_router = Some s"
    and v: "\<lparr>inv_request = demo_erase, inv_definition = demo_erase_entry, inv_browserId = lit ''b1'',
        inv_capabilities = [lit ''downloads.erase'']\<rparr> \<in> set (invoked s)"
    using demo_run by force
  show ?thesis
    using documented_calls_confirmed [OF demo_reachable [OF s] v, of "''downloads.erase''"]
    by (simp add: documented_confirmation_def)
qed

text \<open>The running request of the demonstration is cancelled, its handler returns, and it is answered.\<close>

theorem cancel_wins_witness:
  "\<exists>s s' out. run_events demo_router demo_events initial_router = Some s
     \<and> run_events demo_router [Cancel (lit ''r1''), HandlerSettled (lit ''r1'') (Inr Null), Resume (lit ''r1'')] s = Some s'
     \<and> responses (lit ''r1'') s' = [out] \<and> is_cancelled out"
proof -
  obtain s x where s: "run_events demo_router demo_events initial_router = Some s" "responded s = []"
    "activeRequests s (lit ''r1'') = Some x" "exe_phase x = Running"
    using demo_run by blast
  obtain s' out where s': "run_events demo_router
      (Cancel (lit ''r1'') # [HandlerSettled (lit ''r1'') (Inr Null), Resume (lit ''r1'')]) s = Some s'"
    "responses (lit ''r1'') s' = [out]"
    using s(2-4) by (simp add: cancel_def set_phase_def responses_def)
  moreover have "responses (lit ''r1'') s = []"
    using s(2) by (simp add: responses_def)
  ultimately have "is_cancelled out"
    using cancel_wins [OF demo_reachable [OF s(1)] s(3) _ s'(1)] s(4) by auto
  with s(1) s' show ?thesis by auto
qed

theorem request_progress_witness:
  "\<exists>s. run_events demo_router demo_events initial_router = Some s \<and> remaining s (lit ''r1'') = 3
     \<and> (\<forall>s'. router_step demo_router s (HandlerSettled (lit ''r1'') (Inr Null)) s' \<longrightarrow> remaining s' (lit ''r1'') < 3)"
proof -
  obtain s x where s: "run_events demo_router demo_events initial_router = Some s"
    "activeRequests s (lit ''r1'') = Some x" "exe_phase x = Running"
    using demo_run by blast
  then have r: "remaining s (lit ''r1'') = 3" by (simp add: remaining_def)
  from request_progress [of s "lit ''r1''" "Inl undefined" "Inl undefined" "Inl undefined" demo_router] r s(1)
  show ?thesis by (metis advances.simps(4))
qed

theorem dispatch_error_codes_witness:
  "(\<exists>e. dispatch demo_router demo_erase False False (Inr (lit ''b1'')) (Inr []) (\<lambda>_. Inr Null) = Inl e \<and>
        (exn_code e = Some CAPABILITY_UNAVAILABLE \<or> caller_fault e \<or> exn_code e = Some INVALID_COMMAND))"
proof -
  obtain e where e: "dispatch demo_router demo_erase False False (Inr (lit ''b1'')) (Inr []) (\<lambda>_. Inr Null) = Inl e"
    by (auto simp: dispatch_def demo_stages dispatch_authorize_def checks.simps throw_if_def)
  show ?thesis
    using dispatch_error_codes [OF e] e demo_lookup by auto
qed

theorem inherited_command_crashes_witness:
  "dispatch demo_router \<lparr>req_id = lit ''r1'', req_command = lit ''constructor'', req_target = Undefined,
     req_params = Undefined\<rparr> False False (Inr (lit ''b1'')) (Inr []) (\<lambda>_. Inr Null) = Inl validate_not_a_function"
  using inherited_command_crashes [of "''constructor''" "\<lparr>req_id = lit ''r1'', req_command = lit ''constructor'',
     req_target = Undefined, req_params = Undefined\<rparr>" demo_platform False "lit ''b1''" "Inr []"]
  by (simp add: object_prototype_members_def nullish_def)

end
