(* ===== verification/Command_Properties.thy ===== *)
theory Command_Properties
  imports Command_Table
begin

text \<open>
  What the validators of the command table guarantee to the handlers behind them: page ranges and
  margins of PDF requests, cookies, storage writes and raw CDP queries. The comparison of rounded
  margin sums needs the monotonicity of rounding, proved first.
\<close>

section \<open>Rounding is monotone\<close>

lemma round_half_even_of_int [simp]: "round_half_even (of_int n) = n"
  by (simp add: round_half_even_def)

lemma round_half_even_mono:
  assumes "x \<le> y"
  shows "round_half_even x \<le> round_half_even y"
proof (cases "\<lfloor>x\<rfloor> = \<lfloor>y\<rfloor>")
  case True
  with assms show ?thesis by (auto simp: round_half_even_def Let_def)
next
  case False
  with assms have "\<lfloor>x\<rfloor> + 1 \<le> \<lfloor>y\<rfloor>"
    using floor_mono [OF assms] by linarith
  moreover have "round_half_even x \<le> \<lfloor>x\<rfloor> + 1" "\<lfloor>y\<rfloor> \<le> round_half_even y"
    by (auto simp: round_half_even_def Let_def)
  ultimately show ?thesis by linarith
qed

lemma bitlen_powi: "0 < n \<Longrightarrow> 2 powi (bitlen n - 1) \<le> (of_int n :: rat) \<and> (of_int n :: rat) < 2 powi (bitlen n)"
proof -
  assume n: "0 < n"
  then have b: "2 ^ nat (bitlen n - 1) \<le> n \<and> n < 2 ^ nat (bitlen n)"
    by (rule bitlen_bounds)
  have p: "bitlen n > 0" by (rule ccontr) (use b n in simp)
  have "(2 powi (bitlen n - 1) :: rat) = of_int (2 ^ nat (bitlen n - 1))"
    "(2 powi (bitlen n) :: rat) = of_int (2 ^ nat (bitlen n))"
    using p by (simp_all add: power_int_def)
  then show ?thesis
    using b by (simp only: of_int_le_iff of_int_less_iff)
qed

lemma binary_exponent_bounds:
  assumes "0 < x"
  shows "2 powi (binary_exponent x) \<le> x \<and> x < 2 powi (binary_exponent x + 1)"
proof -
  obtain n d where q: "quotient_of x = (n, d)" by force
  have d: "0 < d" using quotient_of_denom_pos [OF q] .
  have x: "x = of_int n / of_int d" using quotient_of_div [OF q] .
  with assms d have n: "0 < n"
    by (simp add: zero_less_divide_iff)
  define e where "e = bitlen n - bitlen d"
  have n': "2 powi (bitlen n - 1) \<le> (of_int n :: rat)" "(of_int n :: rat) < 2 powi (bitlen n)"
    using bitlen_powi [OF n] by auto
  have d': "2 powi (bitlen d - 1) \<le> (of_int d :: rat)" "(of_int d :: rat) < 2 powi (bitlen d)"
    using bitlen_powi [OF d] by auto
  have pos: "(0 :: rat) < of_int d" using d by simp
  have upper: "x < 2 powi (e + 1)"
  proof -
    have "of_int n < (2 powi (e + 1) * 2 powi (bitlen d - 1) :: rat)"
      using n'(2) by (simp add: e_def flip: power_int_add)
    also have "\<dots> \<le> 2 powi (e + 1) * of_int d"
      using d'(1) by (intro mult_left_mono) auto
    finally show ?thesis
      using pos by (simp add: x pos_divide_less_eq mult.commute)
  qed
  have lower: "2 powi (e - 1) \<le> x"
  proof -
    have "2 powi (e - 1) * of_int d \<le> (2 powi (e - 1) * 2 powi (bitlen d) :: rat)"
      using d'(2) by (intro mult_left_mono) auto
    also have "\<dots> \<le> of_int n"
      using n'(1) by (simp add: e_def flip: power_int_add)
    finally show ?thesis
      using pos by (simp add: x pos_le_divide_eq mult.commute)
  qed
  show ?thesis
    using upper lower by (auto simp: binary_exponent_def q Let_def e_def [symmetric])
qed

lemma powi_le_powi: "2 powi a \<le> (2 powi b :: rat) \<longleftrightarrow> a \<le> b"
  by (metis power_int_increasing power_int_strict_increasing linorder_not_le one_less_numeral_iff
      semiring_norm(76) less_imp_le)

lemma powi_less_powi: "2 powi a < (2 powi b :: rat) \<longleftrightarrow> a < b"
  by (simp add: powi_le_powi flip: linorder_not_le)

lemma binary_exponent_mono:
  assumes "0 < x" and "x \<le> y"
  shows "binary_exponent x \<le> binary_exponent y"
proof -
  have "2 powi (binary_exponent x) < (2 powi (binary_exponent y + 1) :: rat)"
    using binary_exponent_bounds [of x] binary_exponent_bounds [of y] assms by auto
  then show ?thesis by (simp add: powi_less_powi)
qed

lemma fl_pos: "0 < x \<Longrightarrow> fl x = of_int (round_half_even (x / 2 powi (binary_exponent x - 52))) * 2 powi (binary_exponent x - 52)"
  by (simp add: fl_def Let_def)

text \<open>The rounded value stays in the binade of the argument, or is the next power of two.\<close>

lemma fl_binade:
  assumes "0 < x"
  shows "2 powi (binary_exponent x) \<le> fl x \<and> fl x \<le> 2 powi (binary_exponent x + 1)"
proof -
  define e where "e = binary_exponent x"
  define u where "u = (2 powi (e - 52) :: rat)"
  have u: "0 < u" by (simp add: u_def)
  have p: "(of_int (2 ^ 52) :: rat) * u = 2 powi e" "(of_int (2 ^ 53) :: rat) * u = 2 powi (e + 1)"
    using power_int_add [of "2 :: rat" 52 "e - 52"] power_int_add [of "2 :: rat" 53 "e - 52"]
    by (simp_all add: u_def add.commute)
  have "2 powi e \<le> x" "x < 2 powi (e + 1)"
    using binary_exponent_bounds [OF assms] by (simp_all add: e_def)
  then have "of_int (2 ^ 52) \<le> x / u" "x / u \<le> of_int (2 ^ 53)"
    using u p by (simp_all add: pos_le_divide_eq pos_divide_le_eq)
  then have "2 ^ 52 \<le> round_half_even (x / u)" "round_half_even (x / u) \<le> 2 ^ 53"
    using round_half_even_mono [of "of_int (2 ^ 52)" "x / u"] round_half_even_mono [of "x / u" "of_int (2 ^ 53)"]
    by (simp_all only: round_half_even_of_int)
  then have "(of_int (2 ^ 52) :: rat) \<le> of_int (round_half_even (x / u))"
    "(of_int (round_half_even (x / u)) :: rat) \<le> of_int (2 ^ 53)"
    by (simp_all only: of_int_le_iff)
  then have "of_int (2 ^ 52) * u \<le> of_int (round_half_even (x / u)) * u"
    "of_int (round_half_even (x / u)) * u \<le> of_int (2 ^ 53) * u"
    using u by (simp_all only: mult_right_mono less_imp_le)
  then show ?thesis
    using assms p by (simp add: fl_pos e_def [symmetric] u_def [symmetric])
qed

lemma fl_mono:
  assumes "0 < x" and "x \<le> y"
  shows "fl x \<le> fl y"
proof (cases "binary_exponent x = binary_exponent y")
  case True
  have "round_half_even (x / 2 powi (binary_exponent x - 52)) \<le> round_half_even (y / 2 powi (binary_exponent x - 52))"
    using assms by (intro round_half_even_mono divide_right_mono) auto
  then have "(of_int (round_half_even (x / 2 powi (binary_exponent x - 52))) :: rat)
      \<le> of_int (round_half_even (y / 2 powi (binary_exponent x - 52)))"
    by (simp only: of_int_le_iff)
  then show ?thesis
    using assms True by (simp add: fl_pos mult_right_mono)
next
  case False
  then have "binary_exponent x + 1 \<le> binary_exponent y"
    using binary_exponent_mono [OF assms] by linarith
  then have "(2 powi (binary_exponent x + 1) :: rat) \<le> 2 powi (binary_exponent y)"
    by (simp add: powi_le_powi)
  then show ?thesis
    using fl_binade [OF assms(1)] fl_binade [of y] assms by linarith
qed

text \<open>A comparison of a rounded value with a double decides the comparison of the exact value.\<close>

lemma fl_less: "fl x < w \<Longrightarrow> fl w = w \<Longrightarrow> 0 < w \<Longrightarrow> x < w"
  using fl_mono [of w x] by (cases "w \<le> x") auto

section \<open>Page ranges\<close>

text \<open>The printed form of page ranges, and what the validator reads in a string.\<close>

definition print_range :: "nat \<times> nat \<Rightarrow> jsstr" where
  "print_range r = (case r of (a, b) \<Rightarrow> show_nat a @ lit ''-'' @ show_nat b)"

definition print_ranges :: "(nat \<times> nat) list \<Rightarrow> jsstr" where
  "print_ranges rs = join_with (lit '','') (map print_range rs)"

definition parse_ranges :: "jsstr \<Rightarrow> (nat \<times> nat) option list" where
  "parse_ranges s = map (\<lambda>range. match_range (trim range)) (split_at 0x2C s)"

lemma split_at_not_Nil [simp]: "split_at c s \<noteq> []"
  by (cases s) (auto split: list.splits)

lemma split_at_append: "c \<notin> set p \<Longrightarrow> split_at c (p @ c # s) = p # split_at c s"
  by (induction p) auto

lemma split_at_single: "c \<notin> set p \<Longrightarrow> split_at c p = [p]"
  by (induction p) auto

lemma split_at_join: "ps \<noteq> [] \<Longrightarrow> \<forall>p\<in>set ps. c \<notin> set p \<Longrightarrow> split_at c (join_with [c] ps) = ps"
  by (induction "[c]" ps rule: join_with.induct) (auto simp: split_at_single split_at_append)

lemma not_digit_sep: "\<not> is_digit 0x2D" "\<not> is_digit 0x2C" "\<not> is_space 0x2D"
  by (simp_all add: is_digit_def is_space_def)

lemma lit_sep: "lit ''-'' = [0x2D]" "lit '','' = [0x2C]"
  by (simp_all add: lit_def)

lemma trim_print_range: "trim (print_range r) = print_range r"
proof -
  obtain a b where r: "r = (a, b)" by force
  have "hd (print_range r) = hd (show_nat a)" "last (print_range r) = last (show_nat b)"
    using digits_show(2) by (simp_all add: r print_range_def)
  moreover have "is_digit (hd (show_nat a))" "is_digit (last (show_nat b))"
    using hd_in_set [OF digits_show(2)] last_in_set [OF digits_show(2)] digits_show(1) by blast+
  ultimately show ?thesis
    by (intro trim_id) (simp_all add: digit_not_space r print_range_def)
qed

lemma takeWhile_digits: "(\<And>u. u \<in> set ds \<Longrightarrow> is_digit u) \<Longrightarrow> takeWhile is_digit (ds @ 0x2D # s) = ds"
  "(\<And>u. u \<in> set ds \<Longrightarrow> is_digit u) \<Longrightarrow> dropWhile is_digit (ds @ 0x2D # s) = 0x2D # s"
  by (simp_all add: takeWhile_append2 dropWhile_append2 not_digit_sep)

lemma match_print_range: "match_range (print_range r) = Some r"
proof -
  obtain a b where r: "r = (a, b)" by force
  have s: "print_range (a, b) = show_nat a @ 0x2D # show_nat b"
    by (simp add: print_range_def lit_sep)
  have "dropWhile is_space (show_nat b) = show_nat b"
    using digits_show(1) [of "hd (show_nat b)" b] by (auto simp: dropWhile_eq_self_iff digit_not_space digits_show(2))
  then show ?thesis
    unfolding r s using digits_show digit_string_show_nat [of b]
    by (simp add: match_range_def takeWhile_digits Let_def not_digit_sep dec_value_show_nat)
qed

lemma comma_not_in_range: "0x2C \<notin> set (print_range r)"
  using digits_show(1) not_digit_sep(2) by (cases r) (auto simp: print_range_def lit_sep)

lemma split_print_ranges: "rs \<noteq> [] \<Longrightarrow> split_at 0x2C (print_ranges rs) = map print_range rs"
  using split_at_join [of "map print_range rs" "0x2C"] by (simp add: print_ranges_def lit_sep comma_not_in_range)

lemma parse_print_ranges: "rs \<noteq> [] \<Longrightarrow> parse_ranges (print_ranges rs) = map Some rs"
  by (simp add: parse_ranges_def split_print_ranges trim_print_range match_print_range)

lemma validatePageRanges_ok:
  "returns (validatePageRanges (Str s)) \<longleftrightarrow> s = [] \<or>
     (length s \<le> 256 \<and> length (parse_ranges s) \<le> 50
      \<and> list_all (\<lambda>r. case r of None \<Rightarrow> False | Some r \<Rightarrow> valid_range r) (parse_ranges s))"
  by (auto simp: validatePageRanges_def accept_simps parse_ranges_def list_all_iff split: option.splits)

lemma all_Some: "list_all (\<lambda>r. case r of None \<Rightarrow> False | Some r \<Rightarrow> P r) xs \<longleftrightarrow> (\<exists>ys. xs = map Some ys \<and> list_all P ys)"
  by (induction xs) (auto simp: Cons_eq_map_conv split: option.splits)

section \<open>Control characters and the cookie header\<close>

lemma code_points_small: "(\<exists>c\<in>set (code_points s). c < 128 \<and> Q c) \<longleftrightarrow> (\<exists>u\<in>set s. unat u < 128 \<and> Q (unat u))"
proof (induction s rule: code_points.induct)
  case (1 u v s)
  show ?case
  proof (cases "is_high_surrogate u \<and> is_low_surrogate v")
    case True
    then have "\<not> unat u < 128" "\<not> unat v < 128"
      by (auto simp: is_high_surrogate_def is_low_surrogate_def word_le_nat_alt)
    with True 1(1) show ?thesis by auto
  next
    case False
    with 1(2) show ?thesis by auto
  qed
qed auto

lemma hasCookieControl_units: "hasCookieControl s \<longleftrightarrow> (\<exists>u\<in>set s. u < 32 \<or> u = 127)"
proof -
  have "hasCookieControl s \<longleftrightarrow> (\<exists>c\<in>set (code_points s). c < 128 \<and> (c < 32 \<or> c = 127))"
    unfolding hasCookieControl_def list_ex_iff by (rule bex_cong) auto
  also have "\<dots> \<longleftrightarrow> (\<exists>u\<in>set s. unat u < 128 \<and> (unat u < 32 \<or> unat u = 127))"
    by (rule code_points_small)
  also have "\<dots> \<longleftrightarrow> (\<exists>u\<in>set s. u < 32 \<or> u = 127)"
    by (rule bex_cong) (auto simp: word_less_nat_alt word_unat_eq_iff)
  finally show ?thesis .
qed

lemma cookie_unit_safe: "is_cookie_unit u \<Longrightarrow> u \<noteq> 0x3D \<and> u \<noteq> 0x3B \<and> \<not> (u < 32 \<or> u = 127) \<and> \<not> is_space u"
  by (auto simp: is_cookie_unit_def is_alnum_def is_letter_def is_upper_def is_lower_def is_digit_def is_space_def
      word_le_nat_alt word_less_nat_alt word_unat_eq_iff)

lemma sublist_singleton: "sublist [c] s \<longleftrightarrow> c \<in> set s"
  by (metis in_set_conv_decomp sublist_def append_Cons append_Nil)

text \<open>The pair \<open>name=value\<close> as it stands in a \<open>Set-Cookie\<close> line, and how a reader splits it.\<close>

definition cookie_pair :: "jsstr \<Rightarrow> jsstr \<Rightarrow> jsstr" where
  "cookie_pair name value = name @ 0x3D # value"

definition read_pair :: "jsstr \<Rightarrow> jsstr \<times> jsstr" where
  "read_pair s = (takeWhile (\<lambda>u. u \<noteq> 0x3D) s, tl (dropWhile (\<lambda>u. u \<noteq> 0x3D) s))"

lemma read_cookie_pair: "0x3D \<notin> set n \<Longrightarrow> read_pair (cookie_pair n v) = (n, v)"
  by (induction n) (auto simp: read_pair_def cookie_pair_def)

lemma validateCookieName_ok:
  "returns (validateCookieName v path) \<longleftrightarrow> (\<exists>s. v = Str s \<and> s \<noteq> [] \<and> length s \<le> 256 \<and> list_all is_cookie_unit s)"
  by (cases v) (auto simp: validateCookieName_def throw_if_ok Suc_le_eq)

lemma sublist_semicolon: "sublist (lit '';'') s \<longleftrightarrow> 0x3B \<in> set s"
  by (simp add: lit_def sublist_singleton)

lemma cookie_write_checks:
  assumes "returns (validateCookieSet P params target)"
  shows "returns (validateCookieName (getp params ''name'') ''params.name'')"
    and "\<exists>v. getp params ''value'' = Str v \<and> 0x3B \<notin> set v \<and> \<not> hasCookieControl v"
    and "returns (validateOptionalCookiePath (getp params ''path'') ''params.path'')"
    and "returns (validateOptionalBoundedString (getp params ''domain'') ''params.domain'' 253)"
proof -
  note checks = assms [unfolded validateCookieSet_def checks_Cons_ok]
  show "returns (validateCookieName (getp params ''name'') ''params.name'')"
    "returns (validateOptionalCookiePath (getp params ''path'') ''params.path'')"
    "returns (validateOptionalBoundedString (getp params ''domain'') ''params.domain'' 253)"
    using checks by blast+
  have "is_string (getp params ''value'') \<and> \<not> sublist (lit '';'') (str_of (getp params ''value''))
      \<and> \<not> hasCookieControl (str_of (getp params ''value''))"
    using checks unfolding throw_if_ok by blast
  then show "\<exists>v. getp params ''value'' = Str v \<and> 0x3B \<notin> set v \<and> \<not> hasCookieControl v"
    by (cases "getp params ''value''") (auto simp: sublist_semicolon)
qed

section \<open>Properties\<close>

text \<open>C40: page ranges round trip. Every non-empty list of valid ranges within the size limits is
  accepted in its printed form, and reads back as itself.\<close>

theorem page_ranges_roundtrip:
  assumes "rs \<noteq> []" and "list_all valid_range rs" and "length rs \<le> 50" and "length (print_ranges rs) \<le> 256"
  shows "returns (validatePageRanges (Str (print_ranges rs))) \<and> parse_ranges (print_ranges rs) = map Some rs"
  using assms by (auto simp: validatePageRanges_ok parse_print_ranges all_Some)

theorem page_ranges_roundtrip_witness: "returns (validatePageRanges (jstr ''1-3,7-7''))"
proof -
  have "print_ranges [(1, 3), (7, 7)] = lit ''1-3,7-7''" by code_simp
  then show ?thesis
    using page_ranges_roundtrip [of "[(1, 3), (7, 7)]"] by (simp add: valid_range_def)
qed

text \<open>A string of page ranges that is accepted denotes at most fifty ranges, each from a page not
  below 1 to a page not before it and not beyond 100000.\<close>

theorem page_ranges_sound:
  assumes "returns (validatePageRanges (Str s))" and "s \<noteq> []"
  shows "\<exists>rs. parse_ranges s = map Some rs \<and> list_all valid_range rs \<and> 1 \<le> length rs \<and> length rs \<le> 50"
proof -
  have "parse_ranges s \<noteq> []" by (simp add: parse_ranges_def)
  with assms show ?thesis by (auto simp: validatePageRanges_ok all_Some Suc_le_eq)
qed


lemma range_positive: "returns (validateNumberRange v path 1 m) \<Longrightarrow> 0 < d \<Longrightarrow> 0 < number_or v d"
  by (auto simp: range_checks_ok number_or_def)

text \<open>C39: The printable area of an accepted PDF request is not empty: the exact sums of opposite margins
  stay below the paper's width and height, although the code compares rounded sums.\<close>

theorem pdf_margins_fit:
  fixes params :: jsval
  defines "inches \<equiv> \<lambda>field d. number_or (getp params field) d"
  assumes "returns (validatePrintToPDF params target)"
    and "fl (inches ''paperWidth'' (17/2)) = inches ''paperWidth'' (17/2)" and "fl (inches ''paperHeight'' 11) = inches ''paperHeight'' 11"
  shows "inches ''marginLeft'' (fl (4/10)) + inches ''marginRight'' (fl (4/10)) < inches ''paperWidth'' (17/2)
    \<and> inches ''marginTop'' (fl (4/10)) + inches ''marginBottom'' (fl (4/10)) < inches ''paperHeight'' 11"
proof -
  have pos: "0 < inches ''paperWidth'' (17/2)" "0 < inches ''paperHeight'' 11"
    using assms(2) range_positive [of "getp params ''paperWidth''" "''params.paperWidth''" 200 "17/2"]
      range_positive [of "getp params ''paperHeight''" "''params.paperHeight''" 200 11]
    unfolding validatePrintToPDF_def Let_def checks_Cons_ok inches_def by simp_all
  have "fl (inches ''marginLeft'' (fl (4/10)) + inches ''marginRight'' (fl (4/10))) < inches ''paperWidth'' (17/2)"
    "fl (inches ''marginTop'' (fl (4/10)) + inches ''marginBottom'' (fl (4/10))) < inches ''paperHeight'' 11"
    using assms(2) by (simp_all add: validatePrintToPDF_def Let_def checks_Cons_ok throw_if_ok inches_def)
  then show ?thesis
    using fl_less assms(3,4) pos by blast
qed

theorem pdf_margins_fit_witness:
  "number_or (getp (obj [(''marginLeft'', jnum 8)]) ''marginLeft'') (fl (4/10)) + number_or Undefined (fl (4/10)) < 17/2"
proof -
  let ?p = "obj [(''marginLeft'', jnum 8)]"
  have "returns (validatePrintToPDF ?p Undefined)"
    "fl (number_or (getp ?p ''paperWidth'') (17/2)) = number_or (getp ?p ''paperWidth'') (17/2)"
    "fl (number_or (getp ?p ''paperHeight'') 11) = number_or (getp ?p ''paperHeight'') 11"
    by code_simp+
  from pdf_margins_fit [OF this] show ?thesis by (simp add: number_or_def)
qed

text \<open>Names, values and paths of cookies. The name of an accepted cookie is a non-empty token, so name and
  value are read back from the pair \<open>name=value\<close> as they were given; the pair and the path contain
  no \<open>;\<close>, and they and the domain no control character. (Nothing forbids \<open>;\<close> in the domain.)\<close>

theorem cookie_no_injection:
  assumes "returns (validateCookieSet P params target)"
  shows "\<exists>name value. getp params ''name'' = Str name \<and> getp params ''value'' = Str value \<and> name \<noteq> []
    \<and> read_pair (cookie_pair name value) = (name, value)
    \<and> 0x3B \<notin> set (cookie_pair name value) \<and> (\<forall>u\<in>set (cookie_pair name value). \<not> (u < 32 \<or> u = 127))
    \<and> (\<forall>path. getp params ''path'' = Str path \<longrightarrow> 0x3B \<notin> set path \<and> (\<forall>u\<in>set path. \<not> (u < 32 \<or> u = 127)))
    \<and> (\<forall>domain. getp params ''domain'' = Str domain \<longrightarrow> (\<forall>u\<in>set domain. \<not> (u < 32 \<or> u = 127)))"
proof -
  obtain name where n: "getp params ''name'' = Str name" "name \<noteq> []" "list_all is_cookie_unit name"
    using cookie_write_checks(1) [OF assms] validateCookieName_ok by blast
  obtain v where v: "getp params ''value'' = Str v" "0x3B \<notin> set v" "\<not> hasCookieControl v"
    using cookie_write_checks(2) [OF assms] by blast
  have "\<not> hasCookieControl path \<and> 0x3B \<notin> set path" if "getp params ''path'' = Str path" for path
    using cookie_write_checks(3) [OF assms] that
    by (simp add: validateOptionalCookiePath_def throw_if_ok sublist_semicolon)
  moreover have "\<not> hasCookieControl domain" if "getp params ''domain'' = Str domain" for domain
    using cookie_write_checks(4) [OF assms] that by (simp add: validateOptionalBoundedString_def throw_if_ok)
  moreover have "0x3D \<notin> set name" "0x3B \<notin> set name" "\<forall>u\<in>set name. \<not> (u < 32 \<or> u = 127)"
    using n(3) cookie_unit_safe by (auto simp: list_all_iff)
  moreover have "read_pair (cookie_pair name v) = (name, v)"
    using calculation(3) by (rule read_cookie_pair)
  moreover have "0x3B \<notin> set (cookie_pair name v) \<and> (\<forall>u\<in>set (cookie_pair name v). \<not> (u < 32 \<or> u = 127))"
    using calculation(4,5) v by (auto simp: hasCookieControl_units cookie_pair_def)
  ultimately show ?thesis
    using n v by (intro exI [of _ name] exI [of _ v]) (simp add: hasCookieControl_units)
qed

text \<open>The raw CDP command is read-only: what is accepted is one of seven query methods, with no
  parameter beyond those of the method, if none has the empty name; and a method that addresses a node names its backend id.\<close>

theorem raw_cdp_read_only:
  assumes "returns (validateRawCDP params target)" and "[] \<notin> set (object_keys (getp params ''params''))"
  shows "\<exists>m\<in>set RAW_CDP_METHODS. getp params ''method'' = jstr m
    \<and> set (object_keys (getp params ''params'')) \<subseteq> set (map lit (rawCDPAllowed (jstr m)))
    \<and> (''backendNodeId'' \<in> set (rawCDPAllowed (jstr m)) \<longrightarrow>
        (\<exists>n\<ge>1. getp (getp params ''params'') ''backendNodeId'' = jnum (of_int n)))"
proof -
  note checks = assms(1) [unfolded validateRawCDP_def Let_def checks_Cons_ok]
  have "js_includes RAW_CDP_METHODS (getp params ''method'')"
    using checks unfolding throw_if_ok by blast
  then obtain m where m: "m \<in> set RAW_CDP_METHODS" "getp params ''method'' = jstr m"
    by (auto simp: includes_iff)
  moreover have "set (object_keys (getp params ''params'')) \<subseteq> set (map lit (rawCDPAllowed (jstr m)))"
    using checks assertAllowedProperties_closed assms(2) unfolding m(2) by blast
  moreover have "\<exists>n\<ge>1. getp (getp params ''params'') ''backendNodeId'' = jnum (of_int n)"
    if "''backendNodeId'' \<in> set (rawCDPAllowed (jstr m))"
  proof -
    have "js_includes [''Accessibility.getPartialAXTree'', ''Accessibility.queryAXTree'', ''DOM.describeNode'',
         ''DOM.getBoxModel''] (jstr m)"
      using that by (simp add: rawCDPAllowed_def includes_iff split: if_split_asm)
    then have "returns (requireIntegerRange (getp (getp params ''params'') ''backendNodeId'')
        ''params.params.backendNodeId'' 1 MAX_SAFE_INTEGER)"
      using checks unfolding m(2) when_ok by blast
    then show ?thesis by (auto simp: range_checks_ok)
  qed
  ultimately show ?thesis by blast
qed

text \<open>C37: A storage write that is accepted fits: key and value are strings within their UTF-8 byte limits,
  hence also within the same number of code units.\<close>

theorem storage_write_bounded:
  assumes "returns (validateStorageSet P params target)"
  shows "\<exists>k v. getp params ''key'' = Str k \<and> getp params ''value'' = Str v
    \<and> utf8_length k \<le> 1024 \<and> utf8_length v \<le> 65536 \<and> length k \<le> 1024 \<and> length v \<le> 65536"
proof -
  obtain k v where "getp params ''key'' = Str k" "getp params ''value'' = Str v" "utf8_length k \<le> 1024" "utf8_length v \<le> 65536"
    using assms by (auto simp: validateStorageSet_def requireStorageString_def checks_Cons_ok throw_if_ok is_string_def split: jsval.splits)
  then show ?thesis
    using utf8_length_bounds [of k] utf8_length_bounds [of v] by auto
qed

definition demo_cookie :: jsval where
  "demo_cookie = obj [(''url'', jstr ''https://a.test/''), (''name'', jstr ''id''), (''value'', jstr ''x=1''), (''path'', jstr ''/'')]"

definition demo_url_platform :: platform where
  "demo_url_platform = demo_platform\<lparr>parseURL := \<lambda>_. Some
     \<lparr>url_protocol = lit ''https:'', url_hostname = lit ''a.test'', url_username = [], url_password = [],
      url_hash = [], url_search = [], url_pathname = lit ''/'', url_origin = lit ''https://a.test'',
      url_href = lit ''https://a.test/''\<rparr>\<rparr>"

theorem cookie_no_injection_witness:
  "\<exists>name v. getp demo_cookie ''name'' = Str name \<and> getp demo_cookie ''value'' = Str v
    \<and> read_pair (cookie_pair name v) = (name, v)"
proof -
  have "returns (validateCookieSet demo_url_platform demo_cookie Undefined)" by code_simp
  from cookie_no_injection [OF this] show ?thesis by blast
qed

definition demo_raw :: jsval where
  "demo_raw = obj [(''method'', jstr ''DOM.describeNode''), (''params'', obj [(''backendNodeId'', jnum 7)]),
     (''maxDepth'', jnum 2), (''maxNodes'', jnum 10), (''maxStringChars'', jnum 10), (''maxBytes'', jnum 70000)]"

theorem raw_cdp_read_only_witness:
  "\<exists>m\<in>set RAW_CDP_METHODS. getp demo_raw ''method'' = jstr m
    \<and> set (object_keys (getp demo_raw ''params'')) \<subseteq> set (map lit (rawCDPAllowed (jstr m)))"
proof -
  have "returns (validateRawCDP demo_raw Undefined)" by code_simp
  moreover have "[] \<notin> set (object_keys (getp demo_raw ''params''))" by code_simp
  ultimately show ?thesis using raw_cdp_read_only by blast
qed

definition demo_storage :: jsval where
  "demo_storage = obj [(''origin'', jstr ''https://a.test''), (''storageType'', jstr ''localStorage''),
     (''key'', jstr ''k''), (''value'', jstr ''v'')]"

theorem storage_write_bounded_witness:
  "\<exists>k v. getp demo_storage ''key'' = Str k \<and> getp demo_storage ''value'' = Str v \<and> length k \<le> 1024 \<and> length v \<le> 65536"
proof -
  have "utf8_length (lit ''k'') = 1" "utf8_length (lit ''v'') = 1" by code_simp+
  then have "returns (requireStorageString (jstr ''k'') p 1024)" "returns (requireStorageString (jstr ''v'') p 65536)" for p
    by (simp_all add: requireStorageString_def throw_if_ok)
  moreover have "returns (validateParamsObject demo_storage)" "returns (validateCookieTarget Undefined)"
    "returns (assertAllowedProperties demo_storage [''origin'', ''storageType'', ''key'', ''value''])"
    "returns (validateStorageOrigin demo_url_platform (getp demo_storage ''origin''))"
    "returns (validateEnum (getp demo_storage ''storageType'') ''params.storageType'' STORAGE_TYPES)"
    by code_simp+
  moreover have "getp demo_storage ''key'' = jstr ''k''" "getp demo_storage ''value'' = jstr ''v''"
    by code_simp+
  ultimately have "returns (validateStorageSet demo_url_platform demo_storage Undefined)"
    by (simp add: validateStorageSet_def checks_Cons_ok)
  from storage_write_bounded [OF this] show ?thesis by blast
qed

end
