(* ===== verification/Json.thy ===== *)
theory Json
  imports Js_Values
begin

text \<open>
  \<open>JSON.stringify\<close> on the values of this development and the UTF-8 size of the text, by which the
  code bounds events, commands and results (\<open>jsonByteLength\<close> in several files of
  \<open>chrome-extension/src/\<close>). Values are finite trees of JSON data and \<open>undefined\<close>, so the
  function never throws.
\<close>

definition hex_unit :: "nat \<Rightarrow> 16 word" where
  "hex_unit d = word_of_nat (if d < 10 then 48 + d else 87 + d)"

text \<open>\<open>\uXXXX\<close>, lower-case.\<close>

definition unicode_escape :: "16 word \<Rightarrow> jsstr" where
  "unicode_escape u = (let n = unat u in
     [0x5C, 0x75, hex_unit (n div 4096), hex_unit (n div 256 mod 16), hex_unit (n div 16 mod 16), hex_unit (n mod 16)])"

definition escape_unit :: "16 word \<Rightarrow> jsstr" where
  "escape_unit u =
     (if u = 0x22 \<or> u = 0x5C then [0x5C, u]
      else if u = 8 then [0x5C, 0x62] else if u = 9 then [0x5C, 0x74] else if u = 10 then [0x5C, 0x6E]
      else if u = 12 then [0x5C, 0x66] else if u = 13 then [0x5C, 0x72]
      else if u < 32 \<or> is_high_surrogate u \<or> is_low_surrogate u then unicode_escape u
      else [u])"

text \<open>A surrogate pair stands for itself; a lone surrogate is escaped.\<close>

fun escape_units :: "jsstr \<Rightarrow> jsstr" where
  "escape_units (u # v # s) =
     (if is_high_surrogate u \<and> is_low_surrogate v then u # v # escape_units s
      else escape_unit u @ escape_units (v # s))"
| "escape_units [u] = escape_unit u"
| "escape_units [] = []"

definition json_string :: "jsstr \<Rightarrow> jsstr" where
  "json_string s = [0x22] @ escape_units s @ [0x22]"

fun json :: "platform \<Rightarrow> jsval \<Rightarrow> jsstr" where
  "json P Undefined = lit ''null''"
| "json P Null = lit ''null''"
| "json P (Bool b) = (if b then lit ''true'' else lit ''false'')"
| "json P (Num n) = (case n of Fin _ \<Rightarrow> string_of_num P n | _ \<Rightarrow> lit ''null'')"
| "json P (Str s) = json_string s"
| "json P (Arr vs) = lit ''['' @ join_with (lit '','') (map (json P) vs) @ lit '']''"
| "json P (Obj ps) = lit ''{'' @ join_with (lit '','')
     (map (\<lambda>(k, v). json_string k @ lit '':'' @ json P v) (filter (\<lambda>(k, v). v \<noteq> Undefined) ps)) @ lit ''}''"

text \<open>\<open>JSON.stringify(value ?? null)\<close>, measured. An undefined member of an object is left out, an
  undefined element of an array is \<open>null\<close>, and so is an undefined value as a whole, by the \<open>??\<close>.\<close>

definition jsonByteLength :: "platform \<Rightarrow> jsval \<Rightarrow> nat" where
  "jsonByteLength P v = utf8_length (json P v)"

end
