(* ===== verification/Bounded_Buffer.thy ===== *)
theory Bounded_Buffer
  imports Prelude
begin

text \<open>
  The contract of the extension's bounded buffers: a producer puts items, a consumer takes them, and
  the buffer may lose items but counts what it loses. The events of CDP consumers and the captured
  network entries are such buffers.
\<close>

datatype 'a buffer_op = Put 'a | Take

fun puts :: "'a buffer_op list \<Rightarrow> 'a list" where
  "puts [] = []"
| "puts (Put a # ops) = a # puts ops"
| "puts (Take # ops) = puts ops"

text \<open>A run of operations: the final buffer and the items taken, in order.\<close>

fun buffer_run :: "('a \<Rightarrow> 's \<Rightarrow> 's) \<Rightarrow> ('s \<Rightarrow> 'a option \<times> 's) \<Rightarrow> 'a buffer_op list \<Rightarrow> 's \<Rightarrow> 's \<times> 'a list" where
  "buffer_run put tak [] s = (s, [])"
| "buffer_run put tak (Put a # ops) s = buffer_run put tak ops (put a s)"
| "buffer_run put tak (Take # ops) s =
     (case tak s of (taken, t) \<Rightarrow> (case buffer_run put tak ops t of (u, rest) \<Rightarrow>
        (u, (case taken of None \<Rightarrow> rest | Some a \<Rightarrow> a # rest))))"

lemma puts_append [simp]: "puts (xs @ ys) = puts xs @ puts ys"
  by (induction xs rule: puts.induct) auto

lemma buffer_run_append:
  "buffer_run put tak (xs @ ys) s =
   (case buffer_run put tak xs s of (t, as) \<Rightarrow> (case buffer_run put tak ys t of (u, bs) \<Rightarrow> (u, as @ bs)))"
  by (induction put tak xs s rule: buffer_run.induct) (auto split: prod.splits option.splits)

lemma subseq_after: "subseq xs (ys @ [a]) \<Longrightarrow> subseq (xs @ zs) (ys @ a # zs)"
  using list_emb_append_mono [of "(=)" xs "ys @ [a]" zs zs] by simp

locale bounded_buffer =
  fixes good :: "'s \<Rightarrow> bool" and items :: "'s \<Rightarrow> 'a list" and lost :: "'s \<Rightarrow> nat"
    and put :: "'a \<Rightarrow> 's \<Rightarrow> 's" and tak :: "'s \<Rightarrow> 'a option \<times> 's"
  assumes put_good: "good s \<Longrightarrow> good (put a s)"
    and put_items: "good s \<Longrightarrow> subseq (items (put a s)) (items s @ [a])"
    and put_count: "good s \<Longrightarrow> length (items (put a s)) + lost (put a s) = Suc (length (items s) + lost s)"
    and take_some: "good s \<Longrightarrow> tak s = (Some a, t) \<Longrightarrow> good t \<and> items s = a # items t \<and> lost t = lost s"
    and take_none: "good s \<Longrightarrow> tak s = (None, t) \<Longrightarrow> good t \<and> items t = items s \<and> lost t = lost s"
begin

text \<open>Nothing is reordered, invented or lost without being counted.\<close>

lemma run_accounting:
  assumes "buffer_run put tak ops s = (t, taken)" and "good s"
  shows "good t \<and> subseq (taken @ items t) (items s @ puts ops)
    \<and> length (items s) + lost s + length (puts ops) = length taken + length (items t) + lost t"
  using assms
proof (induction ops arbitrary: s taken)
  case (Cons p ops)
  show ?case
  proof (cases p)
    case (Put a)
    from Put Cons.prems have run: "buffer_run put tak ops (put a s) = (t, taken)" by simp
    note IH = Cons.IH [OF run put_good [OF Cons.prems(2)]]
    have "subseq (items (put a s) @ puts ops) (items s @ a # puts ops)"
      by (rule subseq_after [OF put_items [OF Cons.prems(2)]])
    with IH put_count [OF Cons.prems(2), of a] show ?thesis
      by (auto simp: Put intro: subseq_order.trans)
  next
    case Take
    obtain got u where tk: "tak s = (got, u)" by force
    obtain rest where run: "buffer_run put tak ops u = (t, rest)"
      and taken: "taken = (case got of None \<Rightarrow> rest | Some a \<Rightarrow> a # rest)"
      using Cons.prems(1) by (auto simp: Take tk split: prod.splits)
    show ?thesis
    proof (cases got)
      case None
      with tk take_none [OF Cons.prems(2)] have "good u" "items u = items s" "lost u = lost s" by auto
      with Cons.IH [OF run] show ?thesis by (simp add: Take taken None)
    next
      case (Some a)
      with tk take_some [OF Cons.prems(2)] have "good u" "items s = a # items u" "lost u = lost s" by auto
      with Cons.IH [OF run] show ?thesis by (simp add: Take taken Some)
    qed
  qed
qed simp

end

end
