(* ===== verification/Cdp_Consumers.thy ===== *)
theory Cdp_Consumers
  imports Json Protocol Bounded_Buffer
begin

text \<open>
  Consumers of the CDP session manager (\<open>chrome-extension/src/cdp-session-manager.js\<close>): the limits,
  the domains and methods a consumer may use, the bounded queue of its events and how it drains, and
  how errors of the browser's debugger are reported.
\<close>

section \<open>Limits\<close>

record limits =
  maxSessions :: nat
  maxConsumersPerSession :: nat
  maxEventsPerConsumer :: nat
  maxEventBytes :: nat
  maxQueuedEventBytes :: nat
  maxCommandBytes :: nat
  maxCommandResultBytes :: nat

definition DEFAULT_LIMITS :: "(string \<times> jsval) list" where
  "DEFAULT_LIMITS = [(''maxSessions'', jnum 8), (''maxConsumersPerSession'', jnum 8),
     (''maxEventsPerConsumer'', jnum 256), (''maxEventBytes'', jnum (256 * 1024)),
     (''maxQueuedEventBytes'', jnum (2 * 1024 * 1024)), (''maxCommandBytes'', jnum (1024 * 1024)),
     (''maxCommandResultBytes'', jnum (4 * 1024 * 1024))]"

text \<open>\<open>{...DEFAULT_LIMITS, ...overrides}\<close>; a limit that has passed its check is a positive integer.\<close>

definition limit_of :: "jsval \<Rightarrow> string \<Rightarrow> nat" where
  "limit_of v k = (case getp v k of Num (Fin r) \<Rightarrow> nat \<lfloor>r\<rfloor> | _ \<Rightarrow> 0)"

definition own_entries :: "jsval \<Rightarrow> (jsstr \<times> jsval) list" where
  "own_entries v = (case v of Obj ps \<Rightarrow> ps | _ \<Rightarrow> [])"

definition normalizeLimits :: "jsval \<Rightarrow> limits res" where
  "normalizeLimits overrides =
     (let entries = assoc_spread (map (\<lambda>(k, v). (lit k, v)) DEFAULT_LIMITS) (own_entries overrides);
          given = Obj entries
      in bind_res
           (for_each (\<lambda>(name, v). throw_if (\<not> is_integer v \<or> less_than v 1)
               (fault INVALID_COMMAND [Txt (''CDP limit '' @ [CHR 0x22]), Val (Str name), Txt ([CHR 0x22] @ '' must be positive'')]))
             entries)
           (\<lambda>_. bind_res
             (throw_if (limit_of given ''maxQueuedEventBytes'' < limit_of given ''maxEventBytes'')
               (fault INVALID_COMMAND [Txt ''The CDP event queue byte limit cannot be smaller than one event'']))
             (\<lambda>_. Inr \<lparr>maxSessions = limit_of given ''maxSessions'',
                maxConsumersPerSession = limit_of given ''maxConsumersPerSession'',
                maxEventsPerConsumer = limit_of given ''maxEventsPerConsumer'',
                maxEventBytes = limit_of given ''maxEventBytes'',
                maxQueuedEventBytes = limit_of given ''maxQueuedEventBytes'',
                maxCommandBytes = limit_of given ''maxCommandBytes'',
                maxCommandResultBytes = limit_of given ''maxCommandResultBytes''\<rparr>)))"

text \<open>What the rest of the code relies on.\<close>

definition limits_ok :: "limits \<Rightarrow> bool" where
  "limits_ok L \<longleftrightarrow> 1 \<le> maxSessions L \<and> 1 \<le> maxConsumersPerSession L \<and> 1 \<le> maxEventsPerConsumer L
     \<and> 1 \<le> maxEventBytes L \<and> maxEventBytes L \<le> maxQueuedEventBytes L"

section \<open>Methods and domains\<close>

definition CDP_ALLOWED_DOMAINS :: "string list" where
  "CDP_ALLOWED_DOMAINS = [''Accessibility'', ''Audits'', ''DOM'', ''Emulation'', ''IO'', ''Input'', ''Log'', ''Network'',
     ''Page'', ''Performance'', ''Profiler'', ''Runtime'', ''Target'', ''Tracing'']"

text \<open>\<open>/^[A-Z][A-Za-z0-9]*\.[A-Za-z][A-Za-z0-9]*$/\<close>, and the domain: the part before the point.\<close>

definition method_pattern :: "jsstr \<Rightarrow> bool" where
  "method_pattern s \<longleftrightarrow>
     (case (takeWhile (\<lambda>u. u \<noteq> 0x2E) s, dropWhile (\<lambda>u. u \<noteq> 0x2E) s) of
        (d # ds, _ # m # ms) \<Rightarrow> is_upper d \<and> list_all is_alnum ds \<and> is_letter m \<and> list_all is_alnum ms
      | _ \<Rightarrow> False)"

definition methodDomain :: "jsval \<Rightarrow> jsstr res" where
  "methodDomain method =
     (if \<not> is_string method \<or> \<not> method_pattern (str_of method) then
        Inl (fault INVALID_COMMAND [Txt ''CDP method must use Domain.method syntax''])
      else Inr (takeWhile (\<lambda>u. u \<noteq> 0x2E) (str_of method)))"

definition validateCommandParams :: "jsval \<Rightarrow> unit res" where
  "validateCommandParams params =
     throw_if (\<not> truthy params \<or> \<not> typeof_object params \<or> is_array params)
       (fault INVALID_COMMAND [Txt ''CDP command parameters must be an object''])"

definition ensureBoundedJSON :: "platform \<Rightarrow> jsval \<Rightarrow> nat \<Rightarrow> string \<Rightarrow> unit res" where
  "ensureBoundedJSON P v maxBytes label =
     throw_if (jsonByteLength P v > maxBytes)
       (fault PAYLOAD_TOO_LARGE [Txt (label @ '' exceeds the configured byte limit'')])"

text \<open>The loops over \<open>options.domains\<close>, \<open>options.commands\<close> and \<open>options.events\<close>: each adds the entries to
  a set, here the list of those already seen.\<close>

fun collect_domains :: "platform \<Rightarrow> jsstr list \<Rightarrow> jsstr list \<Rightarrow> jsval list \<Rightarrow> (jsstr list) res" where
  "collect_domains P allowed seen [] = Inr seen"
| "collect_domains P allowed seen (d # ds) =
     (if \<not> is_string d \<or> str_of d \<notin> set allowed then
        Inl (fault CAPABILITY_UNAVAILABLE
          [Txt (''CDP domain '' @ [CHR 0x22]), Val (Str (string_of P d)), Txt ([CHR 0x22] @ '' is not allowlisted'')])
      else if str_of d \<in> set seen then
        Inl (fault INVALID_COMMAND [Txt (''Duplicate CDP domain '' @ [CHR 0x22]), Val d, Txt [CHR 0x22]])
      else collect_domains P allowed (seen @ [str_of d]) ds)"

fun collect_methods :: "string \<Rightarrow> jsstr list \<Rightarrow> jsstr list \<Rightarrow> jsval list \<Rightarrow> (jsstr list) res" where
  "collect_methods field domains seen [] = Inr seen"
| "collect_methods field domains seen (m # ms) = bind_res (methodDomain m) (\<lambda>domain.
     if domain \<notin> set domains then
       Inl (fault INVALID_COMMAND [Txt (''CDP '' @ field @ '' method '' @ [CHR 0x22]), Val m,
         Txt ([CHR 0x22] @ '' requires the '' @ [CHR 0x22]), Val (Str domain), Txt ([CHR 0x22] @ '' domain'')])
     else if str_of m \<in> set seen then
       Inl (fault INVALID_COMMAND [Txt (''Duplicate CDP '' @ field @ '' method '' @ [CHR 0x22]), Val m, Txt [CHR 0x22]])
     else collect_methods field domains (seen @ [str_of m]) ms)"

definition validateMethodAllowlist :: "jsval \<Rightarrow> string \<Rightarrow> jsstr list \<Rightarrow> (jsstr list) res" where
  "validateMethodAllowlist methods field domains =
     (let ms = (if methods = Undefined then Arr [] else methods)
      in if \<not> is_array ms \<or> length (elems ms) > 64 then
           Inl (fault INVALID_COMMAND [Txt (''CDP '' @ field @ '' must be an array with at most 64 entries'')])
         else collect_methods field domains [] (elems ms))"

section \<open>Consumers\<close>

text \<open>An option that should be a function: absent, a function, or another value.\<close>

datatype callback = Absent | Callback | NotAFunction

record acquire_options =
  o_consumerId :: jsval
  o_domains :: jsval
  o_commands :: jsval
  o_events :: jsval
  o_includeChildTargets :: jsval
  o_onEvent :: callback
  o_onDetach :: callback

record consumer =
  c_id :: jsstr
  c_domains :: "jsstr list"
  c_commands :: "jsstr list"
  c_events :: "jsstr list"
  c_includeChildTargets :: bool
  c_onEvent :: bool
  c_onDetach :: bool
  c_queue :: "(jsval \<times> nat) list"
  c_queueBytes :: int
  c_droppedEvents :: nat
  c_totalDroppedEvents :: nat
  c_draining :: bool
  c_active :: bool

definition createConsumer :: "platform \<Rightarrow> jsstr list \<Rightarrow> acquire_options \<Rightarrow> consumer res" where
  "createConsumer P allowedDomains options =
     (let ident = trim (string_of P (js_or (o_consumerId options) (Str [])))
      in bind_res (checks [
           throw_if (ident = [] \<or> length ident > 128)
             (fault INVALID_COMMAND [Txt ''A CDP consumerId between 1 and 128 characters is required'']),
           throw_if (\<not> is_array (o_domains options) \<or> elems (o_domains options) = [])
             (fault INVALID_COMMAND [Txt ''At least one CDP domain is required'']),
           throw_if (length (elems (o_domains options)) > length allowedDomains)
             (fault INVALID_COMMAND [Txt ''Too many CDP domains were requested''])]) (\<lambda>_.
         bind_res (collect_domains P allowedDomains [] (elems (o_domains options))) (\<lambda>domains.
         bind_res (validateMethodAllowlist (o_commands options) ''commands'' domains) (\<lambda>commands.
         bind_res (validateMethodAllowlist (o_events options) ''events'' domains) (\<lambda>events.
         bind_res (checks [
           throw_if (o_onEvent options = NotAFunction) (fault INVALID_COMMAND [Txt ''onEvent must be a function'']),
           throw_if (o_onDetach options = NotAFunction) (fault INVALID_COMMAND [Txt ''onDetach must be a function'']),
           throw_if (o_onEvent options = Callback \<and> events = [])
             (fault INVALID_COMMAND [Txt ''A CDP event callback requires at least one exact event method''])]) (\<lambda>_.
         Inr \<lparr>c_id = ident, c_domains = domains, c_commands = commands, c_events = events,
           c_includeChildTargets = (o_includeChildTargets options = Bool True),
           c_onEvent = (o_onEvent options = Callback), c_onDetach = (o_onDetach options = Callback),
           c_queue = [], c_queueBytes = 0, c_droppedEvents = 0, c_totalDroppedEvents = 0,
           c_draining = False, c_active = True\<rparr>))))))"

text \<open>A consumer's grants: its methods belong to its domains, and those are allowed.\<close>

definition grants_ok :: "jsstr list \<Rightarrow> consumer \<Rightarrow> bool" where
  "grants_ok allowedDomains c \<longleftrightarrow> set (c_domains c) \<subseteq> set allowedDomains \<and> c_domains c \<noteq> []
     \<and> (\<forall>m\<in>set (c_commands c) \<union> set (c_events c). \<exists>d\<in>set (c_domains c). methodDomain (Str m) = Inr d)
     \<and> (c_onEvent c \<longrightarrow> c_events c \<noteq> [])"

section \<open>The event queue\<close>

text \<open>The loop of \<open>enqueueEvent\<close>: while the queue has no room for \<open>size\<close> bytes, its oldest event is
  dropped; with nothing left to drop it stops.\<close>

function make_room :: "limits \<Rightarrow> nat \<Rightarrow> consumer \<Rightarrow> consumer" where
  "make_room L bytes c =
     (if length (c_queue c) \<ge> maxEventsPerConsumer L
         \<or> c_queueBytes c + int bytes > int (maxQueuedEventBytes L)
      then (case c_queue c of
              [] \<Rightarrow> c
            | (_, dropped) # q \<Rightarrow> make_room L bytes (c\<lparr>c_queue := q, c_queueBytes := c_queueBytes c - int dropped,
                c_droppedEvents := Suc (c_droppedEvents c), c_totalDroppedEvents := Suc (c_totalDroppedEvents c)\<rparr>))
      else c)"
  by pat_completeness auto
termination
  by (relation "measure (\<lambda>(_, _, c). length (c_queue c))") auto

declare make_room.simps [simp del]

text \<open>\<open>enqueueEvent\<close> up to its last statement, which starts \<open>drainConsumer\<close> if it is not running.\<close>

definition enqueue_event :: "limits \<Rightarrow> platform \<Rightarrow> jsval \<Rightarrow> consumer \<Rightarrow> consumer" where
  "enqueue_event L P event c =
     (let bytes = jsonByteLength P event
      in if bytes > maxEventBytes L then
           c\<lparr>c_droppedEvents := Suc (c_droppedEvents c), c_totalDroppedEvents := Suc (c_totalDroppedEvents c)\<rparr>
         else (let c' = make_room L bytes c
               in c'\<lparr>c_queue := c_queue c' @ [(event, bytes)], c_queueBytes := c_queueBytes c' + int bytes\<rparr>))"

text \<open>One turn of the loop of \<open>drainConsumer\<close>, from its condition to the \<open>await\<close> of the callback: the
  call of the callback (the event and \<open>droppedBefore\<close>), or the end of the loop.\<close>

definition drain_turn :: "consumer \<Rightarrow> (jsval \<times> nat) option \<times> consumer" where
  "drain_turn c =
     (if \<not> c_active c then (None, c\<lparr>c_draining := False\<rparr>)
      else case c_queue c of
        [] \<Rightarrow> (None, c\<lparr>c_draining := False\<rparr>)
      | (event, bytes) # q \<Rightarrow> (Some (event, c_droppedEvents c),
          c\<lparr>c_queue := q, c_queueBytes := c_queueBytes c - int bytes, c_droppedEvents := 0, c_draining := True\<rparr>))"

text \<open>\<open>enqueueEvent\<close> as a whole: a drain that it starts runs at once to its first \<open>await\<close>.\<close>

definition enqueueEvent :: "limits \<Rightarrow> platform \<Rightarrow> jsval \<Rightarrow> consumer \<Rightarrow> (jsval \<times> nat) option \<times> consumer" where
  "enqueueEvent L P event c =
     (let c' = enqueue_event L P event c
      in if jsonByteLength P event > maxEventBytes L \<or> c_draining c' then (None, c') else drain_turn c')"

text \<open>\<open>consumer.active = false; consumer.queue.length = 0; consumer.queueBytes = 0\<close>.\<close>

definition deactivate :: "consumer \<Rightarrow> consumer" where
  "deactivate c = c\<lparr>c_active := False, c_queue := [], c_queueBytes := 0\<rparr>"

section \<open>Errors of the debugger\<close>

definition error_codes :: "ErrorCode list" where
  "error_codes = [NO_BROWSER_CONNECTED, AMBIGUOUS_BROWSER, BROWSER_NOT_FOUND, BROWSER_DISCONNECTED,
     WINDOW_NOT_FOUND, TAB_NOT_FOUND, TAB_GROUP_NOT_FOUND, SESSION_NOT_FOUND, DOWNLOAD_NOT_FOUND, FRAME_NOT_FOUND,
     STALE_TARGET, ELEMENT_NOT_FOUND, STRICT_MODE_VIOLATION, PERMISSION_REQUIRED, CAPABILITY_UNAVAILABLE,
     PAIRING_REQUIRED, UNSUPPORTED_PROTOCOL_VERSION, INVALID_MESSAGE, INVALID_COMMAND, TIMEOUT, CANCELLED,
     PAYLOAD_TOO_LARGE, RESTRICTED_URL, CONFIRMATION_REQUIRED, BACKPRESSURE, INTERNAL_ERROR]"

definition known_code :: "jsval \<Rightarrow> bool" where
  "known_code v \<longleftrightarrow> list_ex (\<lambda>c. v = jstr (error_code_name c)) error_codes"

definition normalizeDebuggerError :: "platform \<Rightarrow> exn \<Rightarrow> string \<Rightarrow> exn" where
  "normalizeDebuggerError P e phase =
     (if known_code (getp (error_value P e) ''code'') then e
      else
        let error = error_value P e;
            message = toLowerCase P (string_of P (js_or (getp error ''message'') (js_or error (Str []))));
            mentions = (\<lambda>s. sublist (lit s) message)
        in if mentions ''another debugger'' \<or> mentions ''already attached'' \<or> mentions ''devtools'' then
             protocolError CAPABILITY_UNAVAILABLE
               [Txt ''The target is already controlled by DevTools or another debugger''] False
               (obj [(''reason'', jstr ''debugger_conflict'')])
           else if mentions ''no tab with id'' \<or> mentions ''tab was closed'' \<or> mentions ''target closed'' then
             protocolError TAB_NOT_FOUND [Txt ''The CDP target is no longer available''] True Undefined
           else if mentions ''not attached'' \<or> mentions ''debuggee'' then
             protocolError BROWSER_DISCONNECTED [Txt ''The CDP session is no longer attached''] True Undefined
           else if mentions ''permission'' \<or> mentions ''debugger api is not allowed'' then
             fault PERMISSION_REQUIRED
               [Txt ''Debug permission is required. Grant it from the extension settings page.'']
           else if mentions ''cannot access'' \<or> mentions ''restricted'' then
             fault RESTRICTED_URL [Txt ''The browser does not allow debugging this page'']
           else if mentions ''target.setautoattach'' \<or> mentions ''sessionid'' then
             protocolError CAPABILITY_UNAVAILABLE [Txt ''Child CDP targets are unavailable in this browser''] False
               (obj [(''reason'', jstr ''flat_sessions_unavailable'')])
           else fault INTERNAL_ERROR [Txt (''The browser debugger '' @ phase @ '' operation failed'')])"

section \<open>Lemmas: limits and grants\<close>

lemma limit_of_positive: "is_integer (getp v k) \<Longrightarrow> \<not> less_than (getp v k) 1 \<Longrightarrow> 1 \<le> limit_of v k"
  by (auto simp: is_integer_iff limit_of_def)

lemma normalizeLimits_ok:
  assumes "normalizeLimits overrides = Inr L"
  shows "limits_ok L"
proof -
  define entries where "entries = assoc_spread (map (\<lambda>(k, v). (lit k, v)) DEFAULT_LIMITS) (own_entries overrides)"
  have all: "\<forall>(n, v)\<in>set entries. is_integer v \<and> \<not> less_than v 1"
    and le: "limit_of (Obj entries) ''maxEventBytes'' \<le> limit_of (Obj entries) ''maxQueuedEventBytes''"
    and L: "maxSessions L = limit_of (Obj entries) ''maxSessions''"
      "maxConsumersPerSession L = limit_of (Obj entries) ''maxConsumersPerSession''"
      "maxEventsPerConsumer L = limit_of (Obj entries) ''maxEventsPerConsumer''"
      "maxEventBytes L = limit_of (Obj entries) ''maxEventBytes''"
      "maxQueuedEventBytes L = limit_of (Obj entries) ''maxQueuedEventBytes''"
    using assms
    by (auto simp: normalizeLimits_def Let_def bind_res_Inr entries_def [symmetric] throw_if_ok for_each_ok
        simp flip: returns_unit)
  have "1 \<le> limit_of (Obj entries) k" if k: "lit k \<in> fst ` set (map (\<lambda>(k, v). (lit k, v)) DEFAULT_LIMITS)" for k
  proof -
    have "lit k \<in> dom (map_of entries)"
      unfolding entries_def map_of_assoc_spread dom_map_add dom_map_of_conv_image_fst using k by blast
    then obtain v where "map_of entries (lit k) = Some v" by blast
    with all have "getp (Obj entries) k = v" "is_integer v" "\<not> less_than v 1"
      by (auto simp: getp_def dest: map_of_SomeD)
    then show ?thesis by (intro limit_of_positive) simp_all
  qed
  then show ?thesis
    using le by (simp add: limits_ok_def L DEFAULT_LIMITS_def)
qed

lemma collect_domains_sound:
  "collect_domains P allowed seen ds = Inr r \<Longrightarrow> set seen \<subseteq> set allowed \<Longrightarrow> distinct seen \<Longrightarrow>
   set r \<subseteq> set allowed \<and> distinct r \<and> length r = length seen + length ds"
proof (induction ds arbitrary: seen)
  case (Cons d ds)
  then have "collect_domains P allowed (seen @ [str_of d]) ds = Inr r" "str_of d \<in> set allowed" "str_of d \<notin> set seen"
    by (simp_all split: if_splits)
  with Cons.IH [of "seen @ [str_of d]"] Cons.prems(2,3) show ?case by simp
qed simp

lemma collect_methods_sound:
  "collect_methods field domains seen ms = Inr r \<Longrightarrow>
   (\<forall>m\<in>set seen. \<exists>d\<in>set domains. methodDomain (Str m) = Inr d) \<Longrightarrow> distinct seen \<Longrightarrow>
   (\<forall>m\<in>set r. \<exists>d\<in>set domains. methodDomain (Str m) = Inr d) \<and> distinct r \<and> length r = length seen + length ms"
proof (induction ms arbitrary: seen)
  case (Cons m ms)
  then obtain d where d: "methodDomain m = Inr d" "d \<in> set domains" "str_of m \<notin> set seen"
    "collect_methods field domains (seen @ [str_of m]) ms = Inr r"
    by (auto simp: bind_res_Inr split: if_splits)
  from d(1) have "methodDomain (Str (str_of m)) = Inr d"
    by (cases m) (auto simp: methodDomain_def)
  with Cons.IH [OF d(4)] Cons.prems(2,3) d(2,3) show ?case by auto
qed simp

lemma validateMethodAllowlist_sound:
  "validateMethodAllowlist methods field domains = Inr r \<Longrightarrow>
   (\<forall>m\<in>set r. \<exists>d\<in>set domains. methodDomain (Str m) = Inr d) \<and> length r \<le> 64"
  using collect_methods_sound [of field domains "[]"]
  by (fastforce simp: validateMethodAllowlist_def Let_def split: if_splits)

lemma createConsumer_sound:
  assumes "createConsumer P allowed options = Inr c"
  shows "grants_ok allowed c \<and> c_id c \<noteq> [] \<and> length (c_id c) \<le> 128 \<and> c_active c \<and> \<not> c_draining c \<and> c_queue c = []
    \<and> c_queueBytes c = 0 \<and> c_droppedEvents c = 0 \<and> c_totalDroppedEvents c = 0"
proof -
  obtain domains commands events where c:
    "collect_domains P allowed [] (elems (o_domains options)) = Inr domains" "elems (o_domains options) \<noteq> []"
    "validateMethodAllowlist (o_commands options) ''commands'' domains = Inr commands"
    "validateMethodAllowlist (o_events options) ''events'' domains = Inr events"
    "c_domains c = domains" "c_commands c = commands" "c_events c = events"
    "c_onEvent c \<longrightarrow> events \<noteq> []" "c_id c \<noteq> []" "length (c_id c) \<le> 128" "c_active c" "\<not> c_draining c" "c_queue c = []"
    "c_queueBytes c = 0" "c_droppedEvents c = 0" "c_totalDroppedEvents c = 0"
    using assms
    by (auto simp: createConsumer_def Let_def bind_res_Inr checks_Cons_ok throw_if_ok simp flip: returns_unit)
  then show ?thesis
    using collect_domains_sound [OF c(1)] c(2) validateMethodAllowlist_sound [OF c(3)] validateMethodAllowlist_sound [OF c(4)]
    by (auto simp: grants_ok_def)
qed

section \<open>Lemmas: the queue\<close>

definition queue_ok :: "limits \<Rightarrow> consumer \<Rightarrow> bool" where
  "queue_ok L c \<longleftrightarrow> length (c_queue c) \<le> maxEventsPerConsumer L
     \<and> c_queueBytes c = int (sum_list (map snd (c_queue c))) \<and> c_queueBytes c \<le> int (maxQueuedEventBytes L)
     \<and> list_all (\<lambda>(_, n). n \<le> maxEventBytes L) (c_queue c)
     \<and> c_droppedEvents c \<le> c_totalDroppedEvents c
     \<and> (\<not> c_active c \<longrightarrow> c_queue c = [])"

text \<open>What \<open>make_room\<close> does: it drops a prefix, counts it, and leaves room.\<close>

lemma make_room_spec:
  assumes "limits_ok L" and "bytes \<le> maxEventBytes L" and "queue_ok L c"
  shows "\<exists>k\<le>length (c_queue c). make_room L bytes c =
      c\<lparr>c_queue := drop k (c_queue c), c_queueBytes := int (sum_list (map snd (drop k (c_queue c)))),
        c_droppedEvents := c_droppedEvents c + k, c_totalDroppedEvents := c_totalDroppedEvents c + k\<rparr>
    \<and> length (drop k (c_queue c)) < maxEventsPerConsumer L
    \<and> sum_list (map snd (drop k (c_queue c))) + bytes \<le> maxQueuedEventBytes L"
  using assms
proof (induction L bytes c rule: make_room.induct)
  case (1 L bytes c)
  show ?case
  proof (cases "length (c_queue c) \<ge> maxEventsPerConsumer L \<or> c_queueBytes c + int bytes > int (maxQueuedEventBytes L)")
    case False
    with "1.prems" show ?thesis
      by (intro exI [of _ 0]) (simp add: make_room.simps queue_ok_def)
  next
    case full: True
    have "c_queue c \<noteq> []"
      using full "1.prems" by (auto simp: queue_ok_def limits_ok_def)
    then obtain e n q where q: "c_queue c = (e, n) # q" by (metis list.exhaust surj_pair)
    let ?c = "c\<lparr>c_queue := q, c_queueBytes := c_queueBytes c - int n,
      c_droppedEvents := Suc (c_droppedEvents c), c_totalDroppedEvents := Suc (c_totalDroppedEvents c)\<rparr>"
    have ok: "queue_ok L ?c"
      using "1.prems"(3) by (auto simp: queue_ok_def q)
    from "1.IH" [OF full q refl "1.prems"(1,2) ok]
    obtain k where k: "k \<le> length q" "make_room L bytes ?c = ?c\<lparr>c_queue := drop k q,
        c_queueBytes := int (sum_list (map snd (drop k q))), c_droppedEvents := Suc (c_droppedEvents c) + k,
        c_totalDroppedEvents := Suc (c_totalDroppedEvents c) + k\<rparr>"
      "length (drop k q) < maxEventsPerConsumer L" "sum_list (map snd (drop k q)) + bytes \<le> maxQueuedEventBytes L"
      by auto
    have "make_room L bytes c = make_room L bytes ?c"
      using full q by (subst make_room.simps) simp
    then show ?thesis
      using k by (intro exI [of _ "Suc k"]) (simp add: q)
  qed
qed

lemma enqueue_event_spec:
  assumes "limits_ok L" and "queue_ok L c" and "c_active c"
  shows "queue_ok L (enqueue_event L P e c) \<and> c_active (enqueue_event L P e c)
    \<and> (\<exists>k d. map fst (c_queue (enqueue_event L P e c)) = drop k (map fst (c_queue c)) @ (if d then [e] else [])
        \<and> k \<le> length (c_queue c)
        \<and> c_totalDroppedEvents (enqueue_event L P e c) = c_totalDroppedEvents c + k + (if d then 0 else 1)
        \<and> c_droppedEvents (enqueue_event L P e c) = c_droppedEvents c + k + (if d then 0 else 1))"
proof (cases "jsonByteLength P e > maxEventBytes L")
  case True
  with assms show ?thesis
    by (intro conjI exI [of _ 0] exI [of _ False]) (simp_all add: enqueue_event_def Let_def queue_ok_def)
next
  case False
  then obtain k where k: "k \<le> length (c_queue c)" "make_room L (jsonByteLength P e) c =
      c\<lparr>c_queue := drop k (c_queue c), c_queueBytes := int (sum_list (map snd (drop k (c_queue c)))),
        c_droppedEvents := c_droppedEvents c + k, c_totalDroppedEvents := c_totalDroppedEvents c + k\<rparr>"
    "length (drop k (c_queue c)) < maxEventsPerConsumer L"
    "sum_list (map snd (drop k (c_queue c))) + jsonByteLength P e \<le> maxQueuedEventBytes L"
    using make_room_spec [OF assms(1) _ assms(2), of "jsonByteLength P e"] by auto
  have "list_all (\<lambda>(_, n). n \<le> maxEventBytes L) (drop k (c_queue c))"
    using assms(2) by (auto simp: queue_ok_def list_all_iff dest: in_set_dropD)
  then have "queue_ok L (enqueue_event L P e c) \<and> c_active (enqueue_event L P e c)"
    using False k assms(2,3) by (simp add: enqueue_event_def Let_def queue_ok_def)
  moreover have "map fst (c_queue (enqueue_event L P e c)) = drop k (map fst (c_queue c)) @ [e]"
    "c_totalDroppedEvents (enqueue_event L P e c) = c_totalDroppedEvents c + k"
    "c_droppedEvents (enqueue_event L P e c) = c_droppedEvents c + k"
    using False k by (simp_all add: enqueue_event_def Let_def drop_map)
  ultimately show ?thesis
    using k(1) by (intro conjI exI [of _ k] exI [of _ True]) simp_all
qed

lemma drain_turn_spec:
  assumes "queue_ok L c" and "c_active c"
  shows "case drain_turn c of (None, t) \<Rightarrow> c_queue c = [] \<and> t = c\<lparr>c_draining := False\<rparr>
    | (Some (e, d), t) \<Rightarrow> map fst (c_queue c) = e # map fst (c_queue t) \<and> d = c_droppedEvents c \<and> c_droppedEvents t = 0
        \<and> c_totalDroppedEvents t = c_totalDroppedEvents c \<and> c_active t \<and> queue_ok L t"
  using assms by (cases "c_queue c") (auto simp: drain_turn_def queue_ok_def split: prod.splits)

lemma queue_ok_draining [simp]: "queue_ok L (c\<lparr>c_draining := b\<rparr>) = queue_ok L c"
  by (simp add: queue_ok_def)

lemma queue_ok_deactivate: "queue_ok L c \<Longrightarrow> queue_ok L (deactivate c)"
  by (simp add: queue_ok_def deactivate_def)

lemma queue_ok_drain: "queue_ok L c \<Longrightarrow> queue_ok L (snd (drain_turn c))"
  using drain_turn_spec [of L c]
  by (cases "c_active c") (auto simp: drain_turn_def split: prod.splits option.splits list.splits)

lemma queue_ok_enqueueEvent:
  assumes "limits_ok L" and "queue_ok L c" and "c_active c"
  shows "queue_ok L (snd (enqueueEvent L P e c))"
  using enqueue_event_spec [OF assms, of P e] queue_ok_drain by (simp add: enqueueEvent_def Let_def)

text \<open>The queue of an active consumer is a bounded buffer: \<open>enqueue_event\<close> puts, \<open>drain_turn\<close> takes.\<close>

definition take_event :: "consumer \<Rightarrow> jsval option \<times> consumer" where
  "take_event c = (case drain_turn c of (r, c') \<Rightarrow> (map_option fst r, c'))"

definition queue_good :: "limits \<Rightarrow> consumer \<Rightarrow> bool" where
  "queue_good L c \<longleftrightarrow> limits_ok L \<and> queue_ok L c \<and> c_active c"

lemma queue_put:
  assumes "queue_good L c"
  shows "queue_good L (enqueue_event L P e c)"
    and "subseq (map fst (c_queue (enqueue_event L P e c))) (map fst (c_queue c) @ [e])"
    and "length (map fst (c_queue (enqueue_event L P e c))) + c_totalDroppedEvents (enqueue_event L P e c)
      = Suc (length (map fst (c_queue c)) + c_totalDroppedEvents c)"
proof -
  obtain k d where s: "queue_ok L (enqueue_event L P e c)" "c_active (enqueue_event L P e c)" "k \<le> length (c_queue c)"
    "map fst (c_queue (enqueue_event L P e c)) = drop k (map fst (c_queue c)) @ (if d then [e] else [])"
    "c_totalDroppedEvents (enqueue_event L P e c) = c_totalDroppedEvents c + k + (if d then 0 else 1)"
    using enqueue_event_spec [of L c P e] assms by (auto simp: queue_good_def)
  then show "queue_good L (enqueue_event L P e c)"
    using assms by (simp add: queue_good_def)
  have "subseq (drop k (map fst (c_queue c))) (map fst (c_queue c))"
    by (simp add: suffix_drop suffix_imp_subseq)
  then show "subseq (map fst (c_queue (enqueue_event L P e c))) (map fst (c_queue c) @ [e])"
    unfolding s(4) by (intro list_emb_append_mono) auto
  show "length (map fst (c_queue (enqueue_event L P e c))) + c_totalDroppedEvents (enqueue_event L P e c)
      = Suc (length (map fst (c_queue c)) + c_totalDroppedEvents c)"
    unfolding s(4,5) using s(3) by simp
qed

lemma queue_take:
  assumes "queue_good L c" and "take_event c = (r, t)"
  shows "queue_good L t \<and> c_totalDroppedEvents t = c_totalDroppedEvents c
    \<and> map fst (c_queue c) = (case r of None \<Rightarrow> [] | Some a \<Rightarrow> [a]) @ map fst (c_queue t)"
  using assms drain_turn_spec [of L c]
  by (auto simp: queue_good_def take_event_def split: prod.splits option.splits)

interpretation event_queue: bounded_buffer "queue_good L" "\<lambda>c. map fst (c_queue c)" c_totalDroppedEvents
    "enqueue_event L P" take_event for L P
proof unfold_locales
  fix s t :: consumer and a
  assume s: "queue_good L s"
  show "queue_good L (enqueue_event L P a s)"
    "subseq (map fst (c_queue (enqueue_event L P a s))) (map fst (c_queue s) @ [a])"
    "length (map fst (c_queue (enqueue_event L P a s))) + c_totalDroppedEvents (enqueue_event L P a s)
      = Suc (length (map fst (c_queue s)) + c_totalDroppedEvents s)"
    using queue_put [OF s] by blast+
  show "take_event s = (Some a, t) \<Longrightarrow> queue_good L t \<and> map fst (c_queue s) = a # map fst (c_queue t)
      \<and> c_totalDroppedEvents t = c_totalDroppedEvents s"
    "take_event s = (None, t) \<Longrightarrow> queue_good L t \<and> map fst (c_queue t) = map fst (c_queue s)
      \<and> c_totalDroppedEvents t = c_totalDroppedEvents s"
    using queue_take [OF s, of _ t] by auto
qed

text \<open>What happens to a consumer between its creation and its end: an event arrives, or the callback
  it is waiting for settles. The run yields the calls of the callback.\<close>

datatype queue_op = Arrive jsval | CallbackSettled

fun arrivals :: "queue_op list \<Rightarrow> jsval list" where
  "arrivals [] = []"
| "arrivals (Arrive e # ops) = e # arrivals ops"
| "arrivals (CallbackSettled # ops) = arrivals ops"

definition queue_step :: "limits \<Rightarrow> platform \<Rightarrow> queue_op \<Rightarrow> consumer \<Rightarrow> (jsval \<times> nat) option \<times> consumer" where
  "queue_step L P p c = (case p of Arrive e \<Rightarrow> enqueueEvent L P e c | CallbackSettled \<Rightarrow> drain_turn c)"

fun consumer_run :: "limits \<Rightarrow> platform \<Rightarrow> queue_op list \<Rightarrow> consumer \<Rightarrow> consumer \<times> (jsval \<times> nat) list" where
  "consumer_run L P [] c = (c, [])"
| "consumer_run L P (p # ops) c =
     (case queue_step L P p c of (r, c') \<Rightarrow> (case consumer_run L P ops c' of (t, calls) \<Rightarrow>
        (t, (case r of None \<Rightarrow> calls | Some x \<Rightarrow> x # calls))))"

text \<open>A step is one or two operations of the buffer.\<close>

definition buffer_ops :: "limits \<Rightarrow> platform \<Rightarrow> queue_op \<Rightarrow> consumer \<Rightarrow> jsval buffer_op list" where
  "buffer_ops L P p c = (case p of CallbackSettled \<Rightarrow> [Take]
     | Arrive e \<Rightarrow> if jsonByteLength P e > maxEventBytes L \<or> c_draining (enqueue_event L P e c) then [Put e] else [Put e, Take])"

lemma queue_step_buffer:
  assumes "queue_step L P p c = (r, c')"
  shows "buffer_run (enqueue_event L P) take_event (buffer_ops L P p c) c
    = (c', (case r of None \<Rightarrow> [] | Some (e, _) \<Rightarrow> [e]))"
  using assms
  by (cases p) (auto simp: queue_step_def buffer_ops_def enqueueEvent_def Let_def take_event_def
      split: prod.splits option.splits if_splits)

lemma puts_buffer_ops: "puts (buffer_ops L P p c) = arrivals [p]"
  by (cases p) (simp_all add: buffer_ops_def)

lemma arrivals_Cons: "arrivals (p # ops) = arrivals [p] @ arrivals ops"
  by (cases p) simp_all

lemma consumer_run_buffer:
  assumes "consumer_run L P ops c = (t, calls)"
  shows "\<exists>bs. puts bs = arrivals ops \<and> buffer_run (enqueue_event L P) take_event bs c = (t, map fst calls)"
  using assms
proof (induction ops arbitrary: c calls)
  case Nil
  then show ?case by (intro exI [of _ "[]"]) simp
next
  case (Cons p ops)
  obtain r c' where st: "queue_step L P p c = (r, c')" by force
  obtain rest where run: "consumer_run L P ops c' = (t, rest)"
    and calls: "calls = (case r of None \<Rightarrow> rest | Some x \<Rightarrow> x # rest)"
    using Cons.prems by (auto simp: st split: prod.splits)
  obtain bs where "puts bs = arrivals ops" "buffer_run (enqueue_event L P) take_event bs c' = (t, map fst rest)"
    using Cons.IH [OF run] by blast
  then show ?case
    by (intro exI [of _ "buffer_ops L P p c @ bs"])
      (auto simp: puts_buffer_ops arrivals_Cons [of p ops] buffer_run_append queue_step_buffer [OF st] calls split: option.splits)
qed

text \<open>The counts a callback is told add up.\<close>

lemma queue_step_dropped:
  assumes "queue_step L P p c = (r, c')" and "queue_good L c"
  shows "queue_good L c' \<and> c_totalDroppedEvents c' + c_droppedEvents c
    = c_totalDroppedEvents c + c_droppedEvents c' + (case r of None \<Rightarrow> 0 | Some (_, d) \<Rightarrow> d)"
proof -
  have dr: "queue_good L t \<and> c_totalDroppedEvents t = c_totalDroppedEvents s
      \<and> c_droppedEvents s = c_droppedEvents t + (case r of None \<Rightarrow> 0 | Some (_, d) \<Rightarrow> d)"
    if "drain_turn s = (r, t)" "queue_good L s" for s t r
    using that drain_turn_spec [of L s] by (auto simp: queue_good_def split: option.splits prod.splits)
  have en: "queue_good L (enqueue_event L P e c) \<and> c_totalDroppedEvents (enqueue_event L P e c) + c_droppedEvents c
      = c_totalDroppedEvents c + c_droppedEvents (enqueue_event L P e c)" for e
    using queue_put(1) [OF assms(2)] enqueue_event_spec [of L c P e] assms(2) by (auto simp: queue_good_def)
  show ?thesis
  proof (cases p)
    case (Arrive e)
    with assms(1) dr [of "enqueue_event L P e c" r c'] en [of e] show ?thesis
      by (auto simp: queue_step_def enqueueEvent_def Let_def split: if_splits)
  next
    case CallbackSettled
    with assms dr [of c r c'] show ?thesis by (simp add: queue_step_def)
  qed
qed

lemma consumer_run_dropped:
  assumes "consumer_run L P ops c = (t, calls)" and "queue_good L c"
  shows "c_totalDroppedEvents t + c_droppedEvents c = c_totalDroppedEvents c + c_droppedEvents t + sum_list (map snd calls)"
  using assms
proof (induction ops arbitrary: c calls)
  case (Cons p ops)
  obtain r c' where st: "queue_step L P p c = (r, c')" by force
  obtain rest where run: "consumer_run L P ops c' = (t, rest)"
    and calls: "calls = (case r of None \<Rightarrow> rest | Some x \<Rightarrow> x # rest)"
    using Cons.prems(1) by (auto simp: st split: prod.splits)
  from queue_step_dropped [OF st Cons.prems(2)] Cons.IH [OF run] show ?case
    by (auto simp: calls split: option.splits)
qed simp

lemma consumer_run_snoc:
  "consumer_run L P (ops @ [p]) c = (case consumer_run L P ops c of (s, calls) \<Rightarrow> case queue_step L P p s of
     (r, t) \<Rightarrow> (t, calls @ (case r of None \<Rightarrow> [] | Some x \<Rightarrow> [x])))"
  by (induction ops arbitrary: c) (auto split: prod.splits option.splits)

lemma queue_step_told: "queue_step L P p c = (Some x, t) \<Longrightarrow> c_droppedEvents t = 0"
  by (cases p) (auto simp: queue_step_def enqueueEvent_def drain_turn_def Let_def split: if_splits list.splits prod.splits)

section \<open>Properties\<close>

text \<open>C14: the events of a consumer. From its creation on, under any arrivals and callbacks, the events
  handed to the callback and then those still queued are the arrived ones in their order, less the
  dropped; arrived, handed over, queued and dropped events add up; the counts the callback has been told
  and the one it has not been told yet add up to the dropped events, and whenever a step calls the callback it has been told of all that were
  dropped until then; and the queue keeps within its limits.\<close>

theorem consumer_events_accounted:
  assumes "normalizeLimits overrides = Inr L" and "createConsumer P allowed options = Inr c"
    and "consumer_run L P ops c = (t, calls)"
  shows "subseq (map fst calls @ map fst (c_queue t)) (arrivals ops)
    \<and> length (arrivals ops) = length calls + length (c_queue t) + c_totalDroppedEvents t
    \<and> c_totalDroppedEvents t = sum_list (map snd calls) + c_droppedEvents t
    \<and> (\<forall>before p s earlier. ops = before @ [p] \<longrightarrow> consumer_run L P before c = (s, earlier) \<longrightarrow> length earlier < length calls
         \<longrightarrow> c_totalDroppedEvents t = sum_list (map snd calls))
    \<and> length (c_queue t) \<le> maxEventsPerConsumer L
    \<and> sum_list (map snd (c_queue t)) \<le> maxQueuedEventBytes L"
proof -
  have new: "queue_good L c" "c_queue c = []" "c_totalDroppedEvents c = 0" "c_droppedEvents c = 0"
    using normalizeLimits_ok [OF assms(1)] createConsumer_sound [OF assms(2)]
    by (simp_all add: queue_good_def queue_ok_def)
  obtain bs where "puts bs = arrivals ops" and run: "buffer_run (enqueue_event L P) take_event bs c = (t, map fst calls)"
    using consumer_run_buffer [OF assms(3)] by blast
  have told: "c_droppedEvents t = 0"
    if "ops = before @ [p]" "consumer_run L P before c = (s, earlier)" "length earlier < length calls" for before p s earlier
    using assms(3) that by (auto simp: consumer_run_snoc intro: queue_step_told split: prod.splits option.splits)
  from run \<open>puts bs = arrivals ops\<close> event_queue.run_accounting [OF run new(1)] consumer_run_dropped [OF assms(3) new(1)] new(2-4) told
  show ?thesis by (auto simp: queue_good_def queue_ok_def)
qed

text \<open>The limits a manager works with are positive, and one event of the largest size fits the
  queue: without this the eviction loop could end with no room.\<close>

theorem limits_normalized:
  assumes "normalizeLimits overrides = Inr L"
  shows "1 \<le> maxSessions L \<and> 1 \<le> maxConsumersPerSession L \<and> 1 \<le> maxEventsPerConsumer L
    \<and> 1 \<le> maxEventBytes L \<and> maxEventBytes L \<le> maxQueuedEventBytes L"
  using normalizeLimits_ok [OF assms] by (simp add: limits_ok_def)

definition demo_limits :: jsval where
  "demo_limits = obj [(''maxSessions'', jnum 2), (''maxConsumersPerSession'', jnum 2), (''maxEventsPerConsumer'', jnum 1),
     (''maxEventBytes'', jnum 8), (''maxQueuedEventBytes'', jnum 16), (''maxCommandBytes'', jnum 8),
     (''maxCommandResultBytes'', jnum 8)]"

definition small_limits :: limits where
  "small_limits = \<lparr>maxSessions = 2, maxConsumersPerSession = 2, maxEventsPerConsumer = 1, maxEventBytes = 8,
     maxQueuedEventBytes = 16, maxCommandBytes = 8, maxCommandResultBytes = 8\<rparr>"

lemma demo_limits_normalized: "normalizeLimits demo_limits = Inr small_limits"
  by code_simp

definition demo_options :: acquire_options where
  "demo_options = \<lparr>o_consumerId = jstr ''log'', o_domains = Arr [jstr ''Log''], o_commands = Undefined,
     o_events = Arr [jstr ''Log.entryAdded''], o_includeChildTargets = Undefined, o_onEvent = Callback, o_onDetach = Absent\<rparr>"

definition demo_consumer :: consumer where
  "demo_consumer = \<lparr>c_id = lit ''log'', c_domains = [lit ''Log''], c_commands = [], c_events = [lit ''Log.entryAdded''],
     c_includeChildTargets = False, c_onEvent = True, c_onDetach = False, c_queue = [], c_queueBytes = 0,
     c_droppedEvents = 0, c_totalDroppedEvents = 0, c_draining = False, c_active = True\<rparr>"

lemma demo_consumer_created: "createConsumer demo_platform [lit ''Log'', lit ''Page''] demo_options = Inr demo_consumer"
  by code_simp

text \<open>Four events reach a queue for one, the second while the callback runs, and the callback settles.\<close>

theorem consumer_events_accounted_witness:
  "\<exists>t. consumer_run small_limits demo_platform
      [Arrive (jstr ''a''), Arrive (jstr ''b''), Arrive (jstr ''c''), CallbackSettled] demo_consumer
      = (t, [(jstr ''a'', 0), (jstr ''c'', 1)])
    \<and> c_totalDroppedEvents t = sum_list (map snd [(jstr ''a'', 0), (jstr ''c'', 1)]) + c_droppedEvents t"
proof -
  obtain t where run: "consumer_run small_limits demo_platform
      [Arrive (jstr ''a''), Arrive (jstr ''b''), Arrive (jstr ''c''), CallbackSettled] demo_consumer
      = (t, [(jstr ''a'', 0), (jstr ''c'', 1)])"
    by (rule that) code_simp
  show ?thesis
    using consumer_events_accounted [OF demo_limits_normalized demo_consumer_created run] run by blast
qed


end
