(* ===== verification/Cdp_Targets.thy ===== *)
theory Cdp_Targets
  imports Cdp_Consumers
begin

text \<open>
  What a CDP session knows of its tab (\<open>chrome-extension/src/cdp-session-manager.js\<close>): the flat child
  sessions of its iframes, linked to their parents, and the execution contexts of its frames. A
  \<open>Map\<close> is the list of its entries in insertion order; the map of child sessions, whose keys are the
  ids of its entries, is the list of the entries.
\<close>

section \<open>State\<close>

record child =
  ch_sessionId :: jsstr
  ch_parentSessionId :: jsstr
  ch_targetId :: jsstr
  ch_type :: jsstr

text \<open>A context of a child session carries that session's id.\<close>

record frame_context =
  fc_contextId :: rat
  fc_sessionId :: "jsstr option"
  fc_isDefault :: bool

type_synonym frame_map = "(jsstr \<times> (jsstr \<times> frame_context) list) list"

section \<open>Frame contexts\<close>

text \<open>The loops that delete contexts from every frame and then the frames that became empty. (An empty
  frame is deleted whether or not the loop emptied it, as in the code.)\<close>

definition delete_contexts :: "(jsstr \<Rightarrow> frame_context \<Rightarrow> bool) \<Rightarrow> frame_map \<Rightarrow> frame_map" where
  "delete_contexts gone frames =
     filter (\<lambda>(_, contexts). contexts \<noteq> [])
       (map (\<lambda>(frameId, contexts). (frameId, filter (\<lambda>(key, context). \<not> gone key context) contexts)) frames)"

definition removeFrameContextsForSession :: "jsstr \<Rightarrow> frame_map \<Rightarrow> frame_map" where
  "removeFrameContextsForSession sessionId frames = delete_contexts (\<lambda>_ context. fc_sessionId context = Some sessionId) frames"

definition removeChildFrameContexts :: "frame_map \<Rightarrow> frame_map" where
  "removeChildFrameContexts frames = delete_contexts (\<lambda>_ context. fc_sessionId context \<noteq> None) frames"

definition contextKey :: "platform \<Rightarrow> jsstr \<Rightarrow> jsval \<Rightarrow> jsstr" where
  "contextKey P sessionId contextId =
     (if sessionId = [] then lit ''root'' else sessionId) @ lit '':'' @ string_of P contextId"

text \<open>\<open>sessionId\<close> is the source's session, empty for the root.\<close>

definition updateFrameContexts :: "platform \<Rightarrow> jsstr \<Rightarrow> jsval \<Rightarrow> jsval \<Rightarrow> frame_map \<Rightarrow> frame_map" where
  "updateFrameContexts P sessionId method params frames =
     (if method = jstr ''Runtime.executionContextCreated'' then
        let context = getp params ''context''; frameId = getp (getp context ''auxData'') ''frameId''
        in if \<not> is_string frameId \<or> str_of frameId = [] \<or> \<not> is_integer (getp context ''id'') then frames
           else
             let contexts = (case map_of frames (str_of frameId) of None \<Rightarrow> [] | Some cs \<Rightarrow> cs);
                 entry = \<lparr>fc_contextId = (case getp context ''id'' of Num (Fin r) \<Rightarrow> r | _ \<Rightarrow> 0), fc_sessionId = (if sessionId = [] then None else Some sessionId),
                          fc_isDefault = (getp (getp context ''auxData'') ''isDefault'' = Bool True)\<rparr>
             in assoc_set (str_of frameId) (assoc_set (contextKey P sessionId (getp context ''id'')) entry contexts) frames
      else if method = jstr ''Runtime.executionContextDestroyed'' then
        delete_contexts (\<lambda>key _. key = contextKey P sessionId (getp params ''executionContextId'')) frames
      else if method = jstr ''Runtime.executionContextsCleared'' then
        (if sessionId \<noteq> [] then removeFrameContextsForSession sessionId frames
         else delete_contexts (\<lambda>_ context. fc_sessionId context = None) frames)
      else frames)"

section \<open>Child sessions\<close>

definition child_ids :: "child list \<Rightarrow> jsstr list" where
  "child_ids m = map ch_sessionId m"

text \<open>\<open>childSessions.set(id, child)\<close>, \<open>childSessions.delete(id)\<close>.\<close>

fun child_set :: "child \<Rightarrow> child list \<Rightarrow> child list" where
  "child_set c [] = [c]"
| "child_set c (d # m) = (if ch_sessionId d = ch_sessionId c then c # m else d # child_set c m)"

definition child_delete :: "jsstr \<Rightarrow> child list \<Rightarrow> child list" where
  "child_delete sessionId m = filter (\<lambda>c. ch_sessionId c \<noteq> sessionId) m"

text \<open>The ids of the children of a session, in the order of the map.\<close>

definition children_of :: "child list \<Rightarrow> jsstr \<Rightarrow> jsstr list" where
  "children_of m sessionId = map ch_sessionId (filter (\<lambda>c. ch_parentSessionId c = sessionId) m)"

lemma child_delete_length: "length (child_delete x m) < length m \<longleftrightarrow> x \<in> set (child_ids m)"
  unfolding child_delete_def child_ids_def by (induction m) (auto intro: le_less_trans [OF length_filter_le])

lemma child_delete_absent: "x \<notin> set (child_ids m) \<Longrightarrow> child_delete x m = m"
  by (auto simp: child_delete_def child_ids_def filter_id_conv)

lemma children_of_ids: "set (children_of m x) \<subseteq> set (child_ids m)"
  by (auto simp: children_of_def child_ids_def)

lemma absent_pushed:
  "x \<notin> set (child_ids m) \<Longrightarrow>
   length (filter (\<lambda>y. y \<notin> set (child_ids m)) (rev (children_of m x) @ pending))
     < length (filter (\<lambda>y. y \<notin> set (child_ids m)) (x # pending))"
proof -
  have "filter (\<lambda>y. y \<notin> set (child_ids m)) (rev (children_of m x)) = []"
    using children_of_ids [of m x] by (auto simp: filter_empty_conv)
  moreover assume "x \<notin> set (child_ids m)"
  ultimately show ?thesis by simp
qed

text \<open>The loop of \<open>removeChildSessionTree\<close>. The stack \<open>pending\<close> has its top at the head of the list.
  The loop ends although a session may be pushed repeatedly and parents may form a cycle: a turn
  either deletes an entry or takes an absent id off the stack and pushes only ids of entries.\<close>

function remove_pending :: "jsstr list \<Rightarrow> child list \<Rightarrow> frame_map \<Rightarrow> child list \<times> frame_map" where
  "remove_pending [] m frames = (m, frames)"
| "remove_pending (sessionId # pending) m frames =
     remove_pending (rev (children_of m sessionId) @ pending) (child_delete sessionId m)
       (removeFrameContextsForSession sessionId frames)"
  by pat_completeness auto

termination
proof (relation "measures [\<lambda>(_, m, _). length m,
    \<lambda>(pending, m, _). length (filter (\<lambda>y. y \<notin> set (child_ids m)) pending)]", goal_cases)
  case (2 x pending m frames)
  show ?case
  proof (cases "x \<in> set (child_ids m)")
    case True
    then show ?thesis using child_delete_length [of x m] by simp
  next
    case False
    then show ?thesis using absent_pushed [OF False, of pending] by (simp add: child_delete_absent)
  qed
qed simp

definition removeChildSessionTree :: "jsstr \<Rightarrow> child list \<Rightarrow> frame_map \<Rightarrow> child list \<times> frame_map" where
  "removeChildSessionTree rootSessionId m frames = remove_pending [rootSessionId] m frames"

section \<open>Lemmas\<close>

definition child_edges :: "child list \<Rightarrow> (jsstr \<times> jsstr) set" where
  "child_edges m = (\<lambda>c. (ch_parentSessionId c, ch_sessionId c)) ` set m"

lemma children_edges: "c \<in> set (children_of m x) \<longleftrightarrow> (x, c) \<in> child_edges m"
  by (auto simp: children_of_def child_edges_def)

lemma edges_delete: "child_edges (child_delete x m) = {(p, c) \<in> child_edges m. c \<noteq> x}"
  by (auto simp: child_edges_def child_delete_def)

text \<open>A path, cut at its last visit of a node \<open>s\<close>.\<close>

lemma last_visit:
  assumes "(a, x) \<in> E\<^sup>*"
  shows "x = s \<or> (a, x) \<in> {(p, c) \<in> E. c \<noteq> s}\<^sup>* \<or> (\<exists>c. (s, c) \<in> E \<and> (c, x) \<in> {(p, c) \<in> E. c \<noteq> s}\<^sup>*)"
  using assms
proof (induction rule: rtrancl_induct)
  case (step y z)
  show ?case
  proof (cases "z = s")
    case False
    with step.hyps(2) have yz: "(y, z) \<in> {(p, c) \<in> E. c \<noteq> s}" by simp
    from step.IH show ?thesis
    proof (elim disjE exE conjE)
      assume "y = s"
      with step.hyps(2) show ?thesis by blast
    qed (use yz in \<open>meson rtrancl.rtrancl_into_rtrancl\<close>)+
  qed simp
qed simp

lemma reach_delete:
  "(child_edges m)\<^sup>* `` set (x # pending)
   = insert x ((child_edges (child_delete x m))\<^sup>* `` set (rev (children_of m x) @ pending))" (is "?L = insert x ?R")
proof -
  let ?E = "child_edges m" and ?E' = "{(p, c) \<in> child_edges m. c \<noteq> x}"
  have sub: "?E'\<^sup>* \<subseteq> ?E\<^sup>*" by (rule rtrancl_mono) auto
  show ?thesis
  proof (intro equalityI subsetI)
    fix y assume "y \<in> ?L"
    then obtain a where a: "a \<in> set (x # pending)" "(a, y) \<in> ?E\<^sup>*" by auto
    show "y \<in> insert x ?R"
    proof (cases "y = x")
      case False
      have "(a, y) \<in> ?E'\<^sup>* \<or> (\<exists>c. (x, c) \<in> ?E \<and> (c, y) \<in> ?E'\<^sup>*)"
        using last_visit [OF a(2), of x] False by blast
      then show ?thesis
      proof
        assume p: "(a, y) \<in> ?E'\<^sup>*"
        show ?thesis
        proof (cases "a = x")
          case True
          then have "(x, y) \<in> ?E'\<^sup>*" using p by simp
          then obtain c where "(x, c) \<in> ?E'" "(c, y) \<in> ?E'\<^sup>*"
            using False by (cases rule: converse_rtranclE) simp_all
          moreover from this(1) have "c \<in> set (rev (children_of m x) @ pending)"
            by (simp add: children_edges)
          ultimately show ?thesis unfolding edges_delete by blast
        qed (use a p in \<open>auto simp: edges_delete\<close>)
      qed (auto simp: edges_delete children_edges)
    qed simp
  next
    fix y assume "y \<in> insert x ?R"
    then consider "y = x" | c where "c \<in> set (children_of m x)" "(c, y) \<in> ?E\<^sup>*" | p where "p \<in> set pending" "(p, y) \<in> ?E\<^sup>*"
      using sub by (auto simp: edges_delete)
    then show "y \<in> ?L"
      by cases (auto simp: children_edges intro: converse_rtrancl_into_rtrancl)
  qed
qed

lemma delete_contexts_twice:
  "delete_contexts g (delete_contexts h frames) = delete_contexts (\<lambda>k c. g k c \<or> h k c) frames"
proof (induction frames)
  case (Cons p frames)
  obtain f cs where p: "p = (f, cs)" by force
  have cs: "filter (\<lambda>(k, c). \<not> g k c) (filter (\<lambda>(k, c). \<not> h k c) cs) = filter (\<lambda>(k, c). \<not> (g k c \<or> h k c)) cs"
    unfolding filter_filter by (rule filter_cong) auto
  with Cons show ?case
    by (cases "filter (\<lambda>(k, c). \<not> h k c) cs = []") (simp_all add: delete_contexts_def p cs [symmetric])
qed (simp add: delete_contexts_def)

lemma delete_contexts_cong:
  "(\<And>k c. g k c = h k c) \<Longrightarrow> delete_contexts g frames = delete_contexts h frames"
  by (simp add: delete_contexts_def)

lemma remove_pending_spec:
  "remove_pending pending m frames =
     (filter (\<lambda>c. ch_sessionId c \<notin> (child_edges m)\<^sup>* `` set pending) m,
      if pending = [] then frames
      else delete_contexts (\<lambda>_ c. \<exists>s. fc_sessionId c = Some s \<and> s \<in> (child_edges m)\<^sup>* `` set pending) frames)"
proof (induction pending m frames rule: remove_pending.induct)
  case (2 x pending m frames)
  let ?rest = "rev (children_of m x) @ pending"
  let ?R = "(child_edges m)\<^sup>* `` set (x # pending)"
  let ?R1 = "(child_edges (child_delete x m))\<^sup>* `` set ?rest"
  have R: "?R = insert x ?R1" by (rule reach_delete)
  have m: "filter (\<lambda>c. ch_sessionId c \<notin> ?R1) (child_delete x m) = filter (\<lambda>c. ch_sessionId c \<notin> ?R) m"
    unfolding R child_delete_def filter_filter by (rule filter_cong) auto
  have f: "(if ?rest = [] then removeFrameContextsForSession x frames
      else delete_contexts (\<lambda>_ c. \<exists>s. fc_sessionId c = Some s \<and> s \<in> ?R1) (removeFrameContextsForSession x frames))
    = delete_contexts (\<lambda>_ c. \<exists>s. fc_sessionId c = Some s \<and> s \<in> ?R) frames"
  proof (cases "?rest = []")
    case True
    then have "?R = {x}" unfolding R by auto
    then show ?thesis
      using True by (auto simp: removeFrameContextsForSession_def intro: delete_contexts_cong)
  next
    case False
    have "delete_contexts (\<lambda>_ c. \<exists>s. fc_sessionId c = Some s \<and> s \<in> ?R1) (removeFrameContextsForSession x frames)
      = delete_contexts (\<lambda>_ c. \<exists>s. fc_sessionId c = Some s \<and> s \<in> ?R) frames"
      unfolding R removeFrameContextsForSession_def delete_contexts_twice
      by (rule delete_contexts_cong) auto
    then show ?thesis unfolding if_not_P [OF False] .
  qed
  show ?case
    unfolding remove_pending.simps 2 m f by simp
qed simp

text \<open>Contexts are stored under distinct keys, frames under distinct ids, and no frame is empty.\<close>

definition frames_ok :: "frame_map \<Rightarrow> bool" where
  "frames_ok frames \<longleftrightarrow> distinct (map fst frames)
     \<and> (\<forall>(f, cs)\<in>set frames. f \<noteq> [] \<and> cs \<noteq> [] \<and> distinct (map fst cs))"

definition contexts_of :: "frame_map \<Rightarrow> (jsstr \<times> frame_context) set" where
  "contexts_of frames = (\<Union>(f, cs)\<in>set frames. (\<lambda>(k, c). (f, c)) ` set cs)"

lemma frames_ok_delete:
  assumes "frames_ok frames"
  shows "frames_ok (delete_contexts gone frames)"
proof -
  let ?cut = "\<lambda>(f :: jsstr, cs). (f, filter (\<lambda>(key, context). \<not> gone key context) cs)"
  have "map fst (map ?cut frames) = map fst frames"
    by (simp add: case_prod_unfold)
  then have "distinct (map fst (map ?cut frames))"
    using assms by (simp only: frames_ok_def)
  then have "distinct (map fst (delete_contexts gone frames))"
    unfolding delete_contexts_def by (rule distinct_map_filter)
  moreover have "f \<noteq> [] \<and> cs \<noteq> [] \<and> distinct (map fst cs)" if "(f, cs) \<in> set (delete_contexts gone frames)" for f cs
  proof -
    from that obtain ds where "(f, ds) \<in> set frames" "cs = filter (\<lambda>(key, context). \<not> gone key context) ds" "cs \<noteq> []"
      by (auto simp: delete_contexts_def)
    with assms show ?thesis
      by (auto simp: frames_ok_def intro: distinct_map_filter)
  qed
  ultimately show ?thesis by (auto simp: frames_ok_def)
qed

lemma assoc_set_not_Nil [simp]: "assoc_set k v m \<noteq> []"
  by (induction k v m rule: assoc_set.induct) auto

lemma frames_ok_add:
  assumes "frames_ok frames" and "f \<noteq> []"
  shows "frames_ok (assoc_set f (assoc_set k c (case map_of frames f of None \<Rightarrow> [] | Some cs \<Rightarrow> cs)) frames)"
proof -
  have "distinct (map fst (case map_of frames f of None \<Rightarrow> [] | Some cs \<Rightarrow> cs))"
    using assms(1) by (auto simp: frames_ok_def split: option.split dest!: map_of_SomeD)
  then show ?thesis
    using assms distinct_assoc_set [of frames f] unfolding frames_ok_def
    by (auto dest!: assoc_set_subset intro: distinct_assoc_set)
qed

lemma frames_ok_update: "frames_ok frames \<Longrightarrow> frames_ok (updateFrameContexts P sid method params frames)"
  by (auto simp: updateFrameContexts_def Let_def removeFrameContextsForSession_def frames_ok_delete
      intro!: frames_ok_add)

lemma contexts_of_delete:
  "contexts_of (delete_contexts (\<lambda>_ c. g c) frames) = {(f, c) \<in> contexts_of frames. \<not> g c}"
  unfolding contexts_of_def delete_contexts_def by (force simp: case_prod_unfold filter_empty_conv)

section \<open>Properties\<close>

text \<open>C15: a detached child takes its whole subtree with it and nothing else: what remains is the entries
  not reachable from it by parent links, in their order, and the contexts of no removed session
  remain, while every other context does. The loop ends for every shape of links, cycles included.\<close>

theorem child_tree_removed:
  assumes "removeChildSessionTree rootId m frames = (m', frames')"
  defines "gone \<equiv> {s. (rootId, s) \<in> (child_edges m)\<^sup>*}"
  shows "m' = filter (\<lambda>c. ch_sessionId c \<notin> gone) m
    \<and> contexts_of frames' = {(f, c) \<in> contexts_of frames. \<forall>s. fc_sessionId c = Some s \<longrightarrow> s \<notin> gone}
    \<and> (frames_ok frames \<longrightarrow> frames_ok frames')"
proof -
  have "m' = filter (\<lambda>c. ch_sessionId c \<notin> gone) m"
    and f: "frames' = delete_contexts (\<lambda>_ c. \<exists>s. fc_sessionId c = Some s \<and> s \<in> gone) frames"
    using assms(1) by (auto simp: removeChildSessionTree_def remove_pending_spec gone_def)
  then show ?thesis
    by (auto simp: contexts_of_delete frames_ok_delete)
qed

definition demo_children :: "child list" where
  "demo_children = [\<lparr>ch_sessionId = lit ''a'', ch_parentSessionId = lit ''b'', ch_targetId = [], ch_type = lit ''iframe''\<rparr>,
     \<lparr>ch_sessionId = lit ''b'', ch_parentSessionId = lit ''a'', ch_targetId = [], ch_type = lit ''iframe''\<rparr>,
     \<lparr>ch_sessionId = lit ''c'', ch_parentSessionId = [], ch_targetId = [], ch_type = lit ''iframe''\<rparr>]"

text \<open>Two children that name each other as parents go together.\<close>

theorem child_tree_removed_witness:
  "\<exists>m frames. removeChildSessionTree (lit ''a'') demo_children [] = (m, frames) \<and> map ch_sessionId m = [lit ''c'']
     \<and> m = filter (\<lambda>c. ch_sessionId c \<notin> {s. (lit ''a'', s) \<in> (child_edges demo_children)\<^sup>*}) demo_children"
proof -
  obtain m frames where r: "removeChildSessionTree (lit ''a'') demo_children [] = (m, frames)" "map ch_sessionId m = [lit ''c'']"
    by (rule that) code_simp+
  have "m = filter (\<lambda>c. ch_sessionId c \<notin> {s. (lit ''a'', s) \<in> (child_edges demo_children)\<^sup>*}) demo_children"
    using child_tree_removed [OF r(1)] by (rule conjunct1)
  with r show ?thesis by (intro exI conjI)
qed

end
