(* ===== verification/Cdp_Sessions.thy ===== *)
theory Cdp_Sessions
  imports Cdp_Targets
begin

text \<open>
  The CDP session manager (\<open>class CDPSessionManager\<close> of
  \<open>chrome-extension/src/cdp-session-manager.js\<close>): one debugger attachment per tab, shared by consumers
  that acquire and release leases concurrently. Sessions and consumers are shared mutable objects,
  so the state is a store: references are numbers, and the maps of the code hold references. Each
  asynchronous function is cut at its \<open>await\<close>s; a step is one synchronous piece.
\<close>

section \<open>State\<close>

datatype session_state = Attaching | Attached | Detaching | Detached | Failed

text \<open>Where \<open>attachSession\<close> stands: \<open>attach\<close> has been called; it has resolved for a session nobody wants
  any more, which is being closed; or the promise \<open>session.ready\<close> is settled.\<close>

datatype attach_phase = AttachCalled | AttachClosing | AttachDone "unit res"

record session =
  s_tab :: int
  s_state :: session_state
  s_attach :: attach_phase
  s_closeRequested :: jsstr
  s_consumers :: "(jsstr \<times> nat) list"
  s_childConsumerCount :: nat
  s_childSessions :: "child list"
  s_frameContexts :: frame_map
  s_autoAttachEnabled :: bool
  s_autoAttachPending :: bool

text \<open>Where \<open>acquire\<close> stands for a consumer that it has created and registered, and where
  \<open>releaseConsumer\<close> stands for a consumer: at the auto-attach promise of the session that
  \<open>disableAutoAttach\<close> awaits, or at the end of \<open>disableAutoAttach\<close>.\<close>

datatype acquire_phase = AwaitReady | AwaitAutoAttach | AutoAttachDone "unit res" | Leased | Refused exn

datatype release_phase = NoRelease | AwaitAutoPromise | AutoPromiseDone bool | AwaitDisable

record lease =
  l_session :: nat
  l_acquire :: acquire_phase
  l_release :: release_phase

text \<open>Calls of the debugger API and of the consumers' callbacks, in order; the empty child id stands for
  the root target.\<close>

datatype call =
    AttachCall int
  | DetachCall int
  | AutoAttachCall int jsstr bool
  | CommandCall int jsstr jsstr jsval
  | OnDetach nat jsstr
  | OnEvent nat jsval nat

record manager =
  m_sessions :: "(int \<times> nat) list"
  m_session :: "nat \<Rightarrow> session"
  m_nextSession :: nat
  m_consumer :: "nat \<Rightarrow> consumer"
  m_lease :: "nat \<Rightarrow> lease"
  m_nextConsumer :: nat
  m_disposed :: bool
  m_log :: "call list"

record cdp_config =
  cdp_limits :: limits
  cdp_allowedDomains :: "jsstr list"
  cdp_supportsFlatSessions :: bool
  cdp_platform :: platform

section \<open>Targets and sessions\<close>

definition browserSupportsFlatSessions :: "platform \<Rightarrow> jsval \<Rightarrow> bool" where
  "browserSupportsFlatSessions P version =
     (let digits = takeWhile is_digit (string_of P (js_or version (Str [])))
      in digits \<noteq> [] \<and> dec_value digits \<ge> 125)"

definition integer_of :: "jsval \<Rightarrow> int" where
  "integer_of v = (case v of Num (Fin r) \<Rightarrow> \<lfloor>r\<rfloor> | _ \<Rightarrow> 0)"

definition normalizeDebuggee :: "jsval \<Rightarrow> int res" where
  "normalizeDebuggee target =
     (if \<not> truthy target \<or> \<not> typeof_object target \<or> is_array target \<or> \<not> is_integer (getp target ''tabId'')
         \<or> less_than (getp target ''tabId'') 0 \<or> list_ex (\<lambda>k. k \<noteq> lit ''tabId'') (object_keys target)
      then Inl (fault INVALID_COMMAND [Txt ''Managed CDP sessions require exactly one non-negative tabId''])
      else Inr (integer_of (getp target ''tabId'')))"

text \<open>The key \<open>"tab:n"\<close> is the number; the key \<open>"invalid"\<close> is in no map.\<close>

definition debuggeeKey :: "jsval \<Rightarrow> int option" where
  "debuggeeKey source = (if is_integer (getp source ''tabId'') then Some (integer_of (getp source ''tabId'')) else None)"

definition createSession :: "int \<Rightarrow> session" where
  "createSession tab = \<lparr>s_tab = tab, s_state = Attaching, s_attach = AttachCalled, s_closeRequested = [],
     s_consumers = [], s_childConsumerCount = 0, s_childSessions = [], s_frameContexts = [],
     s_autoAttachEnabled = False, s_autoAttachPending = False\<rparr>"

definition initial_manager :: manager where
  "initial_manager = \<lparr>m_sessions = [], m_session = (\<lambda>_. createSession 0), m_nextSession = 0,
     m_consumer = (\<lambda>_. \<lparr>c_id = [], c_domains = [], c_commands = [], c_events = [], c_includeChildTargets = False,
       c_onEvent = False, c_onDetach = False, c_queue = [], c_queueBytes = 0, c_droppedEvents = 0,
       c_totalDroppedEvents = 0, c_draining = False, c_active = False\<rparr>),
     m_lease = (\<lambda>_. \<lparr>l_session = 0, l_acquire = AwaitReady, l_release = NoRelease\<rparr>), m_nextConsumer = 0,
     m_disposed = False, m_log = []\<rparr>"

section \<open>Updates of the store\<close>

definition put_session :: "nat \<Rightarrow> session \<Rightarrow> manager \<Rightarrow> manager" where
  "put_session r s m = m\<lparr>m_session := (m_session m)(r := s)\<rparr>"

definition put_consumer :: "nat \<Rightarrow> consumer \<Rightarrow> manager \<Rightarrow> manager" where
  "put_consumer c k m = m\<lparr>m_consumer := (m_consumer m)(c := k)\<rparr>"

definition put_lease :: "nat \<Rightarrow> lease \<Rightarrow> manager \<Rightarrow> manager" where
  "put_lease c l m = m\<lparr>m_lease := (m_lease m)(c := l)\<rparr>"

definition issue :: "call list \<Rightarrow> manager \<Rightarrow> manager" where
  "issue calls m = m\<lparr>m_log := m_log m @ calls\<rparr>"

text \<open>\<open>map.delete(key)\<close>.\<close>

definition map_delete :: "'k \<Rightarrow> ('k \<times> 'v) list \<Rightarrow> ('k \<times> 'v) list" where
  "map_delete k m = filter (\<lambda>p. fst p \<noteq> k) m"

text \<open>\<open>if (this.sessions.get(session.key) === session) this.sessions.delete(session.key)\<close>.\<close>

definition unmap_session :: "nat \<Rightarrow> manager \<Rightarrow> manager" where
  "unmap_session r m =
     (if map_of (m_sessions m) (s_tab (m_session m r)) = Some r
      then m\<lparr>m_sessions := map_delete (s_tab (m_session m r)) (m_sessions m)\<rparr> else m)"

definition deactivateConsumers :: "nat \<Rightarrow> manager \<Rightarrow> manager" where
  "deactivateConsumers r m =
     (let s = m_session m r; gone = snd ` set (s_consumers s)
      in m\<lparr>m_consumer := (\<lambda>c. if c \<in> gone then deactivate (m_consumer m c) else m_consumer m c),
           m_session := (m_session m)(r := s\<lparr>s_consumers := [], s_childConsumerCount := 0\<rparr>)\<rparr>)"

definition notifyAndDeactivateConsumers :: "nat \<Rightarrow> jsstr \<Rightarrow> manager \<Rightarrow> manager" where
  "notifyAndDeactivateConsumers r reason m =
     issue (map (\<lambda>(_, c). OnDetach c reason)
           (filter (\<lambda>(_, c). c_onDetach (m_consumer m c)) (s_consumers (m_session m r))))
       (deactivateConsumers r m)"

text \<open>\<open>closeSession\<close> up to its \<open>await\<close>.\<close>

definition closeSession :: "nat \<Rightarrow> jsstr \<Rightarrow> bool \<Rightarrow> manager \<Rightarrow> manager" where
  "closeSession r reason notify m =
     (case s_state (m_session m r) of
        Attaching \<Rightarrow>
          (let m1 = put_session r ((m_session m r)\<lparr>s_closeRequested := reason\<rparr>) m
           in if notify then notifyAndDeactivateConsumers r reason m1 else m1)
      | Attached \<Rightarrow>
          (let m1 = unmap_session r (put_session r ((m_session m r)\<lparr>s_state := Detaching\<rparr>) m);
               m2 = (if notify then notifyAndDeactivateConsumers r reason m1 else deactivateConsumers r m1)
           in issue [DetachCall (s_tab (m_session m r))]
                (put_session r ((m_session m2 r)\<lparr>s_childSessions := [], s_frameContexts := []\<rparr>) m2))
      | _ \<Rightarrow> m)"

section \<open>Acquiring\<close>

definition aborted_error :: exn where
  "aborted_error = protocolError CANCELLED [Txt ''The CDP operation was cancelled''] True Undefined"

definition ensureAvailable :: "bool \<Rightarrow> bool \<Rightarrow> unit res" where
  "ensureAvailable available disposed = checks [
     throw_if disposed (fault CAPABILITY_UNAVAILABLE [Txt ''The CDP session manager is closed'']),
     throw_if (\<not> available) (fault CAPABILITY_UNAVAILABLE [Txt ''The browser debugger API is unavailable''])]"

text \<open>\<open>acquire\<close> up to its first \<open>await\<close>: it throws, or registers a new consumer with the session of its
  tab, which it creates if there is none. \<open>available\<close>: the browser offers the debugger API.\<close>

definition acquire_checks :: "cdp_config \<Rightarrow> bool \<Rightarrow> jsval \<Rightarrow> acquire_options \<Rightarrow> bool \<Rightarrow> manager \<Rightarrow> (int \<times> consumer) res" where
  "acquire_checks C available target options aborted m =
     bind_res (ensureAvailable available (m_disposed m)) (\<lambda>_.
     bind_res (normalizeDebuggee target) (\<lambda>tab.
     bind_res (createConsumer (cdp_platform C) (cdp_allowedDomains C) options) (\<lambda>consumer.
     bind_res (checks [
       throw_if (c_includeChildTargets consumer \<and> \<not> cdp_supportsFlatSessions C)
         (protocolError CAPABILITY_UNAVAILABLE [Txt ''Child CDP targets require Chrome 125 or newer''] False
           (obj [(''reason'', jstr ''flat_sessions_unavailable'')])),
       throw_if aborted aborted_error]) (\<lambda>_. Inr (tab, consumer)))))"

definition register_consumer :: "nat \<Rightarrow> consumer \<Rightarrow> manager \<Rightarrow> manager" where
  "register_consumer r consumer m =
     (let s = m_session m r; c = m_nextConsumer m
      in m\<lparr>m_consumer := (m_consumer m)(c := consumer),
           m_lease := (m_lease m)(c := \<lparr>l_session = r, l_acquire = AwaitReady, l_release = NoRelease\<rparr>),
           m_nextConsumer := Suc c,
           m_session := (m_session m)(r := s\<lparr>s_consumers := s_consumers s @ [(c_id consumer, c)],
             s_childConsumerCount := s_childConsumerCount s + (if c_includeChildTargets consumer then 1 else 0)\<rparr>)\<rparr>)"

definition add_session :: "int \<Rightarrow> manager \<Rightarrow> manager" where
  "add_session tab m =
     (let r = m_nextSession m
      in issue [AttachCall tab] (m\<lparr>m_session := (m_session m)(r := createSession tab), m_nextSession := Suc r,
           m_sessions := m_sessions m @ [(tab, r)]\<rparr>))"

definition acquire_begin ::
    "cdp_config \<Rightarrow> bool \<Rightarrow> jsval \<Rightarrow> acquire_options \<Rightarrow> bool \<Rightarrow> manager \<Rightarrow> nat res \<times> manager" where
  "acquire_begin C available target options aborted m =
     (case acquire_checks C available target options aborted m of
        Inl e \<Rightarrow> (Inl e, m)
      | Inr (tab, consumer) \<Rightarrow>
          (case map_of (m_sessions m) tab of
             None \<Rightarrow>
               if length (m_sessions m) \<ge> maxSessions (cdp_limits C) then
                 (Inl (protocolError BACKPRESSURE
                    [Txt ''The browser has reached the managed CDP session limit''] True Undefined), m)
               else (Inr (m_nextConsumer m), register_consumer (m_nextSession m) consumer (add_session tab m))
           | Some r \<Rightarrow>
               if c_id consumer \<in> set (map fst (s_consumers (m_session m r))) then
                 (Inl (fault INVALID_COMMAND [Txt (''CDP consumer '' @ [CHR 0x22]), Val (Str (c_id consumer)),
                    Txt ([CHR 0x22] @ '' already owns a lease for this target'')]), m)
               else if length (s_consumers (m_session m r)) \<ge> maxConsumersPerSession (cdp_limits C) then
                 (Inl (protocolError BACKPRESSURE [Txt ''The target has reached the CDP consumer limit''] True Undefined), m)
               else (Inr (m_nextConsumer m), register_consumer r consumer m)))"

section \<open>Attaching\<close>

text \<open>\<open>attachSession\<close> after \<open>attach\<close> has settled.\<close>

definition attach_settled :: "cdp_config \<Rightarrow> nat \<Rightarrow> unit res \<Rightarrow> manager \<Rightarrow> manager" where
  "attach_settled C r result m =
     (case result of
        Inr _ \<Rightarrow>
          (let s = (m_session m r)\<lparr>s_state := Attached\<rparr>; m1 = put_session r s m
           in if s_closeRequested s \<noteq> [] \<or> s_consumers s = [] \<or> m_disposed m then
                (let m2 = closeSession r (if s_closeRequested s \<noteq> [] then s_closeRequested s else lit ''unused_session'') False m1
                 in put_session r ((m_session m2 r)\<lparr>s_attach := AttachClosing\<rparr>) m2)
              else put_session r (s\<lparr>s_attach := AttachDone (Inr ())\<rparr>) m)
      | Inl e \<Rightarrow>
          (let m1 = unmap_session r m;
               m2 = deactivateConsumers r (put_session r ((m_session m1 r)\<lparr>s_state := Failed\<rparr>) m1)
           in put_session r ((m_session m2 r)\<lparr>s_attach :=
                AttachDone (Inl (normalizeDebuggerError (cdp_platform C) e ''attach''))\<rparr>) m2))"

text \<open>The end of \<open>closeSession\<close>, and of the \<open>attachSession\<close> that awaits it.\<close>

definition detach_settled :: "nat \<Rightarrow> manager \<Rightarrow> manager" where
  "detach_settled r m =
     (let s = m_session m r
      in put_session r (s\<lparr>s_state := Detached,
           s_attach := (if s_attach s = AttachClosing then AttachDone (Inr ()) else s_attach s)\<rparr>) m)"

section \<open>Releasing\<close>

text \<open>The end of \<open>releaseConsumer\<close>.\<close>

definition release_end :: "nat \<Rightarrow> manager \<Rightarrow> manager" where
  "release_end r m =
     (let s = m_session m r
      in if s_consumers s \<noteq> [] then m
         else if s_state s = Attaching then put_session r (s\<lparr>s_closeRequested := lit ''last_consumer_released''\<rparr>) m
         else closeSession r (lit ''last_consumer_released'') False m)"

text \<open>\<open>disableAutoAttach\<close> past its \<open>await\<close> of the auto-attach promise: it switches auto-attach off, or it
  has nothing to do. The result tells whether a command is awaited.\<close>

definition switch_off :: "nat \<Rightarrow> manager \<Rightarrow> bool \<times> manager" where
  "switch_off r m =
     (let s = m_session m r
      in if \<not> s_autoAttachEnabled s then (False, m)
         else (True, issue [AutoAttachCall (s_tab s) [] False]
                (put_session r (s\<lparr>s_autoAttachEnabled := False, s_childSessions := [],
                   s_frameContexts := removeChildFrameContexts (s_frameContexts s)\<rparr>) m)))"

definition set_release :: "nat \<Rightarrow> release_phase \<Rightarrow> manager \<Rightarrow> manager" where
  "set_release c ph m = put_lease c ((m_lease m c)\<lparr>l_release := ph\<rparr>) m"

definition set_acquire :: "nat \<Rightarrow> acquire_phase \<Rightarrow> manager \<Rightarrow> manager" where
  "set_acquire c ph m = put_lease c ((m_lease m c)\<lparr>l_acquire := ph\<rparr>) m"

text \<open>\<open>disableAutoAttach\<close> from its start. An asynchronous function that returns at once still returns a
  promise, so its caller goes on in a later step (\<open>AwaitDisable\<close>).\<close>

definition disableAutoAttach :: "nat \<Rightarrow> nat \<Rightarrow> manager \<Rightarrow> manager" where
  "disableAutoAttach r c m =
     (let s = m_session m r
      in if s_state s \<noteq> Attached then set_release c AwaitDisable m
         else if s_autoAttachPending s then set_release c AwaitAutoPromise m
         else set_release c AwaitDisable (snd (switch_off r m)))"

text \<open>\<open>releaseConsumer\<close> up to its first \<open>await\<close>.\<close>

definition releaseConsumer :: "nat \<Rightarrow> manager \<Rightarrow> manager" where
  "releaseConsumer c m =
     (let k = m_consumer m c; r = l_session (m_lease m c)
      in if \<not> c_active k then m
         else
           let m1 = put_consumer c (deactivate k) m; s = m_session m1 r
           in if map_of (s_consumers s) (c_id k) \<noteq> Some c then m1
              else
                let count = (if c_includeChildTargets k then s_childConsumerCount s - 1 else s_childConsumerCount s);
                    s' = s\<lparr>s_consumers := map_delete (c_id k) (s_consumers s), s_childConsumerCount := count\<rparr>;
                    m2 = put_session r s' m1
                in if c_includeChildTargets k \<and> count = 0 \<and> s_consumers s' \<noteq> [] then disableAutoAttach r c m2
                   else release_end r m2)"

text \<open>The continuations of \<open>releaseConsumer\<close>.\<close>

definition release_resume :: "nat \<Rightarrow> manager \<Rightarrow> manager" where
  "release_resume c m =
     (let r = l_session (m_lease m c)
      in case l_release (m_lease m c) of
           AutoPromiseDone True \<Rightarrow>
             (case switch_off r m of
                (True, m1) \<Rightarrow> set_release c AwaitDisable m1
              | (False, m1) \<Rightarrow> release_end r (set_release c NoRelease m1))
         | AutoPromiseDone False \<Rightarrow> release_end r (set_release c NoRelease m)
         | AwaitDisable \<Rightarrow> release_end r (set_release c NoRelease m)
         | _ \<Rightarrow> m)"

section \<open>The continuations of acquire\<close>

text \<open>The \<open>catch\<close> of \<open>acquire\<close>.\<close>

definition refuse :: "cdp_config \<Rightarrow> nat \<Rightarrow> exn \<Rightarrow> manager \<Rightarrow> manager" where
  "refuse C c e m =
     set_acquire c (Refused (normalizeDebuggerError (cdp_platform C) e ''attach'')) (releaseConsumer c m)"

definition ended_error :: exn where
  "ended_error = protocolError BROWSER_DISCONNECTED
     [Txt ''The CDP session ended while the consumer was attaching''] True Undefined"

text \<open>\<open>ensureAutoAttach\<close>: auto-attach is on, or its promise is awaited, or the command is sent.\<close>

definition ensureAutoAttach :: "nat \<Rightarrow> nat \<Rightarrow> manager \<Rightarrow> manager" where
  "ensureAutoAttach r c m =
     (let s = m_session m r
      in if s_autoAttachEnabled s \<or> s_state s \<noteq> Attached then set_acquire c (AutoAttachDone (Inr ())) m
         else if s_autoAttachPending s then set_acquire c AwaitAutoAttach m
         else set_acquire c AwaitAutoAttach
                (issue [AutoAttachCall (s_tab s) [] True] (put_session r (s\<lparr>s_autoAttachPending := True\<rparr>) m)))"

text \<open>After \<open>session.ready\<close>; \<open>aborted\<close> is the state of the caller's signal. \<open>ensureAutoAttach\<close> is an
  argument of \<open>waitWithSignal\<close> and is called before that looks at the signal.\<close>

definition acquire_ready :: "cdp_config \<Rightarrow> nat \<Rightarrow> unit res \<Rightarrow> bool \<Rightarrow> manager \<Rightarrow> manager" where
  "acquire_ready C c ready aborted m =
     (let r = l_session (m_lease m c); k = m_consumer m c
      in case ready of
           Inl e \<Rightarrow> refuse C c e m
         | Inr _ \<Rightarrow>
             if \<not> c_active k \<or> s_state (m_session m r) \<noteq> Attached then refuse C c ended_error m
             else if c_includeChildTargets k then
               (if aborted then refuse C c aborted_error (ensureAutoAttach r c m) else ensureAutoAttach r c m)
             else if aborted then refuse C c aborted_error m
             else set_acquire c Leased m)"

definition acquire_finish :: "cdp_config \<Rightarrow> nat \<Rightarrow> unit res \<Rightarrow> bool \<Rightarrow> manager \<Rightarrow> manager" where
  "acquire_finish C c result aborted m =
     (case result of
        Inl e \<Rightarrow> refuse C c e m
      | Inr _ \<Rightarrow> if aborted then refuse C c aborted_error m else set_acquire c Leased m)"

text \<open>The auto-attach promise of a session settles: \<open>then\<close>, \<open>finally\<close>, and all who await it.\<close>

definition auto_attach_settled :: "cdp_config \<Rightarrow> nat \<Rightarrow> unit res \<Rightarrow> manager \<Rightarrow> manager" where
  "auto_attach_settled C r result m =
     (let s = m_session m r;
          settled = (case result of Inr _ \<Rightarrow> Inr () | Inl e \<Rightarrow> Inl (normalizeDebuggerError (cdp_platform C) e ''command''));
          wake = (\<lambda>l. if l_session l \<noteq> r then l
             else l\<lparr>l_acquire := (if l_acquire l = AwaitAutoAttach then AutoAttachDone settled else l_acquire l),
                    l_release := (if l_release l = AwaitAutoPromise then AutoPromiseDone (returns settled) else l_release l)\<rparr>)
      in put_session r (s\<lparr>s_autoAttachEnabled := (s_autoAttachEnabled s \<or> returns settled), s_autoAttachPending := False\<rparr>)
           (m\<lparr>m_lease := (\<lambda>c. wake (m_lease m c))\<rparr>))"

section \<open>Commands and contexts of a lease\<close>

definition inactive_error :: exn where
  "inactive_error = protocolError BROWSER_DISCONNECTED [Txt ''The CDP lease is no longer active''] True Undefined"

text \<open>\<open>sendCommand\<close> up to the call: the checks, and the child session addressed (empty for the root).\<close>

definition sendCommand_checks ::
    "cdp_config \<Rightarrow> nat \<Rightarrow> jsval \<Rightarrow> jsval \<Rightarrow> jsval \<Rightarrow> bool \<Rightarrow> manager \<Rightarrow> jsstr res" where
  "sendCommand_checks C c method params sessionId aborted m =
     (let k = m_consumer m c; s = m_session m (l_session (m_lease m c))
      in bind_res (checks [
           throw_if (\<not> c_active k \<or> s_state s \<noteq> Attached) inactive_error,
           throw_if aborted aborted_error]) (\<lambda>_.
         bind_res (methodDomain method) (\<lambda>domain.
         bind_res (checks [
           throw_if (domain \<notin> set (c_domains k) \<or> str_of method \<notin> set (c_commands k))
             (fault CAPABILITY_UNAVAILABLE [Txt (''CDP method '' @ [CHR 0x22]), Val method,
               Txt ([CHR 0x22] @ '' is not allowlisted for this consumer'')]),
           validateCommandParams params,
           ensureBoundedJSON (cdp_platform C) params (maxCommandBytes (cdp_limits C)) ''CDP command parameters'',
           only_if (sessionId \<noteq> Undefined) (checks [
             throw_if (\<not> c_includeChildTargets k \<or> \<not> cdp_supportsFlatSessions C)
               (fault CAPABILITY_UNAVAILABLE [Txt ''This CDP consumer cannot address child targets'']),
             throw_if (\<not> is_string sessionId \<or> str_of sessionId \<notin> set (child_ids (s_childSessions s)))
               (fault STALE_TARGET [Txt ''The child CDP session is no longer available''])])]) (\<lambda>_.
         Inr (if sessionId = Undefined then [] else str_of sessionId)))))"

definition sendCommand_begin ::
    "cdp_config \<Rightarrow> nat \<Rightarrow> jsval \<Rightarrow> jsval \<Rightarrow> jsval \<Rightarrow> bool \<Rightarrow> manager \<Rightarrow> unit res \<times> manager" where
  "sendCommand_begin C c method params sessionId aborted m =
     (case sendCommand_checks C c method params sessionId aborted m of
        Inl e \<Rightarrow> (Inl e, m)
      | Inr child \<Rightarrow> (Inr (), issue [CommandCall (s_tab (m_session m (l_session (m_lease m c)))) child (str_of method) params] m))"

text \<open>The rest of \<open>sendCommand\<close>: what the browser answers, or \<open>CANCELLED\<close> if the signal fires first.\<close>

definition sendCommand_result :: "cdp_config \<Rightarrow> jsval res \<Rightarrow> jsval res" where
  "sendCommand_result C answer =
     (case bind_res answer (\<lambda>result. bind_res
         (ensureBoundedJSON (cdp_platform C) result (maxCommandResultBytes (cdp_limits C)) ''CDP command result'') (\<lambda>_.
         Inr (if nullish result then Obj [] else result))) of
        Inr v \<Rightarrow> Inr v
      | Inl e \<Rightarrow> Inl (normalizeDebuggerError (cdp_platform C) e ''command''))"

text \<open>\<open>frameContextsFor\<close>: the contexts of all frames, or of one, in the order of their ids (\<open>sort\<close> is
  stable); those of child sessions only for a consumer of child targets.\<close>

definition frameContextsFor :: "nat \<Rightarrow> jsstr option \<Rightarrow> manager \<Rightarrow> ((jsstr \<times> frame_context) list) res" where
  "frameContextsFor c frameId m =
     (let k = m_consumer m c; s = m_session m (l_session (m_lease m c)); frames = s_frameContexts s;
          entries = (case frameId of None \<Rightarrow> frames
             | Some f \<Rightarrow> (case map_of frames f of None \<Rightarrow> [] | Some cs \<Rightarrow> [(f, cs)]));
          visible = (\<lambda>context. fc_sessionId context = None \<or> c_includeChildTargets k)
      in if \<not> c_active k \<or> s_state s \<noteq> Attached then Inl inactive_error
         else Inr (sort_key (\<lambda>(f, context). fc_contextId context)
           (concat (map (\<lambda>(f, cs). map (\<lambda>(_, context). (f, context)) (filter (\<lambda>(_, context). visible context) cs)) entries))))"

section \<open>Events of the browser\<close>

text \<open>\<open>handleDetach\<close>; the reason is a string.\<close>

definition handleDetach :: "cdp_config \<Rightarrow> jsval \<Rightarrow> jsval \<Rightarrow> manager \<Rightarrow> manager" where
  "handleDetach C source reason m =
     (case Option.bind (debuggeeKey source) (map_of (m_sessions m)) of
        None \<Rightarrow> m
      | Some r \<Rightarrow>
          (let m1 = unmap_session r m;
               m2 = put_session r ((m_session m1 r)\<lparr>s_state := Detached\<rparr>) m1;
               m3 = notifyAndDeactivateConsumers r
                      (string_of (cdp_platform C) (js_or reason (jstr ''browser_detached''))) m2
           in put_session r ((m_session m3 r)\<lparr>s_childSessions := [], s_frameContexts := []\<rparr>) m3))"

text \<open>The session a source names: none for the root.\<close>

definition source_session :: "jsval \<Rightarrow> jsval" where
  "source_session source = (if truthy (getp source ''sessionId'') then getp source ''sessionId'' else Undefined)"

text \<open>The child sessions and frame contexts after an event, and the recursive auto-attach it causes.\<close>

definition track_targets :: "cdp_config \<Rightarrow> jsstr \<Rightarrow> jsval \<Rightarrow> jsval \<Rightarrow> session \<Rightarrow> call list \<times> session" where
  "track_targets C child method params s =
     (let sid = getp params ''sessionId''; info = getp params ''targetInfo'';
          text = (\<lambda>v. string_of (cdp_platform C) (js_or v (Str [])));
          (calls, s1) =
            (if method = jstr ''Target.attachedToTarget'' \<and> s_childConsumerCount s > 0 then
               (if is_string sid \<and> str_of sid \<noteq> [] \<and> getp info ''type'' = jstr ''iframe'' then
                  ([AutoAttachCall (s_tab s) (str_of sid) True],
                   s\<lparr>s_childSessions := child_set \<lparr>ch_sessionId = str_of sid, ch_parentSessionId = child,
                       ch_targetId = text (getp info ''targetId''), ch_type = text (getp info ''type'')\<rparr> (s_childSessions s)\<rparr>)
                else ([], s))
             else if method = jstr ''Target.detachedFromTarget'' \<and> is_string sid then
               (case removeChildSessionTree (str_of sid) (s_childSessions s) (s_frameContexts s) of (m', frames) \<Rightarrow>
                  ([], s\<lparr>s_childSessions := m', s_frameContexts := frames\<rparr>))
             else ([], s))
      in (calls, s1\<lparr>s_frameContexts := updateFrameContexts (cdp_platform C) child method params (s_frameContexts s1)\<rparr>))"

text \<open>Whether a consumer gets an event.\<close>

definition listens :: "jsstr \<Rightarrow> jsstr \<Rightarrow> jsval \<Rightarrow> consumer \<Rightarrow> bool" where
  "listens child domain method k \<longleftrightarrow> c_onEvent k \<and> domain \<in> set (c_domains k) \<and> str_of method \<in> set (c_events k)
     \<and> (child = [] \<or> c_includeChildTargets k)"

definition event_object :: "int \<Rightarrow> jsstr \<Rightarrow> jsval \<Rightarrow> jsval \<Rightarrow> jsval" where
  "event_object tab child method params =
     obj ([(''tabId'', jnum (of_int tab))] @ (if child = [] then [] else [(''sessionId'', Str child)])
          @ [(''method'', method), (''params'', params)])"

text \<open>\<open>enqueueEvent\<close> for each listener, in the order of the map.\<close>

definition enqueue_for :: "cdp_config \<Rightarrow> jsval \<Rightarrow> nat \<Rightarrow> manager \<Rightarrow> manager" where
  "enqueue_for C event c m =
     (case enqueueEvent (cdp_limits C) (cdp_platform C) event (m_consumer m c) of
        (None, k) \<Rightarrow> put_consumer c k m
      | (Some (e, dropped), k) \<Rightarrow> issue [OnEvent c e dropped] (put_consumer c k m))"

definition handleEvent :: "cdp_config \<Rightarrow> jsval \<Rightarrow> jsval \<Rightarrow> jsval \<Rightarrow> manager \<Rightarrow> manager" where
  "handleEvent C source method given m =
     (let params = (if given = Undefined then Obj [] else given) in case Option.bind (debuggeeKey source) (map_of (m_sessions m)) of
        None \<Rightarrow> m
      | Some r \<Rightarrow>
          (let s = m_session m r; from = source_session source
           in if s_state s \<noteq> Attached
                 \<or> (from \<noteq> Undefined \<and> \<not> (is_string from \<and> str_of from \<in> set (child_ids (s_childSessions s)))) then m
              else
                let child = str_of from; (calls, s') = track_targets C child method params s;
                    m1 = issue calls (put_session r s' m)
                in case methodDomain method of
                     Inl _ \<Rightarrow> m1
                   | Inr domain \<Rightarrow>
                       fold (enqueue_for C (event_object (s_tab s) child method params))
                         (filter (\<lambda>c. listens child domain method (m_consumer m c)) (map snd (s_consumers s'))) m1))"

text \<open>A callback of a consumer settles: the next turn of \<open>drainConsumer\<close>.\<close>

definition callback_settled :: "nat \<Rightarrow> manager \<Rightarrow> manager" where
  "callback_settled c m =
     (case drain_turn (m_consumer m c) of
        (None, k) \<Rightarrow> put_consumer c k m
      | (Some (e, dropped), k) \<Rightarrow> issue [OnEvent c e dropped] (put_consumer c k m))"

definition detachAll :: "jsstr \<Rightarrow> manager \<Rightarrow> manager" where
  "detachAll reason m = fold (\<lambda>r. closeSession r reason True) (map snd (m_sessions m)) m"

definition dispose :: "manager \<Rightarrow> manager" where
  "dispose m = (if m_disposed m then m else detachAll (lit ''manager_disposed'') (m\<lparr>m_disposed := True\<rparr>))"

section \<open>Listeners and statistics\<close>

text \<open>What the code looks at of \<open>chrome.debugger\<close>; \<open>api_id\<close> is the object's identity. The listeners are
  the manager's \<open>handleEvent\<close> and \<open>handleDetach\<close>; a call adds or removes both.\<close>

record debugger_api =
  api_id :: nat
  api_methods :: bool
  api_events :: bool
  api_addListener :: bool
  api_removeListener :: bool

datatype listener_call = AddListeners nat | RemoveListeners nat

record wiring =
  w_api :: "debugger_api option"
  w_installed :: bool
  w_calls :: "listener_call list"

definition initial_wiring :: wiring where
  "initial_wiring = \<lparr>w_api = None, w_installed = False, w_calls = []\<rparr>"

definition removeDebuggerListeners :: "wiring \<Rightarrow> wiring" where
  "removeDebuggerListeners w =
     (if \<not> w_installed w then w
      else w\<lparr>w_installed := False, w_calls := w_calls w @ (case w_api w of
             Some a \<Rightarrow> if api_events a \<and> api_removeListener a then [RemoveListeners (api_id a)] else [] | None \<Rightarrow> [])\<rparr>)"

definition installDebuggerListeners :: "debugger_api option \<Rightarrow> wiring \<Rightarrow> wiring" where
  "installDebuggerListeners current w =
     (let w1 = (if map_option api_id current \<noteq> map_option api_id (w_api w)
                then (removeDebuggerListeners w)\<lparr>w_api := current\<rparr> else w)
      in case w_api w1 of
           Some a \<Rightarrow> if \<not> w_installed w1 \<and> api_events a \<and> api_addListener a
                     then w1\<lparr>w_installed := True, w_calls := w_calls w1 @ [AddListeners (api_id a)]\<rparr> else w1
         | None \<Rightarrow> w1)"

text \<open>The \<open>available\<close> of \<open>ensureAvailable\<close>.\<close>

definition debugger_available :: "wiring \<Rightarrow> bool" where
  "debugger_available w = (case w_api w of Some a \<Rightarrow> api_methods a \<and> api_events a | None \<Rightarrow> False)"

record session_stats =
  st_tabId :: int
  st_state :: session_state
  st_consumerCount :: nat
  st_childSessionCount :: nat
  st_frameCount :: nat
  st_queuedEventCount :: nat
  st_queuedEventBytes :: int
  st_droppedEventCount :: nat

definition stats :: "cdp_config \<Rightarrow> manager \<Rightarrow> nat \<times> bool \<times> session_stats list" where
  "stats C m = (length (m_sessions m), cdp_supportsFlatSessions C,
     map (\<lambda>(_, r). let s = m_session m r; consumers = map (\<lambda>(_, c). m_consumer m c) (s_consumers s)
       in \<lparr>st_tabId = s_tab s, st_state = s_state s, st_consumerCount = length consumers,
           st_childSessionCount = length (s_childSessions s), st_frameCount = length (s_frameContexts s),
           st_queuedEventCount = sum_list (map (\<lambda>k. length (c_queue k)) consumers),
           st_queuedEventBytes = sum_list (map c_queueBytes consumers),
           st_droppedEventCount = sum_list (map c_totalDroppedEvents consumers)\<rparr>) (m_sessions m))"

text \<open>The listeners are on at most one object, the current one, and every removal answers an addition.\<close>

definition listeners_on :: "nat \<Rightarrow> listener_call list \<Rightarrow> int" where
  "listeners_on a calls = int (length (filter (\<lambda>c. c = AddListeners a) calls)) - int (length (filter (\<lambda>c. c = RemoveListeners a) calls))"

definition wiring_ok :: "wiring \<Rightarrow> bool" where
  "wiring_ok w \<longleftrightarrow> (\<forall>a. listeners_on a (w_calls w) = (if w_installed w \<and> map_option api_id (w_api w) = Some a then 1 else 0))
     \<and> (w_installed w \<longrightarrow> (\<exists>a. w_api w = Some a \<and> api_events a \<and> api_removeListener a))"

lemma listeners_on_simps [simp]:
  "listeners_on a (xs @ ys) = listeners_on a xs + listeners_on a ys" "listeners_on a [] = 0"
  "listeners_on a [AddListeners b] = (if a = b then 1 else 0)" "listeners_on a [RemoveListeners b] = (if a = b then - 1 else 0)"
  by (auto simp: listeners_on_def)

lemma wiring_remove: "wiring_ok w \<Longrightarrow> wiring_ok (removeDebuggerListeners w) \<and> \<not> w_installed (removeDebuggerListeners w)"
  by (auto simp: wiring_ok_def removeDebuggerListeners_def split: option.splits)

lemma wiring_install:
  assumes "wiring_ok w" and "\<And>a. current = Some a \<Longrightarrow> api_removeListener a" and "\<And>a. w_api w = Some a \<Longrightarrow> api_removeListener a"
  shows "wiring_ok (installDebuggerListeners current w)"
proof -
  let ?w = "if map_option api_id current \<noteq> map_option api_id (w_api w) then (removeDebuggerListeners w)\<lparr>w_api := current\<rparr> else w"
  have "wiring_ok ?w" using wiring_remove [OF assms(1)] assms(1) by (auto simp: wiring_ok_def)
  moreover have "\<And>a. w_api ?w = Some a \<Longrightarrow> api_removeListener a"
    using assms(2,3) by (auto split: if_splits)
  moreover have "installDebuggerListeners current w = (case w_api ?w of
      Some a \<Rightarrow> if \<not> w_installed ?w \<and> api_events a \<and> api_addListener a
        then ?w\<lparr>w_installed := True, w_calls := w_calls ?w @ [AddListeners (api_id a)]\<rparr> else ?w
    | None \<Rightarrow> ?w)"
    by (simp add: installDebuggerListeners_def Let_def)
  ultimately show ?thesis
    by (cases "w_api ?w") (auto simp: wiring_ok_def)
qed

section \<open>Steps\<close>

datatype event =
    Acquire bool jsval acquire_options bool
  | AttachSettled nat "unit res"
  | DetachSettled nat
  | AcquireReady nat bool
  | AcquireAborted nat
  | AutoAttachSettled nat "unit res"
  | AcquireFinish nat bool
  | Release nat
  | ReleaseResume nat
  | SendCommand nat jsval jsval jsval bool
  | BrowserEvent jsval jsval jsval
  | BrowserDetach jsval jsval
  | CallbackDone nat
  | DetachAll jsstr
  | Dispose

text \<open>When an event can happen, and what it does. The reasons the code gives to \<open>detachAll\<close> are not empty.\<close>

inductive cdp_step :: "cdp_config \<Rightarrow> manager \<Rightarrow> event \<Rightarrow> manager \<Rightarrow> bool" for C where
  acquire: "cdp_step C m (Acquire available target options aborted)
    (snd (acquire_begin C available target options aborted m))"
| attach_settled: "r < m_nextSession m \<Longrightarrow> s_attach (m_session m r) = AttachCalled \<Longrightarrow>
    cdp_step C m (AttachSettled r result) (attach_settled C r result m)"
| detach_settled: "r < m_nextSession m \<Longrightarrow> s_state (m_session m r) = Detaching \<Longrightarrow>
    cdp_step C m (DetachSettled r) (detach_settled r m)"
| acquire_ready: "c < m_nextConsumer m \<Longrightarrow> l_acquire (m_lease m c) = AwaitReady \<Longrightarrow>
    s_attach (m_session m (l_session (m_lease m c))) = AttachDone ready \<Longrightarrow>
    cdp_step C m (AcquireReady c aborted) (acquire_ready C c ready aborted m)"
| acquire_aborted: "c < m_nextConsumer m \<Longrightarrow> l_acquire (m_lease m c) \<in> {AwaitReady, AwaitAutoAttach} \<Longrightarrow>
    cdp_step C m (AcquireAborted c) (refuse C c aborted_error m)"
| auto_attach_settled: "r < m_nextSession m \<Longrightarrow> s_autoAttachPending (m_session m r) \<Longrightarrow>
    cdp_step C m (AutoAttachSettled r result) (auto_attach_settled C r result m)"
| acquire_finish: "c < m_nextConsumer m \<Longrightarrow> l_acquire (m_lease m c) = AutoAttachDone result \<Longrightarrow>
    cdp_step C m (AcquireFinish c aborted) (acquire_finish C c result aborted m)"
| release: "c < m_nextConsumer m \<Longrightarrow> l_acquire (m_lease m c) = Leased \<Longrightarrow>
    cdp_step C m (Release c) (releaseConsumer c m)"
| release_resume: "c < m_nextConsumer m \<Longrightarrow> l_release (m_lease m c) \<notin> {NoRelease, AwaitAutoPromise} \<Longrightarrow>
    cdp_step C m (ReleaseResume c) (release_resume c m)"
| send_command: "c < m_nextConsumer m \<Longrightarrow> l_acquire (m_lease m c) = Leased \<Longrightarrow>
    cdp_step C m (SendCommand c method params sessionId aborted)
      (snd (sendCommand_begin C c method params sessionId aborted m))"
| browser_event: "cdp_step C m (BrowserEvent source method params) (handleEvent C source method params m)"
| browser_detach: "cdp_step C m (BrowserDetach source reason) (handleDetach C source reason m)"
| callback: "c < m_nextConsumer m \<Longrightarrow> c_draining (m_consumer m c) \<Longrightarrow>
    cdp_step C m (CallbackDone c) (callback_settled c m)"
| detach_all: "reason \<noteq> [] \<Longrightarrow> cdp_step C m (DetachAll reason) (detachAll reason m)"
| dispose: "cdp_step C m Dispose (dispose m)"

inductive_cases cdp_stepE: "cdp_step C m e m'"

inductive cdp_reachable :: "cdp_config \<Rightarrow> manager \<Rightarrow> bool" for C where
  init: "cdp_reachable C initial_manager"
| step: "cdp_reachable C m \<Longrightarrow> cdp_step C m e m' \<Longrightarrow> cdp_reachable C m'"

end
