(* ===== verification/Cdp_Invariants.thy ===== *)
theory Cdp_Invariants
  imports Cdp_Sessions
begin

text \<open>
  The invariant of the CDP session manager: the map, the sessions and the consumers of a reachable
  state are sound. Each step touches the consumers of one session only (\<open>local_to\<close>) or
  changes no state that the invariant reads (\<open>same_manager\<close>); a session ends in one way (\<open>ended_inv\<close>).
\<close>

section \<open>The invariant\<close>

definition live :: "session_state \<Rightarrow> bool" where
  "live st \<longleftrightarrow> st = Attaching \<or> st = Attached"

text \<open>The map: one live session for a tab, within the limit.\<close>

definition map_inv :: "cdp_config \<Rightarrow> manager \<Rightarrow> bool" where
  "map_inv C m \<longleftrightarrow> distinct (map fst (m_sessions m)) \<and> length (m_sessions m) \<le> maxSessions (cdp_limits C)
     \<and> (\<forall>(k, r)\<in>set (m_sessions m). r < m_nextSession m \<and> s_tab (m_session m r) = k)"

text \<open>A session: it is in the map exactly while it is live; its consumers are active and its own, within
  the limit, and counted; an attached session has a consumer, and one that is still attaching for
  nobody is marked to be closed.\<close>

definition session_inv0 :: "cdp_config \<Rightarrow> manager \<Rightarrow> nat \<Rightarrow> bool" where
  "session_inv0 C m r \<longleftrightarrow> (let s = m_session m r in
     ((s_tab s, r) \<in> set (m_sessions m) \<longleftrightarrow> live (s_state s))
     \<and> (\<not> live (s_state s) \<longrightarrow> s_consumers s = [])
     \<and> distinct (map fst (s_consumers s)) \<and> length (s_consumers s) \<le> maxConsumersPerSession (cdp_limits C)
     \<and> (\<forall>(i, c)\<in>set (s_consumers s). c < m_nextConsumer m \<and> l_session (m_lease m c) = r
          \<and> c_id (m_consumer m c) = i \<and> c_active (m_consumer m c))
     \<and> s_childConsumerCount s = length (filter (\<lambda>(_, c). c_includeChildTargets (m_consumer m c)) (s_consumers s))
     \<and> (s_state s = Attached \<longrightarrow> s_attach s = AttachDone (Inr ()))
     \<and> (s_state s = Attaching \<longrightarrow> s_attach s = AttachCalled)
     \<and> frames_ok (s_frameContexts s))"

definition occupied :: "session \<Rightarrow> bool" where
  "occupied s \<longleftrightarrow> (s_state s = Attached \<longrightarrow> s_consumers s \<noteq> [])
     \<and> (s_state s = Attaching \<longrightarrow> s_consumers s = [] \<longrightarrow> s_closeRequested s \<noteq> [])"

definition session_inv :: "cdp_config \<Rightarrow> manager \<Rightarrow> nat \<Rightarrow> bool" where
  "session_inv C m r \<longleftrightarrow> session_inv0 C m r \<and> occupied (m_session m r)"

text \<open>A consumer: active only while its session has it and its acquisition has not failed; past the
  attaching only while that is attached; its queue and its grants are in order.\<close>

definition refused :: "acquire_phase \<Rightarrow> bool" where
  "refused ph = (case ph of Refused _ \<Rightarrow> True | _ \<Rightarrow> False)"

lemma refused_simps [simp]: "\<not> refused AwaitReady" "\<not> refused AwaitAutoAttach" "\<not> refused (AutoAttachDone r)"
  "\<not> refused Leased" "refused (Refused e)"
  by (simp_all add: refused_def)

definition consumer_inv :: "cdp_config \<Rightarrow> manager \<Rightarrow> nat \<Rightarrow> bool" where
  "consumer_inv C m c \<longleftrightarrow> (let k = m_consumer m c; l = m_lease m c; s = m_session m (l_session l) in
     l_session l < m_nextSession m
     \<and> (c_active k \<longrightarrow> (c_id k, c) \<in> set (s_consumers s) \<and> (l_acquire l = AwaitReady \<or> s_state s = Attached)
          \<and> \<not> refused (l_acquire l))
     \<and> queue_ok (cdp_limits C) k \<and> grants_ok (cdp_allowedDomains C) k)"

definition manager_inv :: "cdp_config \<Rightarrow> manager \<Rightarrow> bool" where
  "manager_inv C m \<longleftrightarrow> map_inv C m \<and> (\<forall>r<m_nextSession m. session_inv C m r)
     \<and> (\<forall>c<m_nextConsumer m. consumer_inv C m c)"

text \<open>A step that touches only one session, and only the consumers of that session.\<close>

definition local_to :: "nat \<Rightarrow> manager \<Rightarrow> manager \<Rightarrow> bool" where
  "local_to r m m' \<longleftrightarrow> m_nextSession m' = m_nextSession m \<and> m_nextConsumer m' = m_nextConsumer m
     \<and> (\<forall>r'. r' \<noteq> r \<longrightarrow> m_session m' r' = m_session m r')
     \<and> (\<forall>c. l_session (m_lease m' c) = l_session (m_lease m c))
     \<and> (\<forall>c. l_session (m_lease m c) \<noteq> r \<longrightarrow> m_consumer m' c = m_consumer m c \<and> m_lease m' c = m_lease m c)
     \<and> (\<forall>k r'. r' \<noteq> r \<longrightarrow> ((k, r') \<in> set (m_sessions m') \<longleftrightarrow> (k, r') \<in> set (m_sessions m)))"

lemma local_refl: "local_to r m m"
  by (simp add: local_to_def)

lemma local_trans: "local_to r m m' \<Longrightarrow> local_to r m' m'' \<Longrightarrow> local_to r m m''"
  by (simp add: local_to_def)

lemma session_inv_other:
  assumes "local_to r m m'" and "r' \<noteq> r" and "session_inv C m r'"
  shows "session_inv C m' r'"
proof -
  have "\<forall>(i, c)\<in>set (s_consumers (m_session m r')). m_consumer m' c = m_consumer m c"
    using assms by (fastforce simp: local_to_def session_inv_def session_inv0_def Let_def)
  then have "filter (\<lambda>(_, c). c_includeChildTargets (m_consumer m' c)) (s_consumers (m_session m r'))
      = filter (\<lambda>(_, c). c_includeChildTargets (m_consumer m c)) (s_consumers (m_session m r'))"
    by (intro filter_cong) auto
  moreover have "\<forall>(i, c)\<in>set (s_consumers (m_session m r')). c < m_nextConsumer m' \<and> l_session (m_lease m' c) = r'
          \<and> c_id (m_consumer m' c) = i \<and> c_active (m_consumer m' c)"
    using assms by (fastforce simp: local_to_def session_inv_def session_inv0_def Let_def)
  ultimately show ?thesis
    using assms by (simp add: local_to_def session_inv_def session_inv0_def Let_def)
qed

lemma consumer_inv_other:
  assumes "local_to r m m'" and "l_session (m_lease m c) \<noteq> r" and "consumer_inv C m c"
  shows "consumer_inv C m' c"
  using assms by (simp add: local_to_def consumer_inv_def Let_def)

lemma manager_inv_local:
  assumes "manager_inv C m" and l: "local_to r m m'" and "r < m_nextSession m \<Longrightarrow> map_inv C m'"
    and "r < m_nextSession m \<Longrightarrow> session_inv C m' r"
    and "\<And>c. c < m_nextConsumer m \<Longrightarrow> l_session (m_lease m c) = r \<Longrightarrow> consumer_inv C m' c"
    and "r < m_nextSession m"
  shows "manager_inv C m'"
  unfolding manager_inv_def
proof (intro conjI allI impI)
  show "map_inv C m'" using assms(3,6) .
  show "session_inv C m' r'" if "r' < m_nextSession m'" for r'
    using that assms session_inv_other [OF l] by (cases "r' = r") (auto simp: manager_inv_def local_to_def)
  show "consumer_inv C m' c" if "c < m_nextConsumer m'" for c
    using that assms consumer_inv_other [OF l] by (cases "l_session (m_lease m c) = r") (auto simp: manager_inv_def local_to_def)
qed

lemma session_invI: "manager_inv C m \<Longrightarrow> r < m_nextSession m \<Longrightarrow> session_inv C m r"
  and consumer_invI: "manager_inv C m \<Longrightarrow> c < m_nextConsumer m \<Longrightarrow> consumer_inv C m c"
  and map_invI: "manager_inv C m \<Longrightarrow> map_inv C m"
  by (simp_all add: manager_inv_def)

text \<open>The invariant but for one session, which may be without consumers.\<close>

definition manager_inv0 :: "cdp_config \<Rightarrow> nat \<Rightarrow> manager \<Rightarrow> bool" where
  "manager_inv0 C r m \<longleftrightarrow> map_inv C m \<and> r < m_nextSession m \<and> session_inv0 C m r
     \<and> (\<forall>r'<m_nextSession m. r' \<noteq> r \<longrightarrow> session_inv C m r') \<and> (\<forall>c<m_nextConsumer m. consumer_inv C m c)"

lemma manager_inv0I: "manager_inv C m \<Longrightarrow> r < m_nextSession m \<Longrightarrow> manager_inv0 C r m"
  by (simp add: manager_inv0_def manager_inv_def session_inv_def)

lemma manager_inv0_occupied: "manager_inv0 C r m \<Longrightarrow> occupied (m_session m r) \<Longrightarrow> manager_inv C m"
  unfolding manager_inv0_def manager_inv_def session_inv_def by blast

lemma manager_inv0_local:
  assumes "manager_inv0 C r m" and l: "local_to r m m'" and "map_inv C m'" and "session_inv0 C m' r"
    and "\<And>c. c < m_nextConsumer m \<Longrightarrow> l_session (m_lease m c) = r \<Longrightarrow> consumer_inv C m' c"
  shows "manager_inv0 C r m'"
  unfolding manager_inv0_def
proof (intro conjI allI impI)
  show "r < m_nextSession m'" using assms(1) l by (simp add: manager_inv0_def local_to_def)
  show "session_inv C m' r'" if "r' < m_nextSession m'" "r' \<noteq> r" for r'
    using that assms(1) l session_inv_other [OF l] by (auto simp: manager_inv0_def local_to_def)
  show "consumer_inv C m' c" if "c < m_nextConsumer m'" for c
    using that assms(1,5) l consumer_inv_other [OF l]
    by (cases "l_session (m_lease m c) = r") (auto simp: manager_inv0_def local_to_def)
qed (use assms in auto)

text \<open>A consumer after the deactivation of all the consumers of its session.\<close>

lemma deactivated_consumer:
  assumes k: "consumer_inv C m c" and l: "l_session (m_lease m c) = r" and "m_lease m' = m_lease m"
    and "m_nextSession m' = m_nextSession m"
    and con: "m_consumer m' c = (if c \<in> snd ` set (s_consumers (m_session m r)) then deactivate (m_consumer m c) else m_consumer m c)"
  shows "consumer_inv C m' c"
proof (cases "c \<in> snd ` set (s_consumers (m_session m r))")
  case True
  have "\<not> c_active (deactivate (m_consumer m c))"
    "grants_ok (cdp_allowedDomains C) (deactivate (m_consumer m c)) = grants_ok (cdp_allowedDomains C) (m_consumer m c)"
    by (simp_all add: deactivate_def grants_ok_def)
  then show ?thesis
    using assms True by (simp add: consumer_inv_def Let_def queue_ok_deactivate)
next
  case False
  have "\<not> c_active (m_consumer m c)"
  proof
    assume "c_active (m_consumer m c)"
    then have "(c_id (m_consumer m c), c) \<in> set (s_consumers (m_session m r))"
      using k by (simp add: consumer_inv_def Let_def l)
    with False show False by (metis image_eqI snd_conv)
  qed
  then show ?thesis
    using assms False by (simp add: consumer_inv_def Let_def)
qed

text \<open>A session ends: it leaves the map and its consumers are deactivated.\<close>

lemma ended_inv:
  assumes inv: "map_inv C m" "\<And>c. c < m_nextConsumer m \<Longrightarrow> consumer_inv C m c" "r < m_nextSession m"
    and own: "\<And>i c. (i, c) \<in> set (s_consumers (m_session m r)) \<Longrightarrow> l_session (m_lease m c) = r"
    and m': "m_session m' = (m_session m)(r := s')" "m_nextSession m' = m_nextSession m"
      "m_nextConsumer m' = m_nextConsumer m" "m_lease m' = m_lease m"
      "m_consumer m' = (\<lambda>c. if c \<in> snd ` set (s_consumers (m_session m r)) then deactivate (m_consumer m c) else m_consumer m c)"
      "m_sessions m' = (if map_of (m_sessions m) (s_tab (m_session m r)) = Some r
         then map_delete (s_tab (m_session m r)) (m_sessions m) else m_sessions m)"
    and s': "s_consumers s' = []" "s_childConsumerCount s' = 0" "\<not> live (s_state s')" "frames_ok (s_frameContexts s')"
      "s_tab s' = s_tab (m_session m r)"
  shows "local_to r m m' \<and> map_inv C m' \<and> session_inv0 C m' r \<and> occupied (m_session m' r)
    \<and> (\<forall>c<m_nextConsumer m. l_session (m_lease m c) = r \<longrightarrow> consumer_inv C m' c)"
proof (intro conjI allI impI)
  let ?t = "s_tab (m_session m r)"
  have sub: "set (m_sessions m') \<subseteq> set (m_sessions m)"
    by (auto simp: m' map_delete_def)
  have gone: "(?t, r) \<notin> set (m_sessions m')"
    using inv(1) by (auto simp: m' map_delete_def map_inv_def dest: map_of_is_SomeI)
  have kept: "(k, r') \<in> set (m_sessions m')" if "(k, r') \<in> set (m_sessions m)" "r' \<noteq> r" for k r'
    using that inv(1) by (auto simp: m' map_delete_def map_inv_def dest: map_of_SomeD eq_key_imp_eq_value)
  show "map_inv C m'"
    using inv(1) sub unfolding map_inv_def
    by (auto simp: m' s'(5) map_delete_def distinct_map_filter intro: le_trans [OF length_filter_le])
  show "local_to r m m'"
    using sub kept own by (auto simp: local_to_def m')
  show "session_inv0 C m' r" "occupied (m_session m' r)"
    using gone s' by (auto simp: session_inv0_def occupied_def m' live_def Let_def)
  show "consumer_inv C m' c" if "c < m_nextConsumer m" "l_session (m_lease m c) = r" for c
    by (rule deactivated_consumer [OF inv(2) [OF that(1)] that(2)]) (simp_all add: m')
qed

text \<open>\<open>closeSession\<close> of an attached session, which may be without consumers or out of the map.\<close>

lemma put_session_simps [simp]:
  "m_sessions (put_session r s m) = m_sessions m" "m_session (put_session r s m) = (m_session m)(r := s)"
  "m_nextSession (put_session r s m) = m_nextSession m" "m_consumer (put_session r s m) = m_consumer m"
  "m_lease (put_session r s m) = m_lease m" "m_nextConsumer (put_session r s m) = m_nextConsumer m"
  "m_disposed (put_session r s m) = m_disposed m"
  by (simp_all add: put_session_def)

lemma put_consumer_simps [simp]:
  "m_sessions (put_consumer c k m) = m_sessions m" "m_session (put_consumer c k m) = m_session m"
  "m_nextSession (put_consumer c k m) = m_nextSession m" "m_consumer (put_consumer c k m) = (m_consumer m)(c := k)"
  "m_lease (put_consumer c k m) = m_lease m" "m_nextConsumer (put_consumer c k m) = m_nextConsumer m"
  "m_disposed (put_consumer c k m) = m_disposed m"
  by (simp_all add: put_consumer_def)

lemma put_lease_simps [simp]:
  "m_sessions (put_lease c l m) = m_sessions m" "m_session (put_lease c l m) = m_session m"
  "m_nextSession (put_lease c l m) = m_nextSession m" "m_consumer (put_lease c l m) = m_consumer m"
  "m_lease (put_lease c l m) = (m_lease m)(c := l)" "m_nextConsumer (put_lease c l m) = m_nextConsumer m"
  "m_disposed (put_lease c l m) = m_disposed m"
  by (simp_all add: put_lease_def)

lemma issue_simps [simp]:
  "m_sessions (issue calls m) = m_sessions m" "m_session (issue calls m) = m_session m"
  "m_nextSession (issue calls m) = m_nextSession m" "m_consumer (issue calls m) = m_consumer m"
  "m_lease (issue calls m) = m_lease m" "m_nextConsumer (issue calls m) = m_nextConsumer m"
  "m_disposed (issue calls m) = m_disposed m"
  by (simp_all add: issue_def)

lemma unmap_simps [simp]:
  "m_sessions (unmap_session r m) = (if map_of (m_sessions m) (s_tab (m_session m r)) = Some r
     then map_delete (s_tab (m_session m r)) (m_sessions m) else m_sessions m)"
  "m_session (unmap_session r m) = m_session m" "m_nextSession (unmap_session r m) = m_nextSession m"
  "m_consumer (unmap_session r m) = m_consumer m" "m_lease (unmap_session r m) = m_lease m"
  "m_nextConsumer (unmap_session r m) = m_nextConsumer m" "m_disposed (unmap_session r m) = m_disposed m"
  by (simp_all add: unmap_session_def)

definition deactivated :: "(jsstr \<times> nat) list \<Rightarrow> (nat \<Rightarrow> consumer) \<Rightarrow> nat \<Rightarrow> consumer" where
  "deactivated cs f = (\<lambda>c. if c \<in> snd ` set cs then deactivate (f c) else f c)"

lemma deactivate_simps [simp]:
  "m_sessions (deactivateConsumers r m) = m_sessions m"
  "m_session (deactivateConsumers r m) = (m_session m)(r := (m_session m r)\<lparr>s_consumers := [], s_childConsumerCount := 0\<rparr>)"
  "m_nextSession (deactivateConsumers r m) = m_nextSession m"
  "m_consumer (deactivateConsumers r m) = deactivated (s_consumers (m_session m r)) (m_consumer m)"
  "m_lease (deactivateConsumers r m) = m_lease m" "m_nextConsumer (deactivateConsumers r m) = m_nextConsumer m"
  "m_disposed (deactivateConsumers r m) = m_disposed m"
  by (simp_all add: deactivateConsumers_def deactivated_def Let_def)

lemma notify_simps [simp]:
  "m_sessions (notifyAndDeactivateConsumers r x m) = m_sessions m"
  "m_session (notifyAndDeactivateConsumers r x m) = (m_session m)(r := (m_session m r)\<lparr>s_consumers := [], s_childConsumerCount := 0\<rparr>)"
  "m_nextSession (notifyAndDeactivateConsumers r x m) = m_nextSession m"
  "m_consumer (notifyAndDeactivateConsumers r x m) = deactivated (s_consumers (m_session m r)) (m_consumer m)"
  "m_lease (notifyAndDeactivateConsumers r x m) = m_lease m"
  "m_nextConsumer (notifyAndDeactivateConsumers r x m) = m_nextConsumer m"
  "m_disposed (notifyAndDeactivateConsumers r x m) = m_disposed m"
  by (simp_all add: notifyAndDeactivateConsumers_def)

lemma set_lease_simps [simp]:
  "m_sessions (set_acquire c ph m) = m_sessions m" "m_session (set_acquire c ph m) = m_session m"
  "m_nextSession (set_acquire c ph m) = m_nextSession m" "m_consumer (set_acquire c ph m) = m_consumer m"
  "m_lease (set_acquire c ph m) = (m_lease m)(c := (m_lease m c)\<lparr>l_acquire := ph\<rparr>)"
  "m_nextConsumer (set_acquire c ph m) = m_nextConsumer m"
  "m_sessions (set_release c rp m) = m_sessions m" "m_session (set_release c rp m) = m_session m"
  "m_nextSession (set_release c rp m) = m_nextSession m" "m_consumer (set_release c rp m) = m_consumer m"
  "m_lease (set_release c rp m) = (m_lease m)(c := (m_lease m c)\<lparr>l_release := rp\<rparr>)"
  "m_nextConsumer (set_release c rp m) = m_nextConsumer m"
  "m_disposed (set_acquire c ph m) = m_disposed m" "m_disposed (set_release c rp m) = m_disposed m"
  by (simp_all add: set_acquire_def set_release_def)

lemmas ended_inv' = ended_inv [folded deactivated_def]

lemma frames_ok_Nil [simp]: "frames_ok []"
  by (simp add: frames_ok_def)

lemma close_attached:
  assumes "map_inv C m" "\<And>c. c < m_nextConsumer m \<Longrightarrow> consumer_inv C m c" "r < m_nextSession m"
    and "\<And>i c. (i, c) \<in> set (s_consumers (m_session m r)) \<Longrightarrow> l_session (m_lease m c) = r"
    and "s_state (m_session m r) = Attached"
  shows "local_to r m (closeSession r x n m) \<and> map_inv C (closeSession r x n m) \<and> session_inv0 C (closeSession r x n m) r
    \<and> occupied (m_session (closeSession r x n m) r)
    \<and> (\<forall>c<m_nextConsumer m. l_session (m_lease m c) = r \<longrightarrow> consumer_inv C (closeSession r x n m) c)"
  by (rule ended_inv' [where s' = "(m_session m r)\<lparr>s_state := Detaching, s_consumers := [], s_childConsumerCount := 0,
      s_childSessions := [], s_frameContexts := []\<rparr>"])
    (use assms in \<open>simp_all add: closeSession_def Let_def live_def\<close>)

lemma manager_inv0_own: "manager_inv0 C r m \<Longrightarrow> (i, c) \<in> set (s_consumers (m_session m r)) \<Longrightarrow> l_session (m_lease m c) = r"
  by (auto simp: manager_inv0_def session_inv0_def Let_def)

lemma closeSession_attached_inv:
  assumes "manager_inv0 C r m" and "s_state (m_session m r) = Attached"
  shows "manager_inv C (closeSession r x n m)"
proof -
  have p: "local_to r m (closeSession r x n m) \<and> map_inv C (closeSession r x n m) \<and> session_inv0 C (closeSession r x n m) r
    \<and> occupied (m_session (closeSession r x n m) r)
    \<and> (\<forall>c<m_nextConsumer m. l_session (m_lease m c) = r \<longrightarrow> consumer_inv C (closeSession r x n m) c)"
    using assms manager_inv0_own [OF assms(1)] by (intro close_attached) (auto simp: manager_inv0_def)
  then have "manager_inv0 C r (closeSession r x n m)"
    using manager_inv0_local [OF assms(1)] by blast
  then show ?thesis
    using p manager_inv0_occupied by blast
qed

text \<open>Updates of a session that keep its identity, state and consumers.\<close>

definition same_core :: "session \<Rightarrow> session \<Rightarrow> bool" where
  "same_core s s' \<longleftrightarrow> s_tab s' = s_tab s \<and> s_state s' = s_state s \<and> s_attach s' = s_attach s
     \<and> s_consumers s' = s_consumers s \<and> s_childConsumerCount s' = s_childConsumerCount s
     \<and> (s_closeRequested s' = s_closeRequested s \<or> s_closeRequested s' \<noteq> [])
     \<and> (frames_ok (s_frameContexts s) \<longrightarrow> frames_ok (s_frameContexts s'))"

definition same_consumer :: "cdp_config \<Rightarrow> consumer \<Rightarrow> consumer \<Rightarrow> bool" where
  "same_consumer C k k' \<longleftrightarrow> c_id k' = c_id k \<and> c_active k' = c_active k
     \<and> c_includeChildTargets k' = c_includeChildTargets k
     \<and> (queue_ok (cdp_limits C) k \<longrightarrow> queue_ok (cdp_limits C) k')
     \<and> (grants_ok (cdp_allowedDomains C) k \<longrightarrow> grants_ok (cdp_allowedDomains C) k')"

definition same_manager :: "cdp_config \<Rightarrow> manager \<Rightarrow> manager \<Rightarrow> bool" where
  "same_manager C m m' \<longleftrightarrow> m_sessions m' = m_sessions m \<and> m_nextSession m' = m_nextSession m
     \<and> m_nextConsumer m' = m_nextConsumer m \<and> m_disposed m' = m_disposed m
     \<and> (\<forall>r. same_core (m_session m r) (m_session m' r)) \<and> (\<forall>c. same_consumer C (m_consumer m c) (m_consumer m' c))
     \<and> (\<forall>c. l_session (m_lease m' c) = l_session (m_lease m c)
          \<and> (l_acquire (m_lease m c) = AwaitReady \<longrightarrow> l_acquire (m_lease m' c) = AwaitReady
               \<or> \<not> c_active (m_consumer m c) \<or> s_state (m_session m (l_session (m_lease m c))) = Attached)
          \<and> (refused (l_acquire (m_lease m' c)) \<longrightarrow> refused (l_acquire (m_lease m c)) \<or> \<not> c_active (m_consumer m c)))"

lemma same_session_inv:
  assumes "same_manager C m m'"
  shows "session_inv0 C m r \<Longrightarrow> session_inv0 C m' r"
    and "occupied (m_session m r) \<Longrightarrow> occupied (m_session m' r)"
    and "map_inv C m \<Longrightarrow> map_inv C m'" and "consumer_inv C m c \<Longrightarrow> consumer_inv C m' c"
proof -
  have s: "same_core (m_session m r) (m_session m' r)" for r
    using assms by (simp add: same_manager_def)
  have k: "same_consumer C (m_consumer m c) (m_consumer m' c)" for c
    using assms by (simp add: same_manager_def)
  have "filter (\<lambda>(_, c). c_includeChildTargets (m_consumer m' c)) cs
      = filter (\<lambda>(_, c). c_includeChildTargets (m_consumer m c)) cs" for cs :: "(jsstr \<times> nat) list"
    by (rule filter_cong) (use k in \<open>auto simp: same_consumer_def\<close>)
  then show "session_inv0 C m r \<Longrightarrow> session_inv0 C m' r"
    using assms s [of r] k by (simp add: session_inv0_def Let_def same_core_def same_consumer_def same_manager_def)
  show "occupied (m_session m r) \<Longrightarrow> occupied (m_session m' r)"
    using s [of r] by (auto simp: occupied_def same_core_def)
  show "map_inv C m \<Longrightarrow> map_inv C m'"
    using assms s by (simp add: map_inv_def same_manager_def same_core_def)
  show "consumer_inv C m c \<Longrightarrow> consumer_inv C m' c"
    using assms s k [of c] by (auto simp: consumer_inv_def Let_def same_manager_def same_core_def same_consumer_def)
qed

lemma same_manager_inv: "same_manager C m m' \<Longrightarrow> manager_inv C m \<Longrightarrow> manager_inv C m'"
  unfolding manager_inv_def session_inv_def
  using same_session_inv [of C m m'] by (auto simp: same_manager_def)

lemma same_manager_inv0: "same_manager C m m' \<Longrightarrow> manager_inv0 C r m \<Longrightarrow> manager_inv0 C r m'"
  unfolding manager_inv0_def session_inv_def
  using same_session_inv [of C m m'] by (auto simp: same_manager_def)

lemma same_core_refl [simp]: "same_core s s" and same_consumer_refl [simp]: "same_consumer C k k"
  by (simp_all add: same_core_def same_consumer_def)

lemma same_manager_refl: "same_manager C m m"
  by (simp add: same_manager_def)

lemma same_manager_put_session:
  "same_core (m_session m r) s' \<Longrightarrow> same_manager C m (put_session r s' m)"
  by (simp add: same_manager_def)

lemma same_manager_put_consumer:
  "same_consumer C (m_consumer m c) k \<Longrightarrow> same_manager C m (put_consumer c k m)"
  by (simp add: same_manager_def)

lemma same_manager_issue: "same_manager C m (issue calls m)"
  by (simp add: same_manager_def)

lemma same_manager_release: "same_manager C m (set_release c ph m)"
  by (simp add: same_manager_def)

lemma same_manager_acquire:
  "\<not> c_active (m_consumer m c) \<or> s_state (m_session m (l_session (m_lease m c))) = Attached \<or> l_acquire (m_lease m c) \<noteq> AwaitReady \<Longrightarrow>
   \<not> c_active (m_consumer m c) \<or> \<not> refused ph \<Longrightarrow>
   same_manager C m (set_acquire c ph m)"
  by (auto simp: same_manager_def)

text \<open>The end of a release makes a session fit again.\<close>

lemma closeSession_inv:
  assumes "manager_inv0 C r m" and "x \<noteq> []"
    and "s_state (m_session m r) = Attaching \<Longrightarrow> \<not> n"
  shows "manager_inv C (closeSession r x n m)"
proof (cases "s_state (m_session m r)")
  case Attaching
  let ?s = "(m_session m r)\<lparr>s_closeRequested := x\<rparr>"
  have "same_manager C m (put_session r ?s m)"
    using assms(2) by (intro same_manager_put_session) (simp add: same_core_def)
  then have "manager_inv0 C r (put_session r ?s m)"
    using assms(1) by (rule same_manager_inv0)
  moreover have "occupied (m_session (put_session r ?s m) r)"
    using Attaching assms(2) by (simp add: occupied_def)
  ultimately show ?thesis
    using assms(3) Attaching by (simp add: closeSession_def Let_def manager_inv0_occupied)
next
  case Attached
  then show ?thesis by (rule closeSession_attached_inv [OF assms(1)])
qed (use manager_inv0_occupied [OF assms(1)] in \<open>simp_all add: closeSession_def occupied_def\<close>)

lemma release_end_inv:
  assumes "manager_inv0 C r m"
  shows "manager_inv C (release_end r m)"
proof (cases "s_consumers (m_session m r) = []")
  case False
  then show ?thesis
    using assms manager_inv0_occupied by (simp add: release_end_def occupied_def)
next
  case True
  have "release_end r m = closeSession r (lit ''last_consumer_released'') False m"
    using True by (simp add: release_end_def closeSession_def Let_def)
  then show ?thesis using closeSession_inv [OF assms] by simp
qed

text \<open>\<open>closeSession\<close> with notification, of any session of a sound manager.\<close>

lemma closeSession_notify_inv:
  assumes "manager_inv C m" and "r < m_nextSession m" and "x \<noteq> []"
  shows "manager_inv C (closeSession r x True m)"
proof (cases "s_state (m_session m r) = Attaching")
  case False
  then show ?thesis using closeSession_inv [OF manager_inv0I [OF assms(1,2)] assms(3)] by simp
next
  case True
  let ?m = "closeSession r x True m" and ?s = "m_session m r"
  have inv: "session_inv C m r" using assms session_invI by blast
  then have own: "l_session (m_lease m c) = r" if "(i, c) \<in> set (s_consumers ?s)" for i c
    using that by (auto simp: session_inv_def session_inv0_def Let_def)
  have eq: "m_sessions ?m = m_sessions m" "m_session ?m = (m_session m)(r := ?s\<lparr>s_closeRequested := x, s_consumers := [], s_childConsumerCount := 0\<rparr>)"
    "m_nextSession ?m = m_nextSession m" "m_nextConsumer ?m = m_nextConsumer m" "m_lease ?m = m_lease m"
    "m_consumer ?m = deactivated (s_consumers ?s) (m_consumer m)"
    using True by (simp_all add: closeSession_def Let_def)
  show ?thesis
  proof (rule manager_inv_local [OF assms(1) _ _ _ _ assms(2)])
    show "local_to r m ?m"
      using own by (auto simp: local_to_def eq deactivated_def)
    show "map_inv C ?m" using map_invI [OF assms(1)] by (auto simp: map_inv_def eq)
    show "session_inv C ?m r"
      using inv True assms(3) by (simp add: session_inv_def session_inv0_def occupied_def Let_def eq live_def)
    show "consumer_inv C ?m c" if "c < m_nextConsumer m" "l_session (m_lease m c) = r" for c
      by (rule deactivated_consumer [OF consumer_invI [OF assms(1) that(1)] that(2)]) (simp_all add: eq deactivated_def)
  qed
qed

section \<open>Every step keeps the invariant\<close>

lemma ended_manager_inv:
  assumes "manager_inv C m" and "r < m_nextSession m" and "local_to r m m' \<and> map_inv C m' \<and> session_inv0 C m' r
    \<and> occupied (m_session m' r) \<and> (\<forall>c<m_nextConsumer m. l_session (m_lease m c) = r \<longrightarrow> consumer_inv C m' c)"
  shows "manager_inv C m'"
  by (rule manager_inv_local [OF assms(1) _ _ _ _ assms(2)]) (use assms(3) in \<open>auto simp: session_inv_def\<close>)

lemma own_consumers: "manager_inv C m \<Longrightarrow> r < m_nextSession m \<Longrightarrow> (i, c) \<in> set (s_consumers (m_session m r)) \<Longrightarrow>
    l_session (m_lease m c) = r"
  using session_invI [of C m r] by (auto simp: session_inv_def session_inv0_def Let_def)

lemma attach_failed_inv:
  assumes "manager_inv C m" and "r < m_nextSession m"
  shows "manager_inv C (attach_settled C r (Inl e) m)"
  by (rule ended_manager_inv [OF assms], rule ended_inv' [where s' = "(m_session m r)\<lparr>s_state := Failed, s_consumers := [],
        s_childConsumerCount := 0, s_attach := AttachDone (Inl (normalizeDebuggerError (cdp_platform C) e ''attach''))\<rparr>"])
    (use assms own_consumers [OF assms] session_invI [OF assms] in
      \<open>simp_all add: attach_settled_def Let_def live_def manager_inv_def session_inv_def session_inv0_def\<close>)

lemma handleDetach_inv:
  assumes "manager_inv C m"
  shows "manager_inv C (handleDetach C source reason m)"
proof (cases "Option.bind (debuggeeKey source) (map_of (m_sessions m))")
  case None
  with assms show ?thesis by (simp add: handleDetach_def)
next
  case (Some r)
  then have r: "r < m_nextSession m"
    using map_invI [OF assms] by (auto simp: map_inv_def bind_eq_Some_conv dest!: map_of_SomeD)
  show ?thesis
    by (rule ended_manager_inv [OF assms r], rule ended_inv' [where s' = "(m_session m r)\<lparr>s_state := Detached, s_consumers := [],
          s_childConsumerCount := 0, s_childSessions := [], s_frameContexts := []\<rparr>"])
      (use assms r Some own_consumers [OF assms r] in \<open>simp_all add: handleDetach_def Let_def live_def manager_inv_def\<close>)
qed

lemma attached_consumer_inv:
  assumes "consumer_inv C m c"
  shows "consumer_inv C (put_session r ((m_session m r)\<lparr>s_state := Attached\<rparr>) m) c"
  using assms by (auto simp: consumer_inv_def Let_def)

lemma attach_succeeded_inv:
  assumes inv: "manager_inv C m" and r: "r < m_nextSession m" and called: "s_attach (m_session m r) = AttachCalled"
  shows "manager_inv C (attach_settled C r (Inr u) m)"
proof -
  let ?s = "m_session m r"
  let ?m1 = "put_session r (?s\<lparr>s_state := Attached\<rparr>) m"
  have s: "session_inv C m r" by (rule session_invI [OF inv r])
  show ?thesis
  proof (cases "s_closeRequested ?s \<noteq> [] \<or> s_consumers ?s = [] \<or> m_disposed m")
    case False
    then have st: "s_state ?s = Attaching"
      using s called by (cases "s_state ?s") (auto simp: session_inv_def session_inv0_def Let_def live_def)
    have eq: "attach_settled C r (Inr u) m = put_session r (?s\<lparr>s_state := Attached, s_attach := AttachDone (Inr ())\<rparr>) m"
      using False by (simp add: attach_settled_def Let_def)
    show ?thesis
      unfolding eq
    proof (rule manager_inv_local [OF inv _ _ _ _ r])
      show "local_to r m (put_session r (?s\<lparr>s_state := Attached, s_attach := AttachDone (Inr ())\<rparr>) m)"
        by (simp add: local_to_def)
      show "map_inv C (put_session r (?s\<lparr>s_state := Attached, s_attach := AttachDone (Inr ())\<rparr>) m)"
        using map_invI [OF inv] by (auto simp: map_inv_def)
      show "session_inv C (put_session r (?s\<lparr>s_state := Attached, s_attach := AttachDone (Inr ())\<rparr>) m) r"
        using s False st by (simp add: session_inv_def session_inv0_def occupied_def Let_def live_def)
      show "consumer_inv C (put_session r (?s\<lparr>s_state := Attached, s_attach := AttachDone (Inr ())\<rparr>) m) c"
        if "c < m_nextConsumer m" for c
        using consumer_invI [OF inv that] by (auto simp: consumer_inv_def Let_def)
    qed
  next
    case True
    let ?x = "if s_closeRequested ?s \<noteq> [] then s_closeRequested ?s else lit ''unused_session''"
    let ?m' = "attach_settled C r (Inr u) m"
    have p: "local_to r ?m1 ?m' \<and> map_inv C ?m' \<and> session_inv0 C ?m' r
        \<and> occupied (m_session ?m' r) \<and> (\<forall>c<m_nextConsumer ?m1. l_session (m_lease ?m1 c) = r \<longrightarrow> consumer_inv C ?m' c)"
    proof (rule ended_inv' [where s' = "?s\<lparr>s_state := Detaching, s_consumers := [], s_childConsumerCount := 0,
          s_childSessions := [], s_frameContexts := [], s_attach := AttachClosing\<rparr>"])
      show "map_inv C ?m1" using map_invI [OF inv] by (auto simp: map_inv_def)
      show "consumer_inv C ?m1 c" if "c < m_nextConsumer ?m1" for c
        using attached_consumer_inv consumer_invI [OF inv] that by simp
      show "l_session (m_lease ?m1 c) = r" if "(i, c) \<in> set (s_consumers (m_session ?m1 r))" for i c
        using that own_consumers [OF inv r] by simp
    qed (use True r in \<open>simp_all add: attach_settled_def closeSession_def Let_def live_def\<close>)
    have "local_to r m ?m1" by (simp add: local_to_def)
    then have "local_to r m ?m'" using p local_trans by blast
    then show ?thesis using p by (intro ended_manager_inv [OF inv r]) simp
  qed
qed

lemma detach_settled_inv:
  assumes inv: "manager_inv C m" and r: "r < m_nextSession m" and st: "s_state (m_session m r) = Detaching"
  shows "manager_inv C (detach_settled r m)"
proof (rule manager_inv_local [OF inv _ _ _ _ r])
  show "local_to r m (detach_settled r m)" by (simp add: local_to_def detach_settled_def Let_def)
  show "map_inv C (detach_settled r m)"
    using map_invI [OF inv] by (auto simp: map_inv_def detach_settled_def Let_def)
  show "session_inv C (detach_settled r m) r"
    using session_invI [OF inv r] st
    by (simp add: session_inv_def session_inv0_def occupied_def Let_def live_def detach_settled_def)
  show "consumer_inv C (detach_settled r m) c" if "c < m_nextConsumer m" for c
    using consumer_invI [OF inv that] st session_invI [OF inv r]
    by (auto simp: consumer_inv_def Let_def detach_settled_def session_inv_def session_inv0_def live_def)
qed

subsection \<open>Releases\<close>

lemma map_delete_simps: "set (map_delete k m) = {p \<in> set m. fst p \<noteq> k}"
  by (auto simp: map_delete_def)

lemma delete_one_filter:
  assumes "distinct (map fst cs)" and "(i, c) \<in> set cs"
  shows "length (filter (\<lambda>(_, c). P c) cs) = length (filter (\<lambda>(_, c). P c) (map_delete i cs)) + (if P c then 1 else 0)"
  using assms
proof (induction cs)
  case (Cons p cs)
  obtain j d where p: "p = (j, d)" by force
  show ?case
  proof (cases "j = i")
    case True
    then have "map_delete i cs = cs"
      using Cons.prems by (auto simp: map_delete_def p filter_id_conv)
    moreover have "d = c"
      using Cons.prems True by (auto simp: p) (metis image_eqI fst_conv)
    ultimately show ?thesis using True by (simp add: map_delete_def p)
  next
    case False
    then show ?thesis using Cons by (auto simp: map_delete_def p)
  qed
qed simp

lemma active_in_session:
  assumes "manager_inv C m" and "c < m_nextConsumer m" and "c_active (m_consumer m c)"
  shows "l_session (m_lease m c) < m_nextSession m"
    and "(c_id (m_consumer m c), c) \<in> set (s_consumers (m_session m (l_session (m_lease m c))))"
    and "map_of (s_consumers (m_session m (l_session (m_lease m c)))) (c_id (m_consumer m c)) = Some c"
proof -
  show l: "l_session (m_lease m c) < m_nextSession m"
    and i: "(c_id (m_consumer m c), c) \<in> set (s_consumers (m_session m (l_session (m_lease m c))))"
    using consumer_invI [OF assms(1,2)] assms(3) by (simp_all add: consumer_inv_def Let_def)
  show "map_of (s_consumers (m_session m (l_session (m_lease m c)))) (c_id (m_consumer m c)) = Some c"
    using session_invI [OF assms(1) l] i by (simp add: session_inv_def session_inv0_def Let_def)
qed

text \<open>The store after a consumer has been taken out of its session.\<close>

definition removed :: "nat \<Rightarrow> manager \<Rightarrow> manager" where
  "removed c m =
     (let k = m_consumer m c; r = l_session (m_lease m c); s = m_session m r
      in put_session r (s\<lparr>s_consumers := map_delete (c_id k) (s_consumers s),
           s_childConsumerCount := (if c_includeChildTargets k then s_childConsumerCount s - 1 else s_childConsumerCount s)\<rparr>)
           (put_consumer c (deactivate k) m))"

lemma deactivate_core [simp]: "c_id (deactivate k) = c_id k" "\<not> c_active (deactivate k)"
  "c_includeChildTargets (deactivate k) = c_includeChildTargets k" "grants_ok A (deactivate k) = grants_ok A k"
  by (simp_all add: deactivate_def grants_ok_def)

lemma session_inv0_shrink:
  assumes "session_inv0 C m r" and "m_session m' r = (m_session m r)\<lparr>s_consumers := cs, s_childConsumerCount := n\<rparr>"
    and "m_sessions m' = m_sessions m" and "distinct (map fst cs)" and "length cs \<le> maxConsumersPerSession (cdp_limits C)"
    and "\<forall>(j, d)\<in>set cs. d < m_nextConsumer m' \<and> l_session (m_lease m' d) = r \<and> c_id (m_consumer m' d) = j
      \<and> c_active (m_consumer m' d)"
    and "n = length (filter (\<lambda>(_, d). c_includeChildTargets (m_consumer m' d)) cs)"
    and "\<not> live (s_state (m_session m r)) \<Longrightarrow> cs = []"
  shows "session_inv0 C m' r"
  using assms by (simp add: session_inv0_def Let_def)

lemma removed_inv0:
  assumes inv: "manager_inv C m" and c: "c < m_nextConsumer m" "c_active (m_consumer m c)"
  shows "manager_inv0 C (l_session (m_lease m c)) (removed c m)"
proof -
  let ?r = "l_session (m_lease m c)" and ?k = "m_consumer m c"
  let ?s = "m_session m ?r"
  note here = active_in_session [OF inv c]
  have s: "session_inv C m ?r" by (rule session_invI [OF inv here(1)])
  then have dist: "distinct (map fst (s_consumers ?s))" by (simp add: session_inv_def session_inv0_def Let_def)
  have other: "d \<noteq> c" if "(j, d) \<in> set (map_delete (c_id ?k) (s_consumers ?s))" for j d
    using that s by (auto simp: map_delete_simps session_inv_def session_inv0_def Let_def)
  show ?thesis
  proof (rule manager_inv0_local [OF manager_inv0I [OF inv here(1)]])
    show "local_to ?r m (removed c m)" by (auto simp: local_to_def removed_def Let_def)
    show "map_inv C (removed c m)" using map_invI [OF inv] by (auto simp: map_inv_def removed_def Let_def)
    have "filter (\<lambda>(_, d). c_includeChildTargets (m_consumer (removed c m) d)) (map_delete (c_id ?k) (s_consumers ?s))
        = filter (\<lambda>(_, d). c_includeChildTargets (m_consumer m d)) (map_delete (c_id ?k) (s_consumers ?s))"
      by (rule filter_cong) (use other in \<open>auto simp: removed_def Let_def\<close>)
    then have count: "s_childConsumerCount (m_session (removed c m) ?r)
        = length (filter (\<lambda>(_, d). c_includeChildTargets (m_consumer (removed c m) d)) (map_delete (c_id ?k) (s_consumers ?s)))"
      using s delete_one_filter [OF dist here(2), of "\<lambda>d. c_includeChildTargets (m_consumer m d)"]
      by (simp add: removed_def Let_def session_inv_def session_inv0_def)
    have members: "\<forall>(j, d)\<in>set (map_delete (c_id ?k) (s_consumers ?s)). d < m_nextConsumer (removed c m)
        \<and> l_session (m_lease (removed c m) d) = ?r \<and> c_id (m_consumer (removed c m) d) = j
        \<and> c_active (m_consumer (removed c m) d)"
      using s other by (auto simp: removed_def Let_def map_delete_simps session_inv_def session_inv0_def)
    have short: "length (map_delete (c_id ?k) (s_consumers ?s)) \<le> maxConsumersPerSession (cdp_limits C)"
      using s by (auto simp: map_delete_def session_inv_def session_inv0_def Let_def intro: le_trans [OF length_filter_le])
    have dist': "distinct (map fst (map_delete (c_id ?k) (s_consumers ?s)))"
      using dist by (simp add: map_delete_def distinct_map_filter)
    have eq: "m_session (removed c m) ?r = ?s\<lparr>s_consumers := map_delete (c_id ?k) (s_consumers ?s),
        s_childConsumerCount := s_childConsumerCount (m_session (removed c m) ?r)\<rparr>"
      and map_eq: "m_sessions (removed c m) = m_sessions m"
      by (simp_all add: removed_def Let_def)
    have empty: "map_delete (c_id ?k) (s_consumers ?s) = []" if "\<not> live (s_state ?s)"
      using that s by (simp add: map_delete_def session_inv_def session_inv0_def Let_def)
    have s0: "session_inv0 C m ?r" using s by (simp add: session_inv_def)
    show "session_inv0 C (removed c m) ?r"
      by (rule session_inv0_shrink [OF s0 eq map_eq dist' short members count empty])
    show "consumer_inv C (removed c m) d" if d: "d < m_nextConsumer m" "l_session (m_lease m d) = ?r" for d
    proof (cases "d = c")
      case True
      with consumer_invI [OF inv c(1)] show ?thesis
        by (simp add: consumer_inv_def removed_def Let_def queue_ok_deactivate)
    next
      case False
      have "c_id (m_consumer m d) \<noteq> c_id ?k" if "(c_id (m_consumer m d), d) \<in> set (s_consumers ?s)"
        using that here(2) dist False eq_key_imp_eq_value by metis
      with consumer_invI [OF inv d(1)] False d(2) show ?thesis
        by (auto simp: consumer_inv_def removed_def Let_def map_delete_simps)
    qed
  qed
qed

lemma switch_off_same: "same_manager C m (snd (switch_off r m))"
proof -
  have "frames_ok f \<longrightarrow> frames_ok (removeChildFrameContexts f)" for f
    by (simp add: removeChildFrameContexts_def frames_ok_delete)
  then show ?thesis
    by (auto simp: switch_off_def Let_def same_manager_def same_core_def)
qed

lemma disableAutoAttach_inv:
  assumes "manager_inv0 C r m"
  shows "manager_inv0 C r (disableAutoAttach r c m)" and "s_consumers (m_session (disableAutoAttach r c m) r) = s_consumers (m_session m r)"
proof -
  show "manager_inv0 C r (disableAutoAttach r c m)"
    using same_manager_inv0 [OF same_manager_release] same_manager_inv0 [OF switch_off_same] assms
    by (auto simp: disableAutoAttach_def Let_def)
  show "s_consumers (m_session (disableAutoAttach r c m) r) = s_consumers (m_session m r)"
    by (simp add: disableAutoAttach_def switch_off_def Let_def)
qed

lemma releaseConsumer_inv:
  assumes inv: "manager_inv C m" and c: "c < m_nextConsumer m"
  shows "manager_inv C (releaseConsumer c m)"
proof (cases "c_active (m_consumer m c)")
  case False
  with inv show ?thesis by (simp add: releaseConsumer_def Let_def)
next
  case True
  let ?r = "l_session (m_lease m c)"
  note i0 = removed_inv0 [OF inv c True]
  have eq: "releaseConsumer c m =
      (if c_includeChildTargets (m_consumer m c) \<and> s_childConsumerCount (m_session (removed c m) ?r) = 0
          \<and> s_consumers (m_session (removed c m) ?r) \<noteq> []
       then disableAutoAttach ?r c (removed c m) else release_end ?r (removed c m))"
    using True active_in_session(3) [OF inv c True] by (simp add: releaseConsumer_def removed_def Let_def)
  have "manager_inv C (disableAutoAttach ?r c (removed c m))" if "s_consumers (m_session (removed c m) ?r) \<noteq> []"
    using disableAutoAttach_inv [OF i0, of c] that manager_inv0_occupied by (simp add: occupied_def)
  with release_end_inv [OF i0] show ?thesis unfolding eq by auto
qed

lemma release_resume_inv:
  assumes inv: "manager_inv C m" and c: "c < m_nextConsumer m"
  shows "manager_inv C (release_resume c m)"
proof -
  let ?r = "l_session (m_lease m c)"
  have r: "?r < m_nextSession m" using consumer_invI [OF inv c] by (simp add: consumer_inv_def Let_def)
  have sw: "manager_inv C (snd (switch_off ?r m))" by (rule same_manager_inv [OF switch_off_same inv])
  have set: "manager_inv C (set_release c ph m')" if "manager_inv C m'" for ph m'
    by (rule same_manager_inv [OF same_manager_release that])
  have fin: "manager_inv C (release_end ?r m')" if "manager_inv C m'" "m_nextSession m' = m_nextSession m" for m'
    using release_end_inv manager_inv0I that r by simp
  have "m_nextSession (snd (switch_off ?r m)) = m_nextSession m" by (simp add: switch_off_def Let_def)
  with set [OF sw] fin [OF set [OF sw]] fin [OF set [OF inv]] inv show ?thesis
    by (auto simp: release_resume_def Let_def split: release_phase.split bool.split prod.split)
qed

subsection \<open>Acquiring\<close>

lemma acquire_checks_sound:
  assumes "acquire_checks C available target options aborted m = Inr (tab, k)"
  shows "\<not> m_disposed m \<and> available \<and> 0 \<le> tab \<and> c_active k \<and> queue_ok (cdp_limits C) k
    \<and> grants_ok (cdp_allowedDomains C) k \<and> \<not> aborted \<and> (c_includeChildTargets k \<longrightarrow> cdp_supportsFlatSessions C)"
proof -
  have "createConsumer (cdp_platform C) (cdp_allowedDomains C) options = Inr k" "normalizeDebuggee target = Inr tab"
    "\<not> aborted" "c_includeChildTargets k \<longrightarrow> cdp_supportsFlatSessions C" "\<not> m_disposed m" "available"
    using assms by (auto simp: acquire_checks_def bind_res_Inr ensureAvailable_def checks_Cons_ok throw_if_ok simp flip: returns_unit)
  moreover from this(2) have "0 \<le> tab"
    by (auto simp: normalizeDebuggee_def integer_of_def is_integer_iff split: if_splits)
  ultimately show ?thesis
    using createConsumer_sound by (fastforce simp: queue_ok_def)
qed

lemma register_simps:
  "m_sessions (register_consumer r k m) = m_sessions m"
  "m_nextSession (register_consumer r k m) = m_nextSession m"
  "m_nextConsumer (register_consumer r k m) = Suc (m_nextConsumer m)"
  "m_consumer (register_consumer r k m) = (m_consumer m)(m_nextConsumer m := k)"
  "m_lease (register_consumer r k m) = (m_lease m)(m_nextConsumer m := \<lparr>l_session = r, l_acquire = AwaitReady, l_release = NoRelease\<rparr>)"
  "m_session (register_consumer r k m) = (m_session m)(r := (m_session m r)\<lparr>
     s_consumers := s_consumers (m_session m r) @ [(c_id k, m_nextConsumer m)],
     s_childConsumerCount := s_childConsumerCount (m_session m r) + (if c_includeChildTargets k then 1 else 0)\<rparr>)"
  by (simp_all add: register_consumer_def Let_def)

text \<open>Registering with a live session; the others need not be looked at.\<close>

lemma register_inv:
  assumes others: "map_inv C m" "\<And>q. q < m_nextSession m \<Longrightarrow> q \<noteq> r \<Longrightarrow> session_inv C m q"
      "\<And>c. c < m_nextConsumer m \<Longrightarrow> consumer_inv C m c"
    and r: "r < m_nextSession m" "session_inv0 C m r" "live (s_state (m_session m r))"
      "length (s_consumers (m_session m r)) < maxConsumersPerSession (cdp_limits C)"
      "c_id k \<notin> set (map fst (s_consumers (m_session m r)))"
    and k: "c_active k" "queue_ok (cdp_limits C) k" "grants_ok (cdp_allowedDomains C) k"
  shows "manager_inv C (register_consumer r k m)"
proof -
  let ?m = "register_consumer r k m"
  have old: "m_consumer ?m c = m_consumer m c \<and> m_lease ?m c = m_lease m c" if "c < m_nextConsumer m" for c
    using that by (simp add: register_simps)
  have below: "c < m_nextConsumer m" if "q < m_nextSession m" "(i, c) \<in> set (s_consumers (m_session m q))" for q i c
    using that others(2) [of q] r(2) by (cases "q = r") (auto simp: session_inv_def session_inv0_def Let_def)
  have filt: "filter (\<lambda>(_, c). c_includeChildTargets (m_consumer ?m c)) (s_consumers (m_session m q))
      = filter (\<lambda>(_, c). c_includeChildTargets (m_consumer m c)) (s_consumers (m_session m q))" if "q < m_nextSession m" for q
    by (rule filter_cong) (use old below that in auto)
  show ?thesis
    unfolding manager_inv_def
  proof (intro conjI allI impI)
    show "map_inv C ?m" using others(1) by (auto simp: map_inv_def register_simps)
    show "session_inv C ?m q" if q: "q < m_nextSession ?m" for q
    proof (cases "q = r")
      case False
      have q': "q < m_nextSession m" using q by (simp add: register_simps)
      have "\<forall>(i, c)\<in>set (s_consumers (m_session m q)). c < m_nextConsumer m \<and> l_session (m_lease ?m c) = q
          \<and> c_id (m_consumer ?m c) = i \<and> c_active (m_consumer ?m c)"
        using others(2) [OF q' False] old by (auto simp: session_inv_def session_inv0_def Let_def)
      then show ?thesis
        using others(2) [OF q' False] False filt [OF q']
        unfolding session_inv_def session_inv0_def Let_def
        by (auto simp: register_simps(1-3,6))
    next
      case True
      have "\<forall>(i, c)\<in>set (s_consumers (m_session m r)). c < m_nextConsumer m \<and> l_session (m_lease ?m c) = r
          \<and> c_id (m_consumer ?m c) = i \<and> c_active (m_consumer ?m c)"
        using r(2) old by (auto simp: session_inv0_def Let_def)
      moreover have "m_consumer ?m (m_nextConsumer m) = k" "l_session (m_lease ?m (m_nextConsumer m)) = r"
        by (simp_all add: register_simps)
      ultimately show ?thesis
        using r k filt [OF r(1)] unfolding True session_inv_def session_inv0_def Let_def
        by (auto simp: register_simps(1-3,6) occupied_def)
    qed
    show "consumer_inv C ?m c" if c: "c < m_nextConsumer ?m" for c
    proof (cases "c = m_nextConsumer m")
      case True
      then show ?thesis using r(1) k by (simp add: consumer_inv_def Let_def register_simps)
    next
      case False
      then have "c < m_nextConsumer m" using c by (simp add: register_simps)
      from others(3) [OF this] old [OF this] show ?thesis
        by (auto simp: consumer_inv_def Let_def register_simps(1,2,3,6))
    qed
  qed
qed

lemma add_session_simps:
  "m_sessions (add_session tab m) = m_sessions m @ [(tab, m_nextSession m)]"
  "m_session (add_session tab m) = (m_session m)(m_nextSession m := createSession tab)"
  "m_nextSession (add_session tab m) = Suc (m_nextSession m)" "m_consumer (add_session tab m) = m_consumer m"
  "m_lease (add_session tab m) = m_lease m" "m_nextConsumer (add_session tab m) = m_nextConsumer m"
  by (simp_all add: add_session_def Let_def)

lemma add_session_inv:
  assumes inv: "manager_inv C m" and new: "map_of (m_sessions m) tab = None"
    and room: "length (m_sessions m) < maxSessions (cdp_limits C)"
  shows "map_inv C (add_session tab m)"
    and "\<And>q. q < m_nextSession (add_session tab m) \<Longrightarrow> q \<noteq> m_nextSession m \<Longrightarrow> session_inv C (add_session tab m) q"
    and "\<And>c. c < m_nextConsumer (add_session tab m) \<Longrightarrow> consumer_inv C (add_session tab m) c"
    and "session_inv0 C (add_session tab m) (m_nextSession m)"
proof -
  have map: "distinct (map fst (m_sessions m))" "\<And>k r. (k, r) \<in> set (m_sessions m) \<Longrightarrow> r < m_nextSession m \<and> s_tab (m_session m r) = k"
    using map_invI [OF inv] by (auto simp: map_inv_def)
  have "tab \<notin> fst ` set (m_sessions m)" using new by (simp add: map_of_eq_None_iff)
  with map room show "map_inv C (add_session tab m)"
    by (auto simp: map_inv_def add_session_simps createSession_def less_Suc_eq)
  show "session_inv C (add_session tab m) q" if q: "q < m_nextSession (add_session tab m)" "q \<noteq> m_nextSession m" for q
  proof -
    have "q < m_nextSession m" using q by (simp add: add_session_simps)
    from session_invI [OF inv this] q(2) show ?thesis
      by (simp add: session_inv_def session_inv0_def Let_def add_session_simps)
  qed
  show "consumer_inv C (add_session tab m) c" if c: "c < m_nextConsumer (add_session tab m)" for c
  proof -
    have "c < m_nextConsumer m" using c by (simp add: add_session_simps)
    from consumer_invI [OF inv this] show ?thesis
      by (auto simp: consumer_inv_def Let_def add_session_simps)
  qed
  show "session_inv0 C (add_session tab m) (m_nextSession m)"
    by (auto simp: session_inv0_def Let_def add_session_simps createSession_def live_def)
qed

lemma acquire_begin_inv:
  assumes inv: "manager_inv C m" and L: "limits_ok (cdp_limits C)"
  shows "manager_inv C (snd (acquire_begin C available target options aborted m))"
proof (cases "acquire_checks C available target options aborted m")
  case (Inl e)
  with inv show ?thesis by (simp add: acquire_begin_def)
next
  case (Inr tk)
  obtain tab k where tk: "tk = (tab, k)" by force
  note k = acquire_checks_sound [OF Inr [unfolded tk]]
  show ?thesis
  proof (cases "map_of (m_sessions m) tab")
    case None
    show ?thesis
    proof (cases "length (m_sessions m) \<ge> maxSessions (cdp_limits C)")
      case True
      with inv Inr None show ?thesis by (simp add: acquire_begin_def tk)
    next
      case False
      then have room: "length (m_sessions m) < maxSessions (cdp_limits C)" by simp
      have "manager_inv C (register_consumer (m_nextSession m) k (add_session tab m))"
        by (rule register_inv [OF add_session_inv(1-3) [OF inv None room]])
          (use k L add_session_inv(4) [OF inv None room] in
            \<open>auto simp: add_session_simps createSession_def live_def limits_ok_def\<close>)
      with False Inr None show ?thesis by (simp add: acquire_begin_def tk)
    qed
  next
    case (Some r)
    then have r: "r < m_nextSession m" and "(s_tab (m_session m r), r) \<in> set (m_sessions m)"
      using map_invI [OF inv] by (auto simp: map_inv_def dest!: map_of_SomeD)
    then have s: "session_inv0 C m r" "live (s_state (m_session m r))"
      using session_invI [OF inv r] by (simp_all add: session_inv_def session_inv0_def Let_def)
    show ?thesis
    proof (cases "c_id k \<in> set (map fst (s_consumers (m_session m r)))
        \<or> length (s_consumers (m_session m r)) \<ge> maxConsumersPerSession (cdp_limits C)")
      case True
      with inv Inr Some show ?thesis by (auto simp: acquire_begin_def tk)
    next
      case False
      have "manager_inv C (register_consumer r k m)"
        by (rule register_inv) (use False inv r s k in \<open>auto simp: manager_inv_def\<close>)
      with False Inr Some show ?thesis by (simp add: acquire_begin_def tk del: set_map)
    qed
  qed
qed

subsection \<open>The continuations of acquire\<close>

lemma removed_inactive:
  "c_active (m_consumer m c) \<Longrightarrow> \<not> c_active (m_consumer (removed c m) c)"
  by (simp add: removed_def Let_def)

lemma closeSession_inactive: "\<not> c_active (m_consumer m c) \<Longrightarrow> \<not> c_active (m_consumer (closeSession r x n m) c)"
  by (simp add: closeSession_def Let_def deactivated_def split: session_state.split)

lemma keeps_inactive:
  assumes "\<not> c_active (m_consumer m c)"
  shows "\<not> c_active (m_consumer (release_end r m) c)" "\<not> c_active (m_consumer (disableAutoAttach r d m) c)"
  using assms closeSession_inactive [OF assms]
  by (simp_all add: release_end_def disableAutoAttach_def switch_off_def Let_def)

lemma releaseConsumer_inactive:
  assumes "manager_inv C m" and "c < m_nextConsumer m"
  shows "\<not> c_active (m_consumer (releaseConsumer c m) c)"
proof (cases "c_active (m_consumer m c)")
  case False
  then show ?thesis by (simp add: releaseConsumer_def Let_def)
next
  case True
  with keeps_inactive show ?thesis by (auto simp: releaseConsumer_def Let_def)
qed

lemma refuse_inv:
  assumes "manager_inv C m" and "c < m_nextConsumer m"
  shows "manager_inv C (refuse C c e m)"
  unfolding refuse_def
  by (rule same_manager_inv [OF same_manager_acquire releaseConsumer_inv [OF assms]])
    (simp_all add: releaseConsumer_inactive [OF assms])

lemma ensureAutoAttach_inv:
  assumes "manager_inv C m" and "s_state (m_session m (l_session (m_lease m c))) = Attached"
  shows "manager_inv C (ensureAutoAttach (l_session (m_lease m c)) c m)"
proof -
  let ?r = "l_session (m_lease m c)"
  let ?m = "issue [AutoAttachCall (s_tab (m_session m ?r)) [] True]
      (put_session ?r ((m_session m ?r)\<lparr>s_autoAttachPending := True\<rparr>) m)"
  have set: "manager_inv C (set_acquire c ph m)" if "\<not> refused ph" for ph
    by (rule same_manager_inv [OF same_manager_acquire assms(1)]) (simp_all add: assms(2) that)
  have "manager_inv C ?m"
    by (rule same_manager_inv [OF same_manager_issue], rule same_manager_inv [OF same_manager_put_session assms(1)])
      (simp add: same_core_def)
  then have "manager_inv C (set_acquire c AwaitAutoAttach ?m)"
    by (rule same_manager_inv [OF same_manager_acquire, rotated 2]) (simp_all add: assms(2))
  with set show ?thesis by (simp add: ensureAutoAttach_def Let_def)
qed

lemma ensureAutoAttach_next: "m_nextConsumer (ensureAutoAttach r c m) = m_nextConsumer m"
  by (simp add: ensureAutoAttach_def Let_def)

lemma acquire_ready_inv:
  assumes inv: "manager_inv C m" and c: "c < m_nextConsumer m"
  shows "manager_inv C (acquire_ready C c ready aborted m)"
proof -
  let ?r = "l_session (m_lease m c)"
  have "manager_inv C (ensureAutoAttach ?r c m)" "manager_inv C (refuse C c e (ensureAutoAttach ?r c m))"
    "manager_inv C (set_acquire c Leased m)" if "s_state (m_session m ?r) = Attached" for e
    using ensureAutoAttach_inv [OF inv that] refuse_inv [of C "ensureAutoAttach ?r c m" c e] c that
      same_manager_inv [OF same_manager_acquire inv, of c Leased]
    by (simp_all add: ensureAutoAttach_next)
  with refuse_inv [OF inv c] show ?thesis
    by (auto simp: acquire_ready_def Let_def split: sum.split)
qed

lemma acquire_finish_inv:
  assumes inv: "manager_inv C m" and c: "c < m_nextConsumer m" and "l_acquire (m_lease m c) = AutoAttachDone result"
  shows "manager_inv C (acquire_finish C c result aborted m)"
proof -
  have "manager_inv C (set_acquire c Leased m)"
    by (rule same_manager_inv [OF same_manager_acquire inv]) (simp_all add: assms(3))
  with refuse_inv [OF inv c] show ?thesis
    by (auto simp: acquire_finish_def split: sum.split)
qed

lemma auto_attach_settled_same: "same_manager C m (auto_attach_settled C r result m)"
  by (simp add: auto_attach_settled_def Let_def same_manager_def same_core_def)

subsection \<open>Commands, events and callbacks\<close>

lemma sendCommand_same: "same_manager C m (snd (sendCommand_begin C c method params sessionId aborted m))"
  by (simp add: sendCommand_begin_def same_manager_issue same_manager_refl split: sum.split)

lemma frames_ok_tree: "frames_ok frames \<Longrightarrow> frames_ok (snd (removeChildSessionTree x m frames))"
  by (simp add: removeChildSessionTree_def remove_pending_spec frames_ok_delete)

lemma track_targets_core: "same_core s (snd (track_targets C child method params s))"
proof -
  have "frames_ok (s_frameContexts s) \<Longrightarrow> removeChildSessionTree x (s_childSessions s) (s_frameContexts s) = (m', f) \<Longrightarrow>
      frames_ok f" for x m' f
    using frames_ok_tree [of "s_frameContexts s" x "s_childSessions s"] by simp
  then show ?thesis
    by (auto simp: track_targets_def Let_def same_core_def frames_ok_update split: prod.split)
qed

lemma drain_turn_core: "c_id (snd (drain_turn k)) = c_id k" "c_active (snd (drain_turn k)) = c_active k"
  "c_includeChildTargets (snd (drain_turn k)) = c_includeChildTargets k"
  "grants_ok A (snd (drain_turn k)) = grants_ok A k"
  by (auto simp: drain_turn_def grants_ok_def split: list.split prod.split)

lemma make_room_core: "c_id (make_room L n k) = c_id k \<and> c_active (make_room L n k) = c_active k
  \<and> c_includeChildTargets (make_room L n k) = c_includeChildTargets k \<and> grants_ok A (make_room L n k) = grants_ok A k"
proof (induction L n k rule: make_room.induct)
  case (1 L n k)
  show ?case
  proof (cases "(length (c_queue k) \<ge> maxEventsPerConsumer L \<or> c_queueBytes k + int n > int (maxQueuedEventBytes L))
      \<and> c_queue k \<noteq> []")
    case False
    then have "make_room L n k = k" by (subst make_room.simps) (auto split: list.split)
    then show ?thesis by simp
  next
    case True
    then obtain e b q where q: "c_queue k = (e, b) # q" by (metis list.exhaust surj_pair)
    from True q "1.IH" [OF _ q refl] show ?thesis
      by (subst (1 2 3 4) make_room.simps) (auto simp: grants_ok_def)
  qed
qed

lemma enqueue_event_core: "c_id (enqueue_event L P e k) = c_id k" "c_active (enqueue_event L P e k) = c_active k"
  "c_includeChildTargets (enqueue_event L P e k) = c_includeChildTargets k"
  "grants_ok A (enqueue_event L P e k) = grants_ok A k"
proof -
  note room = make_room_core [of L "jsonByteLength P e" k A]
  show "c_id (enqueue_event L P e k) = c_id k" "c_active (enqueue_event L P e k) = c_active k"
    "c_includeChildTargets (enqueue_event L P e k) = c_includeChildTargets k"
    using room by (simp_all add: enqueue_event_def Let_def)
  show "grants_ok A (enqueue_event L P e k) = grants_ok A k"
    using room by (simp add: enqueue_event_def Let_def grants_ok_def)
qed

lemma enqueueEvent_core: "c_id (snd (enqueueEvent L P e k)) = c_id k" "c_active (snd (enqueueEvent L P e k)) = c_active k"
  "c_includeChildTargets (snd (enqueueEvent L P e k)) = c_includeChildTargets k"
  "grants_ok A (snd (enqueueEvent L P e k)) = grants_ok A k"
  by (simp_all add: enqueueEvent_def Let_def drain_turn_core enqueue_event_core)

lemma enqueue_same:
  assumes "limits_ok (cdp_limits C)" and "c_active (m_consumer m c)"
  shows "same_manager C m (enqueue_for C e c m)"
proof -
  let ?k = "snd (enqueueEvent (cdp_limits C) (cdp_platform C) e (m_consumer m c))"
  have "same_consumer C (m_consumer m c) ?k"
    using queue_ok_enqueueEvent [OF assms(1) _ assms(2)] by (simp add: same_consumer_def enqueueEvent_core)
  then show ?thesis
    by (cases "enqueueEvent (cdp_limits C) (cdp_platform C) e (m_consumer m c)")
      (auto simp: enqueue_for_def same_manager_def split: option.split)
qed

lemma same_core_trans: "same_core s s' \<Longrightarrow> same_core s' s'' \<Longrightarrow> same_core s s''"
  by (auto simp: same_core_def)

lemma same_manager_trans: "same_manager C m m' \<Longrightarrow> same_manager C m' m'' \<Longrightarrow> same_manager C m m''"
proof -
  assume a: "same_manager C m m'" "same_manager C m' m''"
  have core: "same_core (m_session m r) (m_session m'' r)" for r
    using a same_core_trans by (simp add: same_manager_def) blast
  have con: "same_consumer C (m_consumer m c) (m_consumer m'' c)" for c
    using a by (simp add: same_manager_def same_consumer_def)
  have "l_session (m_lease m'' c) = l_session (m_lease m c)
      \<and> (l_acquire (m_lease m c) = AwaitReady \<longrightarrow> l_acquire (m_lease m'' c) = AwaitReady
               \<or> \<not> c_active (m_consumer m c) \<or> s_state (m_session m (l_session (m_lease m c))) = Attached)
      \<and> (refused (l_acquire (m_lease m'' c)) \<longrightarrow> refused (l_acquire (m_lease m c)) \<or> \<not> c_active (m_consumer m c))" for c
    using a by (simp add: same_manager_def same_core_def same_consumer_def) metis
  with core con show ?thesis using a by (simp add: same_manager_def)
qed

lemma enqueue_all_same:
  assumes "limits_ok (cdp_limits C)" and "\<forall>c\<in>set cs. c_active (m_consumer m c)"
  shows "same_manager C m (fold (enqueue_for C e) cs m)"
  using assms(2)
proof (induction cs arbitrary: m)
  case Nil
  then show ?case by (simp add: same_manager_refl)
next
  case (Cons c cs)
  have one: "same_manager C m (enqueue_for C e c m)"
    using Cons.prems by (intro enqueue_same [OF assms(1)]) simp
  then have "\<forall>d\<in>set cs. c_active (m_consumer (enqueue_for C e c m) d)"
    using Cons.prems by (simp add: same_manager_def same_consumer_def)
  then show ?case
    using same_manager_trans [OF one] Cons.IH by simp
qed

lemma handleEvent_same:
  assumes inv: "manager_inv C m" and L: "limits_ok (cdp_limits C)"
  shows "same_manager C m (handleEvent C source method given m)"
proof (cases "Option.bind (debuggeeKey source) (map_of (m_sessions m))")
  case None
  then show ?thesis by (simp add: handleEvent_def same_manager_refl)
next
  case (Some r)
  then have r: "r < m_nextSession m"
    using map_invI [OF inv] by (auto simp: map_inv_def bind_eq_Some_conv dest!: map_of_SomeD)
  define params where "params = (if given = Undefined then Obj [] else given)"
  let ?child = "str_of (source_session source)"
  obtain calls s' where t: "track_targets C ?child method params (m_session m r) = (calls, s')" by force
  let ?m1 = "issue calls (put_session r s' m)"
  have core: "same_core (m_session m r) s'" using track_targets_core [of "m_session m r"] t by (metis snd_conv)
  have one: "same_manager C m ?m1"
    using same_manager_trans [OF same_manager_put_session [OF core] same_manager_issue] .
  have "c_active (m_consumer ?m1 c)" if "c \<in> snd ` set (s_consumers s')" for c
    using that core session_invI [OF inv r]
    by (auto simp: same_core_def session_inv_def session_inv0_def Let_def)
  then have "same_manager C ?m1 (fold (enqueue_for C e) (filter P (map snd (s_consumers s'))) ?m1)" for e P
    by (intro enqueue_all_same [OF L]) auto
  then have "same_manager C m (fold (enqueue_for C e) (filter P (map snd (s_consumers s'))) ?m1)" for e P
    using same_manager_trans [OF one] by blast
  with one same_manager_refl show ?thesis
    by (simp add: handleEvent_def Let_def Some t flip: params_def split: sum.split)
qed

lemma callback_settled_same: "same_manager C m (callback_settled c m)"
proof -
  have "same_consumer C (m_consumer m c) (snd (drain_turn (m_consumer m c)))"
    by (simp add: same_consumer_def drain_turn_core queue_ok_drain)
  then show ?thesis
    by (cases "drain_turn (m_consumer m c)")
      (auto simp: callback_settled_def same_manager_def split: option.split)
qed

subsection \<open>Ending all sessions\<close>

lemma closeSession_next: "m_nextSession (closeSession r x n m) = m_nextSession m"
  by (simp add: closeSession_def Let_def split: session_state.split)

lemma close_all_inv:
  assumes "manager_inv C m" and "\<forall>r\<in>set rs. r < m_nextSession m" and "x \<noteq> []"
  shows "manager_inv C (fold (\<lambda>r. closeSession r x True) rs m)"
  using assms
proof (induction rs arbitrary: m)
  case (Cons r rs)
  then have "manager_inv C (closeSession r x True m)" by (intro closeSession_notify_inv) auto
  with Cons show ?case by (simp add: closeSession_next)
qed simp

lemma detachAll_inv:
  assumes "manager_inv C m" and "x \<noteq> []"
  shows "manager_inv C (detachAll x m)"
  unfolding detachAll_def
  by (rule close_all_inv [OF assms(1) _ assms(2)]) (use map_invI [OF assms(1)] in \<open>auto simp: map_inv_def\<close>)

lemma disposed_inv: "manager_inv C (m\<lparr>m_disposed := d\<rparr>) = manager_inv C m"
  by (simp add: manager_inv_def map_inv_def session_inv_def session_inv0_def consumer_inv_def)

lemma dispose_inv: "manager_inv C m \<Longrightarrow> manager_inv C (dispose m)"
  by (simp add: dispose_def detachAll_inv disposed_inv)

subsection \<open>Reachable states\<close>

lemma initial_inv: "manager_inv C initial_manager"
  by (simp add: manager_inv_def map_inv_def initial_manager_def)

lemma cdp_step_inv:
  assumes "cdp_step C m e m'" and "manager_inv C m" and "limits_ok (cdp_limits C)"
  shows "manager_inv C m'"
  using assms(1)
proof cases
  case (attach_settled r result)
  then show ?thesis
    using attach_failed_inv attach_succeeded_inv assms(2) by (cases result) auto
qed (simp_all add: assms(2,3) acquire_begin_inv detach_settled_inv acquire_ready_inv refuse_inv acquire_finish_inv
    releaseConsumer_inv release_resume_inv handleDetach_inv detachAll_inv dispose_inv
    same_manager_inv [OF auto_attach_settled_same] same_manager_inv [OF sendCommand_same]
    same_manager_inv [OF handleEvent_same] same_manager_inv [OF callback_settled_same])

lemma cdp_reachable_inv:
  assumes "cdp_reachable C m" and "limits_ok (cdp_limits C)"
  shows "manager_inv C m"
  using assms by (induction rule: cdp_reachable.induct) (auto intro: initial_inv cdp_step_inv)

end
