(* ===== verification/Cdp_Properties.thy ===== *)
theory Cdp_Properties
  imports Cdp_Invariants
begin

text \<open>
  What the CDP session manager guarantees in every reachable state and on every step: limits, leases,
  confinement of commands and events, the end of sessions and of the manager; and a run that shows
  an auto-attach that is switched off under a lease that needs it.
\<close>

section \<open>After the manager is disposed\<close>

definition idle :: "session \<Rightarrow> bool" where
  "idle s \<longleftrightarrow> s_consumers s = [] \<and> s_state s \<noteq> Attached"

definition all_idle :: "manager \<Rightarrow> bool" where
  "all_idle m \<longleftrightarrow> (\<forall>r<m_nextSession m. idle (m_session m r))"

lemma same_manager_idle: "same_manager C m m' \<Longrightarrow> all_idle m \<Longrightarrow> all_idle m'"
  by (simp add: same_manager_def same_core_def all_idle_def idle_def)

lemma idle_inactive:
  assumes "manager_inv C m" and "all_idle m" and "c < m_nextConsumer m"
  shows "\<not> c_active (m_consumer m c)"
  using active_in_session [OF assms(1,3)] assms(2) by (auto simp: all_idle_def idle_def)

lemma closeSession_keeps_idle: "idle (m_session m q) \<Longrightarrow> idle (m_session (closeSession r x n m) q)"
  by (auto simp: closeSession_def Let_def idle_def split: session_state.split)

lemma closeSession_idle: "live (s_state (m_session m r)) \<or> s_consumers (m_session m r) = [] \<Longrightarrow>
    idle (m_session (closeSession r x True m) r)"
  by (auto simp: closeSession_def Let_def idle_def live_def split: session_state.split)

lemma closeSession_session: "q \<noteq> r \<Longrightarrow> m_session (closeSession r x n m) q = m_session m q"
  by (simp add: closeSession_def Let_def split: session_state.split)

lemma closeSession_disposed [simp]: "m_disposed (closeSession r x n m) = m_disposed m"
  by (simp add: closeSession_def Let_def split: session_state.split)

lemma close_all_idle:
  assumes "r \<in> set rs \<Longrightarrow> live (s_state (m_session m r)) \<or> s_consumers (m_session m r) = []"
    and "r \<in> set rs \<or> idle (m_session m r)"
  shows "idle (m_session (fold (\<lambda>r. closeSession r x True) rs m) r)"
  using assms
proof (induction rs arbitrary: m)
  case (Cons q rs)
  let ?m = "closeSession q x True m"
  show ?case
  proof (cases "q = r")
    case True
    have "idle (m_session ?m r)" unfolding True by (rule closeSession_idle) (use Cons.prems True in auto)
    then show ?thesis using Cons.IH [of ?m] by (simp add: idle_def)
  next
    case False
    then show ?thesis using Cons closeSession_session [of r q] by simp
  qed
qed simp

lemma closeSession_next_session [simp]: "m_nextSession (closeSession r x n m) = m_nextSession m"
  by (rule closeSession_next)

lemma close_all_next: "m_nextSession (fold (\<lambda>r. closeSession r x True) rs m) = m_nextSession m
    \<and> m_disposed (fold (\<lambda>r. closeSession r x True) rs m) = m_disposed m"
  by (induction rs arbitrary: m) simp_all

lemma detachAll_all_idle:
  assumes "manager_inv C m"
  shows "all_idle (detachAll x m)"
  unfolding all_idle_def
proof (intro allI impI)
  fix r assume "r < m_nextSession (detachAll x m)"
  then have r: "r < m_nextSession m" by (simp add: detachAll_def close_all_next)
  have s: "((s_tab (m_session m r), r) \<in> set (m_sessions m)) = live (s_state (m_session m r))"
    "live (s_state (m_session m r)) \<or> s_consumers (m_session m r) = []"
    using session_invI [OF assms r] by (auto simp: session_inv_def session_inv0_def Let_def)
  show "idle (m_session (detachAll x m) r)"
    unfolding detachAll_def
  proof (rule close_all_idle)
    show "live (s_state (m_session m r)) \<or> s_consumers (m_session m r) = []" by (rule s(2))
    show "r \<in> set (map snd (m_sessions m)) \<or> idle (m_session m r)"
      using s by (cases "live (s_state (m_session m r))") (force simp: idle_def live_def)+
  qed
qed

lemma release_end_idle: "all_idle m \<Longrightarrow> all_idle (release_end r m)"
  using closeSession_keeps_idle [where m = m] by (simp add: all_idle_def release_end_def Let_def) (simp add: idle_def)

lemma releaseConsumer_inactive_eq: "\<not> c_active (m_consumer m c) \<Longrightarrow> releaseConsumer c m = m"
  by (simp add: releaseConsumer_def Let_def)

lemma set_lease_idle [simp]: "all_idle (set_acquire c ph m) = all_idle m" "all_idle (set_release c rp m) = all_idle m"
  by (simp_all add: all_idle_def)

lemma refuse_idle: "\<not> c_active (m_consumer m c) \<Longrightarrow> all_idle m \<Longrightarrow> all_idle (refuse C c e m)"
  by (simp add: refuse_def releaseConsumer_inactive_eq)

lemma release_resume_idle:
  assumes "all_idle m"
  shows "all_idle (release_resume c m)"
proof -
  let ?r = "l_session (m_lease m c)"
  have "all_idle (snd (switch_off ?r m))" by (rule same_manager_idle [OF switch_off_same assms])
  then show ?thesis
    using assms release_end_idle
    by (auto simp: release_resume_def Let_def split: release_phase.split bool.split prod.split)
qed

lemma attach_settled_idle:
  assumes "all_idle m" and "m_disposed m" and "r < m_nextSession m"
  shows "all_idle (attach_settled C r result m)"
  using assms
  by (cases result) (auto simp: attach_settled_def closeSession_def Let_def all_idle_def idle_def)

lemma same_manager_disposed: "same_manager C m m' \<Longrightarrow> m_disposed m' = m_disposed m"
  by (simp add: same_manager_def)

lemma disposed_simps [simp]:
  "m_disposed (register_consumer r k m) = m_disposed m" "m_disposed (add_session tab m) = m_disposed m"
  "m_disposed (snd (switch_off r m)) = m_disposed m" "m_disposed (disableAutoAttach r c m) = m_disposed m"
  "m_disposed (release_end r m) = m_disposed m" "m_disposed (detachAll x m) = m_disposed m"
  "m_disposed (ensureAutoAttach r c m) = m_disposed m"
  by (simp_all add: register_consumer_def add_session_def switch_off_def disableAutoAttach_def release_end_def
      detachAll_def close_all_next ensureAutoAttach_def Let_def)

lemma release_disposed [simp]: "m_disposed (releaseConsumer c m) = m_disposed m"
  by (simp add: releaseConsumer_def Let_def)

lemma refuse_disposed [simp]: "m_disposed (refuse C c e m) = m_disposed m"
  by (simp add: refuse_def)

lemma acquire_disposed [simp]: "m_disposed (snd (acquire_begin C av target options ab m)) = m_disposed m"
  by (auto simp: acquire_begin_def split: sum.split prod.split option.split)

lemma resume_disposed [simp]: "m_disposed (release_resume c m) = m_disposed m"
  using disposed_simps(3) [of "l_session (m_lease m c)" m]
  by (auto simp: release_resume_def Let_def split: release_phase.split bool.split prod.split simp del: disposed_simps(3))

lemma attach_disposed [simp]: "m_disposed (attach_settled C r result m) = m_disposed m"
  by (simp add: attach_settled_def Let_def split: sum.split)

lemma ready_disposed [simp]: "m_disposed (acquire_ready C c ready aborted m) = m_disposed m"
  "m_disposed (acquire_finish C c result aborted m) = m_disposed m"
  by (simp_all add: acquire_ready_def acquire_finish_def Let_def split: sum.split)

text \<open>\<open>acquire\<close> of a disposed manager.\<close>

lemma acquire_begin_closed:
  "m_disposed m \<Longrightarrow> acquire_begin C available target options aborted m =
     (Inl (fault CAPABILITY_UNAVAILABLE [Txt ''The CDP session manager is closed'']), m)"
  by (simp add: acquire_begin_def acquire_checks_def ensureAvailable_def checks.simps throw_if_def)

lemma disposed_step:
  assumes "cdp_step C m e m'" and "manager_inv C m" and "limits_ok (cdp_limits C)" and "m_disposed m \<Longrightarrow> all_idle m"
  shows "m_disposed m' \<Longrightarrow> all_idle m'" and "m_disposed m \<Longrightarrow> m_disposed m'"
proof -
  note inactive = idle_inactive [OF assms(2)]
  have "(m_disposed m' \<longrightarrow> all_idle m') \<and> (m_disposed m \<longrightarrow> m_disposed m')"
    using assms(1)
  proof cases
    case dispose
    then show ?thesis
      using assms(4) detachAll_all_idle [of C "m\<lparr>m_disposed := True\<rparr>"] assms(2)
      by (simp add: dispose_def disposed_inv)
  next
    case (browser_detach source reason)
    then show ?thesis
      using assms(4)
      by (auto simp: handleDetach_def all_idle_def idle_def Let_def split: option.split)
  next
    case (acquire_ready c ready aborted)
    then show ?thesis
      using assms(4) inactive refuse_idle by (auto simp: acquire_ready_def Let_def split: sum.split)
  next
    case (acquire_finish c result aborted)
    then show ?thesis
      using assms(4) inactive refuse_idle by (auto simp: acquire_finish_def split: sum.split)
  next
    case (detach_settled r)
    then show ?thesis
      using assms(4) by (auto simp: detach_settled_def all_idle_def idle_def Let_def)
  qed (use assms(4) inactive in \<open>auto simp: acquire_begin_closed attach_settled_idle refuse_idle release_resume_idle
      releaseConsumer_inactive_eq detachAll_all_idle [OF assms(2)] same_manager_disposed [OF auto_attach_settled_same]
      same_manager_disposed [OF sendCommand_same] same_manager_disposed [OF handleEvent_same [OF assms(2,3)]]
      same_manager_disposed [OF callback_settled_same] same_manager_idle [OF auto_attach_settled_same]
      same_manager_idle [OF sendCommand_same] same_manager_idle [OF handleEvent_same [OF assms(2,3)]]
      same_manager_idle [OF callback_settled_same]\<close>)
  then show "m_disposed m' \<Longrightarrow> all_idle m'" and "m_disposed m \<Longrightarrow> m_disposed m'" by blast+
qed

lemma disposed_all_idle:
  assumes "cdp_reachable C m" and "limits_ok (cdp_limits C)"
  shows "m_disposed m \<Longrightarrow> all_idle m"
  using assms
proof (induction rule: cdp_reachable.induct)
  case init
  then show ?case by (simp add: initial_manager_def)
next
  case (step m e m')
  then show ?case using disposed_step(1) cdp_reachable_inv by blast
qed

section \<open>Running the manager\<close>

text \<open>The step relation as a function: what an event does when it can happen.\<close>

definition cdp_next :: "cdp_config \<Rightarrow> event \<Rightarrow> manager \<Rightarrow> manager option" where
  "cdp_next C e m =
     (let mine = (\<lambda>c. c < m_nextConsumer m); is = (\<lambda>b m'. if b then Some m' else None) in case e of
        Acquire available target options aborted \<Rightarrow> Some (snd (acquire_begin C available target options aborted m))
      | AttachSettled r result \<Rightarrow>
          is (r < m_nextSession m \<and> s_attach (m_session m r) = AttachCalled) (attach_settled C r result m)
      | DetachSettled r \<Rightarrow> is (r < m_nextSession m \<and> s_state (m_session m r) = Detaching) (detach_settled r m)
      | AcquireReady c aborted \<Rightarrow>
          (case s_attach (m_session m (l_session (m_lease m c))) of
             AttachDone ready \<Rightarrow> is (mine c \<and> l_acquire (m_lease m c) = AwaitReady) (acquire_ready C c ready aborted m)
           | _ \<Rightarrow> None)
      | AcquireAborted c \<Rightarrow> is (mine c \<and> l_acquire (m_lease m c) \<in> {AwaitReady, AwaitAutoAttach}) (refuse C c aborted_error m)
      | AutoAttachSettled r result \<Rightarrow>
          is (r < m_nextSession m \<and> s_autoAttachPending (m_session m r)) (auto_attach_settled C r result m)
      | AcquireFinish c aborted \<Rightarrow>
          (case l_acquire (m_lease m c) of
             AutoAttachDone result \<Rightarrow> is (mine c) (acquire_finish C c result aborted m)
           | _ \<Rightarrow> None)
      | Release c \<Rightarrow> is (mine c \<and> l_acquire (m_lease m c) = Leased) (releaseConsumer c m)
      | ReleaseResume c \<Rightarrow> is (mine c \<and> l_release (m_lease m c) \<notin> {NoRelease, AwaitAutoPromise}) (release_resume c m)
      | SendCommand c method params sessionId aborted \<Rightarrow>
          is (mine c \<and> l_acquire (m_lease m c) = Leased) (snd (sendCommand_begin C c method params sessionId aborted m))
      | BrowserEvent source method params \<Rightarrow> Some (handleEvent C source method params m)
      | BrowserDetach source reason \<Rightarrow> Some (handleDetach C source reason m)
      | CallbackDone c \<Rightarrow> is (mine c \<and> c_draining (m_consumer m c)) (callback_settled c m)
      | DetachAll reason \<Rightarrow> is (reason \<noteq> []) (detachAll reason m)
      | Dispose \<Rightarrow> Some (dispose m))"

lemma cdp_next_iff: "cdp_next C e m = Some m' \<longleftrightarrow> cdp_step C m e m'"
proof
  show "cdp_next C e m = Some m' \<Longrightarrow> cdp_step C m e m'"
    by (cases e) (auto simp: cdp_next_def Let_def split: if_splits attach_phase.splits acquire_phase.splits intro: cdp_step.intros)
  show "cdp_step C m e m' \<Longrightarrow> cdp_next C e m = Some m'"
    by (erule cdp_step.cases) (auto simp: cdp_next_def Let_def)
qed

fun cdp_run :: "cdp_config \<Rightarrow> event list \<Rightarrow> manager \<Rightarrow> manager option" where
  "cdp_run C [] m = Some m"
| "cdp_run C (e # es) m = (case cdp_next C e m of None \<Rightarrow> None | Some m' \<Rightarrow> cdp_run C es m')"

lemma cdp_run_reachable: "cdp_run C es m = Some m' \<Longrightarrow> cdp_reachable C m \<Longrightarrow> cdp_reachable C m'"
  by (induction es arbitrary: m) (auto split: option.splits simp: cdp_next_iff intro: cdp_reachable.step)

section \<open>Lemmas: who gets an event\<close>

lemma session_members:
  assumes "manager_inv C m" and "r < m_nextSession m" and "(i, c) \<in> set (s_consumers (m_session m r))"
  shows "c_id (m_consumer m c) = i" and "c_active (m_consumer m c)" and "map_of (s_consumers (m_session m r)) i = Some c"
proof -
  have "session_inv0 C m r" using session_invI [OF assms(1,2)] by (simp add: session_inv_def)
  with assms(3) show "c_id (m_consumer m c) = i" "c_active (m_consumer m c)" "map_of (s_consumers (m_session m r)) i = Some c"
    by (auto simp: session_inv0_def Let_def)
qed

lemma enqueue_for_other:
  "d \<noteq> c \<Longrightarrow> m_consumer (enqueue_for C e c m) d = m_consumer m d"
  "d \<noteq> c \<Longrightarrow> OnEvent d x n \<in> set (m_log (enqueue_for C e c m)) \<Longrightarrow> OnEvent d x n \<in> set (m_log m)"
  by (auto simp: enqueue_for_def issue_def put_consumer_def split: prod.splits option.splits)

lemma enqueue_all_other:
  "d \<notin> set cs \<Longrightarrow> m_consumer (fold (enqueue_for C e) cs m) d = m_consumer m d
     \<and> (OnEvent d x n \<in> set (m_log (fold (enqueue_for C e) cs m)) \<longrightarrow> OnEvent d x n \<in> set (m_log m))"
  by (induction cs arbitrary: m) (auto simp: enqueue_for_other(1) dest: enqueue_for_other(2))

lemma track_targets_calls: "OnEvent d x n \<notin> set (fst (track_targets C child method params s))"
  by (auto simp: track_targets_def Let_def split: prod.split)

text \<open>An event touches only the listeners among the consumers of an attached session.\<close>

lemma handleEvent_listeners:
  assumes touched: "m_consumer (handleEvent C source method given m) c \<noteq> m_consumer m c
      \<or> (OnEvent c x n \<in> set (m_log (handleEvent C source method given m)) \<and> OnEvent c x n \<notin> set (m_log m))"
  shows "\<exists>r domain. Option.bind (debuggeeKey source) (map_of (m_sessions m)) = Some r
    \<and> s_state (m_session m r) = Attached \<and> methodDomain method = Inr domain
    \<and> c \<in> snd ` set (s_consumers (m_session m r))
    \<and> listens (str_of (source_session source)) domain method (m_consumer m c)
    \<and> (source_session source = Undefined
       \<or> str_of (source_session source) \<in> set (child_ids (s_childSessions (m_session m r))))"
proof (cases "Option.bind (debuggeeKey source) (map_of (m_sessions m))")
  case None
  with touched show ?thesis by (simp add: handleEvent_def)
next
  case (Some r)
  define params where "params = (if given = Undefined then Obj [] else given)"
  let ?s = "m_session m r" and ?child = "str_of (source_session source)"
  obtain calls s' where t: "track_targets C ?child method params ?s = (calls, s')" by force
  let ?m1 = "issue calls (put_session r s' m)"
  have cons: "s_consumers s' = s_consumers ?s"
    using track_targets_core [of ?s C ?child "method" params] t by (simp add: same_core_def)
  have first: "m_consumer ?m1 c = m_consumer m c" "OnEvent c x n \<in> set (m_log ?m1) \<Longrightarrow> OnEvent c x n \<in> set (m_log m)"
    using track_targets_calls [of c x n C ?child "method" params ?s] t by (auto simp: issue_def put_session_def)
  define known where "known \<longleftrightarrow> s_state ?s = Attached \<and> (source_session source = Undefined
      \<or> (is_string (source_session source) \<and> ?child \<in> set (child_ids (s_childSessions ?s))))"
  have eq: "handleEvent C source method given m =
      (if \<not> known then m else case methodDomain method of Inl _ \<Rightarrow> ?m1
        | Inr domain \<Rightarrow> fold (enqueue_for C (event_object (s_tab ?s) ?child method params))
            (filter (\<lambda>c. listens ?child domain method (m_consumer m c)) (map snd (s_consumers s'))) ?m1)"
    by (auto simp: handleEvent_def Some known_def Let_def t simp flip: params_def)
  have known using touched by (auto simp: eq split: if_splits)
  with touched first obtain domain where d: "methodDomain method = Inr domain"
    by (auto simp: eq split: sum.splits)
  let ?hear = "filter (\<lambda>c. listens ?child domain method (m_consumer m c)) (map snd (s_consumers s'))"
  have eq': "handleEvent C source method given m = fold (enqueue_for C (event_object (s_tab ?s) ?child method params)) ?hear ?m1"
    using \<open>known\<close> by (simp add: eq d)
  have "c \<in> set ?hear"
  proof (rule ccontr)
    assume "c \<notin> set ?hear"
    from enqueue_all_other [OF this, of C "event_object (s_tab ?s) ?child method params" ?m1 x n] touched first
    show False unfolding eq' by argo
  qed
  then show ?thesis
    using Some d \<open>known\<close> by (auto simp: known_def cons)
qed

section \<open>Properties\<close>

text \<open>C8: the sessions of every reachable manager. A tab has at most one live session, in the map exactly
  while it is attaching or attached, and the limits hold. An attached session has a consumer, so no
  debugger stays attached for nobody; one that attaches for nobody is marked to be closed; an ended
  one has none. The number of consumers of child targets is exact.\<close>

theorem cdp_sessions_sound:
  assumes "cdp_reachable C m" and "limits_ok (cdp_limits C)"
  shows "distinct (map fst (m_sessions m)) \<and> length (m_sessions m) \<le> maxSessions (cdp_limits C)
    \<and> (\<forall>r<m_nextSession m. let s = m_session m r in
        (map_of (m_sessions m) (s_tab s) = Some r \<longleftrightarrow> s_state s = Attaching \<or> s_state s = Attached)
        \<and> (s_state s = Attached \<longrightarrow> s_consumers s \<noteq> [])
        \<and> (s_state s = Attaching \<longrightarrow> s_consumers s \<noteq> [] \<or> s_closeRequested s \<noteq> [])
        \<and> (s_state s \<noteq> Attaching \<longrightarrow> s_state s \<noteq> Attached \<longrightarrow> s_consumers s = [])
        \<and> length (s_consumers s) \<le> maxConsumersPerSession (cdp_limits C)
        \<and> s_childConsumerCount s = length (filter (\<lambda>(_, c). c_includeChildTargets (m_consumer m c)) (s_consumers s)))"
proof -
  note inv = cdp_reachable_inv [OF assms]
  have d: "distinct (map fst (m_sessions m))" "length (m_sessions m) \<le> maxSessions (cdp_limits C)"
    using map_invI [OF inv] by (auto simp: map_inv_def)
  have "map_of (m_sessions m) t = Some r \<longleftrightarrow> (t, r) \<in> set (m_sessions m)" for t r
    using d(1) by simp
  with d session_invI [OF inv] show ?thesis
    by (simp add: session_inv_def session_inv0_def occupied_def live_def Let_def del: map_of_eq_Some_iff)
qed

text \<open>C9: the leases of every reachable manager. A consumer is active exactly while its session lists it
  under its id; past the attaching that session is attached and the one its tab maps to; one whose
  acquisition failed is not active, and an inactive one holds no events. Its domains are allowed,
  its commands and events belong to its domains, and its queue keeps to the limits.\<close>

theorem cdp_leases_sound:
  assumes "cdp_reachable C m" and "limits_ok (cdp_limits C)" and "c < m_nextConsumer m"
  defines "k \<equiv> m_consumer m c" and "l \<equiv> m_lease m c" and "s \<equiv> m_session m (l_session (m_lease m c))"
  shows "(c_active k \<longleftrightarrow> map_of (s_consumers s) (c_id k) = Some c)
    \<and> (c_active k \<and> l_acquire l \<noteq> AwaitReady \<longrightarrow>
         s_state s = Attached \<and> map_of (m_sessions m) (s_tab s) = Some (l_session l))
    \<and> (\<forall>e. l_acquire l = Refused e \<longrightarrow> \<not> c_active k) \<and> (\<not> c_active k \<longrightarrow> c_queue k = [])
    \<and> set (c_domains k) \<subseteq> set (cdp_allowedDomains C)
    \<and> (\<forall>x\<in>set (c_commands k) \<union> set (c_events k). \<exists>d\<in>set (c_domains k). methodDomain (Str x) = Inr d)
    \<and> length (c_queue k) \<le> maxEventsPerConsumer (cdp_limits C)
    \<and> sum_list (map snd (c_queue k)) \<le> maxQueuedEventBytes (cdp_limits C)"
proof -
  note inv = cdp_reachable_inv [OF assms(1,2)]
  have con: "consumer_inv C m c" by (rule consumer_invI [OF inv assms(3)])
  then have r: "l_session l < m_nextSession m" by (simp add: consumer_inv_def Let_def l_def)
  from session_invI [OF inv this] have sess: "session_inv0 C m (l_session l)" by (simp add: session_inv_def)
  have "c_active k" if "map_of (s_consumers s) (c_id k) = Some c"
    using map_of_SomeD [OF that] sess by (auto simp: session_inv0_def Let_def s_def l_def k_def)
  moreover have "map_of (m_sessions m) (s_tab s) = Some (l_session l)" if "s_state s = Attached"
    using that sess map_invI [OF inv] by (simp add: session_inv0_def Let_def s_def l_def live_def map_inv_def)
  moreover have "\<not> c_active k" if "l_acquire l = Refused e" for e
    using that con by (auto simp: consumer_inv_def Let_def l_def k_def)
  ultimately show ?thesis
    using con active_in_session(3) [OF inv assms(3)]
    by (auto simp: consumer_inv_def queue_ok_def grants_ok_def Let_def k_def l_def s_def)
qed

text \<open>C10: what a consumer can send. A call of the debugger by \<open>sendCommand\<close> goes to the tab of the consumer's
  attached session, for an active consumer whose signal has not fired; its method is on the
  consumer's list and of one of its domains, which the manager allows; its parameters are within
  the limit; it goes to a child session only if that is known and the consumer includes children.
  Nothing else of the state changes.\<close>

theorem cdp_commands_confined:
  assumes "cdp_reachable C m" and "limits_ok (cdp_limits C)" and "c < m_nextConsumer m"
    and "sendCommand_begin C c method params sessionId aborted m = (Inr (), m')"
  defines "k \<equiv> m_consumer m c" and "s \<equiv> m_session m (l_session (m_lease m c))"
  shows "\<exists>child domain. m' = issue [CommandCall (s_tab s) child (str_of method) params] m
    \<and> c_active k \<and> \<not> aborted \<and> s_state s = Attached \<and> map_of (m_sessions m) (s_tab s) = Some (l_session (m_lease m c))
    \<and> str_of method \<in> set (c_commands k) \<and> methodDomain method = Inr domain
    \<and> domain \<in> set (c_domains k) \<and> domain \<in> set (cdp_allowedDomains C)
    \<and> jsonByteLength (cdp_platform C) params \<le> maxCommandBytes (cdp_limits C)
    \<and> (sessionId = Undefined \<and> child = []
       \<or> sessionId = Str child \<and> child \<in> set (child_ids (s_childSessions s)) \<and> c_includeChildTargets k)"
proof -
  note inv = cdp_reachable_inv [OF assms(1,2)]
  obtain child where ch: "sendCommand_checks C c method params sessionId aborted m = Inr child"
    "m' = issue [CommandCall (s_tab s) child (str_of method) params] m"
    using assms(4) by (auto simp: sendCommand_begin_def s_def split: sum.splits)
  then obtain domain where d: "c_active k" "\<not> aborted" "s_state s = Attached" "methodDomain method = Inr domain"
    "domain \<in> set (c_domains k)" "str_of method \<in> set (c_commands k)"
    "returns (ensureBoundedJSON (cdp_platform C) params (maxCommandBytes (cdp_limits C)) ''CDP command parameters'')"
    "child = (if sessionId = Undefined then [] else str_of sessionId)"
    "sessionId \<noteq> Undefined \<Longrightarrow> c_includeChildTargets k \<and> is_string sessionId \<and> str_of sessionId \<in> set (child_ids (s_childSessions s))"
    by (auto simp: sendCommand_checks_def Let_def bind_res_Inr checks_Cons_ok throw_if_ok only_if_def k_def s_def
        simp flip: returns_unit split: if_splits)
  have "consumer_inv C m c" by (rule consumer_invI [OF inv assms(3)])
  then have g: "grants_ok (cdp_allowedDomains C) k" and r: "l_session (m_lease m c) < m_nextSession m"
    by (simp_all add: consumer_inv_def Let_def k_def)
  have "map_of (m_sessions m) (s_tab s) = Some (l_session (m_lease m c))"
    using d(3) session_invI [OF inv r] map_invI [OF inv]
    by (simp add: session_inv_def session_inv0_def Let_def s_def live_def map_inv_def)
  moreover have "jsonByteLength (cdp_platform C) params \<le> maxCommandBytes (cdp_limits C)"
    using d(7) by (auto simp: ensureBoundedJSON_def throw_if_def split: if_splits)
  moreover have "sessionId = Undefined \<and> child = [] \<or> sessionId = Str child
      \<and> child \<in> set (child_ids (s_childSessions s)) \<and> c_includeChildTargets k"
    using d(8,9) by (cases sessionId) auto
  ultimately show ?thesis
    using ch(2) d(1-6) g by (auto simp: grants_ok_def)
qed

text \<open>C11: who learns of a debugger event. An event that changes a consumer, or calls its callback, came from
  a tab whose attached session has that consumer, active, with a callback, with the event's method on
  its list and of its domains; an event of a child session is known to the session and reaches
  only a consumer that includes children. No other consumer is touched.\<close>

theorem cdp_events_confined:
  assumes "cdp_reachable C m" and "limits_ok (cdp_limits C)" and "m' = handleEvent C source method given m"
    and "m_consumer m' c \<noteq> m_consumer m c \<or> (OnEvent c x n \<in> set (m_log m') \<and> OnEvent c x n \<notin> set (m_log m))"
  defines "k \<equiv> m_consumer m c" and "child \<equiv> str_of (source_session source)"
  shows "\<exists>r domain. Option.bind (debuggeeKey source) (map_of (m_sessions m)) = Some r
    \<and> s_state (m_session m r) = Attached \<and> map_of (s_consumers (m_session m r)) (c_id k) = Some c
    \<and> c_active k \<and> c_onEvent k \<and> methodDomain method = Inr domain \<and> domain \<in> set (c_domains k)
    \<and> str_of method \<in> set (c_events k)
    \<and> (child \<noteq> [] \<longrightarrow> child \<in> set (child_ids (s_childSessions (m_session m r))) \<and> c_includeChildTargets k)"
proof -
  note inv = cdp_reachable_inv [OF assms(1,2)]
  obtain r domain where r: "Option.bind (debuggeeKey source) (map_of (m_sessions m)) = Some r"
    "s_state (m_session m r) = Attached" "methodDomain method = Inr domain" "c \<in> snd ` set (s_consumers (m_session m r))"
    "listens child domain method k" "source_session source = Undefined \<or> child \<in> set (child_ids (s_childSessions (m_session m r)))"
    using handleEvent_listeners [of C source "method" given m c x n] assms(3,4) unfolding k_def child_def by blast
  then have "r < m_nextSession m"
    using map_invI [OF inv] by (auto simp: map_inv_def bind_eq_Some_conv dest!: map_of_SomeD)
  with r(4) have "map_of (s_consumers (m_session m r)) (c_id k) = Some c \<and> c_active k"
    using session_members [OF inv] unfolding k_def by fastforce
  with r show ?thesis
    by (intro exI [of _ r] exI [of _ domain]) (auto simp: listens_def child_def str_of_def)
qed

text \<open>C12: The browser ends a session. Its tab is free again, the session and all its consumers are over and
  hold no events, every consumer with a callback is told the reason exactly once, in the order of
  their registration, and no other session and no other consumer is touched.\<close>

theorem cdp_detach_notifies:
  fixes reason :: jsval
  assumes "cdp_reachable C m" and "limits_ok (cdp_limits C)"
    and "Option.bind (debuggeeKey source) (map_of (m_sessions m)) = Some r"
  defines "m' \<equiv> handleDetach C source reason m" and "s \<equiv> m_session m r"
    and "why \<equiv> string_of (cdp_platform C) (js_or reason (jstr ''browser_detached''))"
  shows "s_state (m_session m' r) = Detached \<and> s_childSessions (m_session m' r) = []
    \<and> map_of (m_sessions m') (s_tab s) = None
    \<and> m_log m' = m_log m @ map (\<lambda>c. OnDetach c why) (filter (\<lambda>c. c_onDetach (m_consumer m c)) (map snd (s_consumers s)))
    \<and> distinct (map snd (s_consumers s))
    \<and> (\<forall>c\<in>set (map snd (s_consumers s)). \<not> c_active (m_consumer m' c) \<and> c_queue (m_consumer m' c) = [])
    \<and> (\<forall>c. c \<notin> set (map snd (s_consumers s)) \<longrightarrow> m_consumer m' c = m_consumer m c)
    \<and> (\<forall>q. q \<noteq> r \<longrightarrow> m_session m' q = m_session m q)"
proof -
  note inv = cdp_reachable_inv [OF assms(1,2)]
  have key: "(s_tab s, r) \<in> set (m_sessions m)" and r: "r < m_nextSession m"
    using assms(3) map_invI [OF inv] by (auto simp: map_inv_def bind_eq_Some_conv s_def dest!: map_of_SomeD)
  have sess: "session_inv0 C m r" using session_invI [OF inv r] by (simp add: session_inv_def)
  have "inj_on snd (set (s_consumers s))"
  proof (rule inj_onI)
    fix p q assume "p \<in> set (s_consumers s)" "q \<in> set (s_consumers s)" "snd p = snd q"
    then show "p = q"
      using session_members(1) [OF inv r] unfolding s_def by (metis prod.collapse)
  qed
  then have one: "distinct (map snd (s_consumers s))"
    using sess by (simp add: session_inv0_def Let_def s_def distinct_map)
  have free: "map_of (m_sessions m) (s_tab s) = Some r"
    using key map_invI [OF inv] by (simp add: map_inv_def)
  have calls: "map (\<lambda>(_, c). OnDetach c why) (filter (\<lambda>(_, c). c_onDetach (m_consumer m c)) cs)
      = map (\<lambda>c. OnDetach c why) (filter (\<lambda>c. c_onDetach (m_consumer m c)) (map snd cs))" for cs :: "(jsstr \<times> nat) list"
    by (induction cs) auto
  have log_eq: "m_log m' = m_log m @ map (\<lambda>(_, c). OnDetach c why) (filter (\<lambda>(_, c). c_onDetach (m_consumer m c)) (s_consumers s))"
    using assms(3) by (simp add: m'_def handleDetach_def Let_def why_def s_def notifyAndDeactivateConsumers_def issue_def
        put_session_def unmap_session_def deactivateConsumers_def)
  have gone: "map_of (map_delete (s_tab s) (m_sessions m)) (s_tab s) = None"
    by (simp add: map_delete_def map_of_eq_None_iff) force
  have state: "m_session m' = (m_session m)(r := s\<lparr>s_state := Detached, s_consumers := [], s_childConsumerCount := 0,
      s_childSessions := [], s_frameContexts := []\<rparr>)"
    "m_consumer m' = deactivated (s_consumers s) (m_consumer m)" "m_sessions m' = map_delete (s_tab s) (m_sessions m)"
    using assms(3) free by (simp_all add: m'_def handleDetach_def Let_def s_def)
  have over: "\<not> c_active (m_consumer m' c) \<and> c_queue (m_consumer m' c) = []" if "c \<in> set (map snd (s_consumers s))" for c
    using that by (simp add: state deactivated_def deactivate_def)
  have same: "m_consumer m' c = m_consumer m c" if "c \<notin> set (map snd (s_consumers s))" for c
    using that by (simp add: state deactivated_def)
  show ?thesis
    using one gone over same by (simp add: log_eq calls state(1,3) del: set_map)
qed

text \<open>C13: A disposed manager stays disposed and comes to rest: no consumer is active, no session is attached,
  one that still attaches is marked to be closed when the browser answers, and \<open>acquire\<close> throws
  whatever its arguments are.\<close>

theorem cdp_disposed_rests:
  assumes "cdp_reachable C m" and "limits_ok (cdp_limits C)" and "m_disposed m"
  shows "(\<forall>c<m_nextConsumer m. \<not> c_active (m_consumer m c))
    \<and> (\<forall>r<m_nextSession m. s_state (m_session m r) \<noteq> Attached
         \<and> (s_state (m_session m r) = Attaching \<longrightarrow> s_closeRequested (m_session m r) \<noteq> []))
    \<and> (\<forall>e m'. cdp_step C m e m' \<longrightarrow> m_disposed m')
    \<and> acquire_begin C available target options aborted m =
        (Inl (fault CAPABILITY_UNAVAILABLE [Txt ''The CDP session manager is closed'']), m)"
proof -
  note inv = cdp_reachable_inv [OF assms(1,2)]
  have rest: "all_idle m" by (rule disposed_all_idle [OF assms])
  have "s_closeRequested (m_session m r) \<noteq> []" if "r < m_nextSession m" "s_state (m_session m r) = Attaching" for r
    using rest session_invI [OF inv that(1)] that by (simp add: all_idle_def idle_def session_inv_def occupied_def)
  moreover have "m_disposed m'" if "cdp_step C m e m'" for e m'
    using disposed_step(2) [OF that inv assms(2)] rest assms(3) by blast
  ultimately show ?thesis
    using idle_inactive [OF inv rest] rest acquire_begin_closed [OF assms(3)]
    by (auto simp: all_idle_def idle_def)
qed

section \<open>Runs\<close>

definition demo_cdp :: cdp_config where
  "demo_cdp = \<lparr>cdp_limits = \<lparr>maxSessions = 2, maxConsumersPerSession = 3, maxEventsPerConsumer = 2, maxEventBytes = 90,
       maxQueuedEventBytes = 95, maxCommandBytes = 8, maxCommandResultBytes = 8\<rparr>,
     cdp_allowedDomains = [lit ''Log'', lit ''Page''], cdp_supportsFlatSessions = True, cdp_platform = demo_platform\<rparr>"

lemma demo_cdp_limits: "limits_ok (cdp_limits demo_cdp)"
  by code_simp

definition demo_target :: jsval where
  "demo_target = obj [(''tabId'', jnum 7)]"

definition log_options :: "string \<Rightarrow> bool \<Rightarrow> acquire_options" where
  "log_options name children = \<lparr>o_consumerId = jstr name, o_domains = Arr [jstr ''Log''], o_commands = Arr [jstr ''Log.enable''],
     o_events = Arr [jstr ''Log.entryAdded''], o_includeChildTargets = Bool children, o_onEvent = Callback, o_onDetach = Callback\<rparr>"

text \<open>A consumer acquires a session of tab 7.\<close>

definition leased_run :: "event list" where
  "leased_run = [Acquire True demo_target (log_options ''a'' False) False, AttachSettled 0 (Inr ()), AcquireReady 0 False]"

definition run_of :: "event list \<Rightarrow> manager" where
  "run_of es = (case cdp_run demo_cdp es initial_manager of None \<Rightarrow> initial_manager | Some m \<Rightarrow> m)"

lemma run_of_reachable: "cdp_reachable demo_cdp (run_of es)"
  unfolding run_of_def
  by (cases "cdp_run demo_cdp es initial_manager") (auto intro: cdp_reachable.init cdp_run_reachable)

definition demo_event :: jsval where
  "demo_event = jstr ''Log.entryAdded''"

lemma leased_run_facts:
  "let m = run_of leased_run; m' = handleEvent demo_cdp demo_target demo_event Undefined m in
     m_sessions m = [(7, 0)] \<and> s_state (m_session m 0) = Attached \<and> 0 < m_nextSession m \<and> 0 < m_nextConsumer m
     \<and> c_active (m_consumer m 0) \<and> l_acquire (m_lease m 0) = Leased \<and> l_session (m_lease m 0) = 0 \<and> s_tab (m_session m 0) = 7
     \<and> fst (sendCommand_begin demo_cdp 0 (jstr ''Log.enable'') (Obj []) Undefined False m) = Inr ()
     \<and> list_ex (\<lambda>e. e = OnEvent 0 (event_object 7 [] demo_event (Obj [])) 0) (m_log m')
     \<and> \<not> list_ex (\<lambda>e. e = OnEvent 0 (event_object 7 [] demo_event (Obj [])) 0) (m_log m)
     \<and> Option.bind (debuggeeKey demo_target) (map_of (m_sessions m)) = Some 0
     \<and> m_log m @ map (\<lambda>c. OnDetach c (string_of (cdp_platform demo_cdp) (js_or (jstr ''canceled_by_user'') (jstr ''browser_detached''))))
         (filter (\<lambda>c. c_onDetach (m_consumer m c)) (map snd (s_consumers (m_session m 0))))
       = [AttachCall 7, OnDetach 0 (lit ''canceled_by_user'')]"
  by code_simp

theorem cdp_sessions_sound_witness:
  "m_sessions (run_of leased_run) = [(7, 0)] \<and> s_state (m_session (run_of leased_run) 0) = Attached
    \<and> s_consumers (m_session (run_of leased_run) 0) \<noteq> []"
proof -
  have run: "m_sessions (run_of leased_run) = [(7, 0)]" "s_state (m_session (run_of leased_run) 0) = Attached"
    "0 < m_nextSession (run_of leased_run)"
    using leased_run_facts unfolding Let_def by blast+
  with cdp_sessions_sound [OF run_of_reachable demo_cdp_limits] show ?thesis
    unfolding Let_def by blast
qed

theorem cdp_leases_sound_witness:
  "l_acquire (m_lease (run_of leased_run) 0) = Leased \<and> map_of (m_sessions (run_of leased_run)) 7 = Some 0"
proof -
  have run: "0 < m_nextConsumer (run_of leased_run)" "c_active (m_consumer (run_of leased_run) 0)"
    "l_acquire (m_lease (run_of leased_run) 0) = Leased" "l_session (m_lease (run_of leased_run) 0) = 0"
    "s_tab (m_session (run_of leased_run) 0) = 7"
    using leased_run_facts unfolding Let_def by blast+
  from cdp_leases_sound [OF run_of_reachable demo_cdp_limits run(1)] run(2-5) show ?thesis by simp
qed

theorem cdp_commands_confined_witness:
  "\<exists>m'. sendCommand_begin demo_cdp 0 (jstr ''Log.enable'') (Obj []) Undefined False (run_of leased_run) = (Inr (), m')
    \<and> m' = issue [CommandCall 7 [] (lit ''Log.enable'') (Obj [])] (run_of leased_run)"
proof -
  have run: "0 < m_nextConsumer (run_of leased_run)" "l_session (m_lease (run_of leased_run) 0) = 0"
    "s_tab (m_session (run_of leased_run) 0) = 7"
    "fst (sendCommand_begin demo_cdp 0 (jstr ''Log.enable'') (Obj []) Undefined False (run_of leased_run)) = Inr ()"
    "str_of (jstr ''Log.enable'') = lit ''Log.enable''"
    using leased_run_facts unfolding Let_def by (blast, blast, blast, blast, simp)
  then obtain m' where m': "sendCommand_begin demo_cdp 0 (jstr ''Log.enable'') (Obj []) Undefined False (run_of leased_run) = (Inr (), m')"
    by (metis prod.collapse)
  from cdp_commands_confined [OF run_of_reachable demo_cdp_limits run(1) m'] run(2,3,5) show ?thesis
    by (auto simp: m')
qed

theorem cdp_events_confined_witness:
  "\<exists>x n. OnEvent 0 x n \<in> set (m_log (handleEvent demo_cdp demo_target demo_event Undefined (run_of leased_run)))
    \<and> c_active (m_consumer (run_of leased_run) 0) \<and> c_onEvent (m_consumer (run_of leased_run) 0)"
proof -
  let ?m = "run_of leased_run" and ?x = "event_object 7 [] demo_event (Obj [])"
  have run: "list_ex (\<lambda>e. e = OnEvent 0 ?x 0) (m_log (handleEvent demo_cdp demo_target demo_event Undefined ?m))"
    "\<not> list_ex (\<lambda>e. e = OnEvent 0 ?x 0) (m_log ?m)"
    using leased_run_facts unfolding Let_def by blast+
  then have "OnEvent 0 ?x 0 \<in> set (m_log (handleEvent demo_cdp demo_target demo_event Undefined ?m))
      \<and> OnEvent 0 ?x 0 \<notin> set (m_log ?m)"
    by (simp add: list_ex_iff)
  with cdp_events_confined [OF run_of_reachable demo_cdp_limits refl disjI2 [OF this]] show ?thesis by blast
qed

theorem cdp_detach_notifies_witness:
  "s_state (m_session (handleDetach demo_cdp demo_target (jstr ''canceled_by_user'') (run_of leased_run)) 0) = Detached
    \<and> m_log (handleDetach demo_cdp demo_target (jstr ''canceled_by_user'') (run_of leased_run))
        = [AttachCall 7, OnDetach 0 (lit ''canceled_by_user'')]"
proof -
  have run: "Option.bind (debuggeeKey demo_target) (map_of (m_sessions (run_of leased_run))) = Some 0"
    "m_log (run_of leased_run) @ map (\<lambda>c. OnDetach c (string_of (cdp_platform demo_cdp)
        (js_or (jstr ''canceled_by_user'') (jstr ''browser_detached''))))
       (filter (\<lambda>c. c_onDetach (m_consumer (run_of leased_run) c)) (map snd (s_consumers (m_session (run_of leased_run) 0))))
     = [AttachCall 7, OnDetach 0 (lit ''canceled_by_user'')]"
    using leased_run_facts unfolding Let_def by blast+
  from cdp_detach_notifies [OF run_of_reachable demo_cdp_limits run(1), of "jstr ''canceled_by_user''"]
  show ?thesis unfolding run(2) by blast
qed

theorem cdp_disposed_rests_witness:
  "m_disposed (run_of (leased_run @ [Dispose])) \<and> s_state (m_session (run_of (leased_run @ [Dispose])) 0) \<noteq> Attached"
proof -
  have "let m = run_of (leased_run @ [Dispose]) in m_disposed m \<and> 0 < m_nextSession m" by code_simp
  then have run: "m_disposed (run_of (leased_run @ [Dispose]))" "0 < m_nextSession (run_of (leased_run @ [Dispose]))"
    unfolding Let_def by blast+
  from cdp_disposed_rests [OF run_of_reachable demo_cdp_limits run(1)] run show ?thesis by blast
qed

text \<open>Consumer a wants child targets, b does not, and d, who comes last, does. The acquisition of a is
  aborted while the command that switches auto-attach on is under way; d joins that command; when it
  is done, the release of a goes on, and switches auto-attach off without a look at the consumers that
  have come since.\<close>

definition switched_off_run :: "event list" where
  "switched_off_run =
     [Acquire True demo_target (log_options ''a'' True) False, Acquire True demo_target (log_options ''b'' False) False,
      AttachSettled 0 (Inr ()), AcquireReady 0 False, AcquireReady 1 False, AcquireAborted 0,
      Acquire True demo_target (log_options ''d'' True) False, AcquireReady 2 False,
      AutoAttachSettled 0 (Inr ()), ReleaseResume 0, AcquireFinish 2 False, ReleaseResume 0]"

definition auto_attach_lost :: "manager \<Rightarrow> bool" where
  "auto_attach_lost m \<longleftrightarrow> l_acquire (m_lease m 2) = Leased \<and> c_active (m_consumer m 2) \<and> c_includeChildTargets (m_consumer m 2)
    \<and> s_state (m_session m 0) = Attached \<and> s_childConsumerCount (m_session m 0) = 1
    \<and> \<not> s_autoAttachEnabled (m_session m 0) \<and> \<not> s_autoAttachPending (m_session m 0)
    \<and> l_release (m_lease m 0) = NoRelease
    \<and> m_log m = [AttachCall 7, AutoAttachCall 7 [] True, AutoAttachCall 7 [] False]"

lemma switched_off_run_lost: "case cdp_run demo_cdp switched_off_run initial_manager of None \<Rightarrow> False | Some m \<Rightarrow> auto_attach_lost m"
  by code_simp

text \<open>C16: A reachable state in which a consumer that includes child targets holds its lease on an attached
  session, is counted, and auto-attach is off, the last command for it being the one that switched it
  off, with nothing under way that would switch it on.\<close>

theorem cdp_auto_attach_lost:
  "\<exists>m. cdp_reachable demo_cdp m \<and> limits_ok (cdp_limits demo_cdp)
    \<and> l_acquire (m_lease m 2) = Leased \<and> c_active (m_consumer m 2) \<and> c_includeChildTargets (m_consumer m 2)
    \<and> s_state (m_session m 0) = Attached \<and> s_childConsumerCount (m_session m 0) = 1
    \<and> \<not> s_autoAttachEnabled (m_session m 0) \<and> \<not> s_autoAttachPending (m_session m 0)
    \<and> l_release (m_lease m 0) = NoRelease
    \<and> m_log m = [AttachCall 7, AutoAttachCall 7 [] True, AutoAttachCall 7 [] False]"
  using switched_off_run_lost cdp_run_reachable [OF _ cdp_reachable.init] demo_cdp_limits
  by (auto simp: auto_attach_lost_def split: option.splits)

end
