(* ===== verification/Regex.thy ===== *)
theory Regex
  imports Js_Values
begin

text \<open>
  Regular expressions as JavaScript runs them, by backtracking: the matches of a pattern at a place in
  the order in which they are tried. The part of the language that the modelled code uses: classes
  of code units, sequence, alternatives, greedy repetition, \<open>^\<close>, \<open>$\<close>, \<open>\b\<close>, one group, and the flags \<open>i\<close> (on
  ASCII classes) and \<open>g\<close> of \<open>test\<close> and \<open>replace\<close>.
\<close>

section \<open>Patterns\<close>

datatype rx =
    Empty
  | Cls "16 word \<Rightarrow> bool"
  | Then rx rx
  | Or rx rx
  | Many rx
  | Group rx
  | Start
  | Finish
  | Boundary

text \<open>A place in the subject: what precedes it (reversed), what follows, and the text of the group.\<close>

record place =
  behind :: jsstr
  ahead :: jsstr
  group :: jsstr

definition is_word :: "16 word \<Rightarrow> bool" where
  "is_word u \<longleftrightarrow> is_alnum u \<or> u = 0x5F"

definition at_boundary :: "place \<Rightarrow> bool" where
  "at_boundary p \<longleftrightarrow> (behind p \<noteq> [] \<and> is_word (hd (behind p))) \<noteq> (ahead p \<noteq> [] \<and> is_word (hd (ahead p)))"

text \<open>A repetition that would consume nothing is not taken.\<close>

function rx_match :: "rx \<Rightarrow> place \<Rightarrow> place list" where
  "rx_match Empty p = [p]"
| "rx_match (Cls f) p = (case ahead p of
     [] \<Rightarrow> [] | u # s \<Rightarrow> if f u then [p\<lparr>behind := u # behind p, ahead := s\<rparr>] else [])"
| "rx_match (Then r q) p = concat (map (rx_match q) (rx_match r p))"
| "rx_match (Or r q) p = rx_match r p @ rx_match q p"
| "rx_match (Many r) p =
     concat (map (\<lambda>t. if length (ahead t) < length (ahead p) then rx_match (Many r) t else []) (rx_match r p)) @ [p]"
| "rx_match (Group r) p =
     map (\<lambda>t. t\<lparr>group := rev (take (length (behind t) - length (behind p)) (behind t))\<rparr>) (rx_match r p)"
| "rx_match Start p = (if behind p = [] then [p] else [])"
| "rx_match Finish p = (if ahead p = [] then [p] else [])"
| "rx_match Boundary p = (if at_boundary p then [p] else [])"
  by pat_completeness auto
termination
  by (relation "measures [\<lambda>(r, _). size r, \<lambda>(_, p). length (ahead p)]") auto

declare rx_match.simps(5) [simp del]

text \<open>\<open>pattern.test(s)\<close>: a match at the leftmost place that has one.\<close>

fun rx_find :: "rx \<Rightarrow> jsstr \<Rightarrow> jsstr \<Rightarrow> (jsstr \<times> place) option" where
  "rx_find r before s = (case rx_match r \<lparr>behind = before, ahead = s, group = []\<rparr> of
     t # _ \<Rightarrow> Some (before, t)
   | [] \<Rightarrow> (case s of [] \<Rightarrow> None | u # s' \<Rightarrow> rx_find r (u # before) s'))"

declare rx_find.simps [simp del]

definition rx_test :: "rx \<Rightarrow> jsstr \<Rightarrow> bool" where
  "rx_test r s \<longleftrightarrow> rx_find r [] s \<noteq> None"

text \<open>\<open>s.replace(pattern, ...)\<close> with the flag \<open>g\<close>: \<open>new\<close> makes the replacement from the group.\<close>

function rx_replace_from :: "rx \<Rightarrow> (jsstr \<Rightarrow> jsstr) \<Rightarrow> jsstr \<Rightarrow> jsstr \<Rightarrow> jsstr" where
  "rx_replace_from r new before s = (case rx_match r \<lparr>behind = before, ahead = s, group = []\<rparr> of
     t # _ \<Rightarrow>
       if length (ahead t) < length s then new (group t) @ rx_replace_from r new (behind t) (ahead t)
       else new (group t) @ (case s of [] \<Rightarrow> [] | u # s' \<Rightarrow> u # rx_replace_from r new (u # before) s')
   | [] \<Rightarrow> (case s of [] \<Rightarrow> [] | u # s' \<Rightarrow> u # rx_replace_from r new (u # before) s'))"
  by pat_completeness auto
termination
  by (relation "measure (\<lambda>(_, _, _, s). length s)") auto

declare rx_replace_from.simps [simp del]

definition rx_replace :: "rx \<Rightarrow> (jsstr \<Rightarrow> jsstr) \<Rightarrow> jsstr \<Rightarrow> jsstr" where
  "rx_replace r new s = rx_replace_from r new [] s"

section \<open>Building patterns\<close>

text \<open>A literal, and a class, under the flag \<open>i\<close>.\<close>

definition folded :: "(16 word \<Rightarrow> bool) \<Rightarrow> 16 word \<Rightarrow> bool" where
  "folded f u \<longleftrightarrow> f u \<or> f (ascii_lower u) \<or> (is_lower u \<and> f (u - 32))"

definition rx_lit :: "string \<Rightarrow> rx" where
  "rx_lit s = foldr (\<lambda>u. Then (Cls (folded (\<lambda>v. v = u)))) (lit s) Empty"

fun rx_any :: "rx list \<Rightarrow> rx" where
  "rx_any [] = Empty"
| "rx_any [r] = r"
| "rx_any (r # rs) = Or r (rx_any rs)"

definition rx_seq :: "rx list \<Rightarrow> rx" where
  "rx_seq rs = foldr Then rs Empty"

definition rx_opt :: "rx \<Rightarrow> rx" where
  "rx_opt r = Or r Empty"

definition rx_some :: "rx \<Rightarrow> rx" where
  "rx_some r = Then r (Many r)"

definition one_of :: "string \<Rightarrow> 16 word \<Rightarrow> bool" where
  "one_of cs u \<longleftrightarrow> u \<in> set (lit cs)"

definition none_of :: "string \<Rightarrow> 16 word \<Rightarrow> bool" where
  "none_of cs u \<longleftrightarrow> u \<notin> set (lit cs)"

section \<open>Lemmas\<close>

text \<open>A match moves the place forward in the same subject.\<close>

lemma rx_match_ManyD:
  "t \<in> set (rx_match (Many r) p) \<Longrightarrow>
     t = p \<or> (\<exists>s. s \<in> set (rx_match r p) \<and> length (ahead s) < length (ahead p) \<and> t \<in> set (rx_match (Many r) s))"
  by (subst (asm) rx_match.simps(5)) (auto split: if_splits)

lemma rx_match_forward:
  "t \<in> set (rx_match r p) \<Longrightarrow>
     rev (behind t) @ ahead t = rev (behind p) @ ahead p \<and> length (ahead t) \<le> length (ahead p)"
proof (induction r p arbitrary: t rule: rx_match.induct)
  case (3 r q p)
  then show ?case by fastforce
next
  case (5 r p)
  show ?case
    using rx_match_ManyD [OF "5.prems"]
  proof (elim disjE exE conjE)
    fix s assume s: "s \<in> set (rx_match r p)" "length (ahead s) < length (ahead p)" "t \<in> set (rx_match (Many r) s)"
    from "5.IH"(2) [OF s] "5.IH"(1) [OF s(1)] s(2) show ?thesis by simp
  qed simp
next
  case (2 f p)
  then show ?case by (cases "ahead p") (auto split: if_splits)
qed auto

text \<open>Without a match a string stays as it is.\<close>

lemma rx_find_None:
  assumes "rx_find r before s = None"
  shows "rx_match r \<lparr>behind = before, ahead = s, group = []\<rparr> = []" and "s = u # s' \<Longrightarrow> rx_find r (u # before) s' = None"
proof -
  show m: "rx_match r \<lparr>behind = before, ahead = s, group = []\<rparr> = []"
    using assms by (subst (asm) rx_find.simps) (simp split: list.splits)
  show "s = u # s' \<Longrightarrow> rx_find r (u # before) s' = None"
    using assms m by (subst (asm) rx_find.simps) simp
qed

lemma rx_replace_from_id: "rx_find r before s = None \<Longrightarrow> rx_replace_from r new before s = s"
proof (induction s arbitrary: before)
  case Nil
  from rx_find_None(1) [OF this] show ?case by (subst rx_replace_from.simps) simp
next
  case (Cons u s)
  from rx_find_None(1) [OF Cons.prems] rx_find_None(2) [OF Cons.prems refl] Cons.IH show ?case
    by (subst rx_replace_from.simps) simp
qed

lemma rx_replace_id: "\<not> rx_test r s \<Longrightarrow> rx_replace r new s = s"
  unfolding rx_test_def rx_replace_def using rx_replace_from_id by blast


end
