(* ===== verification/Network_Redaction.thy ===== *)
theory Network_Redaction
  imports Regex Json Inspection_Commands "HOL-Library.List_Lexorder"
begin

text \<open>
  What the network capture stores of a request (\<open>chrome-extension/src/handlers/network.js\<close>): bounded
  and redacted strings, URLs, headers, initiators, timings. The set \<open>redactionRules\<close> of the
  capture, a list in the order of insertion, is threaded through.
\<close>

section \<open>Parameters\<close>

text \<open>The platform, and of the URL class: the names of \<open>searchParams\<close> in order, the entries, and \<open>toString\<close>
  after the credentials have been replaced (if the flag is set) and the named parameters set to
  \<open>[REDACTED]\<close>; and \<open>toISOString\<close> of a time in milliseconds.\<close>

record net_platform =
  np :: platform
  searchNames :: "jsstr \<Rightarrow> jsstr list"
  searchEntries :: "jsstr \<Rightarrow> (jsstr \<times> jsstr) list"
  rewriteURL :: "jsstr \<Rightarrow> bool \<Rightarrow> jsstr list \<Rightarrow> jsstr"
  isoDate :: "int \<Rightarrow> jsstr"

type_synonym rules = "jsstr list"

definition add_rule :: "string \<Rightarrow> rules \<Rightarrow> rules" where
  "add_rule r rules = (if lit r \<in> set rules then rules else rules @ [lit r])"

section \<open>Helpers\<close>

text \<open>\<open>[...value].slice(0, n).join("")\<close>: by code points.\<close>

fun take_points :: "nat \<Rightarrow> jsstr \<Rightarrow> jsstr" where
  "take_points n (u # v # s) =
     (case n of 0 \<Rightarrow> [] | Suc m \<Rightarrow>
        if is_high_surrogate u \<and> is_low_surrogate v then u # v # take_points m s else u # take_points m (v # s))"
| "take_points n [u] = (if n = 0 then [] else [u])"
| "take_points n [] = []"

definition boundedString :: "jsval \<Rightarrow> nat \<Rightarrow> jsstr" where
  "boundedString v maximum = (if is_string v then take_points maximum (str_of v) else [])"

definition isObject :: "jsval \<Rightarrow> bool" where
  "isObject v = (case v of Obj _ \<Rightarrow> True | _ \<Rightarrow> False)"

definition members :: "jsval \<Rightarrow> (jsstr \<times> jsval) list" where
  "members v = (case v of Obj ps \<Rightarrow> ps | _ \<Rightarrow> [])"

definition integerBetween :: "jsval \<Rightarrow> rat \<Rightarrow> rat \<Rightarrow> bool" where
  "integerBetween v minimum maximum = (case v of
     Num (Fin r) \<Rightarrow> rat_is_int r \<and> \<bar>r\<bar> \<le> MAX_SAFE_INTEGER \<and> minimum \<le> r \<and> r \<le> maximum | _ \<Rightarrow> False)"

definition boundedNumber :: "jsval \<Rightarrow> rat \<Rightarrow> rat \<Rightarrow> rat" where
  "boundedNumber v minimum maximum = (case v of Num (Fin r) \<Rightarrow> min maximum (max minimum r) | _ \<Rightarrow> minimum)"

definition finiteNumber :: "jsval \<Rightarrow> rat \<Rightarrow> rat" where
  "finiteNumber v fallback = (case v of Num (Fin r) \<Rightarrow> r | _ \<Rightarrow> fallback)"

definition validStatus :: "jsval \<Rightarrow> bool" where
  "validStatus v = integerBetween v 100 599"

definition durationMS :: "rat \<Rightarrow> jsval \<Rightarrow> rat" where
  "durationMS start finish = (case finish of
     Num (Fin e) \<Rightarrow>
       if e < start then 0
       else min 86400000 (fl (of_int \<lfloor>fl (fl (fl (e - start) * 1000) * 1000) + 1/2\<rfloor> / 1000))
   | _ \<Rightarrow> 0)"

text \<open>\<open>Date\<close> keeps the integer part of a time of at most 8.64e15 milliseconds.\<close>

definition wallTimeISO :: "net_platform \<Rightarrow> jsstr \<Rightarrow> jsval \<Rightarrow> jsstr" where
  "wallTimeISO N now v = (case v of
     Num (Fin r) \<Rightarrow> (let t = fl (r * 1000) in
       if \<bar>t\<bar> \<le> 8640000000000000 then isoDate N (if t < 0 then \<lceil>t\<rceil> else \<lfloor>t\<rfloor>) else now)
   | _ \<Rightarrow> now)"

definition RESOURCE_TYPES :: "string list" where
  "RESOURCE_TYPES = [''Document'', ''Stylesheet'', ''Image'', ''Media'', ''Font'', ''Script'', ''TextTrack'', ''XHR'',
     ''Fetch'', ''Prefetch'', ''EventSource'', ''WebSocket'', ''Manifest'', ''SignedExchange'', ''Ping'',
     ''CSPViolationReport'', ''Preflight'', ''Other'']"

definition normalizeResourceType :: "jsval \<Rightarrow> jsval" where
  "normalizeResourceType v = (if js_includes RESOURCE_TYPES v then v else jstr ''Other'')"

section \<open>Media types\<close>

definition mime_unit :: "16 word \<Rightarrow> bool" where
  "mime_unit u \<longleftrightarrow> is_lower u \<or> is_digit u \<or> one_of ''!#$&^_.+-'' u"

definition mime_pattern :: "jsstr \<Rightarrow> bool" where
  "mime_pattern s = (case (takeWhile mime_unit s, dropWhile mime_unit s) of
     (t # _, u # v # w) \<Rightarrow> u = 0x2F \<and> list_all mime_unit (v # w) | _ \<Rightarrow> False)"

definition normalizeMIME :: "platform \<Rightarrow> jsval \<Rightarrow> jsstr" where
  "normalizeMIME P v =
     (let mediaType = toLowerCase P (trim (takeWhile (\<lambda>u. u \<noteq> 0x3B) (boundedString v 256)))
      in if mime_pattern mediaType then mediaType else [])"

definition ends_with :: "jsstr \<Rightarrow> jsstr \<Rightarrow> bool" where
  "ends_with s t \<longleftrightarrow> suffix t s"

definition isJSONMIME :: "platform \<Rightarrow> jsval \<Rightarrow> bool" where
  "isJSONMIME P v \<longleftrightarrow> (let m = normalizeMIME P v in m = lit ''application/json'' \<or> ends_with m (lit ''+json''))"

definition allowedBodyMIME :: "platform \<Rightarrow> jsval \<Rightarrow> bool" where
  "allowedBodyMIME P v \<longleftrightarrow> (let m = normalizeMIME P v in
     prefix (lit ''text/'') m \<or> isJSONMIME P (Str m)
     \<or> m \<in> set (map lit [''application/xml'', ''application/xhtml+xml'', ''application/javascript'',
          ''application/x-www-form-urlencoded'', ''image/svg+xml'']))"

definition contentType :: "platform \<Rightarrow> jsval \<Rightarrow> jsstr" where
  "contentType P headers =
     (case find (\<lambda>(name, v). toLowerCase P name = lit ''content-type'' \<and> is_string v) (members headers) of
        None \<Rightarrow> [] | Some (_, v) \<Rightarrow> normalizeMIME P v)"

section \<open>Redaction\<close>

text \<open>\<open>[-_ ]?\<close> and \<open>[-_]?\<close>.\<close>

definition rx_gap :: "string \<Rightarrow> rx" where
  "rx_gap cs = rx_opt (Cls (one_of cs))"

definition SENSITIVE_NAME :: rx where
  "SENSITIVE_NAME = rx_any [rx_lit ''password'', rx_lit ''passwd'', rx_lit ''passphrase'', rx_lit ''secret'', rx_lit ''token'',
     rx_lit ''credential'', rx_lit ''authorization'', rx_lit ''cookie'', rx_seq [rx_lit ''api'', rx_gap ''-_ '', rx_lit ''key''],
     rx_seq [rx_lit ''access'', rx_gap ''-_ '', rx_lit ''token''], rx_seq [rx_lit ''refresh'', rx_gap ''-_ '', rx_lit ''token'']]"

definition SENSITIVE_HEADER :: rx where
  "SENSITIVE_HEADER = rx_seq [Start, rx_any (map rx_lit [''authorization'', ''proxy-authorization'', ''cookie'', ''set-cookie'',
     ''set-cookie2'']), Finish]"

definition rx_secret_words :: rx where
  "rx_secret_words = rx_any [rx_lit ''password'', rx_lit ''passwd'', rx_lit ''passphrase'', rx_lit ''secret'', rx_lit ''token'',
     rx_lit ''credential'', rx_seq [rx_lit ''api'', rx_gap ''-_'', rx_lit ''key''],
     rx_seq [rx_lit ''access'', rx_gap ''-_'', rx_lit ''token''], rx_seq [rx_lit ''refresh'', rx_gap ''-_'', rx_lit ''token'']]"

definition redacted :: jsstr where
  "redacted = lit ''[REDACTED]''"

definition text_replacements :: "(rx \<times> (jsstr \<Rightarrow> jsstr) \<times> string) list" where
  "text_replacements =
    [(rx_seq [Boundary, rx_lit ''bearer'', rx_some (Cls is_space), rx_some (Cls (\<lambda>u. is_alnum u \<or> one_of ''._~+/=-'' u))],
       \<lambda>_. lit ''Bearer '' @ redacted, ''authorization''),
     (rx_seq [Group (rx_seq [Boundary, rx_opt (rx_lit ''set-''), rx_lit ''cookie'', Many (Cls is_space), rx_lit '':'', Many (Cls is_space)]),
        rx_some (Cls (\<lambda>u. u \<noteq> 13 \<and> u \<noteq> 10))], \<lambda>g. g @ redacted, ''authorization-cookies''),
     (rx_seq [Group (rx_seq [Boundary, rx_secret_words, Boundary, Many (Cls is_space), Cls (one_of '':=''), Many (Cls is_space)]),
        rx_some (Cls (\<lambda>u. none_of '',;&'' u \<and> \<not> is_space u))], \<lambda>g. g @ redacted, ''body-fields''),
     (rx_seq [Group (rx_seq [Cls (one_of ''?&#''), rx_secret_words, rx_lit ''='']), Many (Cls (\<lambda>u. none_of ''&#'' u \<and> \<not> is_space u))],
       \<lambda>g. g @ redacted, ''query-tokens'')]"

definition redactText :: "jsstr \<Rightarrow> rules \<Rightarrow> jsstr \<times> rules" where
  "redactText s rules =
     fold (\<lambda>(pattern, new, rule) (result, rules).
        if rx_test pattern result then (rx_replace pattern new result, add_rule rule rules) else (result, rules))
       text_replacements (s, rules)"

definition redactURL :: "net_platform \<Rightarrow> jsstr \<Rightarrow> rules \<Rightarrow> jsstr \<times> rules" where
  "redactURL N s rules =
     (if s = [] then ([], rules)
      else case parseURL (np N) (Str s) of
        None \<Rightarrow> redactText (take_points 8000 s) rules
      | Some u \<Rightarrow>
          (let credentials = (url_username u \<noteq> [] \<or> url_password u \<noteq> []);
               names = filter (rx_test SENSITIVE_NAME) (searchNames N s);
               rules1 = (if credentials then add_rule ''authorization'' rules else rules);
               rules2 = (if names \<noteq> [] then add_rule ''query-tokens'' rules1 else rules1)
           in (take_points 8000 (rewriteURL N s credentials names), rules2)))"

text \<open>Assigning a string to \<open>__proto__\<close> of a plain object has no effect.\<close>

definition set_member :: "jsstr \<Rightarrow> jsval \<Rightarrow> (jsstr \<times> jsval) list \<Rightarrow> (jsstr \<times> jsval) list" where
  "set_member k v ps = (if k = lit ''__proto__'' then ps else assoc_set k v ps)"

definition normalize_header :: "net_platform \<Rightarrow> jsval \<Rightarrow> jsstr \<Rightarrow> (jsstr \<times> jsval) list \<times> rules \<Rightarrow> (jsstr \<times> jsval) list \<times> rules" where
  "normalize_header N headers name = (\<lambda>(result, rules).
     let safeName = take_points 256 name;
         given = (case map_of (members headers) name of None \<Rightarrow> Undefined | Some v \<Rightarrow> v);
         raw = (if is_string given then str_of given else string_of (np N) (if nullish given then Str [] else given))
     in if safeName = [] then (result, rules)
        else if rx_test SENSITIVE_HEADER safeName \<or> rx_test SENSITIVE_NAME safeName then
          (set_member safeName (Str redacted) result,
           add_rule (if rx_test SENSITIVE_HEADER safeName then ''authorization-cookies'' else ''header-fields'') rules)
        else case redactText (take_points 4000 raw) rules of
          (s, rules1) \<Rightarrow> (set_member safeName (Str s) result, rules1))"

text \<open>\<open>String(value)\<close> throws for an object with a member \<open>toString\<close> of its own, which in JSON data is no function:
  the inherited \<open>valueOf\<close> returns the object itself.\<close>

fun string_throws :: "jsval \<Rightarrow> bool" where
  "string_throws (Obj ps) \<longleftrightarrow> list_ex (\<lambda>(k, _). k = lit ''toString'') ps"
| "string_throws (Arr vs) \<longleftrightarrow> list_ex string_throws vs"
| "string_throws _ \<longleftrightarrow> False"

text \<open>The name at which the loop of \<open>normalizeHeaders\<close> throws; the rules of the names before it have been added.\<close>

definition header_throws :: "jsval \<Rightarrow> jsstr \<Rightarrow> bool" where
  "header_throws headers name \<longleftrightarrow> take_points 256 name \<noteq> []
     \<and> string_throws (case map_of (members headers) name of None \<Rightarrow> Undefined | Some v \<Rightarrow> v)"

definition header_names :: "jsval \<Rightarrow> jsstr list" where
  "header_names headers = take 64 (sort (object_keys headers))"

definition headers_throw :: "jsval \<Rightarrow> bool" where
  "headers_throw headers \<longleftrightarrow> isObject headers \<and> list_ex (header_throws headers) (header_names headers)"

definition normalizeHeaders :: "net_platform \<Rightarrow> jsval \<Rightarrow> rules \<Rightarrow> jsval \<times> rules" where
  "normalizeHeaders N headers rules =
     (if \<not> isObject headers then (Obj [], rules)
      else case fold (normalize_header N headers) (takeWhile (\<lambda>name. \<not> header_throws headers name) (header_names headers)) ([], rules) of
        (result, rules1) \<Rightarrow> (Obj result, rules1))"

definition frame_entry :: "net_platform \<Rightarrow> jsval \<Rightarrow> jsval list \<times> rules \<Rightarrow> jsval list \<times> rules" where
  "frame_entry N frame = (\<lambda>(result, rules).
     case redactURL N (boundedString (getp frame ''url'') 4000) rules of (url, rules1) \<Rightarrow>
       (result @ [obj [(''functionName'', Str (boundedString (getp frame ''functionName'') 200)), (''url'', Str url),
          (''line'', if integerBetween (getp frame ''lineNumber'') 0 1000000000 then getp frame ''lineNumber'' else jnum 0),
          (''column'', if integerBetween (getp frame ''columnNumber'') 0 1000000000 then getp frame ''columnNumber'' else jnum 0)]],
        rules1))"

definition normalizeInitiator :: "net_platform \<Rightarrow> jsval \<Rightarrow> rules \<Rightarrow> jsval \<times> rules" where
  "normalizeInitiator N v rules =
     (if \<not> isObject v then (obj [(''type'', jstr ''other'')], rules)
      else
        let kind = boundedString (getp v ''type'') 100;
            (url, rules1) = (if truthy (getp v ''url'')
              then (case redactURL N (boundedString (getp v ''url'') 4000) rules of (u, rs) \<Rightarrow> ([(''url'', Str u)], rs))
              else ([], rules));
            frames = elems (getp (getp v ''stack'') ''callFrames'');
            (stack, rules2) = (if frames = [] then ([], rules1)
              else (case fold (frame_entry N) (take 10 frames) ([], rules1) of (fs, rs) \<Rightarrow> ([(''stack'', Arr fs)], rs)))
        in (obj ([(''type'', Str (if kind = [] then lit ''other'' else kind))] @ url
              @ (if integerBetween (getp v ''lineNumber'') 0 1000000000 then [(''line'', getp v ''lineNumber'')] else [])
              @ (if integerBetween (getp v ''columnNumber'') 0 1000000000 then [(''column'', getp v ''columnNumber'')] else [])
              @ stack), rules2))"

definition timing_names :: "string list" where
  "timing_names = [''proxyStart'', ''proxyEnd'', ''dnsStart'', ''dnsEnd'', ''connectStart'', ''connectEnd'', ''sslStart'',
     ''sslEnd'', ''workerStart'', ''workerReady'', ''sendStart'', ''sendEnd'', ''pushStart'', ''pushEnd'',
     ''receiveHeadersStart'', ''receiveHeadersEnd'']"

definition normalizeTiming :: "jsval \<Rightarrow> jsval" where
  "normalizeTiming v =
     (if \<not> isObject v then Obj []
      else obj (map (\<lambda>name. (name, getp v name)) (filter (\<lambda>name. case getp v name of
        Num (Fin r) \<Rightarrow> - 1 \<le> r \<and> r \<le> 86400000 | _ \<Rightarrow> False) timing_names)))"

end
