(* ===== verification/Network_Buffer.thy ===== *)
theory Network_Buffer
  imports Network_Redaction
begin

text \<open>
  The buffer of a network capture (\<open>chrome-extension/src/handlers/network.js\<close>): the entries, the maps by
  which events find them, the extra information that arrives before its request, and eviction. The
  entries are shared mutable objects; their reference is the number they were given.
\<close>

section \<open>State\<close>

definition MAX_BUFFER_BYTES :: int where "MAX_BUFFER_BYTES = 2000000"
definition MAX_ENTRY_BYTES :: int where "MAX_ENTRY_BYTES = 32 * 1024"
definition MAX_PENDING_EXTRA_EVENTS :: int where "MAX_PENDING_EXTRA_EVENTS = 64"
definition MAX_PENDING_EXTRA_BYTES :: int where "MAX_PENDING_EXTRA_BYTES = 256 * 1024"

lemma limits_nonneg [simp]: "0 \<le> MAX_BUFFER_BYTES" "\<not> MAX_BUFFER_BYTES < 0"
  "0 \<le> MAX_PENDING_EXTRA_EVENTS" "0 \<le> MAX_PENDING_EXTRA_BYTES"
  by (simp_all add: MAX_BUFFER_BYTES_def MAX_PENDING_EXTRA_EVENTS_def MAX_PENDING_EXTRA_BYTES_def)

type_synonym properties = "(jsstr \<times> jsval) list"

record net_record =
  n_requestId :: jsstr
  n_sameOrigin :: bool
  n_hasPostData :: bool
  n_redirect :: bool
  n_requestExtra :: bool
  n_responseExtra :: bool
  n_requestMIME :: jsstr
  n_responseMIME :: jsstr
  n_monotonicStart :: rat
  n_public :: properties
  n_bytes :: nat

record extra =
  x_headers :: jsval
  x_mimeType :: jsstr
  x_status :: rat
  x_truncated :: bool

datatype side = Request | Response

record capture =
  nc_tabId :: int
  nc_documentId :: jsstr
  nc_origin :: jsstr
  nc_maxEntries :: nat
  nc_createdAt :: rat
  nc_expiresAt :: "rat option"
  nc_active :: bool
  nc_lease :: "nat option"
  nc_entries :: "nat list"
  nc_record :: "nat \<Rightarrow> net_record"
  nc_byEntryId :: "(jsstr \<times> nat) list"
  nc_current :: "(jsstr \<times> nat) list"
  nc_records :: "(jsstr \<times> nat list) list"
  nc_pendingRequest :: "(jsstr \<times> (extra \<times> nat) list) list"
  nc_pendingResponse :: "(jsstr \<times> (extra \<times> nat) list) list"
  nc_pendingEvents :: int
  nc_pendingBytes :: int
  nc_nextSequence :: nat
  nc_bufferedBytes :: int
  nc_evicted :: nat
  nc_droppedEvents :: nat
  nc_rules :: rules

definition blank_record :: net_record where
  "blank_record = \<lparr>n_requestId = [], n_sameOrigin = False, n_hasPostData = False, n_redirect = False,
     n_requestExtra = False, n_responseExtra = False, n_requestMIME = [], n_responseMIME = [], n_monotonicStart = 0,
     n_public = [], n_bytes = 0\<rparr>"

definition createCapture :: "int \<Rightarrow> jsstr \<Rightarrow> jsstr \<Rightarrow> nat \<Rightarrow> rat \<Rightarrow> capture" where
  "createCapture tabId documentId origin maxEntries now = \<lparr>nc_tabId = tabId, nc_documentId = documentId,
     nc_origin = origin, nc_maxEntries = maxEntries, nc_createdAt = now, nc_expiresAt = None, nc_active = True,
     nc_lease = None, nc_entries = [], nc_record = (\<lambda>_. blank_record), nc_byEntryId = [], nc_current = [], nc_records = [],
     nc_pendingRequest = [], nc_pendingResponse = [], nc_pendingEvents = 0, nc_pendingBytes = 0, nc_nextSequence = 1,
     nc_bufferedBytes = 0, nc_evicted = 0, nc_droppedEvents = 0, nc_rules = []\<rparr>"

section \<open>Entries\<close>

definition pub :: "string \<Rightarrow> properties \<Rightarrow> jsval" where
  "pub k ps = getp (Obj ps) k"

definition set_pub :: "string \<Rightarrow> jsval \<Rightarrow> properties \<Rightarrow> properties" where
  "set_pub k v ps = assoc_set (lit k) v ps"

text \<open>\<open>byteLength(value)\<close> of an object.\<close>

definition byteLength :: "net_platform \<Rightarrow> jsval \<Rightarrow> nat" where
  "byteLength N v = jsonByteLength (np N) v"

text \<open>\<open>record.public.entryId\<close> is the decimal of the reference and never changes.\<close>

definition entry_key :: "nat \<Rightarrow> jsstr" where
  "entry_key r = show_nat r"

definition without :: "string \<Rightarrow> jsval \<Rightarrow> jsval" where
  "without k v = (case v of Obj ps \<Rightarrow> Obj (filter (\<lambda>(l, _). l \<noteq> lit k) ps) | _ \<Rightarrow> v)"

text \<open>The two stages of \<open>boundPublicEntry\<close>.\<close>

definition strip_entry :: "properties \<Rightarrow> properties" where
  "strip_entry ps =
     (let ps1 = set_pub ''responseHeaders'' (Obj []) (set_pub ''requestHeaders'' (Obj []) ps);
          ps2 = (if truthy (getp (pub ''initiator'' ps1) ''stack'')
                 then set_pub ''initiator'' (without ''stack'' (pub ''initiator'' ps1)) ps1 else ps1);
          ps3 = set_pub ''truncated'' (Bool True) ps2;
          ps4 = set_pub ''url'' (Str (boundedString (pub ''url'' ps3) 4000)) ps3
      in set_pub ''documentUrl'' (Str (boundedString (pub ''documentUrl'' ps4) 4000)) ps4)"

definition strip_details :: "properties \<Rightarrow> properties" where
  "strip_details ps =
     (let ps1 = set_pub ''initiator'' (obj [(''type'', Str (boundedString (getp (pub ''initiator'' ps) ''type'') 100))]) ps
      in set_pub ''errorText'' (Str (boundedString (pub ''errorText'' ps1) 1000)) ps1)"

definition boundPublicEntry :: "net_platform \<Rightarrow> properties \<Rightarrow> properties" where
  "boundPublicEntry N ps =
     (if int (byteLength N (Obj ps)) \<le> MAX_ENTRY_BYTES then ps
      else let ps1 = strip_entry ps in if int (byteLength N (Obj ps1)) > MAX_ENTRY_BYTES then strip_details ps1 else ps1)"

definition updateBodyAvailability :: "platform \<Rightarrow> net_record \<Rightarrow> net_record" where
  "updateBodyAvailability P r =
     (let ps1 = set_pub ''requestBodyAvailable'' (Bool (\<not> n_redirect r \<and> n_hasPostData r \<and> n_sameOrigin r
            \<and> allowedBodyMIME P (Str (n_requestMIME r)))) (n_public r)
      in r\<lparr>n_public := set_pub ''responseBodyAvailable'' (Bool (truthy (pub ''completed'' ps1) \<and> \<not> n_redirect r
            \<and> \<not> truthy (pub ''failed'' ps1) \<and> n_sameOrigin r \<and> allowedBodyMIME P (Str (n_responseMIME r)))) ps1\<rparr>)"

text \<open>Whether \<open>applyResponse\<close> throws, and the record and the rules it leaves behind.\<close>

definition response_throws :: "jsval \<Rightarrow> bool" where
  "response_throws response \<longleftrightarrow> isObject response \<and> headers_throw (getp response ''headers'')"

definition applyResponse :: "net_platform \<Rightarrow> jsval \<Rightarrow> jsval \<Rightarrow> net_record \<Rightarrow> rules \<Rightarrow> net_record \<times> rules" where
  "applyResponse N response resourceType r rules =
     (if \<not> isObject response then (r, rules)
      else
        let ps1 = set_pub ''resourceType'' (normalizeResourceType (js_or resourceType (pub ''resourceType'' (n_public r)))) (n_public r);
            ps2 = (if validStatus (getp response ''status'') then set_pub ''status'' (getp response ''status'') ps1 else ps1);
            ps3 = set_pub ''statusText'' (Str (boundedString (getp response ''statusText'') 500)) ps2;
            ps4 = set_pub ''protocol'' (Str (boundedString (getp response ''protocol'') 50)) ps3;
            (headers, rules1) = normalizeHeaders N (getp response ''headers'') rules;
            ps5 = set_pub ''responseHeaders'' headers ps4;
            given = contentType (np N) (getp response ''headers'');
            mime = normalizeMIME (np N) (Str (if given = [] then boundedString (getp response ''mimeType'') 256 else given));
            ps6 = set_pub ''mimeType'' (Str mime) ps5;
            ps7 = set_pub ''remoteIPAddress'' (Str (boundedString (getp response ''remoteIPAddress'') 100)) ps6;
            ps8 = set_pub ''remotePort'' (if integerBetween (getp response ''remotePort'') 0 65535
                    then getp response ''remotePort'' else jnum 0) ps7;
            ps9 = set_pub ''fromCache'' (Bool (truthy (getp response ''fromDiskCache'')
                    \<or> truthy (getp response ''fromPrefetchCache'') \<or> truthy (getp response ''fromServiceWorker''))) ps8;
            ps10 = set_pub ''encodedDataLength'' (jnum (boundedNumber (getp response ''encodedDataLength'') 0 (10 ^ 15))) ps9;
            ps11 = set_pub ''timing'' (normalizeTiming (getp response ''timing'')) ps10
        in if headers_throw (getp response ''headers'') then (r\<lparr>n_public := ps4\<rparr>, rules1)
           else (updateBodyAvailability (np N) (r\<lparr>n_responseMIME := mime, n_public := ps11\<rparr>), rules1))"

text \<open>\<open>finishRecord\<close> and \<open>failRecord\<close>; \<open>now\<close> is the current time as text.\<close>

definition finishRecord :: "net_platform \<Rightarrow> jsstr \<Rightarrow> jsval \<Rightarrow> bool \<Rightarrow> net_record \<Rightarrow> net_record" where
  "finishRecord N now params redirect r =
     (let ps1 = set_pub ''completed'' (Bool True) (n_public r);
          ps2 = set_pub ''finishedAt'' (Str now) ps1;
          ps3 = set_pub ''durationMs'' (jnum (durationMS (n_monotonicStart r) (getp params ''timestamp''))) ps2;
          ps4 = (if is_finite (getp params ''encodedDataLength'')
                 then set_pub ''encodedDataLength'' (jnum (boundedNumber (getp params ''encodedDataLength'') 0 (10 ^ 15))) ps3 else ps3)
      in updateBodyAvailability (np N) (r\<lparr>n_redirect := redirect, n_public := ps4\<rparr>))"

definition failRecord :: "net_platform \<Rightarrow> jsstr \<Rightarrow> jsval \<Rightarrow> net_record \<Rightarrow> rules \<Rightarrow> net_record \<times> rules" where
  "failRecord N now params r rules =
     (let ps1 = set_pub ''failed'' (Bool True) (set_pub ''completed'' (Bool True) (n_public r));
          ps2 = set_pub ''finishedAt'' (Str now) ps1;
          ps3 = set_pub ''durationMs'' (jnum (durationMS (n_monotonicStart r) (getp params ''timestamp''))) ps2;
          (error, rules1) = redactText (boundedString (getp params ''errorText'') 2000) rules;
          ps4 = set_pub ''errorText'' (Str error) ps3;
          ps5 = set_pub ''canceled'' (Bool (truthy (getp params ''canceled''))) ps4;
          ps6 = set_pub ''blockedReason'' (Str (boundedString (getp params ''blockedReason'') 100)) ps5
      in (updateBodyAvailability (np N) (r\<lparr>n_public := ps6\<rparr>), rules1))"

section \<open>The buffer\<close>

text \<open>The body of the loop of \<open>evictCapture\<close>, after \<open>shift()\<close> has returned the entry \<open>r\<close>.\<close>

definition drop_entry :: "nat \<Rightarrow> nat list \<Rightarrow> capture \<Rightarrow> capture" where
  "drop_entry r rest c =
     (let request = n_requestId (nc_record c r);
          remaining = filter (\<lambda>q. q \<noteq> r) (case map_of (nc_records c) request of None \<Rightarrow> [] | Some rs \<Rightarrow> rs)
      in c\<lparr>nc_entries := rest, nc_bufferedBytes := nc_bufferedBytes c - int (n_bytes (nc_record c r)),
           nc_byEntryId := filter (\<lambda>(k, _). k \<noteq> entry_key r) (nc_byEntryId c),
           nc_current := (if map_of (nc_current c) request = Some r then filter (\<lambda>(k, _). k \<noteq> request) (nc_current c)
                          else nc_current c),
           nc_records := (if remaining \<noteq> [] then assoc_set request remaining (nc_records c)
                          else filter (\<lambda>(k, _). k \<noteq> request) (nc_records c)),
           nc_evicted := Suc (nc_evicted c)\<rparr>)"

function evictCapture :: "capture \<Rightarrow> capture" where
  "evictCapture c =
     (if length (nc_entries c) > nc_maxEntries c \<or> nc_bufferedBytes c > MAX_BUFFER_BYTES
      then (case nc_entries c of [] \<Rightarrow> c | r # rest \<Rightarrow> evictCapture (drop_entry r rest c)) else c)"
  by pat_completeness auto
termination
  by (relation "measure (\<lambda>c. length (nc_entries c))") (auto simp: drop_entry_def Let_def)

declare evictCapture.simps [simp del]

definition put_record :: "nat \<Rightarrow> net_record \<Rightarrow> capture \<Rightarrow> capture" where
  "put_record r e c = c\<lparr>nc_record := (nc_record c)(r := e)\<rparr>"

definition updateRecord :: "net_platform \<Rightarrow> nat \<Rightarrow> capture \<Rightarrow> capture" where
  "updateRecord N r c =
     (let e = nc_record c r; ps = boundPublicEntry N (n_public e); bytes = byteLength N (Obj ps)
      in evictCapture ((put_record r (e\<lparr>n_public := ps, n_bytes := bytes\<rparr>) c)
           \<lparr>nc_bufferedBytes := nc_bufferedBytes c - int (n_bytes e) + int bytes\<rparr>))"

text \<open>The \<open>catch\<close> of \<open>handleNetworkEvent\<close>: what was changed before the exception stays changed.\<close>

definition caught :: "capture \<Rightarrow> capture" where
  "caught c = c\<lparr>nc_droppedEvents := Suc (nc_droppedEvents c)\<rparr>"

text \<open>\<open>updateCurrent\<close>; the change also takes and gives the redaction rules, and the flag says that it throws.\<close>

definition updateCurrent ::
    "net_platform \<Rightarrow> jsstr \<Rightarrow> bool \<Rightarrow> (net_record \<Rightarrow> rules \<Rightarrow> net_record \<times> rules) \<Rightarrow> capture \<Rightarrow> capture" where
  "updateCurrent N requestId throws mutate c =
     (case map_of (nc_current c) requestId of
        None \<Rightarrow> c
      | Some r \<Rightarrow> (case mutate (nc_record c r) (nc_rules c) of
          (e, rules) \<Rightarrow> (if throws then caught else updateRecord N r) ((put_record r e c)\<lparr>nc_rules := rules\<rparr>)))"

section \<open>Extra information\<close>

definition normalizeExtraInfo :: "net_platform \<Rightarrow> side \<Rightarrow> jsval \<Rightarrow> rules \<Rightarrow> extra \<times> rules" where
  "normalizeExtraInfo N kind params rules =
     (case normalizeHeaders N (getp params ''headers'') rules of (headers, rules1) \<Rightarrow>
        let truncated = (int (byteLength N headers) > MAX_ENTRY_BYTES)
        in (\<lparr>x_headers = (if truncated then Obj [] else headers), x_mimeType = contentType (np N) (getp params ''headers''),
             x_status = (if kind = Response \<and> validStatus (getp params ''statusCode'') then finiteNumber (getp params ''statusCode'') 0 else 0),
             x_truncated = truncated\<rparr>, rules1))"

definition extra_object :: "extra \<Rightarrow> jsval" where
  "extra_object x = obj [(''headers'', x_headers x), (''mimeType'', Str (x_mimeType x)), (''status'', jnum (x_status x)),
     (''truncated'', Bool (x_truncated x))]"

definition extra_applied :: "side \<Rightarrow> net_record \<Rightarrow> bool" where
  "extra_applied kind e = (case kind of Request \<Rightarrow> n_requestExtra e | Response \<Rightarrow> n_responseExtra e)"

definition nextExtraRecord :: "capture \<Rightarrow> jsstr \<Rightarrow> side \<Rightarrow> nat option" where
  "nextExtraRecord c requestId kind =
     find (\<lambda>r. \<not> extra_applied kind (nc_record c r)) (case map_of (nc_records c) requestId of None \<Rightarrow> [] | Some rs \<Rightarrow> rs)"

definition pending :: "side \<Rightarrow> capture \<Rightarrow> (jsstr \<times> (extra \<times> nat) list) list" where
  "pending kind c = (case kind of Request \<Rightarrow> nc_pendingRequest c | Response \<Rightarrow> nc_pendingResponse c)"

definition set_pending :: "side \<Rightarrow> (jsstr \<times> (extra \<times> nat) list) list \<Rightarrow> capture \<Rightarrow> capture" where
  "set_pending kind m c = (case kind of Request \<Rightarrow> c\<lparr>nc_pendingRequest := m\<rparr> | Response \<Rightarrow> c\<lparr>nc_pendingResponse := m\<rparr>)"

definition queuePendingExtra :: "net_platform \<Rightarrow> jsstr \<Rightarrow> side \<Rightarrow> extra \<Rightarrow> capture \<Rightarrow> capture" where
  "queuePendingExtra N requestId kind x c =
     (let extras = (case map_of (pending kind c) requestId of None \<Rightarrow> [] | Some xs \<Rightarrow> xs); bytes = byteLength N (extra_object x)
      in if nc_pendingEvents c \<ge> MAX_PENDING_EXTRA_EVENTS \<or> nc_pendingBytes c + int bytes > MAX_PENDING_EXTRA_BYTES
         then c\<lparr>nc_droppedEvents := Suc (nc_droppedEvents c)\<rparr>
         else (set_pending kind (assoc_set requestId (extras @ [(x, bytes)]) (pending kind c)) c)
                \<lparr>nc_pendingEvents := nc_pendingEvents c + 1, nc_pendingBytes := nc_pendingBytes c + int bytes\<rparr>)"

definition apply_extra :: "platform \<Rightarrow> side \<Rightarrow> extra \<Rightarrow> net_record \<Rightarrow> net_record" where
  "apply_extra P kind x e =
     (let e1 = (case kind of
            Request \<Rightarrow> e\<lparr>n_requestExtra := True, n_public := set_pub ''requestHeaders'' (x_headers x) (n_public e),
              n_requestMIME := (if x_mimeType x \<noteq> [] then x_mimeType x else n_requestMIME e)\<rparr>
          | Response \<Rightarrow>
              (let mime = (if x_mimeType x \<noteq> [] then x_mimeType x else n_responseMIME e);
                   ps1 = set_pub ''mimeType'' (Str mime) (set_pub ''responseHeaders'' (x_headers x) (n_public e))
               in e\<lparr>n_responseExtra := True, n_responseMIME := mime,
                    n_public := (if x_status x \<noteq> 0 then set_pub ''status'' (jnum (x_status x)) ps1 else ps1)\<rparr>));
          e2 = (if x_truncated x then e1\<lparr>n_public := set_pub ''truncated'' (Bool True) (n_public e1)\<rparr> else e1)
      in updateBodyAvailability P e2)"

definition applyNormalizedExtra :: "net_platform \<Rightarrow> nat \<Rightarrow> side \<Rightarrow> extra \<Rightarrow> capture \<Rightarrow> capture" where
  "applyNormalizedExtra N r kind x c = updateRecord N r (put_record r (apply_extra (np N) kind x (nc_record c r)) c)"

definition applyExtraInfo :: "net_platform \<Rightarrow> jsstr \<Rightarrow> side \<Rightarrow> jsval \<Rightarrow> capture \<Rightarrow> capture" where
  "applyExtraInfo N requestId kind params c =
     (case normalizeExtraInfo N kind params (nc_rules c) of (x, rules) \<Rightarrow>
        let c1 = c\<lparr>nc_rules := rules\<rparr> in if headers_throw (getp params ''headers'') then caught c1
        else case nextExtraRecord c1 requestId kind of
          None \<Rightarrow> queuePendingExtra N requestId kind x c1
        | Some r \<Rightarrow> applyNormalizedExtra N r kind x c1)"

text \<open>The loop of \<open>drainPendingExtra\<close> over the array of the request: what is left of it.\<close>

fun drain_extras :: "net_platform \<Rightarrow> jsstr \<Rightarrow> side \<Rightarrow> (extra \<times> nat) list \<Rightarrow> capture \<Rightarrow> (extra \<times> nat) list \<times> capture" where
  "drain_extras N requestId kind [] c = ([], c)"
| "drain_extras N requestId kind ((x, bytes) # xs) c =
     (case nextExtraRecord c requestId kind of
        None \<Rightarrow> ((x, bytes) # xs, c)
      | Some r \<Rightarrow> drain_extras N requestId kind xs (applyNormalizedExtra N r kind x
          (c\<lparr>nc_pendingEvents := nc_pendingEvents c - 1, nc_pendingBytes := nc_pendingBytes c - int bytes\<rparr>)))"

definition drainPendingExtra :: "net_platform \<Rightarrow> jsstr \<Rightarrow> side \<Rightarrow> capture \<Rightarrow> capture" where
  "drainPendingExtra N requestId kind c =
     (case map_of (pending kind c) requestId of
        None \<Rightarrow> c
      | Some extras \<Rightarrow> (case drain_extras N requestId kind extras c of
          (rest, c1) \<Rightarrow> set_pending kind (if rest = [] then filter (\<lambda>(k, _). k \<noteq> requestId) (pending kind c1)
                           else assoc_set requestId rest (pending kind c1)) c1))"

section \<open>Events\<close>

definition sameOrigin :: "platform \<Rightarrow> jsstr \<Rightarrow> jsstr \<Rightarrow> bool" where
  "sameOrigin P s origin = (case parseURL P (Str s) of None \<Rightarrow> False | Some u \<Rightarrow> url_origin u = origin)"

text \<open>The response that redirects, applied to the request before: its number, and the capture.\<close>

definition finish_redirect :: "net_platform \<Rightarrow> jsstr \<Rightarrow> jsval \<Rightarrow> nat option \<Rightarrow> capture \<Rightarrow> nat option \<times> capture" where
  "finish_redirect N now params previous c =
     (case previous of
        Some p \<Rightarrow>
          if truthy (getp params ''redirectResponse'') then
            let e = nc_record c p;
                e1 = (if getp params ''redirectHasExtraInfo'' = Bool False then e\<lparr>n_responseExtra := True\<rparr> else e);
                (e2, rules) = applyResponse N (getp params ''redirectResponse'') (pub ''resourceType'' (n_public e1)) e1 (nc_rules c)
            in (Some p, (put_record p (if response_throws (getp params ''redirectResponse'') then e2
                 else finishRecord N now params True e2) c)\<lparr>nc_rules := rules\<rparr>)
          else (None, c)
      | None \<Rightarrow> (None, c))"

definition new_record :: "net_platform \<Rightarrow> jsstr \<Rightarrow> jsstr \<Rightarrow> jsval \<Rightarrow> nat option \<Rightarrow> capture \<Rightarrow> net_record \<times> rules" where
  "new_record N now requestId params redirectFrom c =
     (let request = (if isObject (getp params ''request'') then getp params ''request'' else Obj []);
          rawURL = boundedString (getp request ''url'') 16000;
          (requestHeaders, rules1) = normalizeHeaders N (getp request ''headers'') (nc_rules c);
          requestMIME = contentType (np N) (getp request ''headers'');
          isSameOrigin = sameOrigin (np N) rawURL (nc_origin c);
          hasPostData = (getp request ''hasPostData'' = Bool True);
          verb = boundedString (getp request ''method'') 32;
          (url, rules2) = redactURL N rawURL rules1;
          (documentUrl, rules3) = redactURL N (boundedString (getp params ''documentURL'') 16000) rules2;
          (initiator, rules4) = normalizeInitiator N (getp params ''initiator'') rules3;
          entry = map (\<lambda>(k, v). (lit k, v))
            ([(''entryId'', Str (entry_key (nc_nextSequence c))), (''sequence'', jnum (of_nat (nc_nextSequence c))),
              (''startedAt'', Str (wallTimeISO N now (getp params ''wallTime''))),
              (''method'', Str (if verb = [] then lit ''GET'' else verb)), (''url'', Str url), (''documentUrl'', Str documentUrl),
              (''resourceType'', normalizeResourceType (getp params ''type'')), (''initiator'', initiator),
              (''requestHeaders'', requestHeaders),
              (''requestBodyAvailable'', Bool (hasPostData \<and> isSameOrigin \<and> allowedBodyMIME (np N) (Str requestMIME))),
              (''responseBodyAvailable'', Bool False), (''completed'', Bool False), (''failed'', Bool False),
              (''fromCache'', Bool False)]
             @ (case redirectFrom of None \<Rightarrow> [] | Some p \<Rightarrow> [(''redirectFrom'', Str (entry_key p))]))
      in (\<lparr>n_requestId = requestId, n_sameOrigin = isSameOrigin, n_hasPostData = hasPostData, n_redirect = False,
           n_requestExtra = False, n_responseExtra = False, n_requestMIME = requestMIME, n_responseMIME = [],
           n_monotonicStart = finiteNumber (getp params ''timestamp'') 0, n_public = entry, n_bytes = 0\<rparr>, rules4))"

text \<open>\<open>handleRequest\<close> up to the storing of the new record: what the record before learns of it.\<close>

definition link_redirect :: "net_platform \<Rightarrow> nat option \<Rightarrow> jsstr \<Rightarrow> capture \<Rightarrow> capture" where
  "link_redirect N redirectFrom entryId c =
     (case redirectFrom of
        None \<Rightarrow> c
      | Some p \<Rightarrow> (let e = nc_record c p
          in updateRecord N p (put_record p (e\<lparr>n_public := set_pub ''redirectTo'' (Str entryId) (n_public e)\<rparr>) c)))"

definition store_record :: "jsstr \<Rightarrow> net_record \<Rightarrow> capture \<Rightarrow> capture" where
  "store_record requestId e c =
     (let r = nc_nextSequence c
      in (put_record r e c)\<lparr>nc_nextSequence := Suc r, nc_entries := nc_entries c @ [r],
            nc_byEntryId := assoc_set (entry_key r) r (nc_byEntryId c), nc_current := assoc_set requestId r (nc_current c),
            nc_records := assoc_set requestId ((case map_of (nc_records c) requestId of None \<Rightarrow> [] | Some rs \<Rightarrow> rs) @ [r]) (nc_records c)\<rparr>)"

definition handleRequest :: "net_platform \<Rightarrow> jsstr \<Rightarrow> jsstr \<Rightarrow> jsval \<Rightarrow> capture \<Rightarrow> capture" where
  "handleRequest N now requestId params c =
     (let (redirectFrom, c1) = finish_redirect N now params (map_of (nc_current c) requestId) c;
          request = (if isObject (getp params ''request'') then getp params ''request'' else Obj [])
      in if redirectFrom \<noteq> None \<and> response_throws (getp params ''redirectResponse'') then caught c1
         else if boundedString (getp request ''url'') 16000 = [] then c1
         else if headers_throw (getp request ''headers'') then
           caught (c1\<lparr>nc_rules := snd (normalizeHeaders N (getp request ''headers'') (nc_rules c1))\<rparr>)
         else
           let (e, rules) = new_record N now requestId params redirectFrom c1; r = nc_nextSequence c1;
               c2 = link_redirect N redirectFrom (entry_key r) (c1\<lparr>nc_rules := rules\<rparr>);
               c3 = store_record requestId e c2
           in updateRecord N r (drainPendingExtra N requestId Response (drainPendingExtra N requestId Request c3)))"

text \<open>\<open>handleNetworkEvent\<close>. On JSON data only the conversion of a header value to a string can throw.\<close>

definition handleNetworkEvent :: "net_platform \<Rightarrow> jsstr \<Rightarrow> jsval \<Rightarrow> capture \<Rightarrow> capture" where
  "handleNetworkEvent N now event c =
     (let params = js_or (getp event ''params'') (Obj []); requestId = boundedString (getp params ''requestId'') 512;
          what = getp event ''method''
      in if requestId = [] then c
         else if what = jstr ''Network.requestWillBeSent'' then handleRequest N now requestId params c
         else if what = jstr ''Network.requestWillBeSentExtraInfo'' then applyExtraInfo N requestId Request params c
         else if what = jstr ''Network.responseReceived'' then
           updateCurrent N requestId (response_throws (getp params ''response'')) (\<lambda>e. applyResponse N (getp params ''response'') (getp params ''type'')
             (if getp params ''hasExtraInfo'' = Bool False then e\<lparr>n_responseExtra := True\<rparr> else e)) c
         else if what = jstr ''Network.responseReceivedExtraInfo'' then applyExtraInfo N requestId Response params c
         else if what = jstr ''Network.loadingFinished'' then
           updateCurrent N requestId False (\<lambda>e rules. (finishRecord N now params False e, rules)) c
         else if what = jstr ''Network.loadingFailed'' then updateCurrent N requestId False (failRecord N now params) c
         else if what = jstr ''Network.requestServedFromCache'' then
           updateCurrent N requestId False (\<lambda>e rules. (e\<lparr>n_public := set_pub ''fromCache'' (Bool True) (n_public e)\<rparr>, rules)) c
         else c)"

section \<open>Clearing and releasing\<close>

definition clearCapture :: "capture \<Rightarrow> capture" where
  "clearCapture c = c\<lparr>nc_entries := [], nc_byEntryId := [], nc_current := [], nc_records := [], nc_pendingRequest := [],
     nc_pendingResponse := [], nc_pendingEvents := 0, nc_pendingBytes := 0, nc_bufferedBytes := 0, nc_evicted := 0,
     nc_droppedEvents := 0, nc_rules := []\<rparr>"

definition disableBodyAccess :: "capture \<Rightarrow> capture" where
  "disableBodyAccess c = c\<lparr>nc_byEntryId := [], nc_current := [], nc_records := [], nc_pendingRequest := [],
     nc_pendingResponse := [], nc_pendingEvents := 0, nc_pendingBytes := 0,
     nc_record := (\<lambda>r. if r \<in> set (nc_entries c) then (nc_record c r)\<lparr>n_requestId := []\<rparr> else nc_record c r)\<rparr>"

end
