(* ===== verification/Network_Invariants.thy ===== *)
theory Network_Invariants
  imports Network_Buffer
begin

text \<open>
  The invariants of a capture's buffer under any sequence of events: the entries are in the order of
  their numbers, the maps lead to retained entries only, the byte count is exact, the limits hold.
\<close>

section \<open>The index\<close>

definition entry_bytes :: "capture \<Rightarrow> int" where
  "entry_bytes c = sum_list (map (\<lambda>r. int (n_bytes (nc_record c r))) (nc_entries c))"

definition maps_ok :: "capture \<Rightarrow> bool" where
  "maps_ok c \<longleftrightarrow> (\<forall>k r. map_of (nc_byEntryId c) k = Some r \<longrightarrow> r \<in> set (nc_entries c) \<and> k = entry_key r)
     \<and> (\<forall>k r. map_of (nc_current c) k = Some r \<longrightarrow> r \<in> set (nc_entries c) \<and> n_requestId (nc_record c r) = k)
     \<and> (\<forall>k rs. map_of (nc_records c) k = Some rs \<longrightarrow>
          rs \<noteq> [] \<and> (\<forall>r\<in>set rs. r \<in> set (nc_entries c) \<and> n_requestId (nc_record c r) = k))"

definition indexed :: "capture \<Rightarrow> bool" where
  "indexed c \<longleftrightarrow> sorted_wrt (<) (nc_entries c) \<and> 1 \<le> nc_nextSequence c
     \<and> (\<forall>r\<in>set (nc_entries c). 1 \<le> r \<and> r < nc_nextSequence c)
     \<and> nc_bufferedBytes c = entry_bytes c \<and> maps_ok c"

definition within_limits :: "capture \<Rightarrow> bool" where
  "within_limits c \<longleftrightarrow> length (nc_entries c) \<le> nc_maxEntries c \<and> nc_bufferedBytes c \<le> MAX_BUFFER_BYTES"

lemma map_of_filter_key: "map_of (filter (\<lambda>(l, _). l \<noteq> k) m) = (map_of m)(k := None)"
  by (induction m) auto

lemma entry_key_inj: "entry_key q = entry_key r \<longleftrightarrow> q = r"
  by (metis entry_key_def dec_value_show_nat)

lemma drop_entry_indexed:
  assumes "indexed c" and "nc_entries c = r # rest"
  shows "indexed (drop_entry r rest c)"
proof -
  have r: "r \<notin> set rest" "sorted_wrt (<) rest" "\<forall>q\<in>set rest. 1 \<le> q \<and> q < nc_nextSequence c"
    using assms by (auto simp: indexed_def)
  let ?id = "n_requestId (nc_record c r)" and ?d = "drop_entry r rest c"
  define left where "left = filter (\<lambda>q. q \<noteq> r) (case map_of (nc_records c) ?id of None \<Rightarrow> [] | Some rs \<Rightarrow> rs)"
  have m: "maps_ok c" using assms(1) by (simp add: indexed_def)
  have d: "nc_entries ?d = rest" "nc_record ?d = nc_record c"
    "map_of (nc_byEntryId ?d) = (map_of (nc_byEntryId c))(entry_key r := None)"
    "map_of (nc_current ?d) = (if map_of (nc_current c) ?id = Some r then (map_of (nc_current c))(?id := None) else map_of (nc_current c))"
    "map_of (nc_records ?d) = (map_of (nc_records c))(?id := if left = [] then None else Some left)"
    by (simp_all add: drop_entry_def Let_def map_of_filter_key map_of_assoc_set left_def)
  have id_eq: "n_requestId (nc_record c q) = k" if "map_of (nc_current c) k = Some q" for k q
    using that m by (simp add: maps_ok_def)
  have "q \<in> set rest \<and> k = entry_key q" if "map_of (nc_byEntryId ?d) k = Some q" for k q
    using that m assms(2) by (auto simp: d maps_ok_def split: if_splits)
  moreover have "q \<in> set rest \<and> n_requestId (nc_record c q) = k" if "map_of (nc_current ?d) k = Some q" for k q
  proof -
    have c: "map_of (nc_current c) k = Some q" "q \<noteq> r"
      using that id_eq [of k r] by (auto simp: d split: if_splits)
    then have "q \<in> set (nc_entries c)" using m by (simp add: maps_ok_def)
    with c id_eq assms(2) show ?thesis by simp
  qed
  moreover have "rs \<noteq> [] \<and> (\<forall>q\<in>set rs. q \<in> set rest \<and> n_requestId (nc_record c q) = k)" if rs: "map_of (nc_records ?d) k = Some rs" for k rs
  proof (cases "k = ?id")
    case True
    then obtain os where os: "map_of (nc_records c) ?id = Some os" "rs = filter (\<lambda>q. q \<noteq> r) os" "rs \<noteq> []"
      using rs by (cases "map_of (nc_records c) ?id") (auto simp: d left_def split: if_splits)
    then have "\<forall>q\<in>set os. q \<in> set (nc_entries c) \<and> n_requestId (nc_record c q) = ?id"
      using m by (simp add: maps_ok_def)
    with os True assms(2) show ?thesis by auto
  next
    case False
    then have "map_of (nc_records c) k = Some rs" using rs by (simp add: d)
    then have "rs \<noteq> []" "\<forall>q\<in>set rs. q \<in> set (nc_entries c) \<and> n_requestId (nc_record c q) = k"
      using m by (simp_all add: maps_ok_def)
    with False assms(2) show ?thesis by auto
  qed
  ultimately have "maps_ok ?d" unfolding maps_ok_def d(1,2) by blast
  with r assms show ?thesis
    by (simp add: indexed_def drop_entry_def Let_def entry_bytes_def)
qed

text \<open>What eviction leaves alone.\<close>

definition same_but_index :: "capture \<Rightarrow> capture \<Rightarrow> bool" where
  "same_but_index c d \<longleftrightarrow> nc_record d = nc_record c \<and> nc_maxEntries d = nc_maxEntries c \<and> nc_nextSequence d = nc_nextSequence c
     \<and> nc_pendingRequest d = nc_pendingRequest c \<and> nc_pendingResponse d = nc_pendingResponse c
     \<and> nc_pendingEvents d = nc_pendingEvents c \<and> nc_pendingBytes d = nc_pendingBytes c \<and> nc_rules d = nc_rules c
     \<and> nc_active d = nc_active c \<and> nc_lease d = nc_lease c \<and> nc_tabId d = nc_tabId c \<and> nc_documentId d = nc_documentId c
     \<and> nc_expiresAt d = nc_expiresAt c \<and> nc_droppedEvents d = nc_droppedEvents c"

lemma evict_spec:
  assumes "indexed c"
  shows "indexed (evictCapture c) \<and> within_limits (evictCapture c) \<and> same_but_index c (evictCapture c)
    \<and> (\<exists>k\<le>length (nc_entries c). nc_entries (evictCapture c) = drop k (nc_entries c)
         \<and> nc_evicted (evictCapture c) = nc_evicted c + k)"
  using assms
proof (induction c rule: evictCapture.induct)
  case (1 c)
  show ?case
  proof (cases "length (nc_entries c) > nc_maxEntries c \<or> nc_bufferedBytes c > MAX_BUFFER_BYTES")
    case False
    then have "evictCapture c = c" by (subst evictCapture.simps) simp
    with False "1.prems" show ?thesis by (auto simp: within_limits_def same_but_index_def intro: exI [of _ 0])
  next
    case full: True
    have "nc_entries c \<noteq> []"
      using full "1.prems" by (auto simp: indexed_def entry_bytes_def)
    then obtain r rest where e: "nc_entries c = r # rest" by (cases "nc_entries c") auto
    let ?c = "drop_entry r rest c"
    from "1.IH" [OF full e drop_entry_indexed [OF "1.prems" e]]
    obtain k where IH: "indexed (evictCapture ?c)" "within_limits (evictCapture ?c)" "same_but_index ?c (evictCapture ?c)"
      "k \<le> length rest" "nc_entries (evictCapture ?c) = drop k rest" "nc_evicted (evictCapture ?c) = Suc (nc_evicted c) + k"
      by (auto simp: drop_entry_def Let_def)
    have "evictCapture c = evictCapture ?c" using full e by (subst evictCapture.simps) simp
    moreover have "same_but_index c (evictCapture ?c)"
      using IH(3) by (simp add: same_but_index_def drop_entry_def Let_def)
    ultimately show ?thesis
      using IH e by (auto intro!: exI [of _ "Suc k"])
  qed
qed

text \<open>The newest entry stays if it alone is within the limits.\<close>

lemma evict_keeps_last:
  assumes "indexed c" and "nc_entries c = rs @ [r]" and "int (n_bytes (nc_record c r)) \<le> MAX_BUFFER_BYTES" and "1 \<le> nc_maxEntries c"
  shows "r \<in> set (nc_entries (evictCapture c))"
  using assms
proof (induction c arbitrary: rs rule: evictCapture.induct)
  case (1 c)
  show ?case
  proof (cases "length (nc_entries c) > nc_maxEntries c \<or> nc_bufferedBytes c > MAX_BUFFER_BYTES")
    case False
    then have "evictCapture c = c" by (subst evictCapture.simps) simp
    with "1.prems" show ?thesis by simp
  next
    case full: True
    have "rs \<noteq> []" using full "1.prems" by (auto simp: indexed_def entry_bytes_def)
    then obtain q rs' where e: "rs = q # rs'" by (cases rs) auto
    let ?c = "drop_entry q (rs' @ [r]) c"
    have "r \<in> set (nc_entries (evictCapture ?c))"
      by (rule "1.IH" [OF full]) (use "1.prems" e drop_entry_indexed in \<open>auto simp: drop_entry_def Let_def\<close>)
    moreover have "evictCapture c = evictCapture ?c" using full e "1.prems" by (subst evictCapture.simps) simp
    ultimately show ?thesis by simp
  qed
qed

section \<open>Updates of an entry\<close>

lemma indexed_distinct: "indexed c \<Longrightarrow> distinct (nc_entries c)"
  by (auto simp: indexed_def strict_sorted_iff)

lemma sum_list_update:
  assumes "distinct xs"
  shows "sum_list (map (\<lambda>x. int (f x)) xs) + (if r \<in> set xs then int b - int (f r) else 0) = sum_list (map (\<lambda>x. int ((f(r := b)) x)) xs)"
  using assms by (induction xs) (auto simp: fun_upd_def intro!: arg_cong [of _ _ sum_list] map_cong)

text \<open>A record changes its contents; the byte count follows if it is retained.\<close>

lemma put_record_indexed:
  assumes "indexed c" and "n_requestId e = n_requestId (nc_record c r)"
    and "r \<in> set (nc_entries c) \<or> n_bytes e = n_bytes (nc_record c r)"
  shows "indexed ((put_record r e c)\<lparr>nc_bufferedBytes := nc_bufferedBytes c - int (n_bytes (nc_record c r)) + int (n_bytes e)\<rparr>)"
proof -
  have "sum_list (map (\<lambda>q. int (n_bytes (((nc_record c)(r := e)) q))) (nc_entries c))
      = sum_list (map (\<lambda>q. int (((\<lambda>q. n_bytes (nc_record c q))(r := n_bytes e)) q)) (nc_entries c))"
    by (rule arg_cong [of _ _ sum_list], rule map_cong) auto
  then have "entry_bytes (put_record r e c) = entry_bytes c + (if r \<in> set (nc_entries c) then int (n_bytes e) - int (n_bytes (nc_record c r)) else 0)"
    using sum_list_update [OF indexed_distinct [OF assms(1)], of "\<lambda>q. n_bytes (nc_record c q)" r "n_bytes e"]
    by (simp add: entry_bytes_def put_record_def)
  then show ?thesis
    using assms by (auto simp: indexed_def maps_ok_def entry_bytes_def put_record_def)
qed

lemma put_record_same:
  assumes "indexed c" and "n_requestId e = n_requestId (nc_record c r)" and "n_bytes e = n_bytes (nc_record c r)"
  shows "indexed (put_record r e c)"
proof -
  have "put_record r e c = (put_record r e c)\<lparr>nc_bufferedBytes := nc_bufferedBytes c - int (n_bytes (nc_record c r)) + int (n_bytes e)\<rparr>"
    using assms(3) by (simp add: put_record_def)
  with put_record_indexed [OF assms(1,2)] assms(3) show ?thesis by metis
qed


section \<open>Bounding an entry\<close>

lemma set_pub_same: "map_of ps (lit k) = Some v \<Longrightarrow> set_pub k v ps = ps"
proof -
  have "map_of ps l = Some v \<Longrightarrow> assoc_set l v ps = ps" for l
    by (induction ps) (auto split: if_splits)
  then show "map_of ps (lit k) = Some v \<Longrightarrow> set_pub k v ps = ps" by (simp add: set_pub_def)
qed

lemma map_of_set_pub: "map_of (set_pub k v ps) = (map_of ps)(lit k \<mapsto> v)"
  by (simp add: set_pub_def map_of_assoc_set)

lemma pub_map_of: "pub k ps = (case map_of ps (lit k) of None \<Rightarrow> Undefined | Some v \<Rightarrow> v)"
  by (simp add: pub_def getp_def)

lemma pub_set_pub: "pub k (set_pub l v ps) = (if k = l then v else pub k ps)"
  by (simp add: pub_map_of map_of_set_pub)

lemma take_points_idem [simp]: "take_points n (take_points n s) = take_points n s"
proof (induction n s rule: take_points.induct)
  case (1 n u v s)
  show ?case
  proof (cases n)
    case (Suc m)
    show ?thesis
    proof (cases "is_high_surrogate u \<and> is_low_surrogate v")
      case True
      with 1 Suc show ?thesis by simp
    next
      case False
      then have "take_points m (take_points m (v # s)) = take_points m (v # s)" using 1 Suc by simp
      moreover have "take_points (Suc m) (u # t) = u # take_points m t" if "t = [] \<or> hd t = v" for t
        using that False by (cases t) auto
      moreover have "take_points m (v # s) = [] \<or> hd (take_points m (v # s)) = v"
        by (cases m; cases s) auto
      moreover have "take_points n (u # v # s) = u # take_points m (v # s)"
        unfolding Suc take_points.simps by (simp only: nat.case if_not_P [OF False])
      ultimately show ?thesis unfolding Suc by simp
    qed
  qed simp
qed simp_all

lemma boundedString_idem: "boundedString (Str (boundedString v n)) n = boundedString v n"
  by (simp add: boundedString_def)

definition stripped :: "properties \<Rightarrow> bool" where
  "stripped ps \<longleftrightarrow> map_of ps (lit ''requestHeaders'') = Some (Obj []) \<and> map_of ps (lit ''responseHeaders'') = Some (Obj [])
     \<and> \<not> truthy (getp (pub ''initiator'' ps) ''stack'') \<and> map_of ps (lit ''truncated'') = Some (Bool True)
     \<and> (\<exists>s. map_of ps (lit ''url'') = Some (Str (take_points 4000 s)))
     \<and> (\<exists>s. map_of ps (lit ''documentUrl'') = Some (Str (take_points 4000 s)))"

lemma boundedString_take: "\<exists>s. boundedString v n = take_points n s"
proof (cases "is_string v")
  case False
  then have "boundedString v n = take_points n []" by (simp add: boundedString_def)
  then show ?thesis ..
qed (auto simp: boundedString_def)

lemma getp_without: "getp (without k v) k = Undefined"
  by (cases v) (simp_all add: without_def getp_def map_of_filter_key)

lemma strip_entry_stripped: "stripped (strip_entry ps)"
proof -
  define ps1 where "ps1 = set_pub ''responseHeaders'' (Obj []) (set_pub ''requestHeaders'' (Obj []) ps)"
  define ps2 where "ps2 = (if truthy (getp (pub ''initiator'' ps1) ''stack'')
                 then set_pub ''initiator'' (without ''stack'' (pub ''initiator'' ps1)) ps1 else ps1)"
  have two: "\<not> truthy (getp (pub ''initiator'' ps2) ''stack'')"
    "map_of ps2 (lit ''requestHeaders'') = Some (Obj [])" "map_of ps2 (lit ''responseHeaders'') = Some (Obj [])"
    by (simp_all add: ps2_def pub_set_pub getp_without map_of_set_pub) (simp_all add: ps1_def map_of_set_pub)
  have "strip_entry ps = (let ps4 = set_pub ''url'' (Str (boundedString (pub ''url'' (set_pub ''truncated'' (Bool True) ps2)) 4000))
      (set_pub ''truncated'' (Bool True) ps2) in set_pub ''documentUrl'' (Str (boundedString (pub ''documentUrl'' ps4) 4000)) ps4)"
    by (simp add: strip_entry_def Let_def ps1_def ps2_def)
  with two show ?thesis
    by (simp add: stripped_def Let_def map_of_set_pub pub_set_pub boundedString_take)
qed

lemma strip_entry_id:
  assumes "stripped ps"
  shows "strip_entry ps = ps"
proof -
  from assms obtain u d where m: "map_of ps (lit ''url'') = Some (Str (take_points 4000 u))"
    "map_of ps (lit ''documentUrl'') = Some (Str (take_points 4000 d))"
    by (auto simp: stripped_def)
  then have "Str (boundedString (pub ''url'' ps) 4000) = Str (take_points 4000 u)"
    "Str (boundedString (pub ''documentUrl'' ps) 4000) = Str (take_points 4000 d)"
    by (simp_all add: pub_map_of boundedString_def)
  with m assms show ?thesis
    by (simp only: strip_entry_def Let_def stripped_def set_pub_same if_False)
qed

lemma strip_details_id:
  assumes "map_of ps (lit ''initiator'') = Some (obj [(''type'', Str (take_points 100 s))])"
    and "map_of ps (lit ''errorText'') = Some (Str (take_points 1000 t))"
  shows "strip_details ps = ps"
  using assms by (simp add: strip_details_def Let_def set_pub_same pub_map_of boundedString_def)

lemma boundPublicEntry_idem: "boundPublicEntry N (boundPublicEntry N ps) = boundPublicEntry N ps"
proof -
  let ?s = "strip_entry ps" and ?d = "strip_details (strip_entry ps)"
  have "stripped ?d"
    using strip_entry_stripped [of ps] by (auto simp: stripped_def strip_details_def Let_def map_of_set_pub pub_map_of)
  then have s: "strip_entry ?d = ?d" by (rule strip_entry_id)
  obtain u t where "map_of ?d (lit ''initiator'') = Some (obj [(''type'', Str (take_points 100 u))])"
    "map_of ?d (lit ''errorText'') = Some (Str (take_points 1000 t))"
    using boundedString_take by (simp add: strip_details_def Let_def map_of_set_pub) metis
  then have "strip_details ?d = ?d" by (rule strip_details_id)
  with s show ?thesis by (auto simp: boundPublicEntry_def Let_def)
qed

text \<open>A record whose entry is bounded and measured.\<close>

definition settled :: "net_platform \<Rightarrow> net_record \<Rightarrow> bool" where
  "settled N e \<longleftrightarrow> boundPublicEntry N (n_public e) = n_public e \<and> n_bytes e = byteLength N (Obj (n_public e))"

section \<open>Updates keep the index\<close>

lemma updateRecord_spec:
  assumes "indexed c" and "r \<in> set (nc_entries c) \<or> settled N (nc_record c r)"
  shows "indexed (updateRecord N r c) \<and> within_limits (updateRecord N r c) \<and> settled N (nc_record (updateRecord N r c) r)
    \<and> same_but_index ((updateRecord N r c)\<lparr>nc_record := nc_record c\<rparr>) c
    \<and> (\<forall>q. q \<noteq> r \<longrightarrow> nc_record (updateRecord N r c) q = nc_record c q)
    \<and> n_requestId (nc_record (updateRecord N r c) r) = n_requestId (nc_record c r)
    \<and> (\<exists>k\<le>length (nc_entries c). nc_entries (updateRecord N r c) = drop k (nc_entries c)
         \<and> nc_evicted (updateRecord N r c) = nc_evicted c + k)"
proof -
  let ?e = "nc_record c r"
  let ?ps = "boundPublicEntry N (n_public ?e)"
  let ?new = "?e\<lparr>n_public := ?ps, n_bytes := byteLength N (Obj ?ps)\<rparr>"
  let ?c = "(put_record r ?new c)\<lparr>nc_bufferedBytes := nc_bufferedBytes c - int (n_bytes ?e) + int (n_bytes ?new)\<rparr>"
  have eq: "updateRecord N r c = evictCapture ?c" by (simp add: updateRecord_def Let_def)
  have "indexed ?c"
    by (rule put_record_indexed [OF assms(1)]) (use assms(2) in \<open>auto simp: settled_def\<close>)
  from evict_spec [OF this] show ?thesis
    unfolding eq
    by (auto simp: same_but_index_def put_record_def settled_def boundPublicEntry_idem)
qed

text \<open>An update of another entry, or of one that is already measured, does not evict an unmeasured newest one.\<close>

lemma updateRecord_keeps_last:
  assumes "indexed c" and "q \<in> set (nc_entries c)" and "nc_entries c = rs @ [r]" and "q = r \<or> n_bytes (nc_record c r) = 0"
    and "1 \<le> nc_maxEntries c"
  shows "r \<in> set (nc_entries (updateRecord N q c)) \<or> settled N (nc_record (updateRecord N q c) r)"
proof (cases "q = r")
  case True
  then show ?thesis using updateRecord_spec [OF assms(1), of r N] assms(2) by simp
next
  case False
  let ?e = "nc_record c q"
  let ?ps = "boundPublicEntry N (n_public ?e)"
  let ?new = "?e\<lparr>n_public := ?ps, n_bytes := byteLength N (Obj ?ps)\<rparr>"
  let ?c = "(put_record q ?new c)\<lparr>nc_bufferedBytes := nc_bufferedBytes c - int (n_bytes ?e) + int (n_bytes ?new)\<rparr>"
  have eq: "updateRecord N q c = evictCapture ?c" by (simp add: updateRecord_def Let_def)
  have "indexed ?c" by (rule put_record_indexed [OF assms(1)]) (use assms(2) in auto)
  from evict_keeps_last [OF this, of rs r] False assms(3-5) show ?thesis
    unfolding eq by (simp add: put_record_def)
qed

section \<open>What an event leaves alone\<close>

definition fixed_part :: "capture \<Rightarrow> (int \<times> jsstr \<times> jsstr \<times> nat \<times> rat \<times> rat option \<times> bool \<times> nat option)" where
  "fixed_part c = (nc_tabId c, nc_documentId c, nc_origin c, nc_maxEntries c, nc_createdAt c, nc_expiresAt c, nc_active c, nc_lease c)"

definition pending_part :: "capture \<Rightarrow> ((jsstr \<times> (extra \<times> nat) list) list \<times> (jsstr \<times> (extra \<times> nat) list) list \<times> int \<times> int)" where
  "pending_part c = (nc_pendingRequest c, nc_pendingResponse c, nc_pendingEvents c, nc_pendingBytes c)"

lemma evict_fixed: "fixed_part (evictCapture c) = fixed_part c"
proof (induction c rule: evictCapture.induct)
  case (1 c)
  show ?case
  proof (cases "length (nc_entries c) > nc_maxEntries c \<or> nc_bufferedBytes c > MAX_BUFFER_BYTES")
    case False
    then show ?thesis by (subst evictCapture.simps) simp
  next
    case True
    show ?thesis
    proof (cases "nc_entries c")
      case Nil
      then show ?thesis by (subst evictCapture.simps) simp
    next
      case (Cons r rest)
      from "1.IH" [OF True Cons] True Cons show ?thesis
        by (subst evictCapture.simps) (simp add: fixed_part_def drop_entry_def Let_def)
    qed
  qed
qed

lemma updateRecord_fixed: "fixed_part (updateRecord N r c) = fixed_part c"
  unfolding updateRecord_def Let_def evict_fixed by (simp add: fixed_part_def put_record_def)

section \<open>Steps on one record\<close>

text \<open>A newest record that is not measured yet, or is settled.\<close>

definition fresh :: "net_platform \<Rightarrow> nat \<Rightarrow> capture \<Rightarrow> bool" where
  "fresh N r c \<longleftrightarrow> (\<exists>rs. nc_entries c = rs @ [r] \<and> n_bytes (nc_record c r) = 0) \<or> settled N (nc_record c r)"

text \<open>The state between two updates, and that of the newest record, if there is one.\<close>

definition steady :: "net_platform \<Rightarrow> nat option \<Rightarrow> capture \<Rightarrow> bool" where
  "steady N new c \<longleftrightarrow> indexed c \<and> 1 \<le> nc_maxEntries c \<and> (\<forall>r. new = Some r \<longrightarrow> fresh N r c)"

lemma updateRecord_steady:
  assumes "steady N new c" and "q \<in> set (nc_entries c) \<or> settled N (nc_record c q)"
  shows "steady N new (updateRecord N q c) \<and> within_limits (updateRecord N q c)
    \<and> pending_part (updateRecord N q c) = pending_part c \<and> nc_nextSequence (updateRecord N q c) = nc_nextSequence c
    \<and> nc_rules (updateRecord N q c) = nc_rules c \<and> nc_droppedEvents (updateRecord N q c) = nc_droppedEvents c"
proof -
  let ?c = "updateRecord N q c"
  have idx: "indexed c" and max: "1 \<le> nc_maxEntries c" using assms(1) by (simp_all add: steady_def)
  note u = updateRecord_spec [OF idx assms(2)]
  have "fresh N r ?c" if "new = Some r" for r
  proof (cases "q = r")
    case True
    then show ?thesis using u by (simp add: fresh_def)
  next
    case False
    then have rec: "nc_record ?c r = nc_record c r" using u by simp
    have "fresh N r c" using assms(1) that by (simp add: steady_def)
    then consider "settled N (nc_record c r)" | rs where "nc_entries c = rs @ [r]" "n_bytes (nc_record c r) = 0"
      by (auto simp: fresh_def)
    then show ?thesis
    proof cases
      case 1
      then show ?thesis by (simp add: fresh_def rec)
    next
      case 2
      show ?thesis
      proof (cases "q \<in> set (nc_entries c)")
        case True
        obtain k where k: "nc_entries ?c = drop k (nc_entries c)" using u by blast
        from updateRecord_keeps_last [OF idx True 2(1) _ max] 2(2)
        have "r \<in> set (nc_entries ?c) \<or> settled N (nc_record ?c r)" by simp
        moreover have "\<exists>rs. nc_entries ?c = rs @ [r]" if "r \<in> set (nc_entries ?c)"
          using that k 2(1) by (cases "k \<le> length rs") auto
        ultimately show ?thesis using 2(2) rec by (auto simp: fresh_def)
      next
        case outside: False
        then have "settled N (nc_record c q)" using assms(2) by simp
        then have b: "boundPublicEntry N (n_public (nc_record c q)) = n_public (nc_record c q)"
          and l: "byteLength N (Obj (n_public (nc_record c q))) = n_bytes (nc_record c q)"
          by (simp_all add: settled_def)
        have "?c = evictCapture c"
          unfolding updateRecord_def Let_def b l by (simp add: put_record_def)
        moreover obtain k where "nc_entries ?c = drop k (nc_entries c)" using u by blast
        moreover have "r \<in> set (nc_entries (evictCapture c))"
          using evict_keeps_last [OF idx 2(1)] 2(2) max by simp
        ultimately have "\<exists>rs'. nc_entries ?c = rs' @ [r]"
          using 2(1) by (cases "k \<le> length rs") auto
        then show ?thesis using 2(2) rec by (simp add: fresh_def)
      qed
    qed
  qed
  then show ?thesis
    using u max by (auto simp: steady_def same_but_index_def pending_part_def)
qed

lemma put_record_steady:
  assumes "steady N new c" and "n_requestId e = n_requestId (nc_record c q)" and "n_bytes e = n_bytes (nc_record c q)"
    and "\<And>r. new = Some r \<Longrightarrow> q \<noteq> r"
  shows "steady N new (put_record q e c)"
  using assms put_record_same [OF _ assms(2,3)] by (auto simp: steady_def fresh_def put_record_def)

text \<open>A record of the index is changed and measured.\<close>

definition change :: "net_platform \<Rightarrow> nat \<Rightarrow> net_record \<Rightarrow> capture \<Rightarrow> capture" where
  "change N q e c = updateRecord N q (put_record q e c)"

lemma change_steady:
  assumes "steady N new c" and "q \<in> set (nc_entries c)"
    and "n_requestId e = n_requestId (nc_record c q)" and "n_bytes e = n_bytes (nc_record c q)"
  shows "steady N new (change N q e c) \<and> within_limits (change N q e c)
    \<and> pending_part (change N q e c) = pending_part c \<and> nc_nextSequence (change N q e c) = nc_nextSequence c
    \<and> nc_rules (change N q e c) = nc_rules c \<and> nc_droppedEvents (change N q e c) = nc_droppedEvents c
    \<and> fixed_part (change N q e c) = fixed_part c"
proof -
  have fixed: "fixed_part (change N q e c) = fixed_part c"
    by (simp add: change_def updateRecord_fixed) (simp add: fixed_part_def put_record_def)
  have same: "indexed (put_record q e c)" using put_record_same [OF _ assms(3,4)] assms(1) by (simp add: steady_def)
  show ?thesis
  proof (cases "new = Some q")
    case False
    then have "steady N new (put_record q e c)" by (intro put_record_steady [OF assms(1,3,4)]) simp
    from updateRecord_steady [OF this, of q] assms(2) fixed show ?thesis
      unfolding change_def by (simp add: put_record_def pending_part_def)
  next
    case True
    have "steady N None (put_record q e c)" using same assms(1) by (simp add: steady_def put_record_def)
    from updateRecord_steady [OF this, of q] assms(2)
    have u: "steady N None (change N q e c)" "within_limits (change N q e c)"
      "pending_part (change N q e c) = pending_part c" "nc_nextSequence (change N q e c) = nc_nextSequence c"
      "nc_rules (change N q e c) = nc_rules c" "nc_droppedEvents (change N q e c) = nc_droppedEvents c"
      unfolding change_def by (simp_all add: put_record_def pending_part_def)
    have "settled N (nc_record (change N q e c) q)"
      using updateRecord_spec [OF same, of q N] assms(2) unfolding change_def by (simp add: put_record_def)
    then have "steady N new (change N q e c)" using u(1) True by (simp add: steady_def fresh_def)
    with u fixed show ?thesis by simp
  qed
qed

lemma record_parts:
  "n_requestId (n_public_update f e) = n_requestId e" "n_bytes (n_public_update f e) = n_bytes e"
  "n_requestId (n_redirect_update g e) = n_requestId e" "n_bytes (n_redirect_update g e) = n_bytes e"
  "n_requestId (n_responseMIME_update h e) = n_requestId e" "n_bytes (n_responseMIME_update h e) = n_bytes e"
  "n_requestId (n_requestMIME_update h e) = n_requestId e" "n_bytes (n_requestMIME_update h e) = n_bytes e"
  "n_requestId (n_requestExtra_update g e) = n_requestId e" "n_bytes (n_requestExtra_update g e) = n_bytes e"
  "n_requestId (n_responseExtra_update g e) = n_requestId e" "n_bytes (n_responseExtra_update g e) = n_bytes e"
  "n_requestId (updateBodyAvailability P e) = n_requestId e" "n_bytes (updateBodyAvailability P e) = n_bytes e"
  by (simp_all add: updateBodyAvailability_def Let_def)

lemma record_changes:
  "n_requestId (updateBodyAvailability P e) = n_requestId e" "n_bytes (updateBodyAvailability P e) = n_bytes e"
  "n_requestId (fst (applyResponse N x t e rs)) = n_requestId e" "n_bytes (fst (applyResponse N x t e rs)) = n_bytes e"
  "n_requestId (finishRecord N now p b e) = n_requestId e" "n_bytes (finishRecord N now p b e) = n_bytes e"
  "n_requestId (fst (failRecord N now p e rs)) = n_requestId e" "n_bytes (fst (failRecord N now p e rs)) = n_bytes e"
  "n_requestId (apply_extra P kind y e) = n_requestId e" "n_bytes (apply_extra P kind y e) = n_bytes e"
  unfolding applyResponse_def finishRecord_def failRecord_def apply_extra_def Let_def
  by (cases kind; simp only: prod.case_eq_if fst_conv side.case record_parts if_distrib [of n_requestId] if_distrib [of n_bytes] if_distrib [of fst]
           if_cancel simp_thms)+

lemma found_record: "indexed c \<Longrightarrow> nextExtraRecord c i kind = Some r \<Longrightarrow> r \<in> set (nc_entries c)"
  by (auto simp: nextExtraRecord_def find_Some_iff indexed_def maps_ok_def split: option.splits)

lemma applyNormalizedExtra_eq: "applyNormalizedExtra N r kind x c = change N r (apply_extra (np N) kind x (nc_record c r)) c"
  by (simp add: applyNormalizedExtra_def change_def)

section \<open>Events\<close>

lemma handleNetworkEvent_cases:
  assumes "P c" and "\<And>i p. P (handleRequest N now i p c)" and "\<And>i k p. P (applyExtraInfo N i k p c)"
    and "\<And>i x t b. P (updateCurrent N i (response_throws x) (\<lambda>e. applyResponse N x t (if b then e\<lparr>n_responseExtra := True\<rparr> else e)) c)"
    and "\<And>i p. P (updateCurrent N i False (\<lambda>e rules. (finishRecord N now p False e, rules)) c)"
    and "\<And>i p. P (updateCurrent N i False (failRecord N now p) c)"
    and "\<And>i. P (updateCurrent N i False (\<lambda>e rules. (e\<lparr>n_public := set_pub ''fromCache'' (Bool True) (n_public e)\<rparr>, rules)) c)"
  shows "P (handleNetworkEvent N now event c)"
  unfolding handleNetworkEvent_def Let_def by (simp only: assms if_split simp_thms)

text \<open>Any sequence of events, each with the time of its arrival.\<close>

definition capture_events :: "net_platform \<Rightarrow> (jsstr \<times> jsval) list \<Rightarrow> capture \<Rightarrow> capture" where
  "capture_events N es c = fold (\<lambda>(now, event). handleNetworkEvent N now event) es c"

lemma evict_records: "nc_record (evictCapture c) = nc_record c \<and> nc_pendingRequest (evictCapture c) = nc_pendingRequest c
    \<and> nc_pendingResponse (evictCapture c) = nc_pendingResponse c"
proof (induction c rule: evictCapture.induct)
  case (1 c)
  then show ?case
    by (subst (1 2 3) evictCapture.simps) (auto simp: drop_entry_def Let_def split: list.split)
qed

end
