(* ===== verification/Network_Laws.thy ===== *)
theory Network_Laws
  imports Network_Invariants
begin

text \<open>
  A law of the records that every operation on one record keeps is kept by every event, for the retained
  entries, the evicted ones and the extra information that waits. The law here: secret headers are redacted.
\<close>

section \<open>Records under events\<close>

locale record_law =
  fixes N :: net_platform and Q :: "net_record \<Rightarrow> bool" and E :: "extra \<Rightarrow> bool"
  assumes blank: "Q blank_record"
    and bounded: "Q e \<Longrightarrow> Q (e\<lparr>n_public := boundPublicEntry N (n_public e), n_bytes := b\<rparr>)"
    and response: "Q e \<Longrightarrow> Q (fst (applyResponse N x t e rs))"
    and flagged: "Q e \<Longrightarrow> Q (e\<lparr>n_responseExtra := True\<rparr>)"
    and finished: "Q e \<Longrightarrow> Q (finishRecord N now p redirect e)"
    and failed: "Q e \<Longrightarrow> Q (fst (failRecord N now p e rs))"
    and cached: "Q e \<Longrightarrow> Q (e\<lparr>n_public := set_pub ''fromCache'' (Bool True) (n_public e)\<rparr>)"
    and linked: "Q e \<Longrightarrow> Q (e\<lparr>n_public := set_pub ''redirectTo'' (Str k) (n_public e)\<rparr>)"
    and extra: "Q e \<Longrightarrow> E y \<Longrightarrow> Q (apply_extra (np N) kind y e)"
    and normal: "E (fst (normalizeExtraInfo N kind p rs))"
    and new: "Q (fst (new_record N now i p prev c))"
begin

definition waiting :: "(jsstr \<times> (extra \<times> nat) list) list \<Rightarrow> bool" where
  "waiting m \<longleftrightarrow> (\<forall>k xs x b. map_of m k = Some xs \<longrightarrow> (x, b) \<in> set xs \<longrightarrow> E x)"

definition holds :: "capture \<Rightarrow> bool" where
  "holds c \<longleftrightarrow> (\<forall>r. Q (nc_record c r)) \<and> waiting (nc_pendingRequest c) \<and> waiting (nc_pendingResponse c)"

lemma holds_caught [simp]: "holds (caught c) = holds c"
  by (simp add: holds_def caught_def)

lemma holds_record: "holds c \<Longrightarrow> Q (nc_record c r)"
  by (simp add: holds_def)

lemma holds_put: "holds c \<Longrightarrow> Q e \<Longrightarrow> holds (put_record r e c)"
  by (simp add: holds_def put_record_def)

lemma holds_rules [simp]: "holds (c\<lparr>nc_rules := rs\<rparr>) = holds c"
  by (simp add: holds_def)

lemma holds_updateRecord:
  assumes "holds c"
  shows "holds (updateRecord N r c)"
proof -
  have "holds (put_record r ((nc_record c r)\<lparr>n_public := boundPublicEntry N (n_public (nc_record c r)),
      n_bytes := byteLength N (Obj (boundPublicEntry N (n_public (nc_record c r))))\<rparr>) c)"
    by (intro holds_put assms bounded holds_record)
  then show ?thesis unfolding updateRecord_def Let_def by (simp add: holds_def evict_records)
qed

lemma waiting_of: "holds c \<Longrightarrow> waiting (pending kind c)"
  by (cases kind) (simp_all add: holds_def pending_def)

lemma holds_set_pending: "holds c \<Longrightarrow> waiting m \<Longrightarrow> holds (set_pending kind m c)"
  by (cases kind) (simp_all add: holds_def set_pending_def)

lemma waiting_set: "waiting m \<Longrightarrow> \<forall>(x, b)\<in>set xs. E x \<Longrightarrow> waiting (assoc_set k xs m)"
  by (fastforce simp: waiting_def map_of_assoc_set split: if_splits)

lemma waiting_delete: "waiting m \<Longrightarrow> waiting (filter (\<lambda>(l, _). l \<noteq> k) m)"
  by (auto simp: waiting_def map_of_filter_key)

lemma waiting_get: "waiting m \<Longrightarrow> map_of m k = Some xs \<Longrightarrow> \<forall>(x, b)\<in>set xs. E x"
  by (auto simp: waiting_def)

lemma holds_applied: "holds c \<Longrightarrow> E x \<Longrightarrow> holds (applyNormalizedExtra N r kind x c)"
  unfolding applyNormalizedExtra_def by (intro holds_updateRecord holds_put extra holds_record)

lemma holds_queue:
  assumes "holds c" and "E x"
  shows "holds (queuePendingExtra N i kind x c)"
proof -
  let ?old = "case map_of (pending kind c) i of None \<Rightarrow> [] | Some xs \<Rightarrow> xs"
  have "\<forall>(y, b)\<in>set ?old. E y"
    using waiting_get [OF waiting_of [OF assms(1), of kind], of i] by (cases "map_of (pending kind c) i") auto
  then have "waiting (assoc_set i (?old @ [(x, byteLength N (extra_object x))]) (pending kind c))"
    using assms by (intro waiting_set waiting_of) auto
  from holds_set_pending [OF assms(1) this, of kind] assms(1) show ?thesis
    by (simp add: queuePendingExtra_def Let_def holds_def)
qed

lemma holds_applyExtraInfo: "holds c \<Longrightarrow> holds (applyExtraInfo N i kind params c)"
  using normal [of kind params "nc_rules c"]
  by (auto simp: applyExtraInfo_def Let_def holds_queue holds_applied split: prod.split option.split)

lemma holds_drain_extras:
  "holds c \<Longrightarrow> \<forall>(x, b)\<in>set xs. E x \<Longrightarrow> holds (snd (drain_extras N i kind xs c)) \<and> (\<forall>(x, b)\<in>set (fst (drain_extras N i kind xs c)). E x)"
proof (induction xs arbitrary: c)
  case (Cons p xs)
  obtain x b where p: "p = (x, b)" by force
  show ?case
  proof (cases "nextExtraRecord c i kind")
    case (Some r)
    have "holds (c\<lparr>nc_pendingEvents := nc_pendingEvents c - 1, nc_pendingBytes := nc_pendingBytes c - int b\<rparr>)"
      using Cons.prems(1) by (simp add: holds_def)
    then have "holds (applyNormalizedExtra N r kind x
        (c\<lparr>nc_pendingEvents := nc_pendingEvents c - 1, nc_pendingBytes := nc_pendingBytes c - int b\<rparr>))"
      using Cons.prems(2) by (intro holds_applied) (simp_all add: p)
    from Cons.IH [OF this] Cons.prems(2) Some show ?thesis by (simp add: p split_beta)
  qed (use Cons.prems in \<open>simp add: p\<close>)
qed simp

lemma holds_drain:
  assumes "holds c"
  shows "holds (drainPendingExtra N i kind c)"
proof (cases "map_of (pending kind c) i")
  case (Some xs)
  obtain rest d where d: "drain_extras N i kind xs c = (rest, d)" by force
  have "holds d" "\<forall>(x, b)\<in>set rest. E x"
    using holds_drain_extras [OF assms waiting_get [OF waiting_of [OF assms] Some], of i kind] d by simp_all
  then have "holds (set_pending kind (if rest = [] then filter (\<lambda>(k, _). k \<noteq> i) (pending kind d)
      else assoc_set i rest (pending kind d)) d)"
    by (auto intro!: holds_set_pending waiting_delete waiting_set waiting_of)
  then show ?thesis using Some d by (simp add: drainPendingExtra_def)
qed (use assms in \<open>simp add: drainPendingExtra_def\<close>)

lemma holds_finish_redirect:
  assumes "holds c"
  shows "holds (snd (finish_redirect N now params prev c))"
proof (cases prev)
  case (Some p)
  define e where "e = (if getp params ''redirectHasExtraInfo'' = Bool False then (nc_record c p)\<lparr>n_responseExtra := True\<rparr> else nc_record c p)"
  obtain e2 rules where a: "applyResponse N (getp params ''redirectResponse'') (pub ''resourceType'' (n_public e)) e (nc_rules c) = (e2, rules)"
    by force
  have "Q e" using holds_record [OF assms, of p] by (simp add: e_def flagged)
  from response [OF this] a have "Q e2" by (metis fst_conv)
  then have "holds (put_record p (finishRecord N now params True e2) c)" "holds (put_record p e2 c)"
    using assms by (simp_all add: holds_put finished)
  then show ?thesis using a assms Some by (simp add: finish_redirect_def Let_def e_def)
qed (use assms in \<open>simp add: finish_redirect_def\<close>)

lemma holds_handleRequest:
  assumes "holds c"
  shows "holds (handleRequest N now i params c)"
proof -
  obtain prev c1 where f: "finish_redirect N now params (map_of (nc_current c) i) c = (prev, c1)" by force
  have c1: "holds c1" using holds_finish_redirect [OF assms] f by (metis snd_conv)
  obtain e rules where n: "new_record N now i params prev c1 = (e, rules)" by force
  have e: "Q e" using new [of now i params prev c1] n by simp
  define c2 where "c2 = link_redirect N prev (entry_key (nc_nextSequence c1)) (c1\<lparr>nc_rules := rules\<rparr>)"
  have "holds (c1\<lparr>nc_rules := rules\<rparr>)" using c1 by simp
  then have c2: "holds c2"
    unfolding c2_def link_redirect_def
    by (cases prev) (auto simp: Let_def intro!: holds_updateRecord holds_put linked dest: holds_record)
  then have "holds (store_record i e c2)"
    using holds_put [OF c2 e, of "nc_nextSequence c2"] by (simp add: store_record_def Let_def holds_def)
  then show ?thesis
    using c1 f n by (auto simp: handleRequest_def Let_def c2_def intro!: holds_updateRecord holds_drain)
qed

lemma holds_updateCurrent:
  assumes "holds c" and "\<And>e rules. Q e \<Longrightarrow> Q (fst (mutate e rules))"
  shows "holds (updateCurrent N i throws mutate c)"
proof (cases "map_of (nc_current c) i")
  case (Some r)
  obtain e rules where m: "mutate (nc_record c r) (nc_rules c) = (e, rules)" by force
  have "Q e" using assms(2) [OF holds_record [OF assms(1), of r], of "nc_rules c"] m by simp
  then have "holds ((put_record r e c)\<lparr>nc_rules := rules\<rparr>)" using holds_put [OF assms(1)] by simp
  then show ?thesis using Some m by (simp add: updateCurrent_def holds_updateRecord)
qed (use assms in \<open>simp add: updateCurrent_def\<close>)

lemma holds_event: "holds c \<Longrightarrow> holds (handleNetworkEvent N now event c)"
  by (rule handleNetworkEvent_cases [where P = holds])
    (simp_all add: holds_handleRequest holds_applyExtraInfo holds_updateCurrent response flagged finished failed cached)

lemma holds_events: "holds c \<Longrightarrow> holds (capture_events N es c)"
  by (induction es arbitrary: c) (auto simp: capture_events_def holds_event)

lemma holds_start: "holds (createCapture t d o' n now)"
  by (simp add: holds_def createCapture_def blank waiting_def)

lemma law: "Q (nc_record (capture_events N es (createCapture t d o' n now)) r)"
  by (rule holds_record [OF holds_events [OF holds_start]])

end

section \<open>Secret headers\<close>

definition secret_name :: "jsstr \<Rightarrow> bool" where
  "secret_name k \<longleftrightarrow> rx_test SENSITIVE_HEADER k \<or> rx_test SENSITIVE_NAME k"

definition safe_headers :: "jsval \<Rightarrow> bool" where
  "safe_headers v = list_all (\<lambda>(k, w). secret_name k \<longrightarrow> w = Str redacted) (members v)"

definition safe_entry :: "properties \<Rightarrow> bool" where
  "safe_entry ps \<longleftrightarrow> safe_headers (pub ''requestHeaders'' ps) \<and> safe_headers (pub ''responseHeaders'' ps)"

lemma safe_headers_set_member:
  "safe_headers (Obj ps) \<Longrightarrow> (secret_name k \<Longrightarrow> v = Str redacted) \<Longrightarrow> safe_headers (Obj (set_member k v ps))"
  by (auto simp: safe_headers_def set_member_def members_def list_all_iff dest!: assoc_set_subset)

lemma normalize_header_safe: "safe_headers (Obj (fst s)) \<Longrightarrow> safe_headers (Obj (fst (normalize_header N h name s)))"
  by (cases s) (auto simp: normalize_header_def Let_def secret_name_def split: prod.split intro!: safe_headers_set_member)

lemma normalizeHeaders_safe: "safe_headers (fst (normalizeHeaders N h rules))"
proof -
  have "safe_headers (Obj (fst (fold (normalize_header N h) names s)))" if "safe_headers (Obj (fst s))" for names s
    using that by (induction names arbitrary: s) (auto simp: normalize_header_safe)
  from this [of "([], rules)"] show ?thesis
    by (force simp: normalizeHeaders_def safe_headers_def members_def split: prod.split dest: arg_cong [of _ _ fst])
qed

lemma safe_entry_set_pub:
  "k \<noteq> ''requestHeaders'' \<Longrightarrow> k \<noteq> ''responseHeaders'' \<Longrightarrow> safe_entry (set_pub k v ps) = safe_entry ps"
  "safe_entry ps \<Longrightarrow> safe_headers v \<Longrightarrow> safe_entry (set_pub ''requestHeaders'' v ps)"
  "safe_entry ps \<Longrightarrow> safe_headers v \<Longrightarrow> safe_entry (set_pub ''responseHeaders'' v ps)"
  by (simp_all add: safe_entry_def pub_set_pub)

lemma safe_headers_empty [simp]: "safe_headers (Obj [])" "safe_headers Undefined"
  by (simp_all add: safe_headers_def members_def)

lemma safe_boundPublicEntry: "safe_entry ps \<Longrightarrow> safe_entry (boundPublicEntry N ps)"
  by (simp add: boundPublicEntry_def strip_entry_def strip_details_def Let_def safe_entry_set_pub)

lemma safe_changes:
  "safe_entry (n_public (updateBodyAvailability P e)) = safe_entry (n_public e)"
  "safe_entry (n_public (finishRecord N now p b e)) = safe_entry (n_public e)"
  "safe_entry (n_public (fst (failRecord N now p e rs))) = safe_entry (n_public e)"
  by (simp_all add: updateBodyAvailability_def finishRecord_def failRecord_def Let_def safe_entry_set_pub split: prod.split)

lemma safe_applyResponse: "safe_entry (n_public e) \<Longrightarrow> safe_entry (n_public (fst (applyResponse N x t e rs)))"
proof (cases "isObject x")
  case True
  assume "safe_entry (n_public e)"
  moreover obtain h rs1 where h: "normalizeHeaders N (getp x ''headers'') rs = (h, rs1)" by force
  moreover have "safe_headers h" using normalizeHeaders_safe [of N "getp x ''headers''" rs] h by simp
  ultimately show ?thesis using True by (simp add: applyResponse_def Let_def safe_changes safe_entry_set_pub)
qed (simp add: applyResponse_def)

lemma safe_apply_extra: "safe_entry (n_public e) \<Longrightarrow> safe_headers (x_headers x) \<Longrightarrow> safe_entry (n_public (apply_extra P kind x e))"
  by (cases kind) (simp_all add: apply_extra_def Let_def safe_changes safe_entry_set_pub)

lemma safe_normalizeExtraInfo: "safe_headers (x_headers (fst (normalizeExtraInfo N kind p rs)))"
  using normalizeHeaders_safe [of N "getp p ''headers''" rs]
  by (cases "normalizeHeaders N (getp p ''headers'') rs") (simp add: normalizeExtraInfo_def Let_def)

lemma pub_literal: "pub k (map (\<lambda>(k, v). (lit k, v)) xs) = (case map_of xs k of None \<Rightarrow> Undefined | Some v \<Rightarrow> v)"
  by (induction xs) (auto simp: pub_map_of)

lemma safe_new_record: "safe_entry (n_public (fst (new_record N now i params prev c)))"
proof -
  let ?req = "if isObject (getp params ''request'') then getp params ''request'' else Obj []"
  obtain h r1 where h: "normalizeHeaders N (getp ?req ''headers'') (nc_rules c) = (h, r1)" by force
  obtain u r2 where u: "redactURL N (boundedString (getp ?req ''url'') 16000) r1 = (u, r2)" by force
  obtain d r3 where d: "redactURL N (boundedString (getp params ''documentURL'') 16000) r2 = (d, r3)" by force
  obtain f r4 where f: "normalizeInitiator N (getp params ''initiator'') r3 = (f, r4)" by force
  let ?ps = "n_public (fst (new_record N now i params prev c))"
  have "safe_headers h" using normalizeHeaders_safe [of N "getp ?req ''headers''" "nc_rules c"] h by simp
  moreover have "pub ''requestHeaders'' ?ps = h" "pub ''responseHeaders'' ?ps = Undefined"
    unfolding new_record_def Let_def h u d f prod.case fst_conv net_record.simps pub_literal
    by (cases prev; simp)+
  ultimately show ?thesis by (simp add: safe_entry_def)
qed

interpretation secrets: record_law N "\<lambda>e. safe_entry (n_public e)" "\<lambda>x. safe_headers (x_headers x)" for N
  by unfold_locales
    (simp_all add: safe_boundPublicEntry safe_applyResponse safe_changes safe_apply_extra safe_normalizeExtraInfo safe_new_record
      safe_entry_set_pub, simp add: blank_record_def safe_entry_def pub_map_of)

end
