(* ===== verification/Network_Events.thy ===== *)
theory Network_Events
  imports Network_Laws
begin

text \<open>
  Every event keeps the buffer of a capture in order and within its limits, and the extra information
  that waits exactly counted; an entry keeps what identifies it, and its number.
\<close>

section \<open>Pending extra information\<close>

definition total :: "('v \<Rightarrow> int) \<Rightarrow> ('k \<times> 'v) list \<Rightarrow> int" where
  "total f m = sum_list (map (\<lambda>p. f (snd p)) m)"

lemma total_assoc_set: "total f (assoc_set k v m) = total f m + f v - (case map_of m k of None \<Rightarrow> 0 | Some w \<Rightarrow> f w)"
  by (induction k v m rule: assoc_set.induct) (auto simp: total_def)

lemma total_delete:
  "distinct (map fst m) \<Longrightarrow> total f (filter (\<lambda>(l, _). l \<noteq> k) m) = total f m - (case map_of m k of None \<Rightarrow> 0 | Some w \<Rightarrow> f w)"
proof (induction m)
  case (Cons p m)
  obtain l v where p: "p = (l, v)" by force
  show ?case
  proof (cases "l = k")
    case True
    then have "\<forall>q\<in>set m. fst q \<noteq> k" using Cons.prems by (force simp: p)
    then have "filter (\<lambda>(l, _). l \<noteq> k) m = m" by (simp add: filter_id_conv split_beta)
    then show ?thesis using True by (simp add: p total_def)
  next
    case False
    then show ?thesis using Cons by (simp add: p total_def)
  qed
qed (simp add: total_def)

definition extra_count :: "(extra \<times> nat) list \<Rightarrow> int" where
  "extra_count xs = int (length xs)"

definition extra_bytes :: "(extra \<times> nat) list \<Rightarrow> int" where
  "extra_bytes xs = int (sum_list (map snd xs))"

definition pending_ok :: "capture \<Rightarrow> bool" where
  "pending_ok c \<longleftrightarrow> distinct (map fst (nc_pendingRequest c)) \<and> distinct (map fst (nc_pendingResponse c))
     \<and> nc_pendingEvents c = total extra_count (nc_pendingRequest c) + total extra_count (nc_pendingResponse c)
     \<and> nc_pendingBytes c = total extra_bytes (nc_pendingRequest c) + total extra_bytes (nc_pendingResponse c)
     \<and> nc_pendingEvents c \<le> MAX_PENDING_EXTRA_EVENTS \<and> nc_pendingBytes c \<le> MAX_PENDING_EXTRA_BYTES"

lemma pending_ok_part: "pending_part d = pending_part c \<Longrightarrow> pending_ok d = pending_ok c"
  by (simp add: pending_ok_def pending_part_def)

lemma queue_pending_ok:
  assumes "pending_ok c"
  shows "pending_ok (queuePendingExtra N requestId kind x c)"
proof (cases "nc_pendingEvents c \<ge> MAX_PENDING_EXTRA_EVENTS
    \<or> nc_pendingBytes c + int (byteLength N (extra_object x)) > MAX_PENDING_EXTRA_BYTES")
  case True
  then show ?thesis using assms by (simp add: queuePendingExtra_def Let_def pending_ok_def)
next
  case False
  then show ?thesis
    using assms by (cases kind; cases "map_of (pending kind c) requestId")
      (auto simp: queuePendingExtra_def Let_def pending_ok_def pending_def set_pending_def total_assoc_set distinct_assoc_set
        extra_count_def extra_bytes_def)
qed

text \<open>What the loop of \<open>drainPendingExtra\<close> takes.\<close>

lemma drain_extras_spec:
  assumes "steady N new c"
  shows "\<exists>n\<le>length xs. fst (drain_extras N i kind xs c) = drop n xs
    \<and> (let d = snd (drain_extras N i kind xs c) in
        steady N new d \<and> (within_limits c \<longrightarrow> within_limits d) \<and> fixed_part d = fixed_part c
        \<and> nc_nextSequence d = nc_nextSequence c \<and> nc_pendingRequest d = nc_pendingRequest c
        \<and> nc_pendingResponse d = nc_pendingResponse c \<and> nc_droppedEvents d = nc_droppedEvents c
        \<and> nc_pendingEvents d = nc_pendingEvents c - int n
        \<and> nc_pendingBytes d = nc_pendingBytes c - extra_bytes (take n xs))"
  using assms
proof (induction xs arbitrary: c)
  case Nil
  then show ?case by (simp add: extra_bytes_def)
next
  case (Cons p xs)
  obtain x b where p: "p = (x, b)" by force
  show ?case
  proof (cases "nextExtraRecord c i kind")
    case None
    with Cons.prems show ?thesis by (intro exI [of _ 0]) (simp add: p extra_bytes_def)
  next
    case (Some r)
    let ?c1 = "c\<lparr>nc_pendingEvents := nc_pendingEvents c - 1, nc_pendingBytes := nc_pendingBytes c - int b\<rparr>"
    let ?d = "applyNormalizedExtra N r kind x ?c1"
    have r: "r \<in> set (nc_entries c)"
      using Some Cons.prems found_record by (simp add: steady_def)
    have "steady N new ?c1"
      using Cons.prems by (simp add: steady_def indexed_def entry_bytes_def maps_ok_def fresh_def)
    from change_steady [OF this, of r "apply_extra (np N) kind x (nc_record ?c1 r)"] r
    have d: "steady N new ?d" "within_limits ?d" "pending_part ?d = pending_part ?c1" "nc_nextSequence ?d = nc_nextSequence c"
      "nc_droppedEvents ?d = nc_droppedEvents c" "fixed_part ?d = fixed_part ?c1"
      by (simp_all add: applyNormalizedExtra_eq record_changes)
    from Cons.IH [OF d(1)] obtain n where n: "n \<le> length xs" "fst (drain_extras N i kind xs ?d) = drop n xs"
      "let e = snd (drain_extras N i kind xs ?d) in
        steady N new e \<and> (within_limits ?d \<longrightarrow> within_limits e) \<and> fixed_part e = fixed_part ?d
        \<and> nc_nextSequence e = nc_nextSequence ?d \<and> nc_pendingRequest e = nc_pendingRequest ?d
        \<and> nc_pendingResponse e = nc_pendingResponse ?d \<and> nc_droppedEvents e = nc_droppedEvents ?d
        \<and> nc_pendingEvents e = nc_pendingEvents ?d - int n
        \<and> nc_pendingBytes e = nc_pendingBytes ?d - extra_bytes (take n xs)" by blast
    have eq: "drain_extras N i kind (p # xs) c = drain_extras N i kind xs ?d" by (simp add: p Some)
    show ?thesis
      using n d unfolding eq
      by (intro exI [of _ "Suc n"]) (simp add: Let_def pending_part_def fixed_part_def extra_bytes_def p)
  qed
qed

lemma drainPendingExtra_spec:
  assumes "steady N new c" and "pending_ok c"
  shows "steady N new (drainPendingExtra N i kind c) \<and> pending_ok (drainPendingExtra N i kind c)
    \<and> (within_limits c \<longrightarrow> within_limits (drainPendingExtra N i kind c))
    \<and> fixed_part (drainPendingExtra N i kind c) = fixed_part c
    \<and> nc_nextSequence (drainPendingExtra N i kind c) = nc_nextSequence c"
proof (cases "map_of (pending kind c) i")
  case None
  with assms show ?thesis by (simp add: drainPendingExtra_def)
next
  case (Some xs)
  obtain rest d where rd: "drain_extras N i kind xs c = (rest, d)" by force
  from drain_extras_spec [OF assms(1), of xs i kind] rd
  obtain n where n: "n \<le> length xs" "rest = drop n xs" "steady N new d" "within_limits c \<longrightarrow> within_limits d"
    "fixed_part d = fixed_part c" "nc_nextSequence d = nc_nextSequence c" "nc_pendingRequest d = nc_pendingRequest c"
    "nc_pendingResponse d = nc_pendingResponse c" "nc_pendingEvents d = nc_pendingEvents c - int n"
    "nc_pendingBytes d = nc_pendingBytes c - extra_bytes (take n xs)"
    by (auto simp: Let_def)
  define m where "m = (if rest = [] then filter (\<lambda>(k, _). k \<noteq> i) (pending kind d) else assoc_set i rest (pending kind d))"
  have eq: "drainPendingExtra N i kind c = set_pending kind m d"
    using Some rd by (simp add: drainPendingExtra_def m_def)
  have pend: "pending kind d = pending kind c" using n(7,8) by (cases kind) (simp_all add: pending_def)
  have dist: "distinct (map fst (pending kind c))" using assms(2) by (cases kind) (simp_all add: pending_ok_def pending_def)
  then have m_dist: "distinct (map fst m)"
    by (simp add: m_def pend distinct_assoc_set distinct_map_filter)
  have tot: "total f m = total f (pending kind c) - f xs + f rest" if "f [] = 0" for f
    using Some dist that by (simp add: m_def pend total_assoc_set total_delete)
  have "sum_list (map snd xs) = sum_list (map snd (take n xs)) + sum_list (map snd (drop n xs))"
    by (metis append_take_drop_id map_append sum_list.append)
  then have parts: "extra_count xs = int n + extra_count rest" "extra_bytes xs = extra_bytes (take n xs) + extra_bytes rest"
    "0 \<le> extra_bytes (take n xs)"
    using n(1,2) by (simp_all add: extra_count_def extra_bytes_def)
  have "pending_ok (set_pending kind m d)"
    using assms(2) n(7-10) m_dist parts tot [of extra_count] tot [of extra_bytes]
    by (cases kind) (simp_all add: pending_ok_def set_pending_def pending_def extra_count_def extra_bytes_def)
  moreover have "steady N new (set_pending kind m d)" "within_limits (set_pending kind m d) = within_limits d"
    "fixed_part (set_pending kind m d) = fixed_part d" "nc_nextSequence (set_pending kind m d) = nc_nextSequence d"
    using n(3) by (cases kind; simp add: set_pending_def steady_def indexed_def entry_bytes_def maps_ok_def fresh_def
        within_limits_def fixed_part_def)+
  ultimately show ?thesis using n eq by simp
qed

section \<open>Events keep the buffer in order\<close>

definition capture_ok :: "net_platform \<Rightarrow> capture \<Rightarrow> bool" where
  "capture_ok N c \<longleftrightarrow> steady N None c \<and> within_limits c \<and> pending_ok c"

lemma steady_rules [simp]: "steady N new (c\<lparr>nc_rules := rs\<rparr>) = steady N new c"
  and within_rules [simp]: "within_limits (c\<lparr>nc_rules := rs\<rparr>) = within_limits c"
  and pending_rules [simp]: "pending_ok (c\<lparr>nc_rules := rs\<rparr>) = pending_ok c"
  and fixed_rules [simp]: "fixed_part (c\<lparr>nc_rules := rs\<rparr>) = fixed_part c"
  by (simp_all add: steady_def indexed_def entry_bytes_def maps_ok_def fresh_def within_limits_def pending_ok_def fixed_part_def)

lemma caught_parts [simp]: "steady N new (caught c) = steady N new c" "within_limits (caught c) = within_limits c"
  "pending_ok (caught c) = pending_ok c" "fixed_part (caught c) = fixed_part c" "nc_nextSequence (caught c) = nc_nextSequence c"
  "nc_record (caught c) = nc_record c" "nc_entries (caught c) = nc_entries c"
  by (simp_all add: caught_def steady_def indexed_def entry_bytes_def maps_ok_def fresh_def within_limits_def pending_ok_def fixed_part_def)

lemma store_record_steady:
  assumes "steady N None c" and "n_requestId e = i" and "n_bytes e = 0"
  shows "steady N (Some (nc_nextSequence c)) (store_record i e c)"
proof -
  let ?r = "nc_nextSequence c" and ?d = "store_record i e c"
  have idx: "indexed c" using assms(1) by (simp add: steady_def)
  then have new: "?r \<notin> set (nc_entries c)" by (auto simp: indexed_def)
  have m: "maps_ok c" using idx by (simp add: indexed_def)
  have d: "nc_entries ?d = nc_entries c @ [?r]" "nc_record ?d = (nc_record c)(?r := e)" "nc_nextSequence ?d = Suc ?r"
    "nc_bufferedBytes ?d = nc_bufferedBytes c"
    "map_of (nc_byEntryId ?d) = (map_of (nc_byEntryId c))(entry_key ?r \<mapsto> ?r)"
    "map_of (nc_current ?d) = (map_of (nc_current c))(i \<mapsto> ?r)"
    "map_of (nc_records ?d) = (map_of (nc_records c))(i \<mapsto> (case map_of (nc_records c) i of None \<Rightarrow> [] | Some rs \<Rightarrow> rs) @ [?r])"
    by (simp_all add: store_record_def put_record_def Let_def map_of_assoc_set)
  have kept: "nc_record ?d q = nc_record c q" if "q \<in> set (nc_entries c)" for q
    using that new by (auto simp: d)
  have "q \<in> set (nc_entries ?d) \<and> k = entry_key q" if "map_of (nc_byEntryId ?d) k = Some q" for k q
    using that m by (auto simp: d maps_ok_def split: if_splits)
  moreover have "q \<in> set (nc_entries ?d) \<and> n_requestId (nc_record ?d q) = k" if "map_of (nc_current ?d) k = Some q" for k q
    using that m new assms(2) by (auto simp: d maps_ok_def split: if_splits)
  moreover have "rs \<noteq> [] \<and> (\<forall>q\<in>set rs. q \<in> set (nc_entries ?d) \<and> n_requestId (nc_record ?d q) = k)"
    if rs: "map_of (nc_records ?d) k = Some rs" for k rs
  proof -
    have old: "\<forall>q\<in>set os. q \<in> set (nc_entries ?d) \<and> n_requestId (nc_record ?d q) = k" if "map_of (nc_records c) k = Some os" for os
    proof
      fix q assume "q \<in> set os"
      then have "q \<in> set (nc_entries c)" "n_requestId (nc_record c q) = k" using that m by (auto simp: maps_ok_def)
      then show "q \<in> set (nc_entries ?d) \<and> n_requestId (nc_record ?d q) = k" using kept by (simp add: d(1))
    qed
    show ?thesis
    proof (cases "k = i")
      case True
      then have "rs = (case map_of (nc_records c) i of None \<Rightarrow> [] | Some rs \<Rightarrow> rs) @ [?r]" using rs by (simp add: d)
      then show ?thesis using old True assms(2) by (cases "map_of (nc_records c) i") (auto simp: d(1,2))
    next
      case False
      then have "map_of (nc_records c) k = Some rs" using rs by (simp add: d)
      then show ?thesis using old m by (auto simp: maps_ok_def)
    qed
  qed
  ultimately have "maps_ok ?d" unfolding maps_ok_def by blast
  moreover have "entry_bytes ?d = entry_bytes c"
  proof -
    have "map (\<lambda>q. int (n_bytes (nc_record ?d q))) (nc_entries c) = map (\<lambda>q. int (n_bytes (nc_record c q))) (nc_entries c)"
      using kept by simp
    moreover have "n_bytes (nc_record ?d ?r) = 0" using assms(3) by (simp add: d(2))
    ultimately show ?thesis unfolding entry_bytes_def d(1) map_append sum_list.append by (simp del: map_eq_conv fun_upd_apply)
  qed
  ultimately have "indexed ?d"
    using idx by (auto simp: indexed_def d(1,3,4) sorted_wrt_append less_Suc_eq)
  moreover have "1 \<le> nc_maxEntries ?d" using assms(1) by (simp add: steady_def store_record_def put_record_def Let_def)
  moreover have "fresh N ?r ?d" using assms(3) by (simp add: fresh_def d(1,2))
  ultimately show ?thesis by (simp add: steady_def)
qed

lemma finish_redirect_steady:
  assumes "steady N None c" and "\<And>p. previous = Some p \<Longrightarrow> p \<in> set (nc_entries c)"
  shows "steady N None (snd (finish_redirect N now params previous c))
    \<and> nc_entries (snd (finish_redirect N now params previous c)) = nc_entries c
    \<and> within_limits (snd (finish_redirect N now params previous c)) = within_limits c
    \<and> pending_part (snd (finish_redirect N now params previous c)) = pending_part c
    \<and> fixed_part (snd (finish_redirect N now params previous c)) = fixed_part c
    \<and> nc_nextSequence (snd (finish_redirect N now params previous c)) = nc_nextSequence c
    \<and> (\<forall>p. fst (finish_redirect N now params previous c) = Some p \<longrightarrow> p \<in> set (nc_entries c))"
proof (cases previous)
  case None
  then show ?thesis using assms by (simp add: finish_redirect_def)
next
  case (Some p)
  show ?thesis
  proof (cases "truthy (getp params ''redirectResponse'')")
    case False
    then show ?thesis using assms Some by (simp add: finish_redirect_def)
  next
    case True
    define e where "e = (if getp params ''redirectHasExtraInfo'' = Bool False then (nc_record c p)\<lparr>n_responseExtra := True\<rparr> else nc_record c p)"
    obtain e2 rules where a: "applyResponse N (getp params ''redirectResponse'') (pub ''resourceType'' (n_public e)) e (nc_rules c) = (e2, rules)"
      by force
    have "n_requestId e2 = n_requestId e" "n_bytes e2 = n_bytes e"
      using record_changes(3,4) [of N "getp params ''redirectResponse''" "pub ''resourceType'' (n_public e)" e "nc_rules c"] a by simp_all
    moreover define e3 where "e3 = (if response_throws (getp params ''redirectResponse'') then e2 else finishRecord N now params True e2)"
    ultimately have same: "n_requestId e3 = n_requestId (nc_record c p)" "n_bytes e3 = n_bytes (nc_record c p)"
      by (simp_all add: record_changes e_def)
    have eq: "finish_redirect N now params previous c = (Some p, (put_record p e3 c)\<lparr>nc_rules := rules\<rparr>)"
      using Some True a by (simp add: finish_redirect_def Let_def e_def e3_def)
    have "steady N None (put_record p e3 c)"
      by (rule put_record_steady [OF assms(1) same]) simp
    then show ?thesis
      using assms(2) [OF Some] unfolding eq by (simp add: put_record_def within_limits_def pending_part_def fixed_part_def)
  qed
qed

lemma link_redirect_steady:
  assumes "steady N None c" and "\<And>p. redirectFrom = Some p \<Longrightarrow> p \<in> set (nc_entries c)"
  shows "steady N None (link_redirect N redirectFrom k c)
    \<and> (within_limits c \<longrightarrow> within_limits (link_redirect N redirectFrom k c))
    \<and> pending_part (link_redirect N redirectFrom k c) = pending_part c
    \<and> fixed_part (link_redirect N redirectFrom k c) = fixed_part c
    \<and> nc_nextSequence (link_redirect N redirectFrom k c) = nc_nextSequence c"
proof (cases redirectFrom)
  case (Some p)
  let ?e = "(nc_record c p)\<lparr>n_public := set_pub ''redirectTo'' (Str k) (n_public (nc_record c p))\<rparr>"
  have eq: "link_redirect N redirectFrom k c = change N p ?e c" by (simp add: link_redirect_def Some change_def Let_def)
  from change_steady [OF assms(1) assms(2) [OF Some], of ?e] show ?thesis unfolding eq by simp
qed (use assms in \<open>simp add: link_redirect_def\<close>)

lemma new_record_start: "n_requestId (fst (new_record N now i params prev c)) = i" "n_bytes (fst (new_record N now i params prev c)) = 0"
  unfolding new_record_def Let_def by (simp_all only: prod.case_eq_if fst_conv net_record.simps)

lemma store_record_parts:
  "pending_part (store_record i e c) = pending_part c" "fixed_part (store_record i e c) = fixed_part c"
  by (simp_all add: store_record_def put_record_def Let_def pending_part_def fixed_part_def)

lemma handleRequest_ok:
  assumes "capture_ok N c"
  shows "capture_ok N (handleRequest N now i params c) \<and> fixed_part (handleRequest N now i params c) = fixed_part c"
proof -
  obtain prev c1 where f: "finish_redirect N now params (map_of (nc_current c) i) c = (prev, c1)" by force
  have c: "steady N None c" "within_limits c" "pending_ok c" using assms by (simp_all add: capture_ok_def)
  then have "p \<in> set (nc_entries c)" if "map_of (nc_current c) i = Some p" for p
    using that by (simp add: steady_def indexed_def maps_ok_def)
  then have "\<And>p. map_of (nc_current c) i = Some p \<Longrightarrow> p \<in> set (nc_entries c)" by simp
  from finish_redirect_steady [of N c "map_of (nc_current c) i" now params, OF c(1) this] f
  have c1: "steady N None c1" "nc_entries c1 = nc_entries c" "within_limits c1" "pending_part c1 = pending_part c"
    "fixed_part c1 = fixed_part c" "\<And>p. prev = Some p \<Longrightarrow> p \<in> set (nc_entries c1)"
    using c(2) by auto
  let ?req = "if isObject (getp params ''request'') then getp params ''request'' else Obj []"
  let ?stop = "prev \<noteq> None \<and> response_throws (getp params ''redirectResponse'') \<or> boundedString (getp ?req ''url'') 16000 = []
    \<or> headers_throw (getp ?req ''headers'')"
  show ?thesis
  proof (cases ?stop)
    case True
    have "capture_ok N c1" using c1 c pending_ok_part [of c1 c] by (simp add: capture_ok_def)
    then show ?thesis using f True c1(5) by (auto simp: handleRequest_def Let_def capture_ok_def)
  next
    case False
    obtain e rules where n: "new_record N now i params prev c1 = (e, rules)" by force
    define c2 where "c2 = link_redirect N prev (entry_key (nc_nextSequence c1)) (c1\<lparr>nc_rules := rules\<rparr>)"
    define c3 where "c3 = store_record i e c2"
    define c4 where "c4 = drainPendingExtra N i Request c3"
    define c5 where "c5 = drainPendingExtra N i Response c4"
    let ?r = "nc_nextSequence c1"
    have eq: "handleRequest N now i params c = updateRecord N ?r c5"
      using f n False by (auto simp: handleRequest_def Let_def c2_def c3_def c4_def c5_def)
    have "steady N None (c1\<lparr>nc_rules := rules\<rparr>)" using c1(1) by simp
    from link_redirect_steady [OF this, of prev "entry_key ?r"] c1(3,4,6)
    have c2: "steady N None c2" "pending_part c2 = pending_part c1" "fixed_part c2 = fixed_part c1" "nc_nextSequence c2 = ?r"
      by (simp_all add: c2_def) (simp add: pending_part_def)
    have e: "n_requestId e = i" "n_bytes e = 0" using new_record_start [of N now i params prev c1] n by simp_all
    have c3: "steady N (Some ?r) c3" "pending_part c3 = pending_part c2" "fixed_part c3 = fixed_part c2"
      using store_record_steady [OF c2(1) e] c2(4) by (simp_all add: c3_def store_record_parts)
    have "pending_ok c3" using c(3) pending_ok_part [of c3 c] c3 c2 c1 by simp
    with drainPendingExtra_spec [OF c3(1)] have c4: "steady N (Some ?r) c4" "pending_ok c4" "fixed_part c4 = fixed_part c3"
      by (simp_all add: c4_def)
    from drainPendingExtra_spec [OF this(1,2)] have c5: "steady N (Some ?r) c5" "pending_ok c5" "fixed_part c5 = fixed_part c4"
      by (simp_all add: c5_def)
    have "?r \<in> set (nc_entries c5) \<or> settled N (nc_record c5 ?r)" using c5(1) by (auto simp: steady_def fresh_def)
    from updateRecord_steady [OF c5(1) this] have "steady N None (updateRecord N ?r c5)" "within_limits (updateRecord N ?r c5)"
      "pending_part (updateRecord N ?r c5) = pending_part c5" by (simp_all add: steady_def)
    then show ?thesis
      using eq c5 c4 c3 c2 c1 pending_ok_part [of "updateRecord N ?r c5" c5] by (simp add: capture_ok_def updateRecord_fixed)
  qed
qed

lemma applyExtraInfo_ok:
  assumes "capture_ok N c"
  shows "capture_ok N (applyExtraInfo N i kind params c) \<and> fixed_part (applyExtraInfo N i kind params c) = fixed_part c"
proof -
  obtain x rules where x: "normalizeExtraInfo N kind params (nc_rules c) = (x, rules)" by force
  let ?c = "c\<lparr>nc_rules := rules\<rparr>"
  have ok: "steady N None ?c" "within_limits ?c" "pending_ok ?c" using assms by (simp_all add: capture_ok_def)
  show ?thesis
  proof (cases "headers_throw (getp params ''headers'')")
    case True
    then show ?thesis using assms x by (simp add: applyExtraInfo_def capture_ok_def)
  next
    case fine: False
    show ?thesis
  proof (cases "nextExtraRecord ?c i kind")
    case None
    then have eq: "applyExtraInfo N i kind params c = queuePendingExtra N i kind x ?c" using x fine by (simp add: applyExtraInfo_def)
    have "steady N None (queuePendingExtra N i kind x ?c)" "within_limits (queuePendingExtra N i kind x ?c)"
      "fixed_part (queuePendingExtra N i kind x ?c) = fixed_part c"
      using ok by (cases kind; simp add: queuePendingExtra_def set_pending_def Let_def steady_def indexed_def entry_bytes_def
          maps_ok_def within_limits_def fixed_part_def)+
    with eq queue_pending_ok [OF ok(3)] show ?thesis by (simp add: capture_ok_def)
  next
    case (Some r)
    then have eq: "applyExtraInfo N i kind params c = change N r (apply_extra (np N) kind x (nc_record ?c r)) ?c"
      using x fine by (simp add: applyExtraInfo_def applyNormalizedExtra_eq)
    have "r \<in> set (nc_entries ?c)" using found_record [OF _ Some] ok(1) by (simp add: steady_def)
    from change_steady [OF ok(1) this, of "apply_extra (np N) kind x (nc_record ?c r)"] show ?thesis
      using ok(3) pending_ok_part [of "change N r (apply_extra (np N) kind x (nc_record ?c r)) ?c" ?c]
      unfolding eq by (simp add: capture_ok_def record_changes)
    qed
  qed
qed

lemma updateCurrent_ok:
  assumes "capture_ok N c" and "\<And>e rules. n_requestId (fst (mutate e rules)) = n_requestId e"
    and "\<And>e rules. n_bytes (fst (mutate e rules)) = n_bytes e"
  shows "capture_ok N (updateCurrent N i throws mutate c) \<and> fixed_part (updateCurrent N i throws mutate c) = fixed_part c"
proof (cases "map_of (nc_current c) i")
  case None
  with assms(1) show ?thesis by (simp add: updateCurrent_def)
next
  case (Some r)
  obtain e rules where m: "mutate (nc_record c r) (nc_rules c) = (e, rules)" by force
  let ?c = "c\<lparr>nc_rules := rules\<rparr>"
  have ok: "steady N None ?c" "pending_ok ?c" using assms(1) by (simp_all add: capture_ok_def)
  have same: "n_requestId e = n_requestId (nc_record ?c r)" "n_bytes e = n_bytes (nc_record ?c r)"
    using assms(2,3) [of "nc_record c r" "nc_rules c"] m by simp_all
  have r: "r \<in> set (nc_entries ?c)" using assms(1) Some by (simp add: capture_ok_def steady_def indexed_def maps_ok_def)
  have put: "(put_record r e c)\<lparr>nc_rules := rules\<rparr> = put_record r e ?c" by (cases c) (simp add: put_record_def)
  have "capture_ok N (put_record r e ?c)" "fixed_part (put_record r e ?c) = fixed_part c"
    using put_record_steady [OF ok(1) same] ok(2) assms(1)
    by (simp_all add: capture_ok_def) (simp_all add: put_record_def within_limits_def pending_ok_def fixed_part_def)
  then have "capture_ok N (caught (put_record r e ?c)) \<and> fixed_part (caught (put_record r e ?c)) = fixed_part c"
    by (simp add: capture_ok_def)
  moreover have eq: "updateCurrent N i throws mutate c = (if throws then caught (put_record r e ?c) else change N r e ?c)"
    using Some m by (simp add: updateCurrent_def change_def put)
  moreover note change_steady [OF ok(1) r same] ok(2) pending_ok_part [of "change N r e ?c" ?c]
  ultimately show ?thesis
    unfolding eq by (simp add: capture_ok_def)
qed

lemma handleNetworkEvent_ok:
  assumes "capture_ok N c"
  shows "capture_ok N (handleNetworkEvent N now event c) \<and> fixed_part (handleNetworkEvent N now event c) = fixed_part c"
  unfolding handleNetworkEvent_def Let_def
  by (simp add: assms handleRequest_ok applyExtraInfo_ok updateCurrent_ok record_changes)

lemma createCapture_ok: "1 \<le> n \<Longrightarrow> capture_ok N (createCapture t d o' n now)"
  by (simp add: createCapture_def capture_ok_def steady_def indexed_def entry_bytes_def maps_ok_def within_limits_def
      pending_ok_def total_def)

lemma clearCapture_ok: "capture_ok N c \<Longrightarrow> capture_ok N (clearCapture c)"
  by (simp add: clearCapture_def capture_ok_def steady_def indexed_def entry_bytes_def maps_ok_def within_limits_def
      pending_ok_def total_def)

lemma disableBodyAccess_ok:
  assumes "capture_ok N c"
  shows "capture_ok N (disableBodyAccess c)"
proof -
  have "entry_bytes (disableBodyAccess c) = entry_bytes c"
    unfolding entry_bytes_def by (rule arg_cong [of _ _ sum_list]) (simp add: disableBodyAccess_def)
  then show ?thesis using assms
    by (simp add: disableBodyAccess_def capture_ok_def steady_def indexed_def maps_ok_def within_limits_def pending_ok_def total_def)
qed

lemma capture_events_ok:
  "capture_ok N c \<Longrightarrow> capture_ok N (capture_events N es c) \<and> fixed_part (capture_events N es c) = fixed_part c"
  by (induction es arbitrary: c) (auto simp: capture_events_def handleNetworkEvent_ok)

section \<open>What identifies an entry\<close>

definition identity_keys :: "string list" where
  "identity_keys = [''entryId'', ''sequence'', ''startedAt'', ''method'']"

definition identity :: "properties \<Rightarrow> jsval list" where
  "identity ps = map (\<lambda>k. pub k ps) identity_keys"

definition same_identity :: "capture \<Rightarrow> capture \<Rightarrow> bool" where
  "same_identity c d \<longleftrightarrow> nc_nextSequence c \<le> nc_nextSequence d
     \<and> (\<forall>r<nc_nextSequence c. identity (n_public (nc_record d r)) = identity (n_public (nc_record c r)))"

lemma same_identity_refl [intro]: "same_identity c c"
  by (simp add: same_identity_def)

lemma same_identity_trans [trans]: "same_identity c d \<Longrightarrow> same_identity d e \<Longrightarrow> same_identity c e"
  by (auto simp: same_identity_def)

lemma same_identity_parts:
  "nc_record d = nc_record c \<Longrightarrow> nc_nextSequence d = nc_nextSequence c \<Longrightarrow> same_identity c d"
  by (simp add: same_identity_def)

lemma identity_set_pub: "k \<notin> set identity_keys \<Longrightarrow> identity (set_pub k v ps) = identity ps"
  by (auto simp: identity_def pub_set_pub)

lemmas identity_sets = identity_set_pub [unfolded identity_keys_def]

lemma identity_bounded: "identity (boundPublicEntry N ps) = identity ps"
  by (simp add: boundPublicEntry_def strip_entry_def strip_details_def Let_def identity_sets)

lemma identity_changes:
  "identity (n_public (updateBodyAvailability P e)) = identity (n_public e)"
  "identity (n_public (finishRecord N now p b e)) = identity (n_public e)"
  "identity (n_public (fst (failRecord N now p e rs))) = identity (n_public e)"
  "identity (n_public (fst (applyResponse N x t e rs))) = identity (n_public e)"
  "identity (n_public (apply_extra P kind y e)) = identity (n_public e)"
  by (simp_all add: updateBodyAvailability_def finishRecord_def failRecord_def applyResponse_def apply_extra_def Let_def identity_sets
      split: prod.split side.split)

lemma put_identity: "identity (n_public e) = identity (n_public (nc_record c r)) \<Longrightarrow> same_identity c (put_record r e c)"
  by (simp add: same_identity_def put_record_def)

lemma evict_identity: "same_identity c (evictCapture c)"
proof (induction c rule: evictCapture.induct)
  case (1 c)
  show ?case
  proof (cases "(length (nc_entries c) > nc_maxEntries c \<or> nc_bufferedBytes c > MAX_BUFFER_BYTES) \<and> nc_entries c \<noteq> []")
    case True
    then obtain r rest where e: "nc_entries c = r # rest" by (cases "nc_entries c") auto
    have "same_identity c (drop_entry r rest c)" by (rule same_identity_parts) (simp_all add: drop_entry_def Let_def)
    also have "same_identity \<dots> (evictCapture (drop_entry r rest c))" using "1.IH" True e by blast
    also have "evictCapture (drop_entry r rest c) = evictCapture c" using True e by (subst (2) evictCapture.simps) simp
    finally show ?thesis .
  next
    case False
    then have "evictCapture c = c" by (subst evictCapture.simps) (auto split: list.split)
    then show ?thesis by auto
  qed
qed

lemma updateRecord_identity: "same_identity c (updateRecord N r c)"
  unfolding updateRecord_def Let_def
  by (rule same_identity_trans [OF _ evict_identity]) (simp add: same_identity_def put_record_def identity_bounded)

lemma change_identity: "identity (n_public e) = identity (n_public (nc_record c r)) \<Longrightarrow> same_identity c (updateRecord N r (put_record r e c))"
  by (rule same_identity_trans [OF put_identity updateRecord_identity])

lemma same_identity_caught [simp]: "same_identity c (caught d) = same_identity c d"
  by (simp add: same_identity_def)

lemma same_identity_rules: "same_identity c (d\<lparr>nc_rules := rs\<rparr>) = same_identity c d"
  "same_identity (c\<lparr>nc_rules := rs\<rparr>) d = same_identity c d"
  by (simp_all add: same_identity_def)

lemma extra_identity: "same_identity c (applyNormalizedExtra N r kind x c)"
  unfolding applyNormalizedExtra_def by (intro change_identity) (simp add: identity_changes)

lemma set_pending_identity: "same_identity c (set_pending kind m d) = same_identity c d"
  by (cases kind) (simp_all add: set_pending_def same_identity_def)

lemma drain_extras_identity: "same_identity c (snd (drain_extras N i kind xs c))"
proof (induction N i kind xs c rule: drain_extras.induct)
  case (2 N i kind x b xs c)
  let ?c = "c\<lparr>nc_pendingEvents := nc_pendingEvents c - 1, nc_pendingBytes := nc_pendingBytes c - int b\<rparr>"
  have "same_identity c ?c" by (rule same_identity_parts) simp_all
  also note extra_identity
  finally have "same_identity c (applyNormalizedExtra N r kind x ?c)" for r .
  with 2 show ?case by (cases "nextExtraRecord c i kind") (auto intro: same_identity_trans)
qed auto

lemma drain_identity: "same_identity c (drainPendingExtra N i kind c)"
  using drain_extras_identity [of c N i kind]
  by (auto simp: drainPendingExtra_def set_pending_identity split: option.split prod.split) (metis snd_conv)

lemma queue_identity: "same_identity c (queuePendingExtra N i kind x c)"
  by (cases kind) (auto simp: queuePendingExtra_def Let_def set_pending_def intro: same_identity_parts)

lemma applyExtraInfo_identity: "same_identity c (applyExtraInfo N i kind params c)"
proof -
  obtain x rules where x: "normalizeExtraInfo N kind params (nc_rules c) = (x, rules)" by force
  let ?c = "c\<lparr>nc_rules := rules\<rparr>"
  have "same_identity c ?c" by (rule same_identity_parts) simp_all
  moreover have "same_identity ?c (applyExtraInfo N i kind params c)"
    by (cases "nextExtraRecord ?c i kind") (auto simp: applyExtraInfo_def x Let_def queue_identity extra_identity)
  ultimately show ?thesis by (rule same_identity_trans)
qed

lemma updateCurrent_identity:
  assumes "\<And>e rules. identity (n_public (fst (mutate e rules))) = identity (n_public e)"
  shows "same_identity c (updateCurrent N i throws mutate c)"
proof (cases "map_of (nc_current c) i")
  case (Some r)
  obtain e rules where m: "mutate (nc_record c r) (nc_rules c) = (e, rules)" by force
  let ?c = "(put_record r e c)\<lparr>nc_rules := rules\<rparr>"
  have put: "same_identity c ?c"
    using assms [of "nc_record c r" "nc_rules c"] m by (simp add: same_identity_rules put_identity)
  then have "same_identity c (updateRecord N r ?c)" using updateRecord_identity by (rule same_identity_trans)
  then show ?thesis using Some m put by (simp add: updateCurrent_def)
qed (auto simp: updateCurrent_def)

lemma finish_redirect_identity: "same_identity c (snd (finish_redirect N now params prev c))"
proof (cases prev)
  case (Some p)
  define e where "e = (if getp params ''redirectHasExtraInfo'' = Bool False then (nc_record c p)\<lparr>n_responseExtra := True\<rparr> else nc_record c p)"
  obtain e2 rules where a: "applyResponse N (getp params ''redirectResponse'') (pub ''resourceType'' (n_public e)) e (nc_rules c) = (e2, rules)"
    by force
  have "identity (n_public e2) = identity (n_public (nc_record c p))"
    using identity_changes(4) [of N "getp params ''redirectResponse''" "pub ''resourceType'' (n_public e)" e "nc_rules c"] a
    by (simp add: e_def)
  then show ?thesis using a Some
    by (auto simp: finish_redirect_def Let_def e_def same_identity_rules identity_changes intro!: put_identity)
qed (auto simp: finish_redirect_def)

lemma link_redirect_identity: "same_identity c (link_redirect N prev k c)"
  by (cases prev) (auto simp: link_redirect_def Let_def identity_sets intro!: change_identity)

lemma store_identity: "same_identity c (store_record i e c)"
  by (simp add: same_identity_def store_record_def put_record_def Let_def)

lemma new_record_identity:
  "\<exists>t v. identity (n_public (fst (new_record N now i params prev c)))
     = [Str (entry_key (nc_nextSequence c)), jnum (of_nat (nc_nextSequence c)), t, v]"
proof -
  let ?req = "if isObject (getp params ''request'') then getp params ''request'' else Obj []"
  obtain h r1 where h: "normalizeHeaders N (getp ?req ''headers'') (nc_rules c) = (h, r1)" by force
  obtain u r2 where u: "redactURL N (boundedString (getp ?req ''url'') 16000) r1 = (u, r2)" by force
  obtain d r3 where d: "redactURL N (boundedString (getp params ''documentURL'') 16000) r2 = (d, r3)" by force
  obtain f r4 where f: "normalizeInitiator N (getp params ''initiator'') r3 = (f, r4)" by force
  show ?thesis
    unfolding new_record_def Let_def h u d f prod.case fst_conv net_record.simps identity_def identity_keys_def list.map pub_literal
    by simp
qed

text \<open>The entries of the buffer bear their numbers.\<close>

definition numbered :: "capture \<Rightarrow> bool" where
  "numbered c \<longleftrightarrow> (\<forall>r<nc_nextSequence c. 1 \<le> r \<longrightarrow> (\<exists>t v. identity (n_public (nc_record c r)) = [Str (entry_key r), jnum (of_nat r), t, v]))"

lemma numbered_same: "numbered c \<Longrightarrow> same_identity c d \<Longrightarrow> nc_nextSequence d = nc_nextSequence c \<Longrightarrow> numbered d"
  by (simp add: numbered_def same_identity_def)

lemma numbered_parts [simp]: "numbered (caught c) = numbered c" "numbered (c\<lparr>nc_rules := rs\<rparr>) = numbered c"
  by (simp_all add: numbered_def)

lemma evict_next: "nc_nextSequence (evictCapture c) = nc_nextSequence c"
proof (induction c rule: evictCapture.induct)
  case (1 c)
  then show ?case by (subst evictCapture.simps) (auto simp: drop_entry_def Let_def split: list.split)
qed

lemma updateRecord_next: "nc_nextSequence (updateRecord N r c) = nc_nextSequence c"
  unfolding updateRecord_def Let_def evict_next by (simp add: put_record_def)

lemma put_next [simp]: "nc_nextSequence (put_record r e c) = nc_nextSequence c"
  by (simp add: put_record_def)

lemma drain_extras_next: "nc_nextSequence (snd (drain_extras N i kind xs c)) = nc_nextSequence c"
  by (induction N i kind xs c rule: drain_extras.induct)
    (auto simp: applyNormalizedExtra_def updateRecord_next split: option.split)

lemma drain_next: "nc_nextSequence (drainPendingExtra N i kind c) = nc_nextSequence c"
  using drain_extras_next [of N i kind _ c]
  by (cases kind) (auto simp: drainPendingExtra_def set_pending_def split: option.split prod.split, (metis snd_conv)+)

lemma handleRequest_numbered:
  assumes "numbered c"
  shows "numbered (handleRequest N now i params c) \<and> same_identity c (handleRequest N now i params c)"
proof -
  obtain prev c1 where f: "finish_redirect N now params (map_of (nc_current c) i) c = (prev, c1)" by force
  have c1: "same_identity c c1" using finish_redirect_identity [of c N now params "map_of (nc_current c) i"] f by simp
  have n1: "nc_nextSequence c1 = nc_nextSequence c"
    using f by (cases "map_of (nc_current c) i") (auto simp: finish_redirect_def Let_def split: if_splits prod.splits)
  obtain e rules where n: "new_record N now i params prev c1 = (e, rules)" by force
  define c2 where "c2 = link_redirect N prev (entry_key (nc_nextSequence c1)) (c1\<lparr>nc_rules := rules\<rparr>)"
  define c3 where "c3 = store_record i e c2"
  define c4 where "c4 = updateRecord N (nc_nextSequence c1) (drainPendingExtra N i Response (drainPendingExtra N i Request c3))"
  have c2: "same_identity c c2" using c1 link_redirect_identity [of "c1\<lparr>nc_rules := rules\<rparr>" N prev]
    unfolding c2_def by (rule_tac same_identity_trans) (simp_all add: same_identity_rules)
  have n2: "nc_nextSequence c2 = nc_nextSequence c"
    using n1 by (cases prev) (simp_all add: c2_def link_redirect_def Let_def updateRecord_next)
  have "numbered c2" using numbered_same [OF assms c2 n2] .
  moreover have "\<exists>t v. identity (n_public e) = [Str (entry_key (nc_nextSequence c2)), jnum (of_nat (nc_nextSequence c2)), t, v]"
    using new_record_identity [of N now i params prev c1] n n1 n2 by simp
  ultimately have c3: "numbered c3"
    by (auto simp: numbered_def c3_def store_record_def put_record_def Let_def less_Suc_eq)
  have s4: "same_identity c3 c4"
    unfolding c4_def by (meson same_identity_trans drain_identity updateRecord_identity)
  have n4: "nc_nextSequence c4 = nc_nextSequence c3" by (simp add: c4_def updateRecord_next drain_next)
  have "same_identity c c3" using same_identity_trans [OF c2 store_identity] by (simp add: c3_def)
  with s4 have "same_identity c c4" by (rule same_identity_trans [rotated])
  with numbered_same [OF c3 s4 n4] numbered_same [OF assms c1 n1] c1 show ?thesis
    using f n by (auto simp: handleRequest_def Let_def c2_def c3_def c4_def same_identity_rules)
qed

lemma updateCurrent_next: "nc_nextSequence (updateCurrent N i throws mutate c) = nc_nextSequence c"
  by (auto simp: updateCurrent_def updateRecord_next split: option.split prod.split)

lemma applyExtraInfo_next: "nc_nextSequence (applyExtraInfo N i kind params c) = nc_nextSequence c"
  by (cases kind) (auto simp: applyExtraInfo_def Let_def queuePendingExtra_def set_pending_def applyNormalizedExtra_def updateRecord_next
      split: option.split prod.split)

lemma handleNetworkEvent_numbered:
  assumes "numbered c"
  shows "numbered (handleNetworkEvent N now event c) \<and> same_identity c (handleNetworkEvent N now event c)"
proof -
  have keep: "numbered (updateCurrent N i throws mutate c) \<and> same_identity c (updateCurrent N i throws mutate c)"
    if "\<And>e rules. identity (n_public (fst (mutate e rules))) = identity (n_public e)" for i throws mutate
    using updateCurrent_identity [of mutate c N i throws, OF that] numbered_same [OF assms] by (simp add: updateCurrent_next)
  have "numbered (applyExtraInfo N i k p c) \<and> same_identity c (applyExtraInfo N i k p c)" for i k p
    using applyExtraInfo_identity applyExtraInfo_next numbered_same [OF assms] by blast
  then show ?thesis
    using assms handleRequest_numbered [OF assms]
    by (intro handleNetworkEvent_cases [where P = "\<lambda>d. numbered d \<and> same_identity c d"] keep)
      (simp_all add: same_identity_refl identity_changes identity_sets)
qed

lemma capture_events_numbered:
  "numbered c \<Longrightarrow> numbered (capture_events N es c) \<and> same_identity c (capture_events N es c)"
proof (induction es arbitrary: c)
  case (Cons p es)
  obtain a b where p: "p = (a, b)" by force
  have c: "capture_events N (p # es) c = capture_events N es (handleNetworkEvent N a b c)"
    unfolding capture_events_def p by (simp only: fold_simps o_apply prod.case)
  from handleNetworkEvent_numbered [OF Cons.prems, of N a b] Cons.IH [of "handleNetworkEvent N a b c"]
  show ?case unfolding c using same_identity_trans by blast
qed (auto simp: capture_events_def)

lemma createCapture_numbered: "numbered (createCapture t d o' n now)"
  by (simp add: numbered_def createCapture_def)

section \<open>Recorded and actual sizes\<close>

text \<open>Two kinds of events change an entry and leave its recorded size: a redirecting response without the URL of the
  next request, and one that throws.\<close>

definition measured_event :: "jsval \<Rightarrow> bool" where
  "measured_event event \<longleftrightarrow>
     (let params = js_or (getp event ''params'') (Obj []);
          request = (if isObject (getp params ''request'') then getp params ''request'' else Obj [])
      in (truthy (getp params ''redirectResponse'') \<longrightarrow> boundedString (getp request ''url'') 16000 \<noteq> [])
       \<and> \<not> headers_throw (getp request ''headers'') \<and> \<not> response_throws (getp params ''redirectResponse'')
       \<and> \<not> response_throws (getp params ''response''))"

text \<open>The recorded size of every retained entry, but for those of the set \<open>X\<close>, is the size of its JSON.\<close>

definition measured :: "net_platform \<Rightarrow> nat set \<Rightarrow> capture \<Rightarrow> bool" where
  "measured N X c \<longleftrightarrow> (\<forall>r\<in>set (nc_entries c). r \<in> X \<or> n_bytes (nc_record c r) = byteLength N (Obj (n_public (nc_record c r))))"

lemma measured_parts [simp]: "measured N X (caught c) = measured N X c" "measured N X (c\<lparr>nc_rules := rs\<rparr>) = measured N X c"
  "measured N X (set_pending kind m c) = measured N X c" "measured N X (c\<lparr>nc_droppedEvents := d\<rparr>) = measured N X c"
  "measured N X (c\<lparr>nc_pendingEvents := a, nc_pendingBytes := b\<rparr>) = measured N X c"
  by (cases kind; simp add: measured_def set_pending_def)+

lemma evict_subset: "set (nc_entries (evictCapture c)) \<subseteq> set (nc_entries c)"
proof (induction c rule: evictCapture.induct)
  case (1 c)
  show ?case
  proof (cases "nc_entries c")
    case (Cons r rest)
    with 1 show ?thesis by (subst evictCapture.simps) (auto simp: drop_entry_def Let_def)
  qed (subst evictCapture.simps, simp)
qed

lemma measured_evict: "measured N X c \<Longrightarrow> measured N X (evictCapture c)"
  using evict_subset [of c] by (auto simp: measured_def evict_records)

lemma measured_update: "measured N (insert r X) c \<Longrightarrow> measured N X (updateRecord N r c)"
  unfolding updateRecord_def Let_def by (rule measured_evict) (auto simp: measured_def put_record_def)

lemma measured_put: "measured N X c \<Longrightarrow> measured N (insert r X) (put_record r e c)"
  by (auto simp: measured_def put_record_def)

lemma measured_applied: "measured N X c \<Longrightarrow> measured N X (applyNormalizedExtra N r kind x c)"
  unfolding applyNormalizedExtra_def by (intro measured_update measured_put)

lemma measured_drain_extras: "measured N X c \<Longrightarrow> measured N X (snd (drain_extras N i kind xs c))"
  by (induction N i kind xs c rule: drain_extras.induct) (auto simp: measured_applied split: option.split)

lemma measured_drain: "measured N X c \<Longrightarrow> measured N X (drainPendingExtra N i kind c)"
  using measured_drain_extras [of N X c i kind] by (auto simp: drainPendingExtra_def split: option.split prod.split) (metis snd_conv)+

lemma measured_extra: "measured N X c \<Longrightarrow> measured N X (applyExtraInfo N i kind params c)"
  by (auto simp: applyExtraInfo_def Let_def queuePendingExtra_def measured_applied split: prod.split option.split)

lemma measured_current: "measured N {} c \<Longrightarrow> measured N {} (updateCurrent N i False mutate c)"
  by (auto simp: updateCurrent_def intro!: measured_update measured_put split: option.split prod.split)

lemma measured_request:
  assumes "measured N {} c" and "truthy (getp params ''redirectResponse'') \<Longrightarrow>
      boundedString (getp (if isObject (getp params ''request'') then getp params ''request'' else Obj []) ''url'') 16000 \<noteq> []"
    and "\<not> headers_throw (getp (if isObject (getp params ''request'') then getp params ''request'' else Obj []) ''headers'')"
    and "\<not> response_throws (getp params ''redirectResponse'')"
  shows "measured N {} (handleRequest N now i params c)"
proof -
  obtain prev c1 where f: "finish_redirect N now params (map_of (nc_current c) i) c = (prev, c1)" by force
  have c1: "measured N (set_option prev) c1 \<and> (prev \<noteq> None \<longrightarrow> truthy (getp params ''redirectResponse''))"
  proof (cases "map_of (nc_current c) i")
    case (Some p)
    then show ?thesis
      using f assms(1) measured_put [OF assms(1), of p] unfolding Some
      by (auto simp: finish_redirect_def Let_def split: if_splits prod.splits)
  qed (use f assms(1) in \<open>simp add: finish_redirect_def\<close>)
  obtain e rules where n: "new_record N now i params prev c1 = (e, rules)" by force
  define c2 where "c2 = link_redirect N prev (entry_key (nc_nextSequence c1)) (c1\<lparr>nc_rules := rules\<rparr>)"
  have c2: "measured N {} c2"
  proof (cases prev)
    case (Some p)
    have "measured N (insert p {}) (c1\<lparr>nc_rules := rules\<rparr>)" using c1 Some by simp
    from measured_update [OF measured_put [OF this, of p, simplified]] show ?thesis by (simp add: c2_def link_redirect_def Some Let_def)
  qed (use c1 in \<open>simp add: c2_def link_redirect_def\<close>)
  have next2: "nc_nextSequence c2 = nc_nextSequence c1"
    by (cases prev) (simp_all add: c2_def link_redirect_def Let_def updateRecord_next)
  have "measured N {nc_nextSequence c1} (store_record i e c2)"
    using measured_put [OF c2, of "nc_nextSequence c2" e] by (auto simp: store_record_def Let_def measured_def next2 put_record_def)
  then have "measured N {nc_nextSequence c1}
      (drainPendingExtra N i Response (drainPendingExtra N i Request (store_record i e c2)))"
    by (intro measured_drain)
  then have "measured N {} (updateRecord N (nc_nextSequence c1)
      (drainPendingExtra N i Response (drainPendingExtra N i Request (store_record i e c2))))"
    by (rule measured_update)
  then show ?thesis
    using f n assms(2-4) c1 by (cases prev) (auto simp: handleRequest_def Let_def c2_def)
qed

lemma measured_step:
  assumes "measured N {} c" and "measured_event event"
  shows "measured N {} (handleNetworkEvent N now event c)"
  using assms measured_request [of N c "js_or (getp event ''params'') (Obj [])" now]
  by (simp add: handleNetworkEvent_def Let_def measured_event_def measured_extra measured_current)

lemma measured_events: "measured N {} c \<Longrightarrow> list_all (\<lambda>(_, event). measured_event event) es \<Longrightarrow> measured N {} (capture_events N es c)"
  by (induction es arbitrary: c) (auto simp: capture_events_def measured_step)

end
