(* ===== verification/Network_Read.thy ===== *)
theory Network_Read
  imports Network_Buffer
begin

text \<open>
  The commands that read a network capture (\<open>chrome-extension/src/handlers/network.js\<close>): the checks
  of their parameters, the pages of \<open>network.read\<close>, the redaction of a body, the HAR archive.
\<close>

section \<open>Parameters\<close>

definition MAX_ENTRIES :: rat where "MAX_ENTRIES = 5000"
definition MAX_READ_ENTRIES :: rat where "MAX_READ_ENTRIES = 200"
definition MIN_READ_BYTES :: rat where "MIN_READ_BYTES = 64 * 1024"
definition MAX_READ_BYTES :: rat where "MAX_READ_BYTES = 1000000"
definition MIN_BODY_BYTES :: rat where "MIN_BODY_BYTES = 1024"
definition MAX_BODY_BYTES :: rat where "MAX_BODY_BYTES = 1000000"
definition MIN_HAR_BYTES :: rat where "MIN_HAR_BYTES = 64 * 1024"
definition MAX_HAR_BYTES :: rat where "MAX_HAR_BYTES = 2000000"

definition assertObjectWithKeys :: "jsval \<Rightarrow> string list \<Rightarrow> unit res" where
  "assertObjectWithKeys params allowed =
     throw_if (\<not> isObject params \<or> list_ex (\<lambda>key. key \<notin> set (map lit allowed)) (object_keys params))
       (invalid ''Network parameters have an invalid shape'')"

definition requireInteger :: "jsval \<Rightarrow> rat \<Rightarrow> rat \<Rightarrow> string \<Rightarrow> unit res" where
  "requireInteger v minimum maximum name =
     throw_if (\<not> integerBetween v minimum maximum) (invalid (name @ '' is outside the supported range''))"

text \<open>The integer of a value that \<open>requireInteger\<close> has passed.\<close>

definition integer :: "jsval \<Rightarrow> int" where
  "integer v = (case v of Num (Fin r) \<Rightarrow> \<lfloor>r\<rfloor> | _ \<Rightarrow> 0)"

definition natural :: "jsval \<Rightarrow> nat" where
  "natural v = nat (integer v)"

definition validateStartParams :: "jsval \<Rightarrow> nat res" where
  "validateStartParams params = bind_res (checks [
       assertObjectWithKeys params [''maxEntries''],
       requireInteger (getp params ''maxEntries'') 1 MAX_ENTRIES ''params.maxEntries''])
     (\<lambda>_. Inr (natural (getp params ''maxEntries'')))"

text \<open>\<open>/^\d+$/.test(v)\<close>, \<open>Number(v) >= 1\<close> and \<open>Number.isSafeInteger(Number(v))\<close>; \<open>test\<close> converts \<open>v\<close> to a string, and
  \<open>Number\<close> of a value whose string is all digits is the number of the string.\<close>

definition positive_number :: "platform \<Rightarrow> jsval \<Rightarrow> bool" where
  "positive_number P v \<longleftrightarrow> digit_string (string_of P v) \<and> 1 \<le> dec_value (string_of P v)
     \<and> of_nat (dec_value (string_of P v)) \<le> MAX_SAFE_INTEGER"

definition validTimestamp :: "platform \<Rightarrow> jsval \<Rightarrow> bool" where
  "validTimestamp P v \<longleftrightarrow> is_string v \<and> date_prefix (str_of v) \<and> is_date P (str_of v)"

record read_params =
  rp_cursor :: jsval
  rp_limit :: nat
  rp_resourceTypes :: "jsval list"
  rp_failedOnly :: bool
  rp_statusMin :: "jsval option"
  rp_statusMax :: "jsval option"
  rp_since :: jsval
  rp_maxBytes :: int

text \<open>\<open>v ?? null\<close>.\<close>

definition or_null :: "jsval \<Rightarrow> jsval option" where
  "or_null v = (if nullish v then None else Some v)"

definition validateReadParams :: "platform \<Rightarrow> jsval \<Rightarrow> read_params res" where
  "validateReadParams P params =
     (let cursor = js_or (getp params ''cursor'') (Str []); resourceTypes = js_or (getp params ''resourceTypes'') (Arr []);
          low = getp params ''statusMin''; high = getp params ''statusMax''; since = getp params ''since''
      in bind_res (checks [
       assertObjectWithKeys params [''cursor'', ''limit'', ''resourceTypes'', ''failedOnly'', ''statusMin'', ''statusMax'',
         ''since'', ''maxBytes''],
       requireInteger (getp params ''limit'') 1 MAX_READ_ENTRIES ''params.limit'',
       requireInteger (getp params ''maxBytes'') MIN_READ_BYTES MAX_READ_BYTES ''params.maxBytes'',
       throw_if (truthy cursor \<and> \<not> positive_number P cursor) (invalid ''params.cursor is invalid''),
       throw_if (\<not> is_array resourceTypes \<or> length (elems resourceTypes) > length RESOURCE_TYPES
           \<or> \<not> distinct (elems resourceTypes) \<or> list_ex (\<lambda>v. \<not> js_includes RESOURCE_TYPES v) (elems resourceTypes))
         (invalid ''params.resourceTypes is invalid''),
       throw_if (getp params ''failedOnly'' \<noteq> Undefined \<and> \<not> is_boolean (getp params ''failedOnly''))
         (invalid ''params.failedOnly must be a boolean''),
       only_if (low \<noteq> Undefined) (requireInteger low 100 599 ''params.statusMin''),
       only_if (high \<noteq> Undefined) (requireInteger high 100 599 ''params.statusMax''),
       throw_if (low \<noteq> Undefined \<and> high \<noteq> Undefined \<and> num_lt (num_of high) (num_of low))
         (invalid ''Network status bounds are invalid''),
       throw_if (since \<noteq> Undefined \<and> \<not> validTimestamp P since)
         (invalid ''params.since must be an RFC 3339 timestamp'')])
      (\<lambda>_. Inr \<lparr>rp_cursor = cursor, rp_limit = natural (getp params ''limit''), rp_resourceTypes = elems resourceTypes,
         rp_failedOnly = (getp params ''failedOnly'' = Bool True), rp_statusMin = or_null low, rp_statusMax = or_null high,
         rp_since = js_or since (Str []), rp_maxBytes = integer (getp params ''maxBytes'')\<rparr>))"

definition validateBodyParams :: "jsval \<Rightarrow> unit res" where
  "validateBodyParams params = checks [
     assertObjectWithKeys params [''entryId'', ''direction'', ''maxBytes''],
     throw_if (\<not> positive_id (getp params ''entryId'')) (invalid ''params.entryId is invalid''),
     throw_if (\<not> js_includes [''request'', ''response''] (getp params ''direction'')) (invalid ''params.direction is invalid''),
     requireInteger (getp params ''maxBytes'') MIN_BODY_BYTES MAX_BODY_BYTES ''params.maxBytes'']"

definition validateHARParams :: "jsval \<Rightarrow> unit res" where
  "validateHARParams params = checks [
     assertObjectWithKeys params [''maxBytes''],
     requireInteger (getp params ''maxBytes'') MIN_HAR_BYTES MAX_HAR_BYTES ''params.maxBytes'']"

definition assertEmptyParams :: "jsval \<Rightarrow> unit res" where
  "assertEmptyParams params = assertObjectWithKeys params []"

definition validateNetworkTimeout :: "jsval \<Rightarrow> jsval res" where
  "validateNetworkTimeout v =
     (let timeout = js_or v (jnum 30000)
      in if \<not> integerBetween timeout 1 120000 then Inl (invalid ''Network timeout is outside the supported range'')
         else Inr timeout)"

section \<open>Pages\<close>

definition payloadTooLarge :: "int \<Rightarrow> exn" where
  "payloadTooLarge maxBytes = fault PAYLOAD_TOO_LARGE
     [Txt ''The network result exceeds '', Val (jnum (of_int maxBytes)), Txt '' bytes'']"

definition expiry_text :: "net_platform \<Rightarrow> capture \<Rightarrow> jsval" where
  "expiry_text N c = Str (case nc_expiresAt c of None \<Rightarrow> [] | Some t \<Rightarrow> isoDate N \<lfloor>t\<rfloor>)"

definition networkReadResult :: "net_platform \<Rightarrow> capture \<Rightarrow> properties list \<Rightarrow> jsstr \<Rightarrow> jsstr list \<Rightarrow> jsval" where
  "networkReadResult N c entries nextCursor warnings = obj [
     (''tabId'', jnum (of_int (nc_tabId c))), (''documentId'', Str (nc_documentId c)), (''active'', Bool (nc_active c)),
     (''entries'', Arr (map Obj entries)), (''nextCursor'', Str nextCursor),
     (''retainedEntries'', jnum (of_nat (length (nc_entries c)))), (''evictedEntries'', jnum (of_nat (nc_evicted c))),
     (''droppedEvents'', jnum (of_nat (nc_droppedEvents c))), (''bufferedBytes'', jnum (of_int (nc_bufferedBytes c))),
     (''expiresAt'', expiry_text N c), (''warnings'', Arr (map Str warnings))]"

definition captureStatus :: "net_platform \<Rightarrow> capture \<Rightarrow> jsstr list \<Rightarrow> jsval" where
  "captureStatus N c warnings = obj [
     (''tabId'', jnum (of_int (nc_tabId c))), (''documentId'', Str (nc_documentId c)), (''active'', Bool (nc_active c)),
     (''maxEntries'', jnum (of_nat (nc_maxEntries c))),
     (''retainedEntries'', jnum (of_nat (length (nc_entries c)))), (''evictedEntries'', jnum (of_nat (nc_evicted c))),
     (''droppedEvents'', jnum (of_nat (nc_droppedEvents c))), (''bufferedBytes'', jnum (of_int (nc_bufferedBytes c))),
     (''expiresAt'', expiry_text N c), (''warnings'', Arr (map Str warnings))]"

definition read_cursor :: "platform \<Rightarrow> read_params \<Rightarrow> nat" where
  "read_cursor P p = (if truthy (rp_cursor p) then dec_value (string_of P (rp_cursor p)) else 0)"

text \<open>The filter of \<open>readCapture\<close>.\<close>

definition entry_matches :: "platform \<Rightarrow> read_params \<Rightarrow> properties \<Rightarrow> bool" where
  "entry_matches P p entry \<longleftrightarrow>
     \<not> num_ge (Fin (of_nat (read_cursor P p))) (num_of (pub ''sequence'' entry))
     \<and> (rp_resourceTypes p \<noteq> [] \<longrightarrow> pub ''resourceType'' entry \<in> set (rp_resourceTypes p))
     \<and> (rp_failedOnly p \<longrightarrow> truthy (pub ''failed'' entry))
     \<and> (case rp_statusMin p of None \<Rightarrow> True
          | Some m \<Rightarrow> validStatus (pub ''status'' entry) \<and> \<not> num_lt (num_of (pub ''status'' entry)) (num_of m))
     \<and> (case rp_statusMax p of None \<Rightarrow> True
          | Some m \<Rightarrow> validStatus (pub ''status'' entry) \<and> \<not> num_lt (num_of m) (num_of (pub ''status'' entry)))
     \<and> num_ge (dateParse P (string_of P (pub ''startedAt'' entry)))
         (if truthy (rp_since p) then dateParse P (str_of (rp_since p)) else NegInf)"

definition matching_entries :: "platform \<Rightarrow> read_params \<Rightarrow> capture \<Rightarrow> properties list" where
  "matching_entries P p c = filter (entry_matches P p) (map (\<lambda>r. n_public (nc_record c r)) (nc_entries c))"

fun read_loop :: "net_platform \<Rightarrow> capture \<Rightarrow> nat \<Rightarrow> int \<Rightarrow> properties list \<Rightarrow> properties list \<Rightarrow> properties list \<times> bool" where
  "read_loop N c limit maxBytes entries [] = (entries, False)"
| "read_loop N c limit maxBytes entries (e # rest) =
     (if length entries \<ge> limit then (entries, True)
      else if int (byteLength N (networkReadResult N c (entries @ [e]) [] [])) > maxBytes then (entries, True)
      else read_loop N c limit maxBytes (entries @ [e]) rest)"

definition read_warnings :: "net_platform \<Rightarrow> read_params \<Rightarrow> capture \<Rightarrow> jsstr list" where
  "read_warnings N p c =
     (let cursor = read_cursor (np N) p;
          first = (case nc_entries c of [] \<Rightarrow> jnum (of_nat (nc_nextSequence c))
            | r # _ \<Rightarrow> js_or (pub ''sequence'' (n_public (nc_record c r))) (jnum (of_nat (nc_nextSequence c))))
      in (if nc_evicted c > 0 then [show_nat (nc_evicted c) @ lit '' older network entries were evicted''] else [])
       @ (if nc_droppedEvents c > 0
          then [show_nat (nc_droppedEvents c) @ lit '' network events were dropped by safety limits''] else [])
       @ (if cursor > 0 \<and> (case num_of first of Fin f \<Rightarrow> of_nat cursor < f - 1 | _ \<Rightarrow> False)
          then [lit ''The network cursor expired after ring-buffer eviction''] else []))"

definition readCapture :: "net_platform \<Rightarrow> capture \<Rightarrow> read_params \<Rightarrow> jsval res" where
  "readCapture N c p =
     (let (entries, more) = read_loop N c (rp_limit p) (rp_maxBytes p) [] (matching_entries (np N) p c);
          nextCursor = (if more \<and> entries \<noteq> [] then string_of (np N) (pub ''sequence'' (last entries)) else []);
          result = networkReadResult N c entries nextCursor (read_warnings N p c)
      in if int (byteLength N result) > rp_maxBytes p then Inl (payloadTooLarge (rp_maxBytes p)) else Inr result)"

section \<open>Bodies\<close>

text \<open>\<open>JSON.parse\<close> and fatal UTF-8 decoding, which may throw, and base64 of a text as UTF-8.\<close>

record body_platform =
  net :: net_platform
  parseJSON :: "jsstr \<Rightarrow> jsval option"
  decodeUTF8 :: "nat list \<Rightarrow> jsstr option"
  decodeBase64 :: "jsstr \<Rightarrow> nat list option"
  textToBase64 :: "jsstr \<Rightarrow> jsstr"

record redaction =
  rd_nodes :: int
  rd_truncated :: bool
  rd_rules :: rules

text \<open>\<open>redactJSONValue\<close>. Assigning to \<open>__proto__\<close> sets no member of the result.\<close>

fun redactJSONValue :: "jsval \<Rightarrow> nat \<Rightarrow> redaction \<Rightarrow> jsval \<times> redaction"
  and redact_items :: "jsval list \<Rightarrow> nat \<Rightarrow> redaction \<Rightarrow> jsval list \<times> redaction"
  and redact_members :: "(jsstr \<times> jsval) list \<Rightarrow> nat \<Rightarrow> (jsstr \<times> jsval) list \<Rightarrow> redaction \<Rightarrow> (jsstr \<times> jsval) list \<times> redaction" where
  "redactJSONValue v depth s =
     (if depth > 64 \<or> rd_nodes s \<ge> 50000 then (jstr ''[TRUNCATED]'', s\<lparr>rd_truncated := True\<rparr>)
      else let s1 = s\<lparr>rd_nodes := rd_nodes s + 1\<rparr> in case v of
        Arr vs \<Rightarrow> (case redact_items vs (Suc depth) s1 of (ws, s2) \<Rightarrow> (Arr ws, s2))
      | Obj ps \<Rightarrow> (case redact_members ps (Suc depth) [] s1 of (qs, s2) \<Rightarrow> (Obj qs, s2))
      | Str x \<Rightarrow> (case redactText x (rd_rules s1) of (y, rules) \<Rightarrow> (Str y, s1\<lparr>rd_rules := rules\<rparr>))
      | _ \<Rightarrow> (v, s1))"
| "redact_items [] depth s = ([], s)"
| "redact_items (v # vs) depth s =
     (case redactJSONValue v depth s of (w, s1) \<Rightarrow> case redact_items vs depth s1 of (ws, s2) \<Rightarrow> (w # ws, s2))"
| "redact_members [] depth result s = (result, s)"
| "redact_members ((key, v) # ps) depth result s =
     (if rx_test SENSITIVE_NAME key then
        redact_members ps depth (set_member key (Str redacted) result) (s\<lparr>rd_rules := add_rule ''body-fields'' (rd_rules s)\<rparr>)
      else case redactJSONValue v depth s of (w, s1) \<Rightarrow> redact_members ps depth (set_member key w result) s1)"

definition redactBody :: "body_platform \<Rightarrow> nat list \<Rightarrow> jsstr \<Rightarrow> int \<Rightarrow> (jsstr \<times> rules \<times> bool) res" where
  "redactBody B bytes mimeType maxBytes =
     (case decodeUTF8 B bytes of
        None \<Rightarrow> Inl (invalid ''The network body is not valid UTF-8 text'')
      | Some s \<Rightarrow>
          (let plain = redactText s [];
               (output, rules, truncated) =
                 (if isJSONMIME (np (net B)) (Str mimeType) then
                    (case parseJSON B s of
                       None \<Rightarrow> (fst plain, snd plain, False)
                     | Some v \<Rightarrow> (case redactJSONValue v 0 \<lparr>rd_nodes = 0, rd_truncated = False, rd_rules = []\<rparr> of
                         (w, st) \<Rightarrow> (json (np (net B)) w, rd_rules st, rd_truncated st)))
                  else (fst plain, snd plain, False))
           in if int (utf8_length output) > maxBytes then Inl (payloadTooLarge maxBytes) else Inr (output, sort rules, truncated)))"

text \<open>\<open>getBody\<close> up to the call of the browser: the command and its request, and the media type.\<close>

definition body_request :: "platform \<Rightarrow> capture \<Rightarrow> jsval \<Rightarrow> (string \<times> jsval \<times> jsstr) res" where
  "body_request P c params =
     (if \<not> nc_active c \<or> nc_lease c = None then
        Inl (fault CAPABILITY_UNAVAILABLE [Txt ''Network bodies are available only while capture is active''])
      else case map_of (nc_byEntryId c) (str_of (getp params ''entryId'')) of
        None \<Rightarrow> Inl (invalid ''The network entry is unavailable or expired'')
      | Some r \<Rightarrow>
          (let e = nc_record c r; request = (getp params ''direction'' = jstr ''request'');
               mime = (if request then n_requestMIME e else n_responseMIME e);
               available = pub (if request then ''requestBodyAvailable'' else ''responseBodyAvailable'') (n_public e)
           in if \<not> n_sameOrigin e then
                Inl (fault RESTRICTED_URL [Txt ''Network bodies are limited to the captured root-document origin''])
              else if \<not> truthy available \<or> \<not> allowedBodyMIME P (Str mime) then
                Inl (fault CAPABILITY_UNAVAILABLE [Txt ''The requested textual network body is unavailable''])
              else Inr (if request then ''Network.getRequestPostData'' else ''Network.getResponseBody'',
                        obj [(''requestId'', Str (n_requestId e))], mime)))"

text \<open>\<open>getBody\<close> after the browser has answered; \<open>encodeUTF8\<close> of a string only enters by its length.\<close>

definition body_result :: "body_platform \<Rightarrow> capture \<Rightarrow> jsval \<Rightarrow> jsstr \<Rightarrow> (jsstr \<Rightarrow> nat list) \<Rightarrow> jsval \<Rightarrow> jsval res" where
  "body_result B c params mime encodeUTF8 result =
     (let request = (getp params ''direction'' = jstr ''request''); maxBytes = integer (getp params ''maxBytes'');
          rawBody = getp result (if request then ''postData'' else ''body'');
          encoded = getp result ''base64Encoded''; broken = invalid ''CDP returned an invalid network result''
      in if \<not> is_string rawBody \<or> (encoded \<noteq> Undefined \<and> \<not> is_boolean encoded) then Inl broken
         else case (if truthy encoded then decodeBase64 B (str_of rawBody) else Some (encodeUTF8 (str_of rawBody))) of
           None \<Rightarrow> Inl broken
         | Some bytes \<Rightarrow>
             if int (length bytes) > maxBytes then Inl (payloadTooLarge maxBytes)
             else bind_res (redactBody B bytes mime maxBytes) (\<lambda>(output, rules, truncated). Inr (obj [
               (''kind'', Str (str_of (getp params ''direction'') @ lit ''Body'')),
               (''mimeType'', Str (normalizeMIME (np (net B)) (Str mime))), (''dataBase64'', Str (textToBase64 B output)),
               (''byteLength'', jnum (of_nat (utf8_length output))), (''tabId'', jnum (of_int (nc_tabId c))),
               (''documentId'', Str (nc_documentId c)), (''entryId'', getp params ''entryId''), (''entryCount'', jnum 0),
               (''truncated'', Bool truncated), (''redactionApplied'', Bool (rules \<noteq> [])), (''redactionRules'', Arr (map Str rules)),
               (''warnings'', Arr (if truncated then [jstr ''The network body was truncated during redaction''] else []))])))"

section \<open>HAR\<close>

definition headerArray :: "jsval \<Rightarrow> jsval list" where
  "headerArray headers = map (\<lambda>(name, v). obj [(''name'', Str name), (''value'', v)]) (members headers)"

definition queryArray :: "net_platform \<Rightarrow> jsval \<Rightarrow> jsval list" where
  "queryArray N v = (case parseURL (np N) v of
     None \<Rightarrow> [] | Some _ \<Rightarrow> map (\<lambda>(name, item). obj [(''name'', Str name), (''value'', Str item)]) (searchEntries N (str_of v)))"

definition har_interval :: "jsval \<Rightarrow> jsval \<Rightarrow> rat" where
  "har_interval start finish = (case (start, finish) of
     (Num (Fin s), Num (Fin e)) \<Rightarrow> if s \<ge> 0 \<and> e \<ge> s then fl (e - s) else - 1 | _ \<Rightarrow> - 1)"

definition har_rest :: "jsval \<Rightarrow> jsval \<Rightarrow> rat" where
  "har_rest finish start = (case (finish, start) of
     (Num (Fin e), Num (Fin s)) \<Rightarrow> max 0 (fl (e - s)) | _ \<Rightarrow> - 1)"

definition harTimings :: "properties \<Rightarrow> jsval" where
  "harTimings entry =
     (let t = js_or (pub ''timing'' entry) (Obj []) in obj [
       (''blocked'', jnum (- 1)),
       (''dns'', jnum (har_interval (getp t ''dnsStart'') (getp t ''dnsEnd''))),
       (''connect'', jnum (har_interval (getp t ''connectStart'') (getp t ''connectEnd''))),
       (''ssl'', jnum (har_interval (getp t ''sslStart'') (getp t ''sslEnd''))),
       (''send'', jnum (har_interval (getp t ''sendStart'') (getp t ''sendEnd''))),
       (''wait'', jnum (har_rest (getp t ''receiveHeadersEnd'') (getp t ''sendEnd''))),
       (''receive'', jnum (har_rest (pub ''durationMs'' entry) (getp t ''receiveHeadersEnd'')))])"

definition present :: "string \<Rightarrow> properties \<Rightarrow> (string \<times> jsval) list" where
  "present k entry = (if truthy (pub k entry) then [(k, pub k entry)] else [])"

definition harEntry :: "net_platform \<Rightarrow> properties \<Rightarrow> jsstr \<Rightarrow> jsval" where
  "harEntry N entry documentId = obj [
     (''pageref'', Str (lit ''document-'' @ documentId)),
     (''startedDateTime'', pub ''startedAt'' entry),
     (''time'', jnum (finiteNumber (pub ''durationMs'' entry) 0)),
     (''request'', obj [(''method'', pub ''method'' entry), (''url'', pub ''url'' entry), (''httpVersion'', jstr ''''),
        (''cookies'', Arr []), (''headers'', Arr (headerArray (pub ''requestHeaders'' entry))),
        (''queryString'', Arr (queryArray N (pub ''url'' entry))), (''headersSize'', jnum (- 1)), (''bodySize'', jnum (- 1))]),
     (''response'', obj [
        (''status'', if validStatus (pub ''status'' entry) then pub ''status'' entry else jnum 0),
        (''statusText'', js_or (pub ''statusText'' entry) (Str [])), (''httpVersion'', js_or (pub ''protocol'' entry) (Str [])),
        (''cookies'', Arr []), (''headers'', Arr (headerArray (pub ''responseHeaders'' entry))),
        (''content'', obj [(''size'', jnum (finiteNumber (pub ''encodedDataLength'' entry) 0)),
           (''mimeType'', js_or (pub ''mimeType'' entry) (Str []))]),
        (''redirectURL'', js_or (getp (pub ''responseHeaders'' entry) ''location'') (Str [])),
        (''headersSize'', jnum (- 1)), (''bodySize'', jnum (finiteNumber (pub ''encodedDataLength'' entry) (- 1)))]),
     (''cache'', Obj []),
     (''timings'', harTimings entry),
     (''_mcp'', obj ([(''entryId'', pub ''entryId'' entry), (''resourceType'', pub ''resourceType'' entry),
        (''completed'', pub ''completed'' entry), (''failed'', pub ''failed'' entry), (''fromCache'', pub ''fromCache'' entry)]
        @ present ''errorText'' entry @ present ''redirectFrom'' entry @ present ''redirectTo'' entry))]"

definition har_value :: "net_platform \<Rightarrow> capture \<Rightarrow> jsval list \<Rightarrow> bool \<Rightarrow> jsval" where
  "har_value N c candidates truncated = obj [(''log'', obj [
     (''version'', jstr ''1.2''),
     (''creator'', obj [(''name'', jstr ''MCP Browser Control''), (''version'', jstr ''0.3.0'')]),
     (''pages'', Arr [obj [(''startedDateTime'', Str (isoDate N \<lfloor>nc_createdAt c\<rfloor>)),
        (''id'', Str (lit ''document-'' @ nc_documentId c)), (''title'', jstr ''Captured root document''), (''pageTimings'', Obj [])]]),
     (''entries'', Arr candidates),
     (''_mcp'', obj [(''tabId'', jnum (of_int (nc_tabId c))), (''documentId'', Str (nc_documentId c)), (''active'', Bool (nc_active c)),
        (''evictedEntries'', jnum (of_nat (nc_evicted c))), (''droppedEvents'', jnum (of_nat (nc_droppedEvents c))),
        (''truncated'', Bool truncated), (''bodiesIncluded'', Bool False)])])]"

text \<open>The loop of \<open>encodeHAR\<close>: the archive as text, the number of entries in it, and whether some were left out.\<close>

fun har_loop :: "net_platform \<Rightarrow> capture \<Rightarrow> int \<Rightarrow> jsval list \<Rightarrow> bool \<Rightarrow> (jsval \<times> nat \<times> bool) res" where
  "har_loop N c maxBytes candidates truncated =
     (if int (byteLength N (har_value N c candidates truncated)) \<le> maxBytes
      then Inr (har_value N c candidates truncated, length candidates, truncated)
      else case candidates of [] \<Rightarrow> Inl (payloadTooLarge maxBytes) | _ # rest \<Rightarrow> har_loop N c maxBytes rest True)"

declare har_loop.simps [simp del]

definition encodeHAR :: "net_platform \<Rightarrow> capture \<Rightarrow> int \<Rightarrow> (jsval \<times> nat \<times> bool) res" where
  "encodeHAR N c maxBytes =
     har_loop N c maxBytes (map (\<lambda>r. harEntry N (n_public (nc_record c r)) (nc_documentId c)) (nc_entries c)) False"

definition har_result :: "body_platform \<Rightarrow> capture \<Rightarrow> int \<Rightarrow> jsval res" where
  "har_result B c maxBytes = bind_res (encodeHAR (net B) c maxBytes) (\<lambda>(archive, entryCount, truncated). Inr (obj [
     (''kind'', jstr ''har''), (''mimeType'', jstr ''application/json''),
     (''dataBase64'', Str (textToBase64 B (json (np (net B)) archive))),
     (''byteLength'', jnum (of_nat (byteLength (net B) archive))), (''tabId'', jnum (of_int (nc_tabId c))),
     (''documentId'', Str (nc_documentId c)), (''entryCount'', jnum (of_nat entryCount)), (''truncated'', Bool truncated),
     (''redactionApplied'', Bool (nc_rules c \<noteq> [])), (''redactionRules'', Arr (map Str (sort (nc_rules c)))),
     (''warnings'', Arr (if truncated then [jstr ''Older HAR entries were omitted to fit maxBytes''] else []))]))"

end
