(* ===== verification/Network_Reading.thy ===== *)
theory Network_Reading
  imports Network_Events Network_Read
begin

text \<open>
  Lemmas on the commands that read a capture: a page and the one after it, archives, redacted bodies,
  a capture after any events, and the agreement of the parameter checks with those of the router.
\<close>

section \<open>Pages\<close>

lemma read_loop_spec:
  "\<exists>k\<le>length ms. fst (read_loop N c limit maxBytes es ms) = es @ take k ms
    \<and> snd (read_loop N c limit maxBytes es ms) = (k < length ms) \<and> (length es \<le> limit \<longrightarrow> length es + k \<le> limit)
    \<and> (k < length ms \<longrightarrow> limit \<le> length es + k
         \<or> maxBytes < int (byteLength N (networkReadResult N c (es @ take (Suc k) ms) [] [])))"
proof (induction ms arbitrary: es)
  case (Cons e ms)
  show ?case
  proof (cases "length es \<ge> limit \<or> int (byteLength N (networkReadResult N c (es @ [e]) [] [])) > maxBytes")
    case True
    then show ?thesis by (intro exI [of _ 0]) (auto simp: not_le)
  next
    case False
    from Cons.IH [of "es @ [e]"] obtain k where "k \<le> length ms"
      "fst (read_loop N c limit maxBytes (es @ [e]) ms) = (es @ [e]) @ take k ms"
      "snd (read_loop N c limit maxBytes (es @ [e]) ms) = (k < length ms)"
      "length (es @ [e]) \<le> limit \<longrightarrow> length (es @ [e]) + k \<le> limit"
      "k < length ms \<longrightarrow> limit \<le> length (es @ [e]) + k
         \<or> maxBytes < int (byteLength N (networkReadResult N c ((es @ [e]) @ take (Suc k) ms) [] []))" by blast
    with False show ?thesis by (intro exI [of _ "Suc k"]) auto
  qed
qed simp

text \<open>The filter of a page without its cursor.\<close>

definition wanted :: "platform \<Rightarrow> read_params \<Rightarrow> properties \<Rightarrow> bool" where
  "wanted P p e = entry_matches P (p\<lparr>rp_cursor := Str []\<rparr>) (set_pub ''sequence'' (jnum 1) e)"

lemma entry_matches_cursor:
  assumes "pub ''sequence'' e = jnum (of_nat r)"
  shows "entry_matches P p e \<longleftrightarrow> read_cursor P p < r \<and> wanted P p e"
proof -
  have ge: "num_ge (Fin (of_nat a)) (Fin (of_nat b)) \<longleftrightarrow> b \<le> a" for a b by (auto simp: num_ge_def)
  have start: "read_cursor P (p\<lparr>rp_cursor := Str []\<rparr>) = 0" by (simp add: read_cursor_def)
  have others: "''resourceType'' \<noteq> ''sequence''" "''failed'' \<noteq> ''sequence''" "''status'' \<noteq> ''sequence''" "''startedAt'' \<noteq> ''sequence''"
    by simp_all
  have rest: "rp_resourceTypes (p\<lparr>rp_cursor := Str []\<rparr>) = rp_resourceTypes p" "rp_failedOnly (p\<lparr>rp_cursor := Str []\<rparr>) = rp_failedOnly p"
    "rp_statusMin (p\<lparr>rp_cursor := Str []\<rparr>) = rp_statusMin p" "rp_statusMax (p\<lparr>rp_cursor := Str []\<rparr>) = rp_statusMax p"
    "rp_since (p\<lparr>rp_cursor := Str []\<rparr>) = rp_since p" by simp_all
  have one: "\<not> num_ge (Fin (of_nat 0)) (num_of (jnum 1))" by (simp add: num_ge_def)
  show ?thesis
    unfolding entry_matches_def wanted_def start pub_set_pub assms projections ge
    using one by (simp only: others rest projections simp_thms not_le refl if_True if_False) 
qed

lemma wanted_cursor: "wanted P (p\<lparr>rp_cursor := k\<rparr>) e = wanted P p e"
  by (simp add: wanted_def)

lemma filter_after:
  assumes "sorted_wrt (<) (rs :: nat list)" and "0 < k" and "k \<le> length rs"
  shows "filter (\<lambda>r. rs ! (k - 1) < r) rs = drop k rs"
proof -
  have "filter (\<lambda>r. rs ! (k - 1) < r) (take k rs) = []"
  proof -
    have "r \<le> rs ! (k - 1)" if r: "r \<in> set (take k rs)" for r
    proof -
      obtain i where i: "i < k" "r = rs ! i" using r assms(3) by (auto simp: in_set_conv_nth)
      then show ?thesis using assms sorted_wrt_nth_less [OF assms(1), of i "k - 1"] by (cases "i < k - 1") (auto simp: less_eq_Suc_le not_less intro: less_imp_le dest: le_antisym)
    qed
    then show ?thesis by (force simp: filter_empty_conv)
  qed
  moreover have "filter (\<lambda>r. rs ! (k - 1) < r) (drop k rs) = drop k rs"
  proof -
    have "rs ! (k - 1) < r" if r: "r \<in> set (drop k rs)" for r
    proof -
      obtain i where "i < length (drop k rs)" "r = drop k rs ! i" using r by (auto simp only: in_set_conv_nth)
      then have i: "k + i < length rs" "r = rs ! (k + i)" using assms(3) by (simp_all add: less_diff_conv add.commute)
      then show ?thesis using assms sorted_wrt_nth_less [OF assms(1), of "k - 1" "k + i"] by simp
    qed
    then show ?thesis by (simp add: filter_id_conv)
  qed
  ultimately show ?thesis by (metis append_Nil append_take_drop_id filter_append)
qed

definition sound :: "capture \<Rightarrow> bool" where
  "sound c \<longleftrightarrow> sorted_wrt (<) (nc_entries c)
     \<and> (\<forall>r\<in>set (nc_entries c). pub ''sequence'' (n_public (nc_record c r)) = jnum (of_nat r) \<and> 1 \<le> r \<and> r < nc_nextSequence c)"

lemma matching_entries_wanted:
  assumes "sound c"
  shows "matching_entries P p c = map (\<lambda>r. n_public (nc_record c r))
    (filter (\<lambda>r. read_cursor P p < r \<and> wanted P p (n_public (nc_record c r))) (nc_entries c))"
proof -
  have "entry_matches P p (n_public (nc_record c r)) \<longleftrightarrow> read_cursor P p < r \<and> wanted P p (n_public (nc_record c r))"
    if "r \<in> set (nc_entries c)" for r
    using that assms entry_matches_cursor by (simp add: sound_def)
  then show ?thesis by (simp add: matching_entries_def filter_map o_def cong: filter_cong)
qed

lemma next_page:
  assumes "sound c" and "0 < k" and "k \<le> length (matching_entries P p c)" and "of_nat (nc_nextSequence c) \<le> MAX_SAFE_INTEGER"
  shows "matching_entries P (p\<lparr>rp_cursor := Str (string_of P (pub ''sequence'' (last (take k (matching_entries P p c)))))\<rparr>) c
    = drop k (matching_entries P p c)
    \<and> string_of P (pub ''sequence'' (last (take k (matching_entries P p c)))) \<noteq> []"
proof -
  let ?f = "\<lambda>r. n_public (nc_record c r)"
  define rs where "rs = filter (\<lambda>r. read_cursor P p < r \<and> wanted P p (?f r)) (nc_entries c)"
  have m: "matching_entries P p c = map ?f rs" using matching_entries_wanted [OF assms(1)] by (simp add: rs_def)
  have k: "k \<le> length rs" "0 < k" using assms(2,3) m by simp_all
  define r where "r = rs ! (k - 1)"
  have r: "r \<in> set rs" using k by (simp add: r_def)
  have "last (take k (map ?f rs)) = ?f r"
    using k by (subst last_conv_nth) (auto simp: r_def min_def)
  moreover have in_r: "r \<in> set (nc_entries c)" "read_cursor P p < r" using r by (simp_all add: rs_def)
  moreover have "pub ''sequence'' (?f r) = jnum (of_nat r)" using in_r assms(1) by (simp add: sound_def)
  moreover have small: "(of_nat r :: rat) < 10 ^ 21"
  proof -
    have "r < nc_nextSequence c" using in_r assms(1) by (simp add: sound_def)
    then have "(of_nat r :: rat) < of_nat (nc_nextSequence c)" by simp
    with assms(4) show ?thesis by (simp add: MAX_SAFE_INTEGER_def)
  qed
  ultimately have shown: "string_of P (pub ''sequence'' (last (take k (matching_entries P p c)))) = show_nat r"
    using m by (simp add: string_of_num_def rat_is_int_def)
  have "read_cursor P (p\<lparr>rp_cursor := Str (show_nat r)\<rparr>) = r"
    by (simp add: read_cursor_def dec_value_show_nat digit_string_show_nat [unfolded digit_string_def])
  with shown have "matching_entries P (p\<lparr>rp_cursor := Str (string_of P (pub ''sequence'' (last (take k (matching_entries P p c)))))\<rparr>) c
      = map ?f (filter (\<lambda>q. r < q \<and> wanted P p (?f q)) (nc_entries c))"
    using matching_entries_wanted [OF assms(1)] by (simp add: wanted_cursor)
  also have "filter (\<lambda>q. r < q \<and> wanted P p (?f q)) (nc_entries c) = filter (\<lambda>q. r < q) rs"
    using in_r(2) by (auto simp: rs_def intro!: filter_cong)
  also have "\<dots> = drop k rs"
    unfolding r_def by (rule filter_after) (use assms(1) k in \<open>simp_all add: rs_def sound_def sorted_wrt_filter\<close>)
  finally show ?thesis using shown digit_string_show_nat [of r] by (simp add: m drop_map digit_string_def)
qed

section \<open>Archives\<close>

lemma har_loop_spec:
  "har_loop N c maxBytes cs t = Inr (v, k, u) \<Longrightarrow> int (byteLength N v) \<le> maxBytes \<and> k \<le> length cs
    \<and> v = har_value N c (drop (length cs - k) cs) u \<and> u = (t \<or> k < length cs)"
proof (induction cs arbitrary: t)
  case Nil
  then show ?case by (subst (asm) har_loop.simps) (auto split: if_splits)
next
  case (Cons e cs)
  show ?case
  proof (cases "int (byteLength N (har_value N c (e # cs) t)) \<le> maxBytes")
    case True
    then show ?thesis using Cons.prems by (subst (asm) har_loop.simps) auto
  next
    case False
    then have "har_loop N c maxBytes cs True = Inr (v, k, u)" using Cons.prems by (subst (asm) har_loop.simps) simp
    with Cons.IH show ?thesis by (fastforce simp: Suc_diff_le)
  qed
qed

lemma har_loop_maximal:
  "har_loop N c maxBytes cs t = Inr (v, k, u) \<Longrightarrow> k < length cs
    \<Longrightarrow> maxBytes < int (byteLength N (har_value N c (drop (length cs - Suc k) cs) (t \<or> Suc k < length cs)))"
proof (induction cs arbitrary: t)
  case (Cons e cs)
  show ?case
  proof (cases "int (byteLength N (har_value N c (e # cs) t)) \<le> maxBytes")
    case True
    then show ?thesis using Cons.prems by (subst (asm) har_loop.simps) auto
  next
    case False
    then have loop: "har_loop N c maxBytes cs True = Inr (v, k, u)" using Cons.prems by (subst (asm) har_loop.simps) simp
    show ?thesis
    proof (cases "k < length cs")
      case True
      have "Suc (length cs) - Suc k = Suc (length cs - Suc k)" using True by simp
      with Cons.IH [OF loop True] True show ?thesis by simp
    next
      case all: False
      then have "k = length cs" using har_loop_spec [OF loop] by simp
      with False show ?thesis by (simp add: not_le)
    qed
  qed
qed simp

lemma har_loop_error: "har_loop N c maxBytes cs t = Inl e \<Longrightarrow> e = payloadTooLarge maxBytes \<and> (\<exists>u. maxBytes < int (byteLength N (har_value N c [] u)))"
proof (induction cs arbitrary: t)
  case Nil
  then show ?case by (subst (asm) har_loop.simps) (auto split: if_splits simp: not_le)
next
  case (Cons e' cs)
  then show ?case by (subst (asm) har_loop.simps) (auto split: if_splits)
qed

definition header_hidden :: "jsval \<Rightarrow> bool" where
  "header_hidden h \<longleftrightarrow> (secret_name (str_of (getp h ''name'')) \<longrightarrow> getp h ''value'' = Str redacted)"

definition headers_hidden :: "jsval \<Rightarrow> bool" where
  "headers_hidden e = list_all (\<lambda>side. list_all header_hidden (elems (getp (getp e side) ''headers''))) [''request'', ''response'']"

lemma headerArray_hidden: "safe_headers v \<Longrightarrow> list_all header_hidden (headerArray v)"
  by (auto simp: list_all_iff headerArray_def header_hidden_def safe_headers_def getp_def obj_def str_of_def)

lemma harEntry_hidden: "safe_entry e \<Longrightarrow> headers_hidden (harEntry N e d)"
  by (simp add: headers_hidden_def harEntry_def getp_def obj_def elems_def headerArray_hidden safe_entry_def)

section \<open>Redacted JSON\<close>

fun no_secrets :: "jsval \<Rightarrow> bool" where
  "no_secrets (Obj ps) = list_all (\<lambda>(k, w). (rx_test SENSITIVE_NAME k \<longrightarrow> w = Str redacted) \<and> no_secrets w) ps"
| "no_secrets (Arr vs) = list_all no_secrets vs"
| "no_secrets _ = True"

lemma no_secrets_set: "no_secrets (Obj ps) \<Longrightarrow> no_secrets w \<Longrightarrow> (rx_test SENSITIVE_NAME k \<Longrightarrow> w = Str redacted)
    \<Longrightarrow> no_secrets (Obj (set_member k w ps))"
  by (auto simp: set_member_def list_all_iff dest!: assoc_set_subset)

declare redactJSONValue.simps [simp del]

lemma redact_no_secrets:
  "no_secrets (fst (redactJSONValue v d s))"
  "list_all no_secrets (fst (redact_items vs d s))"
  "no_secrets (Obj qs) \<Longrightarrow> no_secrets (Obj (fst (redact_members ps d qs s)))"
proof (induction v d s and vs d s and ps d qs s rule: redactJSONValue_redact_items_redact_members.induct)
  case (1 v d s)
  then show ?case by (subst redactJSONValue.simps, cases v) (auto simp: Let_def case_prod_beta)
next
  case (3 v vs d s)
  obtain w s1 where "redactJSONValue v d s = (w, s1)" by force
  with 3 show ?case by (simp add: case_prod_beta)
next
  case (5 key v ps d qs s)
  show ?case
  proof (cases "rx_test SENSITIVE_NAME key")
    case True
    with 5 show ?thesis by (auto intro!: "5.IH" no_secrets_set simp del: no_secrets.simps(1))
  next
    case False
    obtain w s1 where w: "redactJSONValue v d s = (w, s1)" by force
    have "no_secrets (Obj (set_member key w qs))"
      using "5.prems" "5.IH"(2) [OF False] w False by (intro no_secrets_set) simp_all
    with "5.IH"(3) [OF False w [symmetric]] False w show ?thesis by simp
  qed
qed (auto simp: case_prod_beta)

lemma redact_nodes:
  "rd_nodes s \<le> 50000 \<Longrightarrow> rd_nodes (snd (redactJSONValue v d s)) \<le> 50000"
  "rd_nodes s \<le> 50000 \<Longrightarrow> rd_nodes (snd (redact_items vs d s)) \<le> 50000"
  "rd_nodes s \<le> 50000 \<Longrightarrow> rd_nodes (snd (redact_members ps d qs s)) \<le> 50000"
proof (induction v d s and vs d s and ps d qs s rule: redactJSONValue_redact_items_redact_members.induct)
  case (1 v d s)
  then show ?case by (subst redactJSONValue.simps, cases v) (auto simp: Let_def case_prod_beta)
next
  case (3 v vs d s)
  obtain w s1 where "redactJSONValue v d s = (w, s1)" by force
  with 3 show ?case by (simp add: case_prod_beta)
next
  case (5 key v ps d qs s)
  obtain w s1 where "redactJSONValue v d s = (w, s1)" by force
  with 5 show ?case by (simp add: case_prod_beta)
qed (auto simp: case_prod_beta)

text \<open>The values of the result that are no markers have been counted, and its arrays and objects nest at most 65 deep.\<close>

fun kept_nodes :: "jsval \<Rightarrow> int" where
  "kept_nodes (Obj ps) = 1 + sum_list (map (\<lambda>(_, w). kept_nodes w) ps)"
| "kept_nodes (Arr vs) = 1 + sum_list (map kept_nodes vs)"
| "kept_nodes v = (if v = jstr ''[TRUNCATED]'' \<or> v = Str redacted then 0 else 1)"

fun nested_within :: "nat \<Rightarrow> jsval \<Rightarrow> bool" where
  "nested_within n (Obj ps) = (case n of 0 \<Rightarrow> False | Suc m \<Rightarrow> list_all (\<lambda>(_, w). nested_within m w) ps)"
| "nested_within n (Arr vs) = (case n of 0 \<Rightarrow> False | Suc m \<Rightarrow> list_all (nested_within m) vs)"
| "nested_within n v = True"

lemma kept_nodes_nonneg: "0 \<le> kept_nodes v"
  by (induction v rule: kept_nodes.induct) (auto intro!: add_nonneg_nonneg sum_list_nonneg)

lemma kept_assoc_set:
  "sum_list (map (\<lambda>(_, w). kept_nodes w) (assoc_set k w qs)) \<le> sum_list (map (\<lambda>(_, w). kept_nodes w) qs) + kept_nodes w"
  by (induction k w qs rule: assoc_set.induct) (auto simp: kept_nodes_nonneg)

lemma kept_set_member: "kept_nodes (Obj (set_member k w qs)) \<le> kept_nodes (Obj qs) + kept_nodes w"
  using kept_assoc_set [of k w qs] kept_nodes_nonneg [of w] by (simp add: set_member_def)

lemma redact_counted:
  "rd_nodes s + kept_nodes (fst (redactJSONValue v d s)) \<le> rd_nodes (snd (redactJSONValue v d s))"
  "rd_nodes s + sum_list (map kept_nodes (fst (redact_items vs d s))) \<le> rd_nodes (snd (redact_items vs d s))"
  "rd_nodes s + kept_nodes (Obj (fst (redact_members ps d qs s))) \<le> rd_nodes (snd (redact_members ps d qs s)) + kept_nodes (Obj qs)"
proof (induction v d s and vs d s and ps d qs s rule: redactJSONValue_redact_items_redact_members.induct)
  case (1 v d s)
  show ?case
  proof (cases "d > 64 \<or> rd_nodes s \<ge> 50000")
    case False
    let ?s = "s\<lparr>rd_nodes := rd_nodes s + 1\<rparr>"
    from 1(1) [OF False refl] 1(2) [OF False refl] False show ?thesis
      by (subst (1 2) redactJSONValue.simps, cases v) (simp_all add: Let_def case_prod_beta algebra_simps)
  qed (subst (1 2) redactJSONValue.simps, simp)
next
  case (3 v vs d s)
  obtain w s1 where "redactJSONValue v d s = (w, s1)" by force
  with 3 show ?case by (simp add: case_prod_beta)
next
  case (5 key v ps d qs s)
  obtain w s1 where w: "redactJSONValue v d s = (w, s1)" by force
  have "kept_nodes (Obj (set_member key (Str redacted) qs)) \<le> kept_nodes (Obj qs)"
    using kept_set_member [of key "Str redacted" qs] by simp
  with 5(1) 5(2) 5(3) [OF _ w [symmetric]] w kept_set_member [of key w qs] show ?case
    by (cases "rx_test SENSITIVE_NAME key") (simp_all del: kept_nodes.simps(1))
qed (auto simp: case_prod_beta)

lemma nested_set_member: "list_all (\<lambda>(_, w). nested_within n w) qs \<Longrightarrow> nested_within n w
    \<Longrightarrow> list_all (\<lambda>(_, w). nested_within n w) (set_member k w qs)"
  by (auto simp: set_member_def list_all_iff dest!: assoc_set_subset)

lemma redact_nested:
  "nested_within (65 - d) (fst (redactJSONValue v d s))"
  "list_all (nested_within (65 - d)) (fst (redact_items vs d s))"
  "list_all (\<lambda>(_, w). nested_within (65 - d) w) qs \<Longrightarrow> list_all (\<lambda>(_, w). nested_within (65 - d) w) (fst (redact_members ps d qs s))"
proof (induction v d s and vs d s and ps d qs s rule: redactJSONValue_redact_items_redact_members.induct)
  case (1 v d s)
  show ?case
  proof (cases "d > 64 \<or> rd_nodes s \<ge> 50000")
    case False
    then have "65 - d = Suc (65 - Suc d)" by auto
    with 1(1) [OF False refl] 1(2) [OF False refl] False show ?thesis
      by (subst redactJSONValue.simps, cases v) (simp_all add: Let_def case_prod_beta case_prod_beta')
  qed (subst redactJSONValue.simps, simp)
next
  case (3 v vs d s)
  obtain w s1 where "redactJSONValue v d s = (w, s1)" by force
  with 3 show ?case by (simp add: case_prod_beta)
next
  case (5 key v ps d qs s)
  obtain w s1 where "redactJSONValue v d s = (w, s1)" by force
  with 5(1,4) 5(2) 5(3) [OF _ this [symmetric]] show ?case
    by (cases "rx_test SENSITIVE_NAME key") (simp_all add: nested_set_member)
qed (auto simp: case_prod_beta)

section \<open>A capture after any events\<close>

definition captured :: "net_platform \<Rightarrow> int \<Rightarrow> jsstr \<Rightarrow> jsstr \<Rightarrow> nat \<Rightarrow> rat \<Rightarrow> (jsstr \<times> jsval) list \<Rightarrow> capture" where
  "captured N tabId documentId origin maxEntries now es =
     capture_events N es (createCapture tabId documentId origin maxEntries now)"

lemma captured_ok: "1 \<le> n \<Longrightarrow> capture_ok N (captured N t d g n now es) \<and> fixed_part (captured N t d g n now es) = fixed_part (createCapture t d g n now)"
  using capture_events_ok [OF createCapture_ok] by (simp add: captured_def)

lemma captured_safe: "safe_entry (n_public (nc_record (captured N t d g n now es) r))"
  unfolding captured_def by (rule secrets.law)


lemma captured_sound: "1 \<le> n \<Longrightarrow> sound (captured N t d g n now es)"
proof -
  assume "1 \<le> n"
  let ?c = "captured N t d g n now es"
  from captured_ok [OF \<open>1 \<le> n\<close>] have i: "indexed ?c" by (simp add: capture_ok_def steady_def)
  have num: "numbered ?c" using capture_events_numbered [OF createCapture_numbered] by (simp add: captured_def)
  have "pub ''sequence'' (n_public (nc_record ?c r)) = jnum (of_nat r)" if "r \<in> set (nc_entries ?c)" for r
  proof -
    have "1 \<le> r" "r < nc_nextSequence ?c" using i that by (simp_all add: indexed_def)
    then show ?thesis using num by (auto simp: numbered_def identity_def identity_keys_def)
  qed
  then show ?thesis using i by (simp add: sound_def indexed_def)
qed

section \<open>Parameters\<close>

lemma integerBetween_iff:
  "\<bar>a\<bar> \<le> MAX_SAFE_INTEGER \<Longrightarrow> \<bar>b\<bar> \<le> MAX_SAFE_INTEGER
    \<Longrightarrow> integerBetween v a b \<longleftrightarrow> (\<exists>i. v = jnum (of_int i) \<and> a \<le> of_int i \<and> of_int i \<le> b)"
  by (auto simp: integerBetween_def rat_is_int_def split: jsval.splits jsnum.splits)

lemma requireInteger_ok:
  "\<bar>a\<bar> \<le> MAX_SAFE_INTEGER \<Longrightarrow> \<bar>b\<bar> \<le> MAX_SAFE_INTEGER
    \<Longrightarrow> returns (requireInteger v a b s) \<longleftrightarrow> returns (requireIntegerRange v q a b)"
  by (auto simp: requireInteger_def throw_if_ok integerBetween_iff range_checks_ok)

lemma assertObjectWithKeys_ok:
  "[] \<notin> set (object_keys v) \<Longrightarrow> returns (assertObjectWithKeys v ks)
    \<longleftrightarrow> returns (validateParamsObject v) \<and> returns (assertAllowedProperties v ks)"
proof (cases v)
  case (Obj ps)
  assume "[] \<notin> set (object_keys v)"
  then show ?thesis
    by (auto simp: Obj assertObjectWithKeys_def isObject_def throw_if_ok validateParamsObject_ok assertAllowedProperties_ok
        unexpectedProperty_def list_ex_iff find_None_iff find_Some_iff)
qed (auto simp: assertObjectWithKeys_def isObject_def throw_if_ok validateParamsObject_ok)

lemma returns_bind: "returns (bind_res r f) \<longleftrightarrow> (\<exists>x. r = Inr x \<and> returns (f x))"
  by (cases r) auto

lemma returns_check: "returns (bind_res (r :: unit res) (\<lambda>_. Inr x)) \<longleftrightarrow> returns r"
  by (cases r) auto

lemma NETWORK_RESOURCE_TYPES_same: "NETWORK_RESOURCE_TYPES = RESOURCE_TYPES"
  by (simp add: NETWORK_RESOURCE_TYPES_def RESOURCE_TYPES_def)

lemma positive_number_id: "positive_id v \<Longrightarrow> positive_number P v"
  by (auto simp: positive_id_def positive_number_def)

lemmas network_limits = MAX_SAFE_INTEGER_def MAX_ENTRIES_def MAX_READ_ENTRIES_def MIN_READ_BYTES_def MAX_READ_BYTES_def
  MIN_BODY_BYTES_def MAX_BODY_BYTES_def MIN_HAR_BYTES_def MAX_HAR_BYTES_def

lemma start_params_agree:
  "[] \<notin> set (object_keys p) \<Longrightarrow> returns (validateNetworkStart p t) \<longleftrightarrow> returns (validateNetworkTarget t) \<and> returns (validateStartParams p)"
  using requireInteger_ok [of 1 MAX_ENTRIES "getp p ''maxEntries''" "''params.maxEntries''" "''params.maxEntries''"]
  by (auto simp: validateNetworkStart_def validateStartParams_def returns_check accept_simps assertObjectWithKeys_ok network_limits)

lemma har_params_agree:
  "[] \<notin> set (object_keys p) \<Longrightarrow> returns (validateNetworkHAR p t) \<longleftrightarrow> returns (validateNetworkTarget t) \<and> returns (validateHARParams p)"
  using requireInteger_ok [of MIN_HAR_BYTES MAX_HAR_BYTES "getp p ''maxBytes''" "''params.maxBytes''" "''params.maxBytes''"]
  by (auto simp: validateNetworkHAR_def validateHARParams_def accept_simps assertObjectWithKeys_ok network_limits)

lemma body_params_agree:
  assumes "[] \<notin> set (object_keys p)" and "getp p ''direction'' \<noteq> Undefined"
  shows "returns (validateNetworkBody p t) \<longleftrightarrow> returns (validateNetworkTarget t) \<and> returns (validateBodyParams p)"
  using assms requireInteger_ok [of MIN_BODY_BYTES MAX_BODY_BYTES "getp p ''maxBytes''" "''params.maxBytes''" "''params.maxBytes''"]
  by (auto simp: validateNetworkBody_def validateBodyParams_def accept_simps assertObjectWithKeys_ok network_limits)

lemma empty_params_agree:
  "[] \<notin> set (object_keys p) \<Longrightarrow> returns (validateNetworkEmpty p t) \<longleftrightarrow> returns (validateNetworkTarget t) \<and> returns (assertEmptyParams p)"
  by (auto simp: validateNetworkEmpty_def assertEmptyParams_def validateEmpty_def accept_simps assertObjectWithKeys_ok)

lemma read_params_agree:
  assumes "[] \<notin> set (object_keys p)" and "returns (validateNetworkRead P p t)"
  shows "\<exists>rp. validateReadParams P p = Inr rp \<and> 1 \<le> rp_limit rp \<and> rp_limit rp \<le> 200 \<and> 65536 \<le> rp_maxBytes rp \<and> rp_maxBytes rp \<le> 1000000
    \<and> set (rp_resourceTypes rp) \<subseteq> set (map jstr RESOURCE_TYPES)"
proof -
  have checked: "returns (validateParamsObject p)" "returns (assertAllowedProperties p [''cursor'', ''limit'', ''resourceTypes'',
      ''failedOnly'', ''statusMin'', ''statusMax'', ''since'', ''maxBytes''])"
    and limit: "returns (requireIntegerRange (getp p ''limit'') ''params.limit'' 1 200)"
    and bytes: "returns (requireIntegerRange (getp p ''maxBytes'') ''params.maxBytes'' (64 * 1024) 1000000)"
    and cursor: "getp p ''cursor'' = Undefined \<or> positive_id (getp p ''cursor'')"
    and types: "getp p ''resourceTypes'' = Undefined \<or> (is_array (getp p ''resourceTypes'')
            \<and> length (elems (getp p ''resourceTypes'')) \<le> length RESOURCE_TYPES \<and> distinct (elems (getp p ''resourceTypes''))
            \<and> \<not> list_ex (\<lambda>value. \<not> js_includes RESOURCE_TYPES value) (elems (getp p ''resourceTypes'')))"
    and failed: "returns (validateOptionalBoolean (getp p ''failedOnly'') ''params.failedOnly'')"
    and low: "returns (validateIntegerRange (getp p ''statusMin'') ''params.statusMin'' 100 599)"
    and high: "returns (validateIntegerRange (getp p ''statusMax'') ''params.statusMax'' 100 599)"
    and order: "\<not> (getp p ''statusMin'' \<noteq> Undefined \<and> getp p ''statusMax'' \<noteq> Undefined
         \<and> num_lt (num_of (getp p ''statusMax'')) (num_of (getp p ''statusMin'')))"
    and since: "getp p ''since'' = Undefined \<or> validTimestamp P (getp p ''since'')"
    using assms(2) by (auto simp only: validateNetworkRead_def checks_Cons_ok throw_if_ok NETWORK_RESOURCE_TYPES_same validTimestamp_def not_less)
  let ?types = "js_or (getp p ''resourceTypes'') (Arr [])"
  have lims: "returns (requireInteger (getp p ''limit'') 1 MAX_READ_ENTRIES ''params.limit'')"
    "returns (requireInteger (getp p ''maxBytes'') MIN_READ_BYTES MAX_READ_BYTES ''params.maxBytes'')"
    using limit bytes requireInteger_ok [of 1 200 _ "''params.limit''" "''params.limit''"]
      requireInteger_ok [of "64 * 1024" 1000000 _ "''params.maxBytes''" "''params.maxBytes''"] by (simp_all add: network_limits)
  have stat: "v \<noteq> Undefined \<longrightarrow> returns (requireInteger v 100 599 s)" if "returns (validateIntegerRange v q 100 599)" for v q s
    using that by (auto simp: range_checks_ok requireInteger_def throw_if_ok integerBetween_iff MAX_SAFE_INTEGER_def)
  have tys: "is_array ?types" "length (elems ?types) \<le> length RESOURCE_TYPES" "distinct (elems ?types)"
      "\<not> list_ex (\<lambda>v. \<not> js_includes RESOURCE_TYPES v) (elems ?types)"
    using types by (auto simp: js_or_def)
  have cur: "truthy (js_or (getp p ''cursor'') (Str [])) \<longrightarrow> positive_number P (js_or (getp p ''cursor'') (Str []))"
    using cursor positive_number_id by (auto simp: js_or_def)
  have bool: "getp p ''failedOnly'' \<noteq> Undefined \<longrightarrow> is_boolean (getp p ''failedOnly'')"
    using failed by (auto simp: value_checks_ok)
  have "returns (assertObjectWithKeys p [''cursor'', ''limit'', ''resourceTypes'', ''failedOnly'', ''statusMin'', ''statusMax'', ''since'', ''maxBytes''])"
    using assertObjectWithKeys_ok [OF assms(1)] checked by simp
  then have "returns (validateReadParams P p)"
    using lims stat [OF low] stat [OF high] tys cur bool order since
    unfolding validateReadParams_def Let_def returns_check checks_Cons_ok throw_if_ok when_ok not_less
    by (auto simp: checks_Nil_ok)
  then obtain rp where rp: "validateReadParams P p = Inr rp" by (auto simp: returns_def split: sum.splits)
  then have "rp_limit rp = natural (getp p ''limit'')" "rp_maxBytes rp = integer (getp p ''maxBytes'')" "rp_resourceTypes rp = elems ?types"
    by (auto simp: validateReadParams_def Let_def bind_res_Inr)
  moreover obtain i where "getp p ''limit'' = jnum (of_int i)" "(1::rat) \<le> of_int i" "(of_int i :: rat) \<le> 200"
    using limit by (auto simp: range_checks_ok)
  moreover obtain j where "getp p ''maxBytes'' = jnum (of_int j)" "(64 * 1024::rat) \<le> of_int j" "(of_int j :: rat) \<le> 1000000"
    using bytes by (auto simp: range_checks_ok)
  moreover have "set (elems ?types) \<subseteq> set (map jstr RESOURCE_TYPES)" using tys(4) by (auto simp: list_ex_iff js_includes_def)
  ultimately show ?thesis using rp by (simp add: natural_def integer_def) arith
qed

end
