(* ===== verification/Network_Properties.thy ===== *)
theory Network_Properties
  imports Network_Reading
begin

text \<open>
  What the network capture promises: its state under every sequence of events, the redaction of what it
  stores and hands out, its pages and archives, and its parameters.
\<close>

text \<open>A platform and a capture for closed examples.\<close>

definition demo_net :: net_platform where
  "demo_net = \<lparr>np = demo_platform\<lparr>dateParse := (\<lambda>_. Fin 0)\<rparr>, searchNames = (\<lambda>_. []), searchEntries = (\<lambda>_. []),
     rewriteURL = (\<lambda>s _ _. s), isoDate = (\<lambda>_. [])\<rparr>"

definition demo_params :: read_params where
  "demo_params = \<lparr>rp_cursor = Str [], rp_limit = 1, rp_resourceTypes = [], rp_failedOnly = False, rp_statusMin = None,
     rp_statusMax = None, rp_since = Str [], rp_maxBytes = 65536\<rparr>"

definition demo_capture :: capture where
  "demo_capture = (createCapture 7 (lit ''d'') (lit ''o'') 5 0)\<lparr>nc_entries := [1, 2], nc_nextSequence := 3,
     nc_record := (\<lambda>r. blank_record\<lparr>n_public := [(lit ''sequence'', jnum (of_nat r))]\<rparr>)\<rparr>"

lemma demo_capture_entries [simp]: "nc_entries demo_capture = [1, 2]" "nc_nextSequence demo_capture = 3"
  "n_public (nc_record demo_capture r) = [(lit ''sequence'', jnum (of_nat r))]"
  by (simp_all add: demo_capture_def)

lemma demo_capture_sound: "sound demo_capture"
  by (simp add: sound_def pub_map_of)

lemma demo_capture_safe: "safe_entry (n_public (nc_record demo_capture r))"
  by (simp add: safe_entry_def pub_map_of)

text \<open>C17: A network capture stays sound under every sequence of events, whatever they hold: at most
  \<open>maxEntries\<close> entries, whose recorded sizes add up to \<open>bufferedBytes\<close>, at most 2,000,000, in the order of their numbers, which
  they bear as \<open>sequence\<close>; the maps by entry id, by current request and by request lead to retained entries of that key only; the
  extra information that waits is at most 64 events, and its recorded sizes add up to at most 262,144; the tab, the document, the origin and
  the lease are those of the start. If no event of the sequence has a redirecting response without the URL of the next request, or a
  header whose value cannot be made a string, the recorded size of each entry is the number of bytes of its JSON.\<close>

theorem network_capture_sound:
  assumes "1 \<le> maxEntries"
  shows "let c = captured N tabId documentId origin maxEntries now es in
     length (nc_entries c) \<le> maxEntries \<and> nc_bufferedBytes c \<le> 2000000
   \<and> nc_bufferedBytes c = sum_list (map (\<lambda>r. int (n_bytes (nc_record c r))) (nc_entries c))
   \<and> sound c
   \<and> (\<forall>k r. map_of (nc_byEntryId c) k = Some r \<longrightarrow> r \<in> set (nc_entries c) \<and> k = show_nat r)
   \<and> (\<forall>k r. map_of (nc_current c) k = Some r \<longrightarrow> r \<in> set (nc_entries c) \<and> n_requestId (nc_record c r) = k)
   \<and> (\<forall>k rs. map_of (nc_records c) k = Some rs \<longrightarrow> rs \<noteq> [] \<and> (\<forall>r\<in>set rs. r \<in> set (nc_entries c) \<and> n_requestId (nc_record c r) = k))
   \<and> nc_pendingEvents c = total extra_count (nc_pendingRequest c) + total extra_count (nc_pendingResponse c)
   \<and> nc_pendingBytes c = total extra_bytes (nc_pendingRequest c) + total extra_bytes (nc_pendingResponse c)
   \<and> nc_pendingEvents c \<le> 64 \<and> nc_pendingBytes c \<le> 262144
   \<and> nc_tabId c = tabId \<and> nc_documentId c = documentId \<and> nc_origin c = origin \<and> nc_lease c = None \<and> nc_active c
   \<and> (list_all (\<lambda>(_, event). measured_event event) es \<longrightarrow>
        (\<forall>r\<in>set (nc_entries c). n_bytes (nc_record c r) = byteLength N (Obj (n_public (nc_record c r)))))"
proof -
  let ?c = "captured N tabId documentId origin maxEntries now es"
  note ok = captured_ok [OF assms, of N tabId documentId origin now es]
  from ok have i: "sound ?c" "indexed ?c" "within_limits ?c" "pending_ok ?c" using captured_sound [OF assms] by (simp_all add: capture_ok_def steady_def)
  from ok have "nc_maxEntries ?c = maxEntries" "nc_tabId ?c = tabId" "nc_documentId ?c = documentId" "nc_origin ?c = origin"
    "nc_lease ?c = None" "nc_active ?c" by (simp_all add: fixed_part_def createCapture_def)
  moreover have "measured N {} ?c" if "list_all (\<lambda>(_, event). measured_event event) es"
    unfolding captured_def by (rule measured_events [OF _ that]) (simp add: measured_def createCapture_def)
  ultimately show ?thesis
    using i unfolding Let_def indexed_def maps_ok_def within_limits_def pending_ok_def entry_bytes_def entry_key_def
      MAX_BUFFER_BYTES_def MAX_PENDING_EXTRA_EVENTS_def MAX_PENDING_EXTRA_BYTES_def measured_def
    by simp
qed

theorem network_capture_sound_witness:
  "length (nc_entries (captured demo_net 7 (lit ''d'') (lit ''https://a.test'') 1 0
     [(lit ''t'', obj [(''method'', jstr ''Network.requestWillBeSent'')])])) \<le> 1"
  using network_capture_sound [of 1 demo_net 7 "lit ''d''" "lit ''https://a.test''" 0
      "[(lit ''t'', obj [(''method'', jstr ''Network.requestWillBeSent'')])]"]
  by (simp add: Let_def)

text \<open>C18: No entry of a capture holds a secret header: after any events, in the request and the response
  headers of every entry, a header whose name is \<open>Authorization\<close>, \<open>Cookie\<close> or the like, or contains a
  word such as \<open>token\<close> or \<open>api-key\<close>, in any case, has the value \<open>[REDACTED]\<close>.\<close>

theorem network_headers_redacted:
  "safe_entry (n_public (nc_record (captured N tabId documentId origin maxEntries now es) r))"
  by (rule captured_safe)

text \<open>C19: Let the records of a capture bear their numbers, in order, below \<open>2^53\<close> (by the first property of this theory a capture bears
  its numbers in order). A page of \<open>network.read\<close> is the beginning of the entries that match the request, and the whole
  result has at most \<open>maxBytes\<close> bytes. It has all of them, or \<open>limit\<close> of them, or the result with one entry more (and no
  cursor and no warnings) would have more than \<open>maxBytes\<close> bytes. If it gives a cursor, the entries that match after that cursor are
  exactly the remaining ones, so that reading on loses none and repeats none; if it gives none, the page is empty or no entry remains.\<close>

theorem network_pages:
  assumes "sound c" and "of_nat (nc_nextSequence c) \<le> MAX_SAFE_INTEGER" and "readCapture N c p = Inr result"
  shows "let ms = matching_entries (np N) p c; cursor = getp result ''nextCursor'' in
     int (byteLength N result) \<le> rp_maxBytes p
   \<and> (\<exists>k\<le>rp_limit p. getp result ''entries'' = Arr (map Obj (take k ms))
        \<and> (length ms \<le> k \<or> k = rp_limit p \<or> rp_maxBytes p < int (byteLength N (networkReadResult N c (take (Suc k) ms) [] [])))
        \<and> (cursor = Str [] \<longrightarrow> k = 0 \<or> length ms \<le> k)
        \<and> (cursor \<noteq> Str [] \<longrightarrow> 1 \<le> k \<and> matching_entries (np N) (p\<lparr>rp_cursor := cursor\<rparr>) c = drop k ms))"
proof -
  define ms where "ms = matching_entries (np N) p c"
  obtain es more where loop: "read_loop N c (rp_limit p) (rp_maxBytes p) [] ms = (es, more)" by force
  from read_loop_spec [of ms N c "rp_limit p" "rp_maxBytes p" "[]"] loop
  obtain k where k: "k \<le> length ms" "es = take k ms" "more = (k < length ms)" "k \<le> rp_limit p"
    "length ms \<le> k \<or> k = rp_limit p \<or> rp_maxBytes p < int (byteLength N (networkReadResult N c (take (Suc k) ms) [] []))"
    by (auto simp: not_le)
  define cursor where "cursor = (if more \<and> es \<noteq> [] then string_of (np N) (pub ''sequence'' (last es)) else [])"
  have r: "result = networkReadResult N c es cursor (read_warnings N p c)" "int (byteLength N result) \<le> rp_maxBytes p"
    using assms(3) loop by (auto simp: readCapture_def Let_def ms_def cursor_def split: if_splits)
  have parts: "getp result ''entries'' = Arr (map Obj es)" "getp result ''nextCursor'' = Str cursor"
    unfolding r(1) networkReadResult_def by simp_all
  have onward: "matching_entries (np N) (p\<lparr>rp_cursor := Str cursor\<rparr>) c = drop k ms \<and> cursor \<noteq> []" if "more" "es \<noteq> []"
  proof -
    have "0 < k" using that k by auto
    then show ?thesis
      using next_page [OF assms(1) _ _ assms(2), of k "np N" p] that k by (simp add: cursor_def ms_def)
  qed
  show ?thesis
    unfolding Let_def ms_def [symmetric] parts
    using r k onward by (intro conjI exI [of _ k]) (auto simp: cursor_def)
qed

theorem network_pages_witness:
  "\<exists>result. readCapture demo_net demo_capture demo_params = Inr result
     \<and> matching_entries (np demo_net) (demo_params\<lparr>rp_cursor := getp result ''nextCursor''\<rparr>) demo_capture
       = drop 1 (matching_entries (np demo_net) demo_params demo_capture)"
proof -
  have run: "case readCapture demo_net demo_capture demo_params of Inl _ \<Rightarrow> False
      | Inr v \<Rightarrow> getp v ''nextCursor'' = jstr ''1'' \<and> length (elems (getp v ''entries'')) = 1" by code_simp
  then obtain result where r: "readCapture demo_net demo_capture demo_params = Inr result"
    by (auto split: sum.splits)
  with run have v: "getp result ''nextCursor'' = jstr ''1''" "length (elems (getp result ''entries'')) = 1" by simp_all
  have "of_nat (nc_nextSequence demo_capture) \<le> MAX_SAFE_INTEGER" by (simp add: MAX_SAFE_INTEGER_def)
  from network_pages [OF demo_capture_sound this r] v(1) obtain k where
    k: "getp result ''entries'' = Arr (map Obj (take k (matching_entries (np demo_net) demo_params demo_capture)))"
      "matching_entries (np demo_net) (demo_params\<lparr>rp_cursor := getp result ''nextCursor''\<rparr>) demo_capture
        = drop k (matching_entries (np demo_net) demo_params demo_capture)"
    by (auto simp: Let_def)
  then have "drop k (matching_entries (np demo_net) demo_params demo_capture) = drop 1 (matching_entries (np demo_net) demo_params demo_capture)"
    using v(2) by (cases "k \<le> length (matching_entries (np demo_net) demo_params demo_capture)") auto
  with r k(2) show ?thesis by auto
qed

text \<open>C20: After any events, a HAR archive has at most \<open>maxBytes\<close> bytes and holds the newest entries of the capture, in order, and as
  many as fit: with the next older one it would have more bytes. It says
  that it is truncated just if older entries were left out; and in no entry of it does a secret header
  have a value other than \<open>[REDACTED]\<close>. If there is no archive, not even the empty one fits.\<close>

theorem network_har_sound:
  "let c = captured N tabId documentId origin maxEntries now es;
       archive_of = (\<lambda>count. har_value N c (map (\<lambda>r. harEntry N (n_public (nc_record c r)) (nc_documentId c))
          (drop (length (nc_entries c) - count) (nc_entries c))))
   in case encodeHAR N c maxBytes of
     Inl e \<Rightarrow> exn_code e = Some PAYLOAD_TOO_LARGE \<and> (\<exists>t. maxBytes < int (byteLength N (har_value N c [] t)))
   | Inr (archive, count, truncated) \<Rightarrow> int (byteLength N archive) \<le> maxBytes \<and> count \<le> length (nc_entries c)
      \<and> truncated = (count < length (nc_entries c)) \<and> archive = archive_of count truncated
      \<and> (truncated \<longrightarrow> maxBytes < int (byteLength N (archive_of (Suc count) (Suc count < length (nc_entries c)))))
      \<and> list_all headers_hidden (elems (getp (getp archive ''log'') ''entries''))"
proof -
  define c where "c = captured N tabId documentId origin maxEntries now es"
  define cs where "cs = map (\<lambda>r. harEntry N (n_public (nc_record c r)) (nc_documentId c)) (nc_entries c)"
  have all: "list_all headers_hidden (drop n cs)" for n
    by (auto simp: cs_def list_all_iff c_def intro!: harEntry_hidden captured_safe dest!: in_set_dropD)
  show ?thesis
  proof (cases "encodeHAR N c maxBytes")
    case (Inl e)
    from har_loop_error [OF this [unfolded encodeHAR_def]] Inl show ?thesis
      by (simp add: payloadTooLarge_def Let_def c_def [symmetric])
  next
    case (Inr a)
    obtain v k t where a: "a = (v, k, t)" by (cases a)
    have loop: "har_loop N c maxBytes cs False = Inr (v, k, t)" using Inr by (simp add: encodeHAR_def a cs_def)
    note h = har_loop_spec [OF this]
    have "getp (getp v ''log'') ''entries'' = Arr (drop (length cs - k) cs)" using h by (simp add: har_value_def)
    then have hidden: "list_all headers_hidden (elems (getp (getp v ''log'') ''entries''))" using all [of "length cs - k"] by simp
    have cut: "k < length (nc_entries c) \<Longrightarrow> maxBytes < int (byteLength N (har_value N c (drop (length cs - Suc k) cs) (Suc k < length cs)))"
      using har_loop_maximal [OF loop] by (simp add: cs_def)
    from h have parts: "int (byteLength N v) \<le> maxBytes" "k \<le> length cs" "v = har_value N c (drop (length cs - k) cs) t" "t = (k < length cs)"
      by blast+
    from parts hidden cut show ?thesis
      unfolding Let_def c_def [symmetric] Inr a prod.case sum.case by (simp add: cs_def drop_map)
  qed
qed

text \<open>A request with a cookie, as the debugger reports it.\<close>

definition cookie_event :: jsval where
  "cookie_event = obj [(''method'', jstr ''Network.requestWillBeSent''), (''params'', obj [(''requestId'', jstr ''r''),
     (''request'', obj [(''url'', jstr ''https://a.test/''), (''method'', jstr ''GET''),
       (''headers'', obj [(''Cookie'', jstr ''secret'')])])])]"

definition cookie_capture :: capture where
  "cookie_capture = captured demo_net 7 (lit ''d'') (lit ''https://a.test'') 1 0 [(lit ''t'', cookie_event)]"

theorem network_har_sound_witness:
  "\<exists>archive. encodeHAR demo_net cookie_capture (int (byteLength demo_net (har_value demo_net cookie_capture
       (map (\<lambda>r. harEntry demo_net (n_public (nc_record cookie_capture r)) (nc_documentId cookie_capture)) (nc_entries cookie_capture)) False)))
     = Inr (archive, length (nc_entries cookie_capture), False) \<and> list_all headers_hidden (elems (getp (getp archive ''log'') ''entries''))"
proof -
  let ?cs = "map (\<lambda>r. harEntry demo_net (n_public (nc_record cookie_capture r)) (nc_documentId cookie_capture)) (nc_entries cookie_capture)"
  let ?archive = "har_value demo_net cookie_capture ?cs False"
  have loop: "har_loop N c (int (byteLength N (har_value N c cs t))) cs t = Inr (har_value N c cs t, length cs, t)" for N c cs t
    by (subst har_loop.simps) simp
  have run: "encodeHAR demo_net cookie_capture (int (byteLength demo_net ?archive)) = Inr (?archive, length (nc_entries cookie_capture), False)"
    unfolding encodeHAR_def loop by simp
  from network_har_sound [of demo_net 7 "lit ''d''" "lit ''https://a.test''" 1 0 "[(lit ''t'', cookie_event)]"
      "int (byteLength demo_net ?archive)", folded cookie_capture_def, unfolded Let_def run, simplified]
  have "list_all headers_hidden (elems (getp (getp ?archive ''log'') ''entries''))" by blast
  with run show ?thesis by blast
qed

text \<open>C21: A body that is handed out has at most \<open>maxBytes\<close> bytes. If its media type is JSON and its text parses, it is the text of
  a value in which, at every depth, a member whose name contains a secret word is \<open>[REDACTED]\<close>, with at most 50,000 values
  other than the markers \<open>[REDACTED]\<close> and \<open>[TRUNCATED]\<close>, and arrays and objects nested at most 65 deep; otherwise it is the text with the secrets of
  the four text patterns replaced.\<close>

theorem network_body_redacted:
  assumes "redactBody B bytes mime maxBytes = Inr (out, rules, truncated)"
  shows "\<exists>s. decodeUTF8 B bytes = Some s \<and> int (utf8_length out) \<le> maxBytes
     \<and> (if isJSONMIME (np (net B)) (Str mime) \<and> parseJSON B s \<noteq> None
        then \<exists>w. out = json (np (net B)) w \<and> no_secrets w \<and> kept_nodes w \<le> 50000 \<and> nested_within 65 w
        else out = fst (redactText s []))"
proof -
  obtain s where s: "decodeUTF8 B bytes = Some s" using assms by (auto simp: redactBody_def split: option.splits)
  let ?s = "\<lparr>rd_nodes = 0, rd_truncated = False, rd_rules = []\<rparr>"
  have "no_secrets (fst (redactJSONValue v 0 ?s))" "kept_nodes (fst (redactJSONValue v 0 ?s)) \<le> 50000"
    "nested_within 65 (fst (redactJSONValue v 0 ?s))" for v
    using redact_no_secrets(1) [of v 0 ?s] redact_counted(1) [of ?s v 0] redact_nodes(1) [of ?s v 0] redact_nested(1) [of 0 v ?s]
    by simp_all
  note json = this
  show ?thesis
  proof (cases "isJSONMIME (np (net B)) (Str mime) \<and> parseJSON B s \<noteq> None")
    case True
    then obtain v where "parseJSON B s = Some v" by blast
    with True assms s have "out = json (np (net B)) (fst (redactJSONValue v 0 ?s)) \<and> int (utf8_length out) \<le> maxBytes"
      by (auto simp: redactBody_def Let_def case_prod_beta split: if_splits)
    with True json [of v] s show ?thesis by auto
  next
    case False
    with assms s show ?thesis by (auto simp: redactBody_def Let_def split: if_splits)
  qed
qed

definition demo_body :: body_platform where
  "demo_body = \<lparr>net = demo_net, parseJSON = (\<lambda>_. Some (obj [(''token'', jstr ''x'')])), decodeUTF8 = (\<lambda>_. Some []),
     decodeBase64 = (\<lambda>_. None), textToBase64 = (\<lambda>s. s)\<rparr>"

theorem network_body_redacted_witness:
  "\<exists>out rules truncated w. redactBody demo_body [] (lit ''application/json'') 100 = Inr (out, rules, truncated)
     \<and> out = json (np demo_net) w \<and> no_secrets w"
proof -
  have "returns (redactBody demo_body [] (lit ''application/json'') 100)" "isJSONMIME (np (net demo_body)) (Str (lit ''application/json''))"
    by code_simp+
  moreover from this obtain out rules truncated where
    "redactBody demo_body [] (lit ''application/json'') 100 = Inr (out, rules, truncated)"
    by (auto simp: returns_def split: sum.splits)
  ultimately show ?thesis
    using network_body_redacted [of demo_body "[]" "lit ''application/json''" 100 out rules truncated]
    by (auto simp: demo_body_def split: if_splits)
qed

text \<open>C22: The router and the handlers of the network commands check parameters alike. On parameters without
  an empty property name, and for a target that the router allows, the router accepts a start, a stop or
  clear, an export, and a body request with a direction, just if the handler does; and the parameters of
  a read that the router accepts never fail in the handler, which takes from them a limit of 1 to 200
  entries, 65,536 to 1,000,000 bytes, and known resource types.\<close>

theorem network_params_agree:
  assumes "[] \<notin> set (object_keys params)" and "returns (validateNetworkTarget target)"
  shows "returns (validateNetworkStart params target) = returns (validateStartParams params)
    \<and> returns (validateNetworkEmpty params target) = returns (assertEmptyParams params)
    \<and> returns (validateNetworkHAR params target) = returns (validateHARParams params)
    \<and> (getp params ''direction'' \<noteq> Undefined
        \<longrightarrow> returns (validateNetworkBody params target) = returns (validateBodyParams params))
    \<and> (returns (validateNetworkRead P params target) \<longrightarrow> (\<exists>rp. validateReadParams P params = Inr rp
        \<and> 1 \<le> rp_limit rp \<and> rp_limit rp \<le> 200 \<and> 65536 \<le> rp_maxBytes rp \<and> rp_maxBytes rp \<le> 1000000
        \<and> set (rp_resourceTypes rp) \<subseteq> set (map jstr RESOURCE_TYPES)))"
  using assms start_params_agree empty_params_agree har_params_agree body_params_agree read_params_agree by blast

theorem network_params_agree_witness:
  "returns (validateHARParams (obj [(''maxBytes'', jnum 65536)]))
   \<and> returns (validateNetworkHAR (obj [(''maxBytes'', jnum 65536)]) Undefined)"
proof -
  have "returns (validateNetworkTarget Undefined)" "returns (validateHARParams (obj [(''maxBytes'', jnum 65536)]))"
    by code_simp+
  with network_params_agree [of "obj [(''maxBytes'', jnum 65536)]" Undefined] show ?thesis by simp
qed

end
