(* ===== verification/Browser_Calls.thy ===== *)
theory Browser_Calls
  imports Protocol
begin

text \<open>
  Asynchronous code. A handler calls the browser, and continues with the answer; the browser may
  answer anything, and other handlers may run before it does. A handler is a value of type \<open>io\<close>: it
  returns, throws, reads something at once (\<open>Ask\<close>), awaits a call (\<open>Await\<close>), or changes the state it
  shares with others (\<open>Update\<close>). \<open>exec\<close> gives its runs, with the log of calls and answers; \<open>wp\<close> the
  weakest precondition of a postcondition, with a guard that every call has to satisfy.
\<close>

section \<open>Handlers\<close>

datatype call = Call (callee: string) (arguments: "jsval list")

type_synonym log = "(call \<times> jsval res) list"

datatype ('s, 'a) io =
    Return 'a
  | Throw exn
  | Ask call "jsval \<Rightarrow> ('s, 'a) io"
  | Await call "jsval res \<Rightarrow> ('s, 'a) io"
  | Update "'s \<Rightarrow> 's" "'s \<Rightarrow> ('s, 'a) io"

primrec bind_io :: "('s, 'a) io \<Rightarrow> ('a \<Rightarrow> ('s, 'b) io) \<Rightarrow> ('s, 'b) io" where
  "bind_io (Return x) f = f x"
| "bind_io (Throw e) f = Throw e"
| "bind_io (Ask c k) f = Ask c (\<lambda>a. bind_io (k a) f)"
| "bind_io (Await c k) f = Await c (\<lambda>a. bind_io (k a) f)"
| "bind_io (Update u k) f = Update u (\<lambda>s. bind_io (k s) f)"

text \<open>\<open>try { m } catch (error) { f(error) }\<close>.\<close>

primrec catch_io :: "('s, 'a) io \<Rightarrow> (exn \<Rightarrow> ('s, 'a) io) \<Rightarrow> ('s, 'a) io" where
  "catch_io (Return x) f = Return x"
| "catch_io (Throw e) f = f e"
| "catch_io (Ask c k) f = Ask c (\<lambda>a. catch_io (k a) f)"
| "catch_io (Await c k) f = Await c (\<lambda>a. catch_io (k a) f)"
| "catch_io (Update u k) f = Update u (\<lambda>s. catch_io (k s) f)"

definition lift_res :: "'a res \<Rightarrow> ('s, 'a) io" where
  "lift_res r = (case r of Inl e \<Rightarrow> Throw e | Inr x \<Rightarrow> Return x)"

text \<open>\<open>await c\<close> throws what the call rejects with.\<close>

definition await :: "string \<Rightarrow> jsval list \<Rightarrow> ('s, jsval) io" where
  "await name args = Await (Call name args) lift_res"

definition ask :: "string \<Rightarrow> jsval list \<Rightarrow> ('s, jsval) io" where
  "ask name args = Ask (Call name args) Return"

definition throw_when :: "bool \<Rightarrow> exn \<Rightarrow> ('s, unit) io" where
  "throw_when b e = (if b then Throw e else Return ())"

text \<open>\<open>try { m } finally { f }\<close>.\<close>

definition finally_io :: "('s, 'a) io \<Rightarrow> ('s, 'b) io \<Rightarrow> ('s, 'a) io" where
  "finally_io m f = bind_io (catch_io (bind_io m (\<lambda>x. Return (Inr x))) (\<lambda>e. Return (Inl e)))
     (\<lambda>r. bind_io f (\<lambda>_. lift_res r))"

text \<open>\<open>for (const x of xs) { m(x); }\<close>, collecting what \<open>m\<close> returns.\<close>

primrec each_io :: "('a \<Rightarrow> ('s, 'b) io) \<Rightarrow> 'a list \<Rightarrow> ('s, 'b list) io" where
  "each_io m [] = Return []"
| "each_io m (x # xs) = bind_io (m x) (\<lambda>y. bind_io (each_io m xs) (\<lambda>ys. Return (y # ys)))"

lemma bind_io_assoc: "bind_io (bind_io m f) g = bind_io m (\<lambda>x. bind_io (f x) g)"
  by (induction m) simp_all

lemma bind_io_Return: "bind_io m Return = m"
  by (induction m) simp_all

section \<open>Runs\<close>

text \<open>While a handler awaits an answer, the shared state may change as \<open>R\<close> allows.\<close>

inductive exec :: "('s \<Rightarrow> 's \<Rightarrow> bool) \<Rightarrow> ('s, 'a) io \<Rightarrow> 's \<Rightarrow> log \<Rightarrow> 'a res \<Rightarrow> 's \<Rightarrow> bool"
  for R :: "'s \<Rightarrow> 's \<Rightarrow> bool" where
  exec_Return: "exec R (Return x) s [] (Inr x) s"
| exec_Throw: "exec R (Throw e) s [] (Inl e) s"
| exec_Ask: "exec R (k v) s l r t \<Longrightarrow> exec R (Ask c k) s ((c, Inr v) # l) r t"
| exec_Await: "R s s1 \<Longrightarrow> exec R (k a) s1 l r t \<Longrightarrow> exec R (Await c k) s ((c, a) # l) r t"
| exec_Update: "exec R (k s) (u s) l r t \<Longrightarrow> exec R (Update u k) s l r t"

inductive_cases exec_ReturnE: "exec R (Return x) s l r t"
inductive_cases exec_ThrowE: "exec R (Throw e) s l r t"
inductive_cases exec_AskE: "exec R (Ask c k) s l r t"
inductive_cases exec_AwaitE: "exec R (Await c k) s l r t"
inductive_cases exec_UpdateE: "exec R (Update u k) s l r t"

text \<open>A run with given answers in which nothing else happens; the run stops when they are used up.\<close>

primrec play :: "('s, 'a) io \<Rightarrow> 's \<Rightarrow> jsval res list \<Rightarrow> log \<times> 'a res option \<times> 's" where
  "play (Return x) = (\<lambda>s answers. ([], Some (Inr x), s))"
| "play (Throw e) = (\<lambda>s answers. ([], Some (Inl e), s))"
| "play (Ask c k) = (\<lambda>s answers. case answers of [] \<Rightarrow> ([], None, s)
     | Inl e # rest \<Rightarrow> ([], None, s)
     | Inr v # rest \<Rightarrow> (case play (k v) s rest of (l, q) \<Rightarrow> ((c, Inr v) # l, q)))"
| "play (Await c k) = (\<lambda>s answers. case answers of [] \<Rightarrow> ([], None, s)
     | a # rest \<Rightarrow> (case play (k a) s rest of (l, q) \<Rightarrow> ((c, a) # l, q)))"
| "play (Update u k) = (\<lambda>s answers. play (k s) (u s) answers)"

lemma play_exec: "play m s answers = (l, Some r, t) \<Longrightarrow> (\<And>s. R s s) \<Longrightarrow> exec R m s l r t"
  by (induction m arbitrary: s answers l)
    (auto intro: exec.intros exec_Await [OF _ _, of R s s for s] split: prod.splits list.splits sum.splits)

text \<open>Every handler comes to an end, whatever the answers are.\<close>

lemma exec_total: "(\<And>s. R s s) \<Longrightarrow> \<exists>l r t. exec R m s l r t"
  by (induction m arbitrary: s) (blast intro: exec.intros)+

text \<open>Runs of parts make a run of the whole.\<close>

lemma exec_bind:
  "exec R m s l (Inr x) t \<Longrightarrow> exec R (f x) t l' r u \<Longrightarrow> exec R (bind_io m f) s (l @ l') r u"
  by (induction m s l "Inr x :: _ res" t rule: exec.induct) (auto intro: exec.intros)

lemma exec_catch: "exec R m s l (Inr x) t \<Longrightarrow> exec R (catch_io m f) s l (Inr x) t"
  by (induction m s l "Inr x :: _ res" t rule: exec.induct) (auto intro: exec.intros)

lemma exec_finally:
  assumes "exec R m s l (Inr x) t" and "exec R f t l' (Inr y) u"
  shows "exec R (finally_io m f) s (l @ l') (Inr x) u"
proof -
  have "exec R (bind_io f (\<lambda>_. lift_res (Inr x))) t (l' @ []) (Inr x) u"
    by (rule exec_bind [OF assms(2)]) (simp add: lift_res_def exec_Return)
  moreover have "exec R (bind_io m (\<lambda>x. Return (Inr x))) s (l @ []) (Inr (Inr x)) t"
    by (rule exec_bind [OF assms(1) exec_Return])
  ultimately show ?thesis unfolding finally_io_def
    by (intro exec_bind [OF exec_catch]) simp_all
qed

lemma exec_await [intro]: "R s t \<Longrightarrow> exec R (await c args) s [(Call c args, Inr v)] (Inr v) t"
  unfolding await_def lift_res_def by (rule exec_Await, assumption, simp add: exec_Return)

lemma exec_ask [intro]: "exec R (ask c args) s [(Call c args, Inr v)] (Inr v) s"
  unfolding ask_def by (intro exec_Ask exec_Return)

section \<open>Weakest preconditions\<close>

text \<open>\<open>G h c\<close>: after the calls in \<open>h\<close> the call \<open>c\<close> may be made. \<open>I\<close> holds of the shared state whenever
  the handler waits and when it ends.\<close>

primrec wp :: "('s \<Rightarrow> 's \<Rightarrow> bool) \<Rightarrow> (log \<Rightarrow> call \<Rightarrow> bool) \<Rightarrow> ('s, 'a) io \<Rightarrow> 's \<Rightarrow> log \<Rightarrow> ('s \<Rightarrow> log \<Rightarrow> 'a res \<Rightarrow> bool) \<Rightarrow> bool" where
  "wp R G (Return x) = (\<lambda>s h Q. Q s h (Inr x))"
| "wp R G (Throw e) = (\<lambda>s h Q. Q s h (Inl e))"
| "wp R G (Ask c k) = (\<lambda>s h Q. G h c \<and> (\<forall>v. wp R G (k v) s (h @ [(c, Inr v)]) Q))"
| "wp R G (Await c k) = (\<lambda>s h Q. G h c \<and> (\<forall>s1 a. R s s1 \<longrightarrow> wp R G (k a) s1 (h @ [(c, a)]) Q))"
| "wp R G (Update u k) = (\<lambda>s h Q. wp R G (k s) (u s) h Q)"

fun guarded :: "(log \<Rightarrow> call \<Rightarrow> bool) \<Rightarrow> log \<Rightarrow> log \<Rightarrow> bool" where
  "guarded G h [] \<longleftrightarrow> True"
| "guarded G h ((c, a) # l) \<longleftrightarrow> G h c \<and> guarded G (h @ [(c, a)]) l"

lemma guarded_iff: "guarded G h l \<longleftrightarrow> (\<forall>i<length l. G (h @ take i l) (fst (l ! i)))"
proof (induction l arbitrary: h)
  case (Cons x l)
  obtain c a where "x = (c, a)" by force
  then show ?case using Cons.IH [of "h @ [x]"] by (simp add: All_less_Suc2)
qed simp

lemma wp_sound: "exec R m s l r t \<Longrightarrow> wp R G m s h Q \<Longrightarrow> guarded G h l \<and> Q t (h @ l) r"
  by (induction arbitrary: h rule: exec.induct) fastforce+

lemma wp_mono:
  "wp R G m s h Q \<Longrightarrow> (\<And>s h r. Q s h r \<Longrightarrow> Q' s h r) \<Longrightarrow> wp R G m s h Q'"
  by (induction m arbitrary: s h) fastforce+

text \<open>The rule of consequence, for a part of a longer run.\<close>

lemma wp_bind: "wp R G (bind_io m f) s h Q \<longleftrightarrow>
   wp R G m s h (\<lambda>s h r. case r of Inl e \<Rightarrow> Q s h (Inl e) | Inr x \<Rightarrow> wp R G (f x) s h Q)"
  by (induction m arbitrary: s h) simp_all

lemma wp_catch: "wp R G (catch_io m f) s h Q \<longleftrightarrow>
   wp R G m s h (\<lambda>s h r. case r of Inl e \<Rightarrow> wp R G (f e) s h Q | Inr x \<Rightarrow> Q s h (Inr x))"
  by (induction m arbitrary: s h) simp_all

lemma wp_finally: "wp R G (finally_io m f) s h Q \<longleftrightarrow>
   wp R G m s h (\<lambda>s h r. wp R G f s h (\<lambda>s h q. case q of Inl e \<Rightarrow> Q s h (Inl e) | Inr _ \<Rightarrow> Q s h r))"
  unfolding finally_io_def wp_bind wp_catch
  by (intro arg_cong [where f = "wp R G m s h"] ext)
     (auto simp: lift_res_def split: sum.splits intro!: arg_cong [where f = "wp R G f _ _"] ext)

lemma wp_lift_res [simp]: "wp R G (lift_res r) s h Q \<longleftrightarrow> Q s h r"
  by (simp add: lift_res_def split: sum.split)

lemma wp_await [simp]: "wp R G (await name args) s h Q \<longleftrightarrow>
   G h (Call name args) \<and> (\<forall>s1 a. R s s1 \<longrightarrow> Q s1 (h @ [(Call name args, a)]) a)"
  by (simp add: await_def)

lemma wp_ask [simp]: "wp R G (ask name args) s h Q \<longleftrightarrow>
   G h (Call name args) \<and> (\<forall>v. Q s (h @ [(Call name args, Inr v)]) (Inr v))"
  by (simp add: ask_def)

lemma wp_throw_when [simp]: "wp R G (throw_when b e) s h Q \<longleftrightarrow> (if b then Q s h (Inl e) else Q s h (Inr ()))"
  by (simp add: throw_when_def)

lemma wp_complete:
  assumes refl: "\<And>s. R s s"
  shows "(\<And>l r t. exec R m s l r t \<Longrightarrow> guarded G h l \<and> Q t (h @ l) r) \<Longrightarrow> wp R G m s h Q"
proof (induction m arbitrary: s h)
  case (Ask c k)
  have "G h c \<and> wp R G (k v) s (h @ [(c, Inr v)]) Q" for v
  proof
    obtain l r t where "exec R (k v) s l r t" using exec_total [of R] refl by blast
    then show "G h c" using Ask.prems [OF exec_Ask] by fastforce
    show "wp R G (k v) s (h @ [(c, Inr v)]) Q"
      by (rule Ask.IH) (use Ask.prems exec_Ask [of R k v s] in fastforce)+
  qed
  then show ?case by simp
next
  case (Await c k)
  have "G h c \<and> wp R G (k a) s1 (h @ [(c, a)]) Q" if "R s s1" for a s1
  proof
    obtain l r t where "exec R (k a) s1 l r t" using exec_total [of R] refl by blast
    then show "G h c" using Await.prems [OF exec_Await [of R s s1 k, OF that]] by fastforce
    show "wp R G (k a) s1 (h @ [(c, a)]) Q"
      by (rule Await.IH) (use Await.prems exec_Await [of R s s1 k a] that in fastforce)+
  qed
  then show ?case using refl by fastforce
next
  case (Update u k)
  have "wp R G (k s) (u s) h Q" by (rule Update.IH) (use Update.prems exec_Update in fastforce)+
  then show ?case by simp
qed (use exec_Return exec_Throw in fastforce)+

end
