(* ===== verification/Handler_Support.thy ===== *)
theory Handler_Support
  imports Browser_Calls
begin

text \<open>
  What the handlers under \<open>chrome-extension/src/handlers/\<close> share: each file has its own copy of these
  functions, some with another text or flag, which is a parameter here. The browser answers calls with
  values of their documented types; an answer without the property that is read is \<open>undefined\<close> there.
\<close>

section \<open>Deadlines\<close>

text \<open>\<open>signal.aborted\<close> is answered with what aborted the signal: the timer or the request's own signal.\<close>

definition cancelled :: exn where
  "cancelled = protocolError CANCELLED [Txt ''Command was cancelled''] True Undefined"

definition abort_reason :: "jsval \<Rightarrow> jsval \<Rightarrow> exn" where
  "abort_reason timeoutMs v =
     (if v = jstr ''timeout''
      then protocolError TIMEOUT [Txt ''Command timed out after '', Val timeoutMs, Txt '' ms''] True Undefined
      else cancelled)"

definition throw_if_cancelled :: "jsval \<Rightarrow> ('s, unit) io" where
  "throw_if_cancelled timeoutMs =
     bind_io (ask ''signal.aborted'' []) (\<lambda>v. throw_when (truthy v) (abort_reason timeoutMs v))"

text \<open>\<open>withTimeout\<close>. \<open>Promise.race\<close> rejects as soon as the signal is aborted and leaves the operation running:
  \<open>race\<close> runs the operation and then asks whether the abort came before its end. The log has the remaining
  calls of such an operation before the clean-up.\<close>

definition deadline :: "jsval \<Rightarrow> ('s, 'a) io \<Rightarrow> ('s, 'a) io" where
  "deadline timeoutMs operation =
     bind_io (ask ''parentSignal.aborted'' []) (\<lambda>v.
     bind_io (throw_when (truthy v) cancelled) (\<lambda>_.
     bind_io (ask ''parentSignal.addEventListener'' [jstr ''abort'']) (\<lambda>_.
     bind_io (ask ''setTimeout'' [timeoutMs]) (\<lambda>_.
     finally_io operation
       (bind_io (ask ''clearTimeout'' []) (\<lambda>_. ask ''parentSignal.removeEventListener'' [jstr ''abort'']))))))"

definition race :: "jsval \<Rightarrow> ('s, 'a) io \<Rightarrow> ('s, 'a) io" where
  "race timeoutMs operation =
     bind_io (catch_io (bind_io operation (\<lambda>x. Return (Inr x))) (\<lambda>e. Return (Inl e))) (\<lambda>r.
     bind_io (ask ''aborted first'' []) (\<lambda>v. if truthy v then Throw (abort_reason timeoutMs v) else lift_res r))"

section \<open>Tabs, sites, documents\<close>

definition rejection :: "platform \<Rightarrow> ('s, 'a) io \<Rightarrow> ('s, 'a) io" where
  "rejection P m = catch_io m (\<lambda>e. Throw (mapChromeError P e))"

text \<open>\<open>tabs[0]\<close>.\<close>

definition first_elem :: "jsval \<Rightarrow> jsval" where
  "first_elem v = (case elems v of [] \<Rightarrow> Undefined | w # _ \<Rightarrow> w)"

definition resolve_tab :: "bool \<Rightarrow> jsval \<Rightarrow> ('s, jsval) io" where
  "resolve_tab retryable explicitTabId =
     (if is_integer explicitTabId
      then catch_io (await ''tabs.get'' [explicitTabId]) (\<lambda>_. Throw
        (protocolError TAB_NOT_FOUND [Txt ''Tab '', Val explicitTabId, Txt '' was not found''] retryable Undefined))
      else bind_io (await ''tabs.query'' [obj [(''active'', Bool True), (''lastFocusedWindow'', Bool True)]]) (\<lambda>tabs.
        if \<not> truthy (first_elem tabs)
        then Throw (protocolError TAB_NOT_FOUND [Txt ''No active tab was found''] retryable Undefined)
        else Return (first_elem tabs)))"

definition site_pattern :: "url \<Rightarrow> jsval" where
  "site_pattern u = Str (url_protocol u @ lit ''//'' @ url_hostname u @ lit ''/*'')"

definition web_protocol :: "url \<Rightarrow> bool" where
  "web_protocol u \<longleftrightarrow> url_protocol u = lit ''http:'' \<or> url_protocol u = lit ''https:''"

definition page_access :: "platform \<Rightarrow> string \<Rightarrow> jsval \<Rightarrow> ('s, url) io" where
  "page_access P message tab =
     (case parseURL P (getp tab ''url'') of
        None \<Rightarrow> Throw (fault RESTRICTED_URL [Txt ''The tab URL cannot be accessed''])
      | Some parsed \<Rightarrow>
          bind_io (throw_when (\<not> web_protocol parsed)
            (fault RESTRICTED_URL [Txt ''Cannot access '', Val (Str (url_protocol parsed)), Txt '' pages''])) (\<lambda>_.
          bind_io (await ''permissions.contains'' [obj [(''origins'', Arr [site_pattern parsed])]]) (\<lambda>granted.
          bind_io (throw_when (\<not> truthy granted) (protocolError PERMISSION_REQUIRED [Txt message] False
            (obj [(''origin'', Str (url_origin parsed))]))) (\<lambda>_. Return parsed))))"

definition site_message :: string where
  "site_message = ''Site access is required. Grant it from the extension popup.''"

definition root_document :: "platform \<Rightarrow> string \<Rightarrow> jsval \<Rightarrow> ('s, jsval) io" where
  "root_document P message tabId =
     bind_io (rejection P (await ''webNavigation.getFrame'' [obj [(''tabId'', tabId), (''frameId'', jnum 0)]])) (\<lambda>frame.
     if \<not> truthy (getp frame ''documentId'')
     then Throw (protocolError FRAME_NOT_FOUND [Txt message] True Undefined) else Return frame)"

definition resolve_document :: "platform \<Rightarrow> string \<Rightarrow> jsval \<Rightarrow> jsval \<Rightarrow> ('s, jsval) io" where
  "resolve_document P message request tabId =
     bind_io (root_document P message tabId) (\<lambda>frame.
     bind_io (if truthy (getp (getp request ''target'') ''documentId'')
       then lift_res (assertFreshDocument (getp (getp request ''target'') ''documentId'') (getp frame ''documentId''))
       else Return ()) (\<lambda>_. Return frame))"

text \<open>\<open>withSession\<close> of the CDP session manager.\<close>

definition with_session :: "jsval list \<Rightarrow> ('s, 'a) io \<Rightarrow> ('s, 'a) io" where
  "with_session args operation =
     bind_io (await ''cdpSessions.acquire'' args) (\<lambda>_. finally_io operation (await ''lease.release'' []))"

section \<open>Rules\<close>

text \<open>What a log shows: a call was answered with \<open>v\<close>, or with something truthy.\<close>

definition answered :: "log \<Rightarrow> call \<Rightarrow> jsval \<Rightarrow> bool" where
  "answered h c v \<longleftrightarrow> (c, Inr v) \<in> set h"

definition granted :: "log \<Rightarrow> call \<Rightarrow> bool" where
  "granted h c \<longleftrightarrow> (\<exists>v. truthy v \<and> answered h c v)"

lemma answered_snoc [simp]: "answered (h @ [x]) c v \<longleftrightarrow> x = (c, Inr v) \<or> answered h c v"
  by (auto simp: answered_def)

lemma granted_snoc [simp]: "granted (h @ [x]) c \<longleftrightarrow> (\<exists>v. truthy v \<and> x = (c, Inr v)) \<or> granted h c"
  by (auto simp: granted_def)

section \<open>Rules for code that throws only to stop\<close>

text \<open>\<open>safe R G m s h Q\<close>: every call of \<open>m\<close> satisfies \<open>G\<close>, and if \<open>m\<close> returns, \<open>Q\<close> holds.\<close>

definition safe :: "('s \<Rightarrow> 's \<Rightarrow> bool) \<Rightarrow> (log \<Rightarrow> call \<Rightarrow> bool) \<Rightarrow> ('s, 'a) io \<Rightarrow> 's \<Rightarrow> log \<Rightarrow> ('s \<Rightarrow> log \<Rightarrow> 'a \<Rightarrow> bool) \<Rightarrow> bool" where
  "safe R G m s h Q \<longleftrightarrow> wp R G m s h (\<lambda>s h r. case r of Inl _ \<Rightarrow> True | Inr x \<Rightarrow> Q s h x)"

named_theorems safe_intros \<open>rules for the parts of a handler\<close>

lemma safe_exec: "exec R m s l r t \<Longrightarrow> safe R G m s [] Q \<Longrightarrow> guarded G [] l \<and> (\<forall>x. r = Inr x \<longrightarrow> Q t l x)"
  unfolding safe_def using wp_sound [of R m s l r t G "[]"] by fastforce

lemma safe_mono: "safe R G m s h Q \<Longrightarrow> (\<And>s h x. Q s h x \<Longrightarrow> Q' s h x) \<Longrightarrow> safe R G m s h Q'"
  unfolding safe_def by (erule wp_mono) (auto split: sum.splits)

lemma safe_Return [safe_intros]: "Q s h x \<Longrightarrow> safe R G (Return x) s h Q"
  by (simp add: safe_def)

lemma safe_Throw [safe_intros]: "safe R G (Throw e) s h Q"
  by (simp add: safe_def)

lemma safe_lift [safe_intros]: "(\<And>x. r = Inr x \<Longrightarrow> Q s h x) \<Longrightarrow> safe R G (lift_res r) s h Q"
  by (auto simp: safe_def split: sum.split)

lemma safe_bind: "safe R G (bind_io m f) s h Q \<longleftrightarrow> safe R G m s h (\<lambda>s h x. safe R G (f x) s h Q)"
  unfolding safe_def wp_bind by (intro arg_cong [where f = "wp R G m s h"] ext) (simp split: sum.splits)

lemma safe_bindI [safe_intros]:
  "safe R G m s h (\<lambda>s h x. safe R G (f x) s h Q) \<Longrightarrow> safe R G (bind_io m f) s h Q"
  by (simp add: safe_bind)

lemma safe_Update [safe_intros]: "safe R G (k s) (u s) h Q \<Longrightarrow> safe R G (Update u k) s h Q"
  by (simp add: safe_def)

lemma safe_await [safe_intros]:
  "G h (Call c args) \<Longrightarrow> (\<And>t v. R s t \<Longrightarrow> Q t (h @ [(Call c args, Inr v)]) v) \<Longrightarrow> safe R G (await c args) s h Q"
  by (auto simp: safe_def split: sum.split)

lemma safe_ask [safe_intros]:
  "G h (Call c args) \<Longrightarrow> (\<And>v. Q s (h @ [(Call c args, Inr v)]) v) \<Longrightarrow> safe R G (ask c args) s h Q"
  by (simp add: safe_def)

lemma safe_throw_when [safe_intros]: "(\<not> b \<Longrightarrow> Q s h ()) \<Longrightarrow> safe R G (throw_when b e) s h Q"
  by (simp add: safe_def throw_when_def)

lemma safe_rejection [safe_intros]: "safe R G m s h Q \<Longrightarrow> safe R G (rejection P m) s h Q"
  unfolding safe_def rejection_def wp_catch by (erule wp_mono) (auto split: sum.splits)

lemma safe_If [safe_intros]:
  "(b \<Longrightarrow> safe R G m s h Q) \<Longrightarrow> (\<not> b \<Longrightarrow> safe R G n s h Q) \<Longrightarrow> safe R G (if b then m else n) s h Q"
  by simp

text \<open>What the support code calls is let through by the guard.\<close>

definition support_calls :: "string list" where
  "support_calls = [''signal.aborted'', ''parentSignal.aborted'', ''parentSignal.addEventListener'', ''setTimeout'', ''clearTimeout'',
     ''parentSignal.removeEventListener'', ''aborted first'', ''tabs.get'', ''tabs.query'', ''permissions.contains'',
     ''webNavigation.getFrame'', ''cdpSessions.acquire'', ''lease.release'']"

definition lets_support :: "(log \<Rightarrow> call \<Rightarrow> bool) \<Rightarrow> bool" where
  "lets_support G \<longleftrightarrow> (\<forall>h c. callee c \<in> set support_calls \<longrightarrow> G h c)"

lemma lets_supportD [simp]: "lets_support G \<Longrightarrow> name \<in> set support_calls \<Longrightarrow> G h (Call name args)"
  by (simp add: lets_support_def)

lemma support_names [simp]: "''signal.aborted'' \<in> set support_calls" "''parentSignal.aborted'' \<in> set support_calls"
  "''parentSignal.addEventListener'' \<in> set support_calls" "''setTimeout'' \<in> set support_calls" "''clearTimeout'' \<in> set support_calls"
  "''parentSignal.removeEventListener'' \<in> set support_calls" "''aborted first'' \<in> set support_calls"
  "''tabs.get'' \<in> set support_calls" "''tabs.query'' \<in> set support_calls" "''permissions.contains'' \<in> set support_calls"
  "''webNavigation.getFrame'' \<in> set support_calls" "''cdpSessions.acquire'' \<in> set support_calls" "''lease.release'' \<in> set support_calls"
  by (simp_all add: support_calls_def)

lemma safe_throw_if_cancelled [safe_intros]:
  "lets_support G \<Longrightarrow> (\<And>v. \<not> truthy v \<Longrightarrow> Q s (h @ [(Call ''signal.aborted'' [], Inr v)]) ())
   \<Longrightarrow> safe R G (throw_if_cancelled t) s h Q"
  unfolding throw_if_cancelled_def by (rule safe_bindI, rule safe_ask, simp, rule safe_throw_when, simp)

lemma safe_finally:
  assumes "safe R G m s h (\<lambda>s h x. wp R G f s h (\<lambda>s h q. case q of Inl _ \<Rightarrow> True | Inr _ \<Rightarrow> Q s h x))"
    and "\<And>s h. wp R G f s h (\<lambda>_ _ _. True)"
  shows "safe R G (finally_io m f) s h Q"
  using assms(1) unfolding safe_def wp_finally
  by (elim wp_mono) (use assms(2) in \<open>auto split: sum.splits elim!: wp_mono\<close>)

lemma safe_deadline [safe_intros]:
  assumes G: "lets_support G"
    and m: "\<And>h1 l. h1 = h @ l \<Longrightarrow> safe R G m s h1 (\<lambda>s h x. \<forall>v w. Q s (h @ [(Call ''clearTimeout'' [], Inr v),
      (Call ''parentSignal.removeEventListener'' [jstr ''abort''], Inr w)]) x)"
  shows "safe R G (deadline t m) s h Q"
  unfolding deadline_def
  apply (rule safe_bindI, rule safe_ask, simp add: G, rule safe_bindI, rule safe_throw_when)
  apply (rule safe_bindI, rule safe_ask, simp add: G, rule safe_bindI, rule safe_ask, simp add: G, rule safe_finally)
  using m by (simp_all add: G wp_bind)

lemma safe_race [safe_intros]:
  assumes G: "lets_support G"
    and m: "safe R G m s h (\<lambda>s h x. \<forall>v. \<not> truthy v \<longrightarrow> Q s (h @ [(Call ''aborted first'' [], Inr v)]) x)"
  shows "safe R G (race t m) s h Q"
  using m unfolding race_def safe_def wp_bind wp_catch
  by (elim wp_mono) (auto simp: G split: sum.splits)

lemma safe_with_session [safe_intros]:
  assumes G: "lets_support G"
    and m: "\<And>t v. R s t \<Longrightarrow> safe R G m t (h @ [(Call ''cdpSessions.acquire'' args, Inr v)])
      (\<lambda>s h x. \<forall>t w. R s t \<longrightarrow> Q t (h @ [(Call ''lease.release'' [], Inr w)]) x)"
  shows "safe R G (with_session args m) s h Q"
  unfolding with_session_def
  apply (rule safe_bindI, rule safe_await, simp add: G, rule safe_finally)
  by (rule safe_mono [OF m]) (auto simp: G split: sum.splits)

section \<open>Rules of the shared functions\<close>

text \<open>How a tab was found: by its number or as the active tab of the last focused window.\<close>

definition tab_call :: "jsval \<Rightarrow> call" where
  "tab_call tabId = (if is_integer tabId then Call ''tabs.get'' [tabId]
     else Call ''tabs.query'' [obj [(''active'', Bool True), (''lastFocusedWindow'', Bool True)]])"

definition tab_answer :: "jsval \<Rightarrow> jsval \<Rightarrow> jsval" where
  "tab_answer tabId v = (if is_integer tabId then v else first_elem v)"

definition site_call :: "url \<Rightarrow> call" where
  "site_call u = Call ''permissions.contains'' [obj [(''origins'', Arr [site_pattern u])]]"

definition frame_call :: "jsval \<Rightarrow> call" where
  "frame_call tabId = Call ''webNavigation.getFrame'' [obj [(''tabId'', tabId), (''frameId'', jnum 0)]]"

lemma safe_resolve_tab [safe_intros]:
  assumes "lets_support G"
    and "\<And>t v. R s t \<Longrightarrow> Q t (h @ [(tab_call tabId, Inr v)]) (tab_answer tabId v)"
  shows "safe R G (resolve_tab retryable tabId) s h Q"
  using assms unfolding safe_def resolve_tab_def
  by (auto simp: wp_catch wp_bind tab_call_def tab_answer_def split: sum.splits)

lemma safe_page_access [safe_intros]:
  assumes "lets_support G"
    and "\<And>u t v. R s t \<Longrightarrow> parseURL P (getp tab ''url'') = Some u \<Longrightarrow> web_protocol u \<Longrightarrow> truthy v \<Longrightarrow>
      Q t (h @ [(site_call u, Inr v)]) u"
  shows "safe R G (page_access P message tab) s h Q"
  using assms unfolding safe_def page_access_def
  by (auto simp: wp_bind site_call_def split: sum.splits option.split)

lemma safe_root_document [safe_intros]:
  assumes "lets_support G"
    and "\<And>t v. R s t \<Longrightarrow> truthy (getp v ''documentId'') \<Longrightarrow> Q t (h @ [(frame_call tabId, Inr v)]) v"
  shows "safe R G (root_document P message tabId) s h Q"
  using assms unfolding safe_def root_document_def
  by (auto simp: rejection_def wp_bind wp_catch frame_call_def split: sum.splits)

lemma safe_resolve_document [safe_intros]:
  assumes "lets_support G"
    and "\<And>t v. R s t \<Longrightarrow> truthy (getp v ''documentId'')
      \<Longrightarrow> (truthy (getp (getp request ''target'') ''documentId'')
         \<Longrightarrow> getp v ''documentId'' = getp (getp request ''target'') ''documentId'')
      \<Longrightarrow> Q t (h @ [(frame_call tabId, Inr v)]) v"
  shows "safe R G (resolve_document P message request tabId) s h Q"
  unfolding resolve_document_def
  apply (rule safe_bindI, rule safe_root_document [OF assms(1)], rule safe_bindI, rule safe_If)
   apply (rule safe_lift, rule safe_Return, rule assms(2), assumption, assumption)
   apply (auto simp: assertFreshDocument_def dest!: strict_eq_imp_eq split: if_splits intro!: safe_intros assms(2))
  done

lemma fresh_document: "assertFreshDocument e a = Inr x \<Longrightarrow> truthy e \<and> a = e"
  by (auto simp: assertFreshDocument_def dest: strict_eq_imp_eq split: if_splits)

section \<open>Runs of the shared functions\<close>

lemma exec_throw_if_cancelled: "exec R (throw_if_cancelled T) s [(Call ''signal.aborted'' [], Inr Undefined)] (Inr ()) s"
  unfolding throw_if_cancelled_def ask_def bind_io.simps by (rule exec_Ask) (simp add: throw_when_def exec_Return)

lemma exec_throw_when: "\<not> b \<Longrightarrow> exec R (throw_when b e) s [] (Inr ()) s"
  by (simp add: throw_when_def exec_Return)

lemma exec_lift: "exec R (lift_res (Inr x)) s [] (Inr x) s"
  by (simp add: lift_res_def exec_Return)

lemma exec_deadline:
  assumes "exec R m s l (Inr x) t"
  shows "exec R (deadline T m) s ([(Call ''parentSignal.aborted'' [], Inr Undefined), (Call ''parentSignal.addEventListener'' [jstr ''abort''], Inr Undefined),
      (Call ''setTimeout'' [T], Inr Undefined)] @ l
      @ [(Call ''clearTimeout'' [], Inr Undefined), (Call ''parentSignal.removeEventListener'' [jstr ''abort''], Inr Undefined)]) (Inr x) t"
proof -
  have "exec R (bind_io (ask ''clearTimeout'' []) (\<lambda>_. ask ''parentSignal.removeEventListener'' [jstr ''abort''])) t
      ([(Call ''clearTimeout'' [], Inr Undefined)] @ [(Call ''parentSignal.removeEventListener'' [jstr ''abort''], Inr Undefined)]) (Inr Undefined) t"
    by (rule exec_bind [OF exec_ask exec_ask])
  from exec_finally [OF assms this] show ?thesis
    by (simp add: deadline_def ask_def throw_when_def exec_Ask)
qed

end
