(* ===== verification/Raw_Cdp.thy ===== *)
theory Raw_Cdp
  imports Network_Read Handler_Support "HOL-Library.Multiset"
begin

text \<open>
  The handler of \<open>cdp.sendReadOnly\<close> (\<open>chrome-extension/src/handlers/raw-cdp.js\<close>): the check of its parameters,
  the shape of a result of each method, and the bounded, redacted copy of the result. A result comes
  from the browser as JSON and is a finite tree, so no object is met twice.
\<close>

section \<open>Methods and their parameters\<close>

definition MAX_DEPTH :: rat where "MAX_DEPTH = 20"
definition MAX_NODES :: rat where "MAX_NODES = 5000"
definition MAX_STRING_CHARS :: rat where "MAX_STRING_CHARS = 10000"
definition MIN_RESULT_BYTES :: rat where "MIN_RESULT_BYTES = 64 * 1024"
definition MAX_RESULT_BYTES :: rat where "MAX_RESULT_BYTES = 1000000"
definition MAX_KEY_CHARS :: nat where "MAX_KEY_CHARS = 256"

datatype shape = Ax | Node | Model | Layout | Metrics

record raw_method =
  mc_domain :: string
  mc_fields :: "string list"
  mc_shape :: shape

definition METHOD_CONFIG :: "(string \<times> raw_method) list" where
  "METHOD_CONFIG =
    [(''Accessibility.getFullAXTree'', \<lparr>mc_domain = ''Accessibility'', mc_fields = [''depth''], mc_shape = Ax\<rparr>),
     (''Accessibility.getPartialAXTree'',
       \<lparr>mc_domain = ''Accessibility'', mc_fields = [''backendNodeId'', ''fetchRelatives''], mc_shape = Ax\<rparr>),
     (''Accessibility.queryAXTree'',
       \<lparr>mc_domain = ''Accessibility'', mc_fields = [''backendNodeId'', ''accessibleName'', ''role''], mc_shape = Ax\<rparr>),
     (''DOM.describeNode'', \<lparr>mc_domain = ''DOM'', mc_fields = [''backendNodeId'', ''depth''], mc_shape = Node\<rparr>),
     (''DOM.getBoxModel'', \<lparr>mc_domain = ''DOM'', mc_fields = [''backendNodeId''], mc_shape = Model\<rparr>),
     (''Page.getLayoutMetrics'', \<lparr>mc_domain = ''Page'', mc_fields = [], mc_shape = Layout\<rparr>),
     (''Performance.getMetrics'', \<lparr>mc_domain = ''Performance'', mc_fields = [], mc_shape = Metrics\<rparr>)]"

definition DENIED_METHODS :: "string list" where
  "DENIED_METHODS = [''Browser.close'', ''DOM.setFileInputFiles'', ''Network.clearBrowserCache'', ''Network.clearBrowserCookies'',
     ''Network.setCookie'', ''Network.setCookies'', ''Page.addScriptToEvaluateOnNewDocument'', ''Runtime.callFunctionOn'',
     ''Runtime.evaluate'', ''Storage.clearDataForOrigin'']"

definition DENIED_DOMAINS :: "string list" where
  "DENIED_DOMAINS = [''Browser'', ''Fetch'', ''HeapProfiler'', ''IO'', ''Network'', ''Runtime'', ''Security'', ''Storage'',
     ''SystemInfo'', ''Target'']"

text \<open>A name that \<open>METHOD_CONFIG\<close> inherits from \<open>Object.prototype\<close> is a configuration without fields, whose first use
  throws a \<open>TypeError\<close>.\<close>

definition method_config :: "jsval \<Rightarrow> raw_method option" where
  "method_config v = map_of (map (\<lambda>(k, c). (jstr k, c)) METHOD_CONFIG) v"

definition validateMethod :: "jsval \<Rightarrow> raw_method res" where
  "validateMethod v =
     (if \<not> is_string v then Inl (fault INVALID_COMMAND [Txt ''The CDP method is not allowlisted''])
      else case method_config v of
        Some c \<Rightarrow> Inr c
      | None \<Rightarrow>
          if js_includes DENIED_METHODS v \<or> js_includes DENIED_DOMAINS (Str (takeWhile (\<lambda>u. u \<noteq> 0x2E) (str_of v)))
          then Inl (fault INVALID_COMMAND [Txt ''The CDP method is explicitly prohibited''])
          else Inl (fault INVALID_COMMAND [Txt ''The CDP method is not allowlisted'']))"

definition optionalInteger :: "jsval \<Rightarrow> string \<Rightarrow> rat \<Rightarrow> rat \<Rightarrow> unit res" where
  "optionalInteger v path minimum maximum = only_if (v \<noteq> Undefined) (requireInteger v minimum maximum path)"

definition optionalString :: "jsval \<Rightarrow> string \<Rightarrow> nat \<Rightarrow> unit res" where
  "optionalString v path maximum =
     throw_if (v \<noteq> Undefined \<and> (\<not> is_string v \<or> length (code_points (str_of v)) > maximum))
       (invalid (path @ '' exceeds its string limit''))"

text \<open>The \<open>switch\<close> of \<open>assertRawCDPParams\<close>.\<close>

definition method_checks :: "jsval \<Rightarrow> jsval \<Rightarrow> unit res" where
  "method_checks name inner =
     (let node = requireInteger (getp inner ''backendNodeId'') 1 MAX_SAFE_INTEGER ''params.params.backendNodeId''
      in if name = jstr ''Accessibility.getFullAXTree'' then
           optionalInteger (getp inner ''depth'') ''params.params.depth'' 0 50
         else if name = jstr ''Accessibility.getPartialAXTree'' then checks [
           node,
           throw_if (getp inner ''fetchRelatives'' \<noteq> Undefined \<and> \<not> is_boolean (getp inner ''fetchRelatives''))
             (invalid ''params.params.fetchRelatives must be a boolean'')]
         else if name = jstr ''Accessibility.queryAXTree'' then checks [
           node,
           optionalString (getp inner ''accessibleName'') ''params.params.accessibleName'' 500,
           optionalString (getp inner ''role'') ''params.params.role'' 100]
         else if name = jstr ''DOM.describeNode'' then checks [
           node,
           optionalInteger (getp inner ''depth'') ''params.params.depth'' 0 10]
         else if name = jstr ''DOM.getBoxModel'' then node
         else if name = jstr ''Page.getLayoutMetrics'' \<or> name = jstr ''Performance.getMetrics'' then ok
         else Inl (fault INVALID_COMMAND [Txt ''The CDP method is not allowlisted'']))"

text \<open>\<open>copyObject\<close> of the result is the same members.\<close>

definition assertRawCDPParams :: "jsval \<Rightarrow> jsval res" where
  "assertRawCDPParams params =
     (let name = getp params ''method'';
          inner = (if nullish (getp params ''params'') then Obj [] else getp params ''params'')
      in bind_res (checks [
           throw_if (\<not> isObject params) (invalid ''Raw CDP parameters must be an object''),
           throw_if (list_ex (\<lambda>key. key \<notin> set (map lit [''method'', ''params'', ''maxDepth'', ''maxNodes'', ''maxStringChars'',
                ''maxBytes''])) (object_keys params))
             (invalid ''Raw CDP parameters contain an unknown field'')]) (\<lambda>_.
         bind_res (validateMethod name) (\<lambda>config. bind_res (checks [
           throw_if (\<not> integerBetween (getp params ''maxDepth'') 1 MAX_DEPTH
               \<or> \<not> integerBetween (getp params ''maxNodes'') 2 MAX_NODES
               \<or> \<not> integerBetween (getp params ''maxStringChars'') 1 MAX_STRING_CHARS
               \<or> \<not> integerBetween (getp params ''maxBytes'') MIN_RESULT_BYTES MAX_RESULT_BYTES)
             (invalid ''Raw CDP limits are outside the supported bounds''),
           throw_if (\<not> isObject inner) (invalid ''params.params must be an object''),
           (case find (\<lambda>key. key \<notin> set (map lit (mc_fields config))) (object_keys inner) of
              None \<Rightarrow> ok
            | Some key \<Rightarrow> throw_if (key \<noteq> []) (fault INVALID_MESSAGE
                [Txt ''params.params.'', Val (Str key), Txt '' is not allowed for '', Val name])),
           method_checks name inner]) (\<lambda>_. Inr inner))))"

section \<open>Shapes\<close>

definition invalidResult :: exn where
  "invalidResult = invalid ''CDP returned an invalid read-only result''"

definition hasExactKeys :: "jsval \<Rightarrow> string list \<Rightarrow> bool" where
  "hasExactKeys v expected \<longleftrightarrow> length (object_keys v) = length expected
     \<and> list_all (\<lambda>key. lit key \<in> set (object_keys v)) expected"

definition LAYOUT_KEYS :: "string list" where
  "LAYOUT_KEYS = [''layoutViewport'', ''visualViewport'', ''contentSize'', ''cssLayoutViewport'', ''cssVisualViewport'',
     ''cssContentSize'']"

definition valid_metric :: "jsval \<Rightarrow> bool" where
  "valid_metric m \<longleftrightarrow> isObject m \<and> hasExactKeys m [''name'', ''value''] \<and> is_string (getp m ''name'')
     \<and> trim (str_of (getp m ''name'')) \<noteq> [] \<and> length (str_of (getp m ''name'')) \<le> 200 \<and> is_finite (getp m ''value'')"

definition result_shape :: "shape \<Rightarrow> jsval \<Rightarrow> bool" where
  "result_shape s v \<longleftrightarrow> isObject v \<and> (case s of
       Ax \<Rightarrow> hasExactKeys v [''nodes''] \<and> is_array (getp v ''nodes'')
     | Node \<Rightarrow> hasExactKeys v [''node''] \<and> isObject (getp v ''node'')
     | Model \<Rightarrow> hasExactKeys v [''model''] \<and> isObject (getp v ''model'')
     | Layout \<Rightarrow> object_keys v \<noteq> [] \<and> list_all (\<lambda>(key, w). key \<in> set (map lit LAYOUT_KEYS) \<and> isObject w) (members v)
     | Metrics \<Rightarrow> hasExactKeys v [''metrics''] \<and> is_array (getp v ''metrics'')
         \<and> length (elems (getp v ''metrics'')) \<le> 1000 \<and> list_all valid_metric (elems (getp v ''metrics'')))"

definition assertResultShape :: "jsval \<Rightarrow> jsval \<Rightarrow> unit res" where
  "assertResultShape name v =
     (case method_config name of None \<Rightarrow> Inl invalidResult | Some c \<Rightarrow> throw_if (\<not> result_shape (mc_shape c) v) invalidResult)"

section \<open>The bounded copy\<close>

record raw_limits =
  rl_maxDepth :: nat
  rl_maxNodes :: nat
  rl_maxStringChars :: nat

record raw_state =
  rs_visited :: nat
  rs_truncated :: bool
  rs_redacted :: bool

definition PROHIBITED_RESULT_KEYS :: "string list" where
  "PROHIBITED_RESULT_KEYS = [''executionContextId'', ''objectId'', ''scriptId'', ''stream'']"

definition rx_scheme :: rx where
  "rx_scheme = rx_seq [rx_lit ''http'', rx_opt (rx_lit ''s''), rx_lit ''://'']"

definition rx_identity_words :: rx where
  "rx_identity_words = rx_any [rx_lit ''password'', rx_lit ''passwd'', rx_lit ''passphrase'', rx_lit ''secret'', rx_lit ''token'',
     rx_lit ''credential'', rx_lit ''authorization'', rx_lit ''cookie'', rx_seq [rx_lit ''api'', rx_gap ''-_'', rx_lit ''key''],
     rx_seq [rx_lit ''access'', rx_gap ''-_'', rx_lit ''token''], rx_seq [rx_lit ''refresh'', rx_gap ''-_'', rx_lit ''token'']]"

definition string_replacements :: "(rx \<times> (jsstr \<Rightarrow> jsstr)) list" where
  "string_replacements =
    [(rx_seq [Group rx_scheme, rx_some (Cls (\<lambda>u. none_of ''/@:'' u \<and> \<not> is_space u)), rx_lit '':'',
        rx_some (Cls (\<lambda>u. none_of ''/@'' u \<and> \<not> is_space u)), rx_lit ''@''], \<lambda>g. g @ redacted @ lit ''@''),
     (rx_seq [Boundary, rx_lit ''bearer'', rx_some (Cls is_space), rx_some (Cls (\<lambda>u. is_alnum u \<or> one_of ''._~+/=-'' u))],
       \<lambda>_. lit ''Bearer '' @ redacted),
     (rx_seq [Boundary, Group (rx_seq [rx_opt (rx_lit ''proxy-''), rx_lit ''authorization'', Many (Cls is_space), rx_lit '':'',
          Many (Cls is_space)]), rx_opt (rx_any [rx_lit ''basic'', rx_lit ''bearer'']), Many (Cls is_space),
        rx_some (Cls (\<lambda>u. u \<noteq> 13 \<and> u \<noteq> 10 \<and> none_of '',;'' u))], \<lambda>g. g @ redacted),
     (rx_seq [Boundary, Group (rx_seq [rx_opt (rx_lit ''set-''), rx_lit ''cookie'', Many (Cls is_space), rx_lit '':'', Many (Cls is_space)]),
        rx_some (Cls (\<lambda>u. u \<noteq> 13 \<and> u \<noteq> 10))], \<lambda>g. g @ redacted),
     (rx_seq [Group (rx_seq [Cls (one_of ''?&#''), rx_identity_words, rx_lit ''='']), Many (Cls (\<lambda>u. none_of ''&#'' u \<and> \<not> is_space u))],
       \<lambda>g. g @ redacted),
     (rx_seq [Group (rx_seq [Boundary, rx_identity_words, Boundary, Many (Cls is_space), Cls (one_of '':=''), Many (Cls is_space)]),
        rx_some (Cls (\<lambda>u. none_of '',;&'' u \<and> \<not> is_space u))], \<lambda>g. g @ redacted)]"

definition redact_string :: "jsstr \<Rightarrow> jsstr \<times> bool" where
  "redact_string s = fold (\<lambda>(pattern, new) (result, changed).
     let replaced = rx_replace pattern new result in (replaced, changed \<or> replaced \<noteq> result)) string_replacements (s, False)"

definition normalizeString :: "raw_limits \<Rightarrow> jsstr \<Rightarrow> raw_state \<Rightarrow> jsstr \<times> raw_state" where
  "normalizeString L s st =
     (case redact_string s of (result, changed) \<Rightarrow>
        let st1 = (if changed then st\<lparr>rs_redacted := True\<rparr> else st)
        in if length (code_points result) > rl_maxStringChars L
           then (take_points (rl_maxStringChars L) result, st1\<lparr>rs_truncated := True\<rparr>) else (result, st1))"

text \<open>Names and values of attributes, alternating.\<close>

fun attribute_pairs :: "jsstr list \<Rightarrow> (jsstr \<times> jsstr) list" where
  "attribute_pairs (n # v # xs) = (n, v) # attribute_pairs xs"
| "attribute_pairs _ = []"

fun redact_attributes :: "(jsstr \<Rightarrow> bool) \<Rightarrow> jsstr list \<Rightarrow> jsstr list" where
  "redact_attributes secret (n # v # xs) = n # (if secret n then redacted else v) # redact_attributes secret xs"
| "redact_attributes secret xs = xs"

definition password_input :: "platform \<Rightarrow> jsstr list \<Rightarrow> bool" where
  "password_input P xs \<longleftrightarrow> list_ex (\<lambda>(n, v). toLocaleLowerCase P n = lit ''type'' \<and> toLocaleLowerCase P v = lit ''password'') (attribute_pairs xs)"

definition secret_attribute :: "platform \<Rightarrow> jsstr list \<Rightarrow> jsstr \<Rightarrow> bool" where
  "secret_attribute P xs n \<longleftrightarrow> rx_test SENSITIVE_NAME n \<or> (password_input P xs \<and> toLocaleLowerCase P n = lit ''value'')"

definition redactDOMAttributes :: "platform \<Rightarrow> jsval \<Rightarrow> raw_state \<Rightarrow> (jsval \<times> raw_state) res" where
  "redactDOMAttributes P v st =
     (let xs = map str_of (elems v)
      in if \<not> is_array v \<or> odd (length (elems v)) \<or> \<not> list_all is_string (elems v) then Inl invalidResult
         else Inr (Arr (map Str (redact_attributes (secret_attribute P xs) xs)),
           if list_ex (\<lambda>(n, _). secret_attribute P xs n) (attribute_pairs xs) then st\<lparr>rs_redacted := True\<rparr> else st))"

lemma redacted_size: "redactDOMAttributes P v st = Inr (w, st1) \<Longrightarrow> size w \<le> size v"
proof -
  assume r: "redactDOMAttributes P v st = Inr (w, st1)"
  then obtain vs where v: "v = Arr vs" "list_all is_string vs"
    and w: "w = Arr (map Str (redact_attributes (secret_attribute P (map str_of vs)) (map str_of vs)))"
    by (auto simp: redactDOMAttributes_def Let_def split: if_splits)
  have len: "length (redact_attributes f xs) = length xs" for f xs
    by (induction f xs rule: redact_attributes.induct) auto
  have "size_list size (map Str xs) = length xs" for xs :: "jsstr list"
    by (induction xs) auto
  moreover have "length vs \<le> size_list size vs" by (induction vs) auto
  ultimately show ?thesis by (simp add: v w len)
qed

lemma size_list_mset: "size_list f xs = sum_mset (image_mset f (mset xs)) + size (mset xs)"
  by (induction xs) auto

lemma size_sort_members: "size_list (size_prod (\<lambda>_. 0) size) (sort_key fst ps) = size_list (size_prod (\<lambda>_. 0) size) ps"
  by (simp only: size_list_mset mset_sort)

text \<open>\<open>normalizeJSONValue\<close>; \<open>None\<close> is \<open>OMITTED\<close>. The members of an object are visited in the order of their names.\<close>

function (sequential) norm_value :: "platform \<Rightarrow> raw_limits \<Rightarrow> jsval \<Rightarrow> nat \<Rightarrow> raw_state \<Rightarrow> (jsval option \<times> raw_state) res"
  and norm_items :: "platform \<Rightarrow> raw_limits \<Rightarrow> jsval list \<Rightarrow> nat \<Rightarrow> raw_state \<Rightarrow> (jsval list \<times> raw_state) res"
  and norm_members :: "platform \<Rightarrow> raw_limits \<Rightarrow> (jsstr \<times> jsval) list \<Rightarrow> nat \<Rightarrow> raw_state \<Rightarrow> ((jsstr \<times> jsval) list \<times> raw_state) res" where
  "norm_value P L v depth st =
     (if rs_visited st \<ge> rl_maxNodes L then Inr (None, st\<lparr>rs_truncated := True\<rparr>)
      else let st1 = st\<lparr>rs_visited := Suc (rs_visited st)\<rparr> in case v of
        Null \<Rightarrow> Inr (Some Null, st1)
      | Bool b \<Rightarrow> Inr (Some (Bool b), st1)
      | Num n \<Rightarrow> if is_finite (Num n) then Inr (Some (Num n), st1) else Inl invalidResult
      | Str s \<Rightarrow> (case normalizeString L s st1 of (t, st2) \<Rightarrow> Inr (Some (Str t), st2))
      | Undefined \<Rightarrow> Inl invalidResult
      | Arr vs \<Rightarrow>
          if depth \<ge> rl_maxDepth L then Inr (Some (Arr []), if vs \<noteq> [] then st1\<lparr>rs_truncated := True\<rparr> else st1)
          else bind_res (norm_items P L vs (Suc depth) st1) (\<lambda>(ws, st2). Inr (Some (Arr ws), st2))
      | Obj ps \<Rightarrow>
          if depth \<ge> rl_maxDepth L then Inr (Some (Obj []), if ps \<noteq> [] then st1\<lparr>rs_truncated := True\<rparr> else st1)
          else bind_res (norm_members P L (sort_key fst ps) (Suc depth) st1) (\<lambda>(qs, st2). Inr (Some (Obj qs), st2)))"
| "norm_items P L [] depth st = Inr ([], st)"
| "norm_items P L (v # vs) depth st =
     bind_res (norm_value P L v depth st) (\<lambda>(r, st1). case r of
       None \<Rightarrow> Inr ([], st1)
     | Some w \<Rightarrow> bind_res (norm_items P L vs depth st1) (\<lambda>(ws, st2). Inr (w # ws, st2)))"
| "norm_members P L [] depth st = Inr ([], st)"
| "norm_members P L ((key, v) # ps) depth st =
     (if length (code_points key) > MAX_KEY_CHARS then norm_members P L ps depth (st\<lparr>rs_truncated := True\<rparr>)
      else if js_includes PROHIBITED_RESULT_KEYS (Str key) then Inl invalidResult
      else bind_res (if key = lit ''attributes'' then redactDOMAttributes P v st else Inr (v, st)) (\<lambda>(source, st1).
        bind_res (norm_value P L source depth st1) (\<lambda>(r, st2). case r of
          None \<Rightarrow> Inr ([], st2)
        | Some w \<Rightarrow> bind_res (norm_members P L ps depth st2) (\<lambda>(qs, st3). Inr ((key, w) # qs, st3)))))"
  by pat_completeness auto
termination
proof (relation "measure (case_sum (\<lambda>(_, _, v, _, _). 2 * size v + 1) (case_sum (\<lambda>(_, _, vs, _, _). 2 * size_list size vs)
    (\<lambda>(_, _, ps, _, _). 2 * size_list (size_prod (\<lambda>_. 0) size) ps)))")
qed (auto simp: size_sort_members split: if_splits dest!: redacted_size)

declare norm_value.simps [simp del]

section \<open>The answer\<close>

definition normalizeTruncatedShape :: "jsval \<Rightarrow> jsval \<Rightarrow> raw_state \<Rightarrow> jsval \<times> raw_state" where
  "normalizeTruncatedShape name result st =
     (if name \<noteq> jstr ''Performance.getMetrics'' then (result, st)
      else let given = elems (getp result ''metrics''); metrics = filter valid_metric given
        in (Obj (assoc_set (lit ''metrics'') (Arr metrics) (members result)),
            if length metrics \<noteq> length given then st\<lparr>rs_truncated := True\<rparr> else st))"

fun countJSONNodes :: "jsval \<Rightarrow> nat" where
  "countJSONNodes (Arr vs) = 1 + sum_list (map countJSONNodes vs)"
| "countJSONNodes (Obj ps) = 1 + sum_list (map (\<lambda>(_, v). countJSONNodes v) ps)"
| "countJSONNodes _ = 1"

definition ensureResultBytes :: "platform \<Rightarrow> jsval \<Rightarrow> int \<Rightarrow> unit res" where
  "ensureResultBytes P result maxBytes =
     throw_if (int (jsonByteLength P result) > maxBytes) (fault PAYLOAD_TOO_LARGE
       [Txt ''The normalized raw CDP result exceeds '', Val (jnum (of_int maxBytes)), Txt '' bytes''])"

definition raw_warnings :: "raw_state \<Rightarrow> jsval list" where
  "raw_warnings st =
     (if rs_truncated st then [jstr ''CDP result was truncated to the configured depth, node, string, or key limits''] else [])
   @ (if rs_redacted st then [jstr ''Sensitive CDP result values were redacted by the extension''] else [])"

text \<open>\<open>sendReadOnly\<close> after the browser has answered: the checks, the copy, the result.\<close>

definition raw_answer :: "platform \<Rightarrow> jsval \<Rightarrow> jsval \<Rightarrow> jsval \<Rightarrow> jsval \<Rightarrow> jsval res" where
  "raw_answer P params tabId documentId rawResult =
     (let name = getp params ''method'';
          L = \<lparr>rl_maxDepth = natural (getp params ''maxDepth''), rl_maxNodes = natural (getp params ''maxNodes''),
               rl_maxStringChars = natural (getp params ''maxStringChars'')\<rparr>
      in bind_res (assertResultShape name rawResult) (\<lambda>_.
         bind_res (norm_value P L rawResult 0 \<lparr>rs_visited = 0, rs_truncated = False, rs_redacted = False\<rparr>) (\<lambda>(copy, st).
         case copy of None \<Rightarrow> Inl invalidResult | Some copied \<Rightarrow>
           let (normalized, st1) = normalizeTruncatedShape name copied st; nodeCount = countJSONNodes normalized
           in bind_res (assertResultShape name normalized) (\<lambda>_.
              if nodeCount < 1 \<or> nodeCount > rl_maxNodes L then Inl invalidResult
              else let result = obj [(''method'', name), (''tabId'', tabId), (''documentId'', documentId), (''result'', normalized),
                     (''truncated'', Bool (rs_truncated st1)), (''nodeCount'', jnum (of_nat nodeCount)),
                     (''warnings'', Arr (raw_warnings st1))]
                in bind_res (ensureResultBytes P result (integer (getp params ''maxBytes''))) (\<lambda>_. Inr result)))))"

section \<open>The command\<close>

definition DEFAULT_TIMEOUT_MS :: rat where "DEFAULT_TIMEOUT_MS = 10000"
definition MAX_TIMEOUT_MS :: rat where "MAX_TIMEOUT_MS = 30000"

definition resolveTab :: "jsval \<Rightarrow> ('s, jsval) io" where
  "resolveTab = resolve_tab False"

definition assertPageAccess :: "platform \<Rightarrow> jsval \<Rightarrow> ('s, url) io" where
  "assertPageAccess P = page_access P site_message"

definition currentRootDocument :: "platform \<Rightarrow> jsval \<Rightarrow> ('s, jsval) io" where
  "currentRootDocument P = root_document P ''The target document is unavailable''"

definition resolveRootDocument :: "platform \<Rightarrow> jsval \<Rightarrow> jsval \<Rightarrow> ('s, jsval) io" where
  "resolveRootDocument P = resolve_document P ''The target document is unavailable''"

definition recheckTarget :: "platform \<Rightarrow> jsval \<Rightarrow> jsval \<Rightarrow> ('s, unit) io" where
  "recheckTarget P tabId documentId =
     bind_io (resolveTab tabId) (\<lambda>tab.
     bind_io (assertPageAccess P tab) (\<lambda>_.
     bind_io (currentRootDocument P tabId) (\<lambda>document.
     lift_res (assertFreshDocument documentId (getp document ''documentId'')))))"

definition debugger_permission :: call where
  "debugger_permission = Call ''permissions.contains'' [obj [(''permissions'', Arr [jstr ''debugger''])]]"

text \<open>The options of \<open>withSession\<close> without the signal; the state counts the commands sent.\<close>

definition raw_consumer :: "platform \<Rightarrow> jsval \<Rightarrow> nat \<Rightarrow> jsval" where
  "raw_consumer P request sequence =
     (let name = getp (getp request ''params'') ''method'';
          label = string_of P (js_or (getp request ''requestId'') (jnum (of_nat sequence)))
      in obj [(''consumerId'', Str (lit ''raw-cdp:'' @ take 100 label)),
           (''domains'', Arr [case method_config name of None \<Rightarrow> Undefined | Some c \<Rightarrow> jstr (mc_domain c)]),
           (''commands'', Arr [name])])"

definition read_only :: "platform \<Rightarrow> bool \<Rightarrow> jsval \<Rightarrow> jsval \<Rightarrow> jsval \<Rightarrow> (nat, jsval) io" where
  "read_only P managed request methodParams timeoutMs =
     (let params = getp request ''params'' in
     bind_io (throw_when (\<not> managed) (fault CAPABILITY_UNAVAILABLE [Txt ''Managed CDP sessions are unavailable''])) (\<lambda>_.
     bind_io (resolveTab (getp (getp request ''target'') ''tabId'')) (\<lambda>tab.
     bind_io (assertPageAccess P tab) (\<lambda>_.
     bind_io (await (callee debugger_permission) (arguments debugger_permission)) (\<lambda>debuggerGranted.
     bind_io (throw_when (\<not> truthy debuggerGranted) (fault PERMISSION_REQUIRED
       [Txt ''Debug permission is required. Grant it from the extension settings page.''])) (\<lambda>_.
     bind_io (resolveRootDocument P request (getp tab ''id'')) (\<lambda>document.
     bind_io (throw_if_cancelled timeoutMs) (\<lambda>_.
     bind_io (Update Suc (\<lambda>n. Return (Suc n))) (\<lambda>sequence.
     bind_io (with_session [obj [(''tabId'', getp tab ''id'')], raw_consumer P request sequence]
       (bind_io (recheckTarget P (getp tab ''id'') (getp document ''documentId'')) (\<lambda>_.
        bind_io (await ''lease.sendCommand'' [getp params ''method'', methodParams]) (\<lambda>sent.
        bind_io (recheckTarget P (getp tab ''id'') (getp document ''documentId'')) (\<lambda>_. Return sent))))) (\<lambda>rawResult.
     lift_res (raw_answer P params (getp tab ''id'') (getp document ''documentId'') rawResult)))))))))))"

definition sendReadOnly :: "platform \<Rightarrow> bool \<Rightarrow> jsval \<Rightarrow> (nat, jsval) io" where
  "sendReadOnly P managed request =
     bind_io (lift_res (assertRawCDPParams (getp request ''params''))) (\<lambda>methodParams.
     let timeoutMs = js_or (getp request ''timeoutMs'') (jnum DEFAULT_TIMEOUT_MS) in
     bind_io (throw_when (\<not> integerBetween timeoutMs 1 MAX_TIMEOUT_MS)
       (fault INVALID_MESSAGE [Txt ''Raw CDP timeout must be between 1 and '', Val (jnum MAX_TIMEOUT_MS), Txt '' ms''])) (\<lambda>_.
     deadline timeoutMs (read_only P managed request methodParams timeoutMs)))"

section \<open>The copy is bounded\<close>

text \<open>Within the limits, at a depth.\<close>

fun bounded_value :: "raw_limits \<Rightarrow> nat \<Rightarrow> jsval \<Rightarrow> bool" where
  "bounded_value L d (Str s) \<longleftrightarrow> length (code_points s) \<le> rl_maxStringChars L"
| "bounded_value L d (Arr vs) \<longleftrightarrow> (vs = [] \<or> d < rl_maxDepth L) \<and> list_all (bounded_value L (Suc d)) vs"
| "bounded_value L d (Obj ps) \<longleftrightarrow> (ps = [] \<or> d < rl_maxDepth L)
     \<and> list_all (\<lambda>(k, v). length (code_points k) \<le> 256 \<and> \<not> js_includes PROHIBITED_RESULT_KEYS (Str k) \<and> bounded_value L (Suc d) v) ps"
| "bounded_value L d (Num n) \<longleftrightarrow> is_finite (Num n)"
| "bounded_value L d Undefined \<longleftrightarrow> False"
| "bounded_value L d _ \<longleftrightarrow> True"

lemma code_points_Cons: "length (code_points s) \<le> length (code_points (a # s)) \<and> length (code_points (a # s)) \<le> Suc (length (code_points s))"
proof (induction s arbitrary: a)
  case (Cons b t)
  from Cons.IH [of b] show ?case by simp
qed simp

lemma take_points_length: "length (code_points (take_points n s)) \<le> n"
proof (induction n s rule: take_points.induct)
  case (1 n u v s)
  show ?case
  proof (cases n)
    case (Suc m)
    show ?thesis
    proof (cases "is_high_surrogate u \<and> is_low_surrogate v")
      case True
      with 1 Suc show ?thesis by simp
    next
      case False
      then have IH: "length (code_points (take_points m (v # s))) \<le> m" using 1 Suc by simp
      have "take_points n (u # v # s) = u # take_points m (v # s)"
        unfolding Suc take_points.simps by (simp only: nat.case if_not_P [OF False])
      then show ?thesis using IH Suc code_points_Cons [where a = u] by (metis Suc_le_mono le_trans)
    qed
  qed simp
qed auto

lemma normalizeString_spec:
  "normalizeString L s st = (t, st1) \<Longrightarrow> length (code_points t) \<le> rl_maxStringChars L \<and> rs_visited st1 = rs_visited st"
  by (auto simp: normalizeString_def Let_def take_points_length split: prod.splits if_splits)

lemma redactDOMAttributes_visited: "redactDOMAttributes P v st = Inr (w, st1) \<Longrightarrow> rs_visited st1 = rs_visited st"
  by (auto simp: redactDOMAttributes_def Let_def split: if_splits)

lemma norm_spec:
  "norm_value P L v d st = Inr (r, st1) \<Longrightarrow> rs_visited st \<le> rl_maxNodes L \<Longrightarrow> rs_visited st1 \<le> rl_maxNodes L
    \<and> rs_visited st \<le> rs_visited st1 \<and> (\<forall>w. r = Some w \<longrightarrow> bounded_value L d w \<and> rs_visited st + countJSONNodes w \<le> rs_visited st1)"
  "norm_items P L vs d st = Inr (ws, st1) \<Longrightarrow> rs_visited st \<le> rl_maxNodes L \<Longrightarrow> rs_visited st1 \<le> rl_maxNodes L
    \<and> list_all (bounded_value L d) ws \<and> rs_visited st + sum_list (map countJSONNodes ws) \<le> rs_visited st1"
  "norm_members P L ps d st = Inr (qs, st1) \<Longrightarrow> rs_visited st \<le> rl_maxNodes L \<Longrightarrow> rs_visited st1 \<le> rl_maxNodes L
    \<and> list_all (\<lambda>(k, v). length (code_points k) \<le> 256 \<and> \<not> js_includes PROHIBITED_RESULT_KEYS (Str k) \<and> bounded_value L d v) qs
    \<and> rs_visited st + sum_list (map (\<lambda>(_, v). countJSONNodes v) qs) \<le> rs_visited st1 \<and> set (map fst qs) \<subseteq> set (map fst ps)"
proof (induction P L v d st and P L vs d st and P L ps d st arbitrary: r st1 and ws st1 and qs st1
    rule: norm_value_norm_items_norm_members.induct)
  case (1 P L v d st)
  show ?case
  proof (cases "rs_visited st \<ge> rl_maxNodes L")
    case True
    then show ?thesis using "1.prems" by (subst (asm) norm_value.simps) auto
  next
    case False
    let ?st = "st\<lparr>rs_visited := Suc (rs_visited st)\<rparr>"
    show ?thesis
    proof (cases v)
      case (Str s)
      then show ?thesis using "1.prems" False
        by (subst (asm) norm_value.simps) (auto simp: Let_def dest!: normalizeString_spec split: prod.splits)
    next
      case (Arr vs)
      show ?thesis
      proof (cases "d \<ge> rl_maxDepth L")
        case True
        then show ?thesis using "1.prems" False Arr by (subst (asm) norm_value.simps) (auto simp: Let_def)
      next
        case deep: False
        obtain ws st2 where n: "norm_items P L vs (Suc d) ?st = Inr (ws, st2)" "r = Some (Arr ws)" "st1 = st2"
          using "1.prems"(1) False deep Arr by (subst (asm) norm_value.simps) (auto simp: Let_def bind_res_Inr)
        from "1.IH"(1) [OF False refl Arr deep n(1)] False n deep show ?thesis by simp
      qed
    next
      case (Obj ps)
      show ?thesis
      proof (cases "d \<ge> rl_maxDepth L")
        case True
        then show ?thesis using "1.prems" False Obj by (subst (asm) norm_value.simps) (auto simp: Let_def)
      next
        case deep: False
        obtain qs st2 where n: "norm_members P L (sort_key fst ps) (Suc d) ?st = Inr (qs, st2)" "r = Some (Obj qs)" "st1 = st2"
          using "1.prems"(1) False deep Obj by (subst (asm) norm_value.simps) (auto simp: Let_def bind_res_Inr)
        from "1.IH"(2) [OF False refl Obj deep n(1)] False n deep show ?thesis by simp
      qed
    qed (use "1.prems" False in \<open>(subst (asm) norm_value.simps, auto simp: Let_def split: if_splits)+\<close>)
  qed
next
  case (3 P L v vs d st)
  obtain r st2 where v: "norm_value P L v d st = Inr (r, st2)"
    using "3.prems"(1) by (auto simp: bind_res_Inr)
  note IH = "3.IH"(1) [OF v "3.prems"(2)]
  show ?case
  proof (cases r)
    case None
    then show ?thesis using "3.prems" v IH by simp
  next
    case (Some w)
    obtain us st3 where u: "norm_items P L vs d st2 = Inr (us, st3)" "ws = w # us" "st1 = st3"
      using "3.prems"(1) v Some by (auto simp: bind_res_Inr)
    from "3.IH"(2) [OF v refl Some u(1)] IH u Some show ?thesis by simp
  qed
next
  case (5 P L key v ps d st)
  show ?case
  proof (cases "length (code_points key) > MAX_KEY_CHARS")
    case True
    with "5.prems" "5.IH"(1) [OF True] show ?thesis by auto
  next
    case short: False
    then have allowed: "\<not> js_includes PROHIBITED_RESULT_KEYS (Str key)" using "5.prems"(1) by (auto split: if_splits)
    obtain source st2 where s: "(if key = lit ''attributes'' then redactDOMAttributes P v st else Inr (v, st)) = Inr (source, st2)"
      using "5.prems"(1) short allowed by (auto simp: bind_res_Inr split: if_splits)
    then have vis: "rs_visited st2 = rs_visited st" by (auto simp: redactDOMAttributes_visited split: if_splits)
    obtain r st3 where v: "norm_value P L source d st2 = Inr (r, st3)"
      using "5.prems"(1) short allowed s by (auto simp: bind_res_Inr)
    note IH = "5.IH"(2) [OF short allowed s refl v]
    show ?thesis
    proof (cases r)
      case None
      then show ?thesis using "5.prems" v IH s short allowed vis by simp
    next
      case (Some w)
      obtain us st4 where u: "norm_members P L ps d st3 = Inr (us, st4)" "qs = (key, w) # us" "st1 = st4"
        using "5.prems"(1) v Some s short allowed by (auto simp: bind_res_Inr)
      from "5.IH"(3) [OF short allowed s refl v refl Some u(1)] IH u Some vis short allowed "5.prems"(2) show ?thesis
        by (auto simp: MAX_KEY_CHARS_def)
    qed
  qed
qed (use not_less in auto)

section \<open>What is sent\<close>

text \<open>The last three calls show the document in the tab: the tab, permission for its site, its root document.\<close>

definition shows_document :: "platform \<Rightarrow> log \<Rightarrow> jsval \<Rightarrow> jsval \<Rightarrow> bool" where
  "shows_document P l tabId documentId \<longleftrightarrow> (\<exists>l0 v u g frame.
     l = l0 @ [(tab_call tabId, Inr v), (site_call u, Inr g), (frame_call tabId, Inr frame)]
     \<and> parseURL P (getp (tab_answer tabId v) ''url'') = Some u \<and> web_protocol u \<and> truthy g
     \<and> truthy documentId \<and> getp frame ''documentId'' = documentId)"

definition raw_command_allowed :: "platform \<Rightarrow> jsval \<Rightarrow> log \<Rightarrow> call \<Rightarrow> bool" where
  "raw_command_allowed P request l c \<longleftrightarrow> (callee c = ''lease.sendCommand'' \<longrightarrow>
     (\<exists>inner tabId documentId config. assertRawCDPParams (getp request ''params'') = Inr inner
        \<and> method_config (getp (getp request ''params'') ''method'') = Some config
        \<and> arguments c = [getp (getp request ''params'') ''method'', inner]
        \<and> granted l debugger_permission \<and> shows_document P l tabId documentId
        \<and> (truthy (getp (getp request ''target'') ''documentId'') \<longrightarrow> documentId = getp (getp request ''target'') ''documentId'')))"

lemma raw_allows_support [simp]: "lets_support (raw_command_allowed P request)"
  by (auto simp: lets_support_def raw_command_allowed_def support_calls_def)

lemma safe_recheckTarget [safe_intros]:
  assumes G: "lets_support G"
    and Q: "\<And>t h' l. h' = h @ l \<Longrightarrow> shows_document P h' tabId documentId \<Longrightarrow> Q t h' ()"
  shows "safe R G (recheckTarget P tabId documentId) s h Q"
  unfolding recheckTarget_def resolveTab_def assertPageAccess_def currentRootDocument_def
proof (intro safe_intros G)
  fix s1 v s2 u g s3 frame and x :: unit
  assume u: "parseURL P (getp (tab_answer tabId v) ''url'') = Some u" "web_protocol u" "truthy g"
    and f: "assertFreshDocument documentId (getp frame ''documentId'') = Inr x"
  have "shows_document P (((h @ [(tab_call tabId, Inr v)]) @ [(site_call u, Inr g)]) @ [(frame_call tabId, Inr frame)]) tabId documentId"
    unfolding shows_document_def using u f
    by (intro exI [of _ h] exI [of _ v] exI [of _ u] exI [of _ g] exI [of _ frame])
      (auto simp: assertFreshDocument_def dest: strict_eq_imp_eq split: if_splits)
  then show "Q s3 (((h @ [(tab_call tabId, Inr v)]) @ [(site_call u, Inr g)]) @ [(frame_call tabId, Inr frame)]) x"
    by (simp add: Q)
qed

lemma raw_params_method:
  "assertRawCDPParams params = Inr inner \<Longrightarrow> \<exists>config. method_config (getp params ''method'') = Some config"
  by (auto simp: assertRawCDPParams_def validateMethod_def Let_def bind_res_Inr split: if_splits option.splits)

lemma safe_read_only:
  assumes inner: "assertRawCDPParams (getp request ''params'') = Inr inner"
    and Q: "\<And>t l h' tabId documentId sent res v. h' = l @ [(Call ''lease.release'' [], Inr v)]
      \<Longrightarrow> shows_document P l tabId documentId \<Longrightarrow> raw_answer P (getp request ''params'') tabId documentId sent = Inr res
      \<Longrightarrow> (Call ''lease.sendCommand'' [getp (getp request ''params'') ''method'', inner], Inr sent) \<in> set l \<Longrightarrow> Q t h' res"
  shows "safe R (raw_command_allowed P request) (read_only P managed request inner timeoutMs) s h Q"
  unfolding read_only_def Let_def resolveTab_def assertPageAccess_def currentRootDocument_def resolveRootDocument_def
proof (intro safe_intros raw_allows_support, goal_cases)
  case 1
  then show ?case by (simp add: raw_command_allowed_def debugger_permission_def)
next
  case (2 t v u ta va tb vb tc vc vd td ve te h' l)
  obtain config where config: "method_config (getp (getp request ''params'') ''method'') = Some config"
    using raw_params_method [OF inner] by auto
  have "(debugger_permission, Inr vb) \<in> set h'" using 2 by (simp add: debugger_permission_def)
  then have "granted h' debugger_permission" using 2 unfolding granted_def answered_def by blast
  then show ?case using inner config 2 unfolding raw_command_allowed_def
    by (metis call.sel(2))
next
  case 3
  then show ?case using inner
    by (auto intro!: safe_intros Q)
qed

section \<open>Secret attributes leave no trace\<close>

text \<open>Two lists of attributes that differ in the values of secret ones only.\<close>

definition same_attributes :: "platform \<Rightarrow> jsstr list \<Rightarrow> jsstr list \<Rightarrow> bool" where
  "same_attributes P xs ys \<longleftrightarrow> length xs = length ys \<and> password_input P xs = password_input P ys
     \<and> list_all2 (\<lambda>(n, v) (m, w). n = m \<and> (v = w \<or> secret_attribute P xs n)) (attribute_pairs xs) (attribute_pairs ys)"

inductive same_public :: "platform \<Rightarrow> jsval \<Rightarrow> jsval \<Rightarrow> bool" for P :: platform where
  same_public_refl: "same_public P v v"
| same_public_Arr: "list_all2 (same_public P) vs ws \<Longrightarrow> same_public P (Arr vs) (Arr ws)"
| same_public_Obj: "list_all2 (\<lambda>p q. fst p = fst q \<and> (same_public P (snd p) (snd q)
       \<or> (fst p = lit ''attributes'' \<and> (\<exists>xs ys. snd p = Arr (map Str xs) \<and> snd q = Arr (map Str ys) \<and> same_attributes P xs ys)))) ps qs
     \<Longrightarrow> same_public P (Obj ps) (Obj qs)"
monos list_all2_mono

inductive_cases same_public_ArrE: "same_public P (Arr vs) w"
inductive_cases same_public_ObjE: "same_public P (Obj ps) w"
inductive_simps same_public_leaf: "same_public P Null w" "same_public P (Bool b) w" "same_public P (Num n) w"
  "same_public P (Str s) w" "same_public P Undefined w"

abbreviation same_member :: "platform \<Rightarrow> jsstr \<times> jsval \<Rightarrow> jsstr \<times> jsval \<Rightarrow> bool" where
  "same_member P p q \<equiv> fst p = fst q \<and> (same_public P (snd p) (snd q)
       \<or> (fst p = lit ''attributes'' \<and> (\<exists>xs ys. snd p = Arr (map Str xs) \<and> snd q = Arr (map Str ys) \<and> same_attributes P xs ys)))"

lemma redact_same:
  "even (length xs) \<Longrightarrow> length xs = length ys
   \<Longrightarrow> list_all2 (\<lambda>(n, v) (m, w). n = m \<and> (v = w \<or> secret n)) (attribute_pairs xs) (attribute_pairs ys)
   \<Longrightarrow> redact_attributes secret xs = redact_attributes secret ys"
proof (induction xs arbitrary: ys rule: attribute_pairs.induct)
  case (1 n v xs)
  then obtain m w zs where "ys = m # w # zs" by (cases ys rule: attribute_pairs.cases) auto
  then show ?case using 1 by auto
qed auto

lemma redactDOM_same:
  assumes "same_attributes P xs ys"
  shows "redactDOMAttributes P (Arr (map Str xs)) st = redactDOMAttributes P (Arr (map Str ys)) st"
proof -
  have str: "map (str_of \<circ> Str) zs = zs" for zs by (induction zs) auto
  have secret: "secret_attribute P xs = secret_attribute P ys"
    using assms by (auto simp: same_attributes_def secret_attribute_def)
  have names: "list_ex (\<lambda>(n, _). f n) ps = list_ex (\<lambda>(n, _). f n) qs"
    if "list_all2 (\<lambda>(n, v) (m, w). n = m \<and> (v = w \<or> g n)) ps qs" for f g and ps qs :: "(jsstr \<times> jsstr) list"
    using that by (induction ps qs rule: list_all2_induct) auto
  have all: "list_all is_string (map Str zs)" for zs by (induction zs) auto
  show ?thesis using assms redact_same [of xs ys "secret_attribute P ys"] names [of _ "attribute_pairs xs" "attribute_pairs ys"]
    by (auto simp: redactDOMAttributes_def Let_def same_attributes_def str secret all)
qed

lemma sort_key_map: "sort_key f (map g xs) = map g (sort_key (f \<circ> g) xs)"
proof -
  have "insort_key f (g x) (map g ys) = map g (insort_key (f \<circ> g) x ys)" for x ys
    by (induction ys) auto
  then show ?thesis by (induction xs) auto
qed

lemma insort_same_key: "\<forall>z\<in>set (z # ys). f z = g z \<Longrightarrow> insort_key f z ys = insort_key g z ys"
  by (induction ys) auto

lemma list_all2_sort:
  assumes "list_all2 (\<lambda>p q. fst p = fst q \<and> S p q) ps qs"
  shows "list_all2 (\<lambda>p q. fst p = fst q \<and> S p q) (sort_key fst ps) (sort_key fst qs)"
proof -
  define zs where "zs = zip ps qs"
  have ps: "ps = map fst zs" "qs = map snd zs" using assms by (auto simp: zs_def list_all2_lengthD)
  have all: "\<forall>z\<in>set zs. fst (fst z) = fst (snd z) \<and> S (fst z) (snd z)"
    using assms by (auto simp: zs_def list_all2_iff)
  have "sort_key (fst \<circ> snd) zs = sort_key (fst \<circ> fst) zs" using all
    by (induction zs) (auto simp: insort_same_key)
  then show ?thesis using all unfolding ps sort_key_map
    by (auto simp: list_all2_map1 list_all2_map2 list_all2_same)
qed

lemma all_same:
  "list_all2 S vs ws \<Longrightarrow> (\<And>x y. S x y \<Longrightarrow> f x = f y \<and> (f x \<longrightarrow> x = y))
   \<Longrightarrow> list_all f vs = list_all f ws \<and> (list_all f vs \<longrightarrow> vs = ws)"
proof (induction rule: list_all2_induct)
  case (Cons x xs y ys)
  have "f x = f y \<and> (f x \<longrightarrow> x = y)" by (rule Cons.prems [OF Cons.hyps(1)])
  moreover have "list_all f xs = list_all f ys \<and> (list_all f xs \<longrightarrow> xs = ys)" by (rule Cons.IH [OF Cons.prems])
  ultimately show ?case unfolding list.pred_inject(2) list.inject by blast
qed simp

lemma redactDOM_public:
  assumes "same_public P v w"
  shows "redactDOMAttributes P v st = redactDOMAttributes P w st"
proof (cases v)
  case (Arr vs)
  with assms consider "w = v" | ws where "w = Arr ws" "list_all2 (same_public P) vs ws"
    by (auto elim: same_public_ArrE)
  then show ?thesis
  proof cases
    case 2
    have strings: "is_string x = is_string y \<and> (is_string x \<longrightarrow> x = y)" if "same_public P x y" for x y
      using that by (cases rule: same_public.cases) auto
    have same: "list_all is_string vs = list_all is_string ws \<and> (list_all is_string vs \<longrightarrow> vs = ws)"
      by (rule all_same [OF 2(2) strings])
    show ?thesis
    proof (cases "list_all is_string vs")
      case True
      then show ?thesis using same 2 Arr by simp
    next
      case False
      then have "\<not> list_all is_string ws" using same by simp
      with False show ?thesis using 2 Arr by (simp add: redactDOMAttributes_def del: kind_simps)
    qed
  qed simp
next
  case (Obj ps)
  with assms show ?thesis by (auto elim!: same_public_ObjE simp: redactDOMAttributes_def)
qed (use assms in \<open>auto simp: same_public_leaf\<close>)

lemma norm_same:
  "same_public P v w \<Longrightarrow> norm_value P L v d st = norm_value P L w d st"
  "list_all2 (same_public P) vs ws \<Longrightarrow> norm_items P L vs d st = norm_items P L ws d st"
  "list_all2 (same_member P) ps qs \<Longrightarrow> norm_members P L ps d st = norm_members P L qs d st"
proof (induction P L v d st and P L vs d st and P L ps d st arbitrary: w and ws and qs
    rule: norm_value_norm_items_norm_members.induct)
  case (1 P L v d st)
  show ?case
  proof (cases v)
    case (Arr vs)
    with "1.prems" consider "w = v" | ws where "w = Arr ws" "list_all2 (same_public P) vs ws"
      by (auto elim: same_public_ArrE)
    then show ?thesis
    proof cases
      case 2
      then have "vs = [] \<longleftrightarrow> ws = []" by auto
      then show ?thesis unfolding 2 Arr
        by (subst (1 2) norm_value.simps) (use "1.IH"(1) [OF _ refl Arr _ 2(2)] in \<open>auto simp: Let_def\<close>)
    qed simp
  next
    case (Obj ps)
    with "1.prems" consider "w = v" | qs where "w = Obj qs" "list_all2 (same_member P) ps qs"
      by (auto elim: same_public_ObjE)
    then show ?thesis
    proof cases
      case 2
      then have "ps = [] \<longleftrightarrow> qs = []" by auto
      then show ?thesis unfolding 2 Obj
        by (subst (1 2) norm_value.simps) (use "1.IH"(2) [OF _ refl Obj _ list_all2_sort [OF 2(2)]] in \<open>auto simp: Let_def\<close>)
    qed simp
  qed (use "1.prems" in \<open>auto simp: same_public_leaf\<close>)
next
  case (3 P L v vs d st)
  then obtain w us where ws: "ws = w # us" "same_public P v w" "list_all2 (same_public P) vs us"
    by (cases ws) auto
  show ?case unfolding ws(1) norm_items.simps "3.IH"(1) [OF ws(2)]
    by (intro bind_res_cong refl) (auto split: option.split intro!: bind_res_cong "3.IH"(2) ws(3) simp: "3.IH"(1) [OF ws(2)])
next
  case (5 P L key v ps d st)
  then obtain q us where qs: "qs = q # us" "same_member P (key, v) q" "list_all2 (same_member P) ps us"
    by (cases qs) auto
  obtain w where q: "q = (key, w)" using qs(2) by (cases q) auto
  show ?case
  proof (cases "length (code_points key) > MAX_KEY_CHARS \<or> js_includes PROHIBITED_RESULT_KEYS (Str key)")
    case True
    then show ?thesis using "5.IH"(1) [OF _ qs(3)] by (auto simp: qs(1) q)
  next
    case False
    then have short: "\<not> length (code_points key) > MAX_KEY_CHARS" and allowed: "\<not> js_includes PROHIBITED_RESULT_KEYS (Str key)"
      by auto
    let ?source = "\<lambda>v. if key = lit ''attributes'' then redactDOMAttributes P v st else Inr (v, st)"
    have rest: "?source v = Inr (x, st1) \<Longrightarrow> norm_value P L x d st1 = Inr (Some y, st2)
        \<Longrightarrow> norm_members P L ps d st2 = norm_members P L us d st2" for x st1 y st2
      using "5.IH"(3) [OF short allowed _ refl _ refl refl qs(3)] by blast
    have members: "norm_members P L ((key, v) # ps) d st = norm_members P L ((key, w) # us) d st"
      if "\<And>f :: jsval option \<times> raw_state \<Rightarrow> ((jsstr \<times> jsval) list \<times> raw_state) res.
          bind_res (?source v) (\<lambda>(x, st1). bind_res (norm_value P L x d st1) f)
            = bind_res (?source w) (\<lambda>(x, st1). bind_res (norm_value P L x d st1) f)"
    proof -
      have "norm_members P L ((key, v) # ps) d st = norm_members P L ((key, v) # us) d st"
        unfolding norm_members.simps if_not_P [OF short] if_not_P [OF allowed]
        by (intro bind_res_cong refl) (auto split: option.split prod.split intro!: bind_res_cong simp: rest)
      also have "\<dots> = norm_members P L ((key, w) # us) d st"
        unfolding norm_members.simps if_not_P [OF short] if_not_P [OF allowed]
        by (rule that [of "\<lambda>(r, st2). case r of None \<Rightarrow> Inr ([], st2)
          | Some w \<Rightarrow> bind_res (norm_members P L us d st2) (\<lambda>(qs, st3). Inr ((key, w) # qs, st3))"])
      finally show ?thesis .
    qed
    show ?thesis unfolding qs(1) q
    proof (rule members)
      fix f :: "jsval option \<times> raw_state \<Rightarrow> ((jsstr \<times> jsval) list \<times> raw_state) res"
      show "bind_res (?source v) (\<lambda>(x, st1). bind_res (norm_value P L x d st1) f)
            = bind_res (?source w) (\<lambda>(x, st1). bind_res (norm_value P L x d st1) f)"
      proof (cases "key = lit ''attributes''")
        case True
        then have "redactDOMAttributes P v st = redactDOMAttributes P w st"
          using qs(2) q redactDOM_public redactDOM_same by auto
        then show ?thesis using True by simp
      next
        case False
        then have "same_public P v w" using qs(2) q by auto
        with "5.IH"(2) [OF short allowed _ refl] False show ?thesis by auto
      qed
    qed
  qed
qed auto

lemma same_public_kinds:
  assumes "same_public P v w"
  shows "isObject v = isObject w \<and> object_keys v = object_keys w \<and> is_array v = is_array w \<and> length (elems v) = length (elems w)
    \<and> is_string v = is_string w \<and> (is_string v \<longrightarrow> v = w) \<and> (is_finite v = is_finite w)"
proof -
  have "map fst ps = map fst qs" if "list_all2 (same_member P) ps qs" for ps qs
    using that by (induction rule: list_all2_induct) auto
  with assms show ?thesis
    by (cases rule: same_public.cases) (auto simp: isObject_def list_all2_lengthD elems_def split: jsval.splits)
qed

lemma getp_same:
  assumes "same_public P v w" "k \<noteq> ''attributes''"
  shows "same_public P (getp v k) (getp w k)"
  using assms(1)
proof (cases rule: same_public.cases)
  case (same_public_Obj ps qs)
  have "same_public P (case map_of ps (lit k) of None \<Rightarrow> Undefined | Some x \<Rightarrow> x)
      (case map_of qs (lit k) of None \<Rightarrow> Undefined | Some x \<Rightarrow> x)"
    using same_public_Obj(3) assms(2) by (induction rule: list_all2_induct) (auto simp: same_public_refl)
  then show ?thesis using same_public_Obj by (simp add: getp_def)
qed (auto intro: same_public_refl simp: getp_def)

lemma valid_metric_same:
  assumes "same_public P v w"
  shows "valid_metric v = valid_metric w"
proof -
  note at = same_public_kinds [OF getp_same [OF assms]]
  have "is_string (getp v ''name'') = is_string (getp w ''name'')"
    and same: "is_string (getp v ''name'') \<Longrightarrow> getp v ''name'' = getp w ''name''"
    and "is_finite (getp v ''value'') = is_finite (getp w ''value'')"
    using at [of "''name''"] at [of "''value''"] by (simp_all del: kind_simps)
  moreover have "isObject v = isObject w" "object_keys v = object_keys w" using same_public_kinds [OF assms] by blast+
  ultimately show ?thesis unfolding valid_metric_def hasExactKeys_def by metis
qed

lemma result_shape_same:
  assumes "same_public P v w"
  shows "result_shape s v = result_shape s w"
proof (cases s)
  case Layout
  have "list_all (\<lambda>(key, x). key \<in> set (map lit LAYOUT_KEYS) \<and> isObject x) ps
      = list_all (\<lambda>(key, x). key \<in> set (map lit LAYOUT_KEYS) \<and> isObject x) qs" if "list_all2 (same_member P) ps qs" for ps qs
    using that
  proof (induction rule: list_all2_induct)
    case (Cons p ps q qs)
    then show ?case by (cases p; cases q) (auto simp: LAYOUT_KEYS_def dest: same_public_kinds)
  qed simp
  with assms Layout show ?thesis
    by (cases rule: same_public.cases) (auto simp: result_shape_def isObject_def members_def split: jsval.splits)
next
  case Metrics
  have "list_all valid_metric vs = list_all valid_metric ws" if "list_all2 (same_public P) vs ws" for vs ws
    using that by (induction rule: list_all2_induct) (auto simp: valid_metric_same)
  moreover have "list_all2 (same_public P) (elems v) (elems w)" if "same_public P v w" for v w
    using that by (cases rule: same_public.cases) (auto simp: elems_def list_all2_same same_public_refl split: jsval.splits)
  then have "list_all valid_metric (elems (getp v ''metrics'')) = list_all valid_metric (elems (getp w ''metrics''))"
    using calculation getp_same [OF assms] by simp
  then show ?thesis using same_public_kinds [OF assms] same_public_kinds [OF getp_same [OF assms], of "''metrics''"]
    by (simp add: result_shape_def hasExactKeys_def Metrics del: kind_simps)
next
  case Ax
  then show ?thesis using same_public_kinds [OF assms] same_public_kinds [OF getp_same [OF assms], of "''nodes''"]
    by (simp add: result_shape_def hasExactKeys_def del: kind_simps)
next
  case Node
  then show ?thesis using same_public_kinds [OF assms] same_public_kinds [OF getp_same [OF assms], of "''node''"]
    by (simp add: result_shape_def hasExactKeys_def del: kind_simps)
next
  case Model
  then show ?thesis using same_public_kinds [OF assms] same_public_kinds [OF getp_same [OF assms], of "''model''"]
    by (simp add: result_shape_def hasExactKeys_def del: kind_simps)
qed

end
