(* ===== verification/Raw_Properties.thy ===== *)
theory Raw_Properties
  imports Raw_Cdp Command_Properties
begin

text \<open>
  What the command \<open>cdp.sendReadOnly\<close> guarantees: what is sent to the debugger and after which checks, the
  type and the size of the result, that secret attributes leave no trace, and that the handler accepts what
  the router's validator accepts.
\<close>


text \<open>What a result is.\<close>

definition raw_result_type :: "platform \<Rightarrow> jsval \<Rightarrow> jsval \<Rightarrow> bool" where
  "raw_result_type P params res \<longleftrightarrow>
     object_keys res = map lit [''method'', ''tabId'', ''documentId'', ''result'', ''truncated'', ''nodeCount'', ''warnings'']
     \<and> getp res ''method'' = getp params ''method''
     \<and> (\<exists>config. method_config (getp params ''method'') = Some config \<and> result_shape (mc_shape config) (getp res ''result''))
     \<and> is_boolean (getp res ''truncated'') \<and> is_array (getp res ''warnings'')
     \<and> list_all is_string (elems (getp res ''warnings''))
     \<and> getp res ''nodeCount'' = jnum (of_nat (countJSONNodes (getp res ''result'')))"

lemma raw_answer_parts:
  assumes "raw_answer P params tabId documentId rawResult = Inr res"
  obtains copied st normalized st1 L where
    "L = \<lparr>rl_maxDepth = natural (getp params ''maxDepth''), rl_maxNodes = natural (getp params ''maxNodes''),
       rl_maxStringChars = natural (getp params ''maxStringChars'')\<rparr>"
    "norm_value P L rawResult 0 \<lparr>rs_visited = 0, rs_truncated = False, rs_redacted = False\<rparr> = Inr (Some copied, st)"
    "normalizeTruncatedShape (getp params ''method'') copied st = (normalized, st1)"
    "assertResultShape (getp params ''method'') normalized = ok"
    "countJSONNodes normalized \<le> rl_maxNodes L"
    "res = obj [(''method'', getp params ''method''), (''tabId'', tabId), (''documentId'', documentId), (''result'', normalized),
       (''truncated'', Bool (rs_truncated st1)), (''nodeCount'', jnum (of_nat (countJSONNodes normalized))),
       (''warnings'', Arr (raw_warnings st1))]"
    "int (jsonByteLength P res) \<le> integer (getp params ''maxBytes'')"
proof -
  define L where "L = \<lparr>rl_maxDepth = natural (getp params ''maxDepth''), rl_maxNodes = natural (getp params ''maxNodes''),
       rl_maxStringChars = natural (getp params ''maxStringChars'')\<rparr>"
  from assms obtain copy st where norm: "norm_value P L rawResult 0 \<lparr>rs_visited = 0, rs_truncated = False, rs_redacted = False\<rparr> = Inr (copy, st)"
    and rest: "(case copy of None \<Rightarrow> Inl invalidResult | Some copied \<Rightarrow>
           let (normalized, st1) = normalizeTruncatedShape (getp params ''method'') copied st; nodeCount = countJSONNodes normalized
           in bind_res (assertResultShape (getp params ''method'') normalized) (\<lambda>_.
              if nodeCount < 1 \<or> nodeCount > rl_maxNodes L then Inl invalidResult
              else let result = obj [(''method'', getp params ''method''), (''tabId'', tabId), (''documentId'', documentId), (''result'', normalized),
                     (''truncated'', Bool (rs_truncated st1)), (''nodeCount'', jnum (of_nat nodeCount)),
                     (''warnings'', Arr (raw_warnings st1))]
                in bind_res (ensureResultBytes P result (integer (getp params ''maxBytes''))) (\<lambda>_. Inr result))) = Inr res"
    unfolding raw_answer_def Let_def L_def [symmetric] by (auto simp only: bind_res_Inr split: prod.splits)
  then obtain copied where copy: "copy = Some copied" by (cases copy) auto
  obtain normalized st1 where trunc: "normalizeTruncatedShape (getp params ''method'') copied st = (normalized, st1)" by force
  show thesis
    by (rule that [OF L_def norm [unfolded copy] trunc])
      (use rest in \<open>auto simp: copy trunc Let_def bind_res_Inr ensureResultBytes_def throw_if_def split: if_splits\<close>)
qed

lemma raw_answer_type:
  assumes "raw_answer P params tabId documentId rawResult = Inr res"
  shows "raw_result_type P params res"
  using assms
proof (rule raw_answer_parts)
  fix st1 normalized
  assume shape: "assertResultShape (getp params ''method'') normalized = ok"
    and res: "res = obj [(''method'', getp params ''method''), (''tabId'', tabId), (''documentId'', documentId), (''result'', normalized),
       (''truncated'', Bool (rs_truncated st1)), (''nodeCount'', jnum (of_nat (countJSONNodes normalized))),
       (''warnings'', Arr (raw_warnings st1))]"
  have "\<exists>config. method_config (getp params ''method'') = Some config \<and> result_shape (mc_shape config) normalized"
    using shape by (auto simp: assertResultShape_def throw_if_def split: option.splits if_splits)
  then show ?thesis unfolding raw_result_type_def res by (simp add: raw_warnings_def)
qed

lemma bounded_getp: "bounded_value L d v \<Longrightarrow> is_array (getp v k) \<Longrightarrow> bounded_value L (Suc d) (getp v k)"
proof -
  assume v: "bounded_value L d v" and arr: "is_array (getp v k)"
  then obtain ps where ps: "v = Obj ps" by (cases v) (auto simp: getp_def)
  then obtain x where x: "(lit k, x) \<in> set ps" "getp v k = x"
    using arr by (auto simp: getp_def split: option.splits dest: map_of_SomeD)
  then show ?thesis using v ps by (fastforce simp: list_all_iff)
qed

lemma truncated_bounded:
  assumes "normalizeTruncatedShape name copied st = (normalized, st1)" and "bounded_value L 0 copied" and "0 < rl_maxDepth L"
  shows "bounded_value L 0 normalized"
proof (cases "name = jstr ''Performance.getMetrics''")
  case True
  let ?metrics = "filter valid_metric (elems (getp copied ''metrics''))"
  let ?fine = "\<lambda>(k, v). length (code_points k) \<le> 256 \<and> \<not> js_includes PROHIBITED_RESULT_KEYS (Str k) \<and> bounded_value L (Suc 0) v"
  have arr: "bounded_value L (Suc 0) (Arr ?metrics)"
  proof (cases "getp copied ''metrics''")
    case (Arr vs)
    then show ?thesis using bounded_getp [OF assms(2), of "''metrics''"] by (auto simp: list_all_iff)
  qed (simp_all add: elems_def)
  have "length (code_points (lit ''metrics'')) \<le> 256" "\<not> js_includes PROHIBITED_RESULT_KEYS (jstr ''metrics'')"
    by code_simp+
  then have new: "?fine (lit ''metrics'', Arr ?metrics)" using arr by simp
  have set: "list_all ?fine (assoc_set (lit ''metrics'') (Arr ?metrics) ps)" if "list_all ?fine ps" for ps
    using that new by (auto simp: list_all_iff dest!: assoc_set_subset)
  have "list_all ?fine (members copied)" using assms(2) by (cases copied) (auto simp: members_def)
  then show ?thesis using assms(1,3) True set by (auto simp: normalizeTruncatedShape_def Let_def)
qed (use assms in \<open>simp add: normalizeTruncatedShape_def\<close>)

lemma raw_answer_bounded:
  assumes "raw_answer P params tabId documentId rawResult = Inr res" and "0 < natural (getp params ''maxDepth'')"
  shows "bounded_value \<lparr>rl_maxDepth = natural (getp params ''maxDepth''), rl_maxNodes = natural (getp params ''maxNodes''),
       rl_maxStringChars = natural (getp params ''maxStringChars'')\<rparr> 0 (getp res ''result'')
    \<and> countJSONNodes (getp res ''result'') \<le> natural (getp params ''maxNodes'')
    \<and> int (jsonByteLength P res) \<le> integer (getp params ''maxBytes'')"
  using assms(1)
proof (rule raw_answer_parts)
  fix copied st normalized st1 L
  assume L: "L = \<lparr>rl_maxDepth = natural (getp params ''maxDepth''), rl_maxNodes = natural (getp params ''maxNodes''),
       rl_maxStringChars = natural (getp params ''maxStringChars'')\<rparr>"
    and norm: "norm_value P L rawResult 0 \<lparr>rs_visited = 0, rs_truncated = False, rs_redacted = False\<rparr> = Inr (Some copied, st)"
    and trunc: "normalizeTruncatedShape (getp params ''method'') copied st = (normalized, st1)"
    and nodes: "countJSONNodes normalized \<le> rl_maxNodes L"
    and res: "res = obj [(''method'', getp params ''method''), (''tabId'', tabId), (''documentId'', documentId), (''result'', normalized),
       (''truncated'', Bool (rs_truncated st1)), (''nodeCount'', jnum (of_nat (countJSONNodes normalized))),
       (''warnings'', Arr (raw_warnings st1))]"
    and bytes: "int (jsonByteLength P res) \<le> integer (getp params ''maxBytes'')"
  have copied: "bounded_value L 0 copied" using norm_spec(1) [OF norm] by simp
  have deep: "0 < rl_maxDepth L" using assms(2) L by simp
  have "bounded_value L 0 normalized"
    using trunc copied deep by (rule truncated_bounded)
  then show ?thesis using nodes bytes L unfolding res by simp
qed

lemma raw_result_answer:
  assumes "exec R (sendReadOnly P managed request) n l (Inr res) n'"
  shows "\<exists>inner tabId documentId sent. assertRawCDPParams (getp request ''params'') = Inr inner
    \<and> raw_answer P (getp request ''params'') tabId documentId sent = Inr res"
proof -
  have "safe R (raw_command_allowed P request) (sendReadOnly P managed request) n [] (\<lambda>_ _ res.
      \<exists>inner tabId documentId sent. assertRawCDPParams (getp request ''params'') = Inr inner
        \<and> raw_answer P (getp request ''params'') tabId documentId sent = Inr res)"
    unfolding sendReadOnly_def Let_def by (intro safe_intros raw_allows_support safe_read_only allI) auto
  from safe_exec [OF assms this] show ?thesis by simp
qed

lemma raw_params_depth:
  "assertRawCDPParams params = Inr inner \<Longrightarrow> 0 < natural (getp params ''maxDepth'')"
proof -
  assume "assertRawCDPParams params = Inr inner"
  then have "integerBetween (getp params ''maxDepth'') 1 MAX_DEPTH"
    by (auto simp: assertRawCDPParams_def Let_def bind_res_Inr returns_unit [symmetric] accept_simps)
  then show ?thesis by (auto simp: integerBetween_def natural_def integer_def split: jsval.splits jsnum.splits)
qed

text \<open>A result has the type of its method: the fixed members, a value of the shape that the method's
  configuration names, a flag, warnings, and the number of nodes it really has.\<close>

theorem raw_result_typed:
  assumes "exec R (sendReadOnly P managed request) n l (Inr res) n'"
  shows "raw_result_type P (getp request ''params'') res"
  using raw_result_answer [OF assms] raw_answer_type by blast

text \<open>A result stays within the limits of its request: nodes, depth, length of strings and keys, bytes
  of its JSON, and it has none of the prohibited keys.\<close>

theorem raw_result_bounded:
  assumes "exec R (sendReadOnly P managed request) n l (Inr res) n'"
  defines "params \<equiv> getp request ''params''"
  shows "bounded_value \<lparr>rl_maxDepth = natural (getp params ''maxDepth''), rl_maxNodes = natural (getp params ''maxNodes''),
       rl_maxStringChars = natural (getp params ''maxStringChars'')\<rparr> 0 (getp res ''result'')
    \<and> countJSONNodes (getp res ''result'') \<le> natural (getp params ''maxNodes'')
    \<and> int (jsonByteLength P res) \<le> integer (getp params ''maxBytes'')"
  using raw_result_answer [OF assms(1)] raw_answer_bounded raw_params_depth unfolding params_def by blast

text \<open>Two debugger results that differ only in the values of secret attributes (names like passwords or
  tokens, the value of a password field) give the same answer, or the same error.\<close>

theorem raw_secrets_dropped:
  assumes "same_public P v w"
  shows "raw_answer P params tabId documentId v = raw_answer P params tabId documentId w"
proof -
  have "assertResultShape (getp params ''method'') v = assertResultShape (getp params ''method'') w"
    using result_shape_same [OF assms] by (simp add: assertResultShape_def split: option.split)
  then show ?thesis unfolding raw_answer_def Let_def by (simp add: norm_same(1) [OF assms])
qed

lemma method_fields:
  "m \<in> set RAW_CDP_METHODS \<Longrightarrow> \<exists>config. method_config (jstr m) = Some config \<and> mc_fields config = rawCDPAllowed (jstr m)"
  unfolding RAW_CDP_METHODS_def
  by (simp only: set_simps insert_iff empty_iff; elim disjE; simp add: method_config_def METHOD_CONFIG_def rawCDPAllowed_def)

lemma integerBetween_integer:
  "- MAX_SAFE_INTEGER \<le> a \<Longrightarrow> b \<le> MAX_SAFE_INTEGER
   \<Longrightarrow> integerBetween v a b \<longleftrightarrow> (\<exists>i. v = jnum (of_int i) \<and> a \<le> of_int i \<and> of_int i \<le> b)"
  by (auto simp: integerBetween_def rat_is_int_def abs_le_iff split: jsval.splits jsnum.splits)

lemma integer_checks_ok:
  assumes "- MAX_SAFE_INTEGER \<le> a" "b \<le> MAX_SAFE_INTEGER"
  shows "returns (requireInteger v a b p) \<longleftrightarrow> (\<exists>i. v = jnum (of_int i) \<and> a \<le> of_int i \<and> of_int i \<le> b)"
    and "returns (optionalInteger v p a b) \<longleftrightarrow> v = Undefined \<or> (\<exists>i. v = jnum (of_int i) \<and> a \<le> of_int i \<and> of_int i \<le> b)"
  using integerBetween_integer [OF assms] by (auto simp: requireInteger_def optionalInteger_def accept_simps)

lemma optionalString_ok:
  "returns (optionalString v p n) \<longleftrightarrow> v = Undefined \<or> (\<exists>s. v = Str s \<and> length (code_points s) \<le> n)"
  by (auto simp: optionalString_def accept_simps)

lemma method_checks_agree:
  assumes "m \<in> set RAW_CDP_METHODS"
    and "returns (only_if (js_includes [''Accessibility.getPartialAXTree'', ''Accessibility.queryAXTree'', ''DOM.describeNode'',
         ''DOM.getBoxModel''] (jstr m))
       (requireIntegerRange (getp inner ''backendNodeId'') ''params.params.backendNodeId'' 1 MAX_SAFE_INTEGER))"
    and "returns (only_if (jstr m = jstr ''Accessibility.getPartialAXTree'')
       (validateOptionalBoolean (getp inner ''fetchRelatives'') ''params.params.fetchRelatives''))"
    and "returns (only_if (jstr m = jstr ''Accessibility.queryAXTree'') (checks [
       assertOptionalBoundedString (getp inner ''accessibleName'') ''params.params.accessibleName'' 500,
       assertOptionalBoundedString (getp inner ''role'') ''params.params.role'' 100]))"
    and "returns (only_if (jstr m = jstr ''Accessibility.getFullAXTree'')
       (validateIntegerRange (getp inner ''depth'') ''params.params.depth'' 0 50))"
    and "returns (only_if (jstr m = jstr ''DOM.describeNode'')
       (validateIntegerRange (getp inner ''depth'') ''params.params.depth'' 0 10))"
  shows "returns (method_checks (jstr m) inner)"
  using assms unfolding RAW_CDP_METHODS_def set_simps insert_iff empty_iff
  by (elim disjE; simp add: method_checks_def MAX_SAFE_INTEGER_def; simp add: accept_simps integer_checks_ok optionalString_ok MAX_SAFE_INTEGER_def)

text \<open>Parameters that the router's validator accepts are accepted by the handler, unless a member has the
  empty name.\<close>

theorem raw_params_agree:
  assumes "returns (validateRawCDP params target)" and "[] \<notin> set (object_keys params)"
  shows "\<exists>inner. assertRawCDPParams params = Inr inner"
proof -
  let ?name = "getp params ''method''" and ?inner = "getp params ''params''"
  note checks = assms(1) [unfolded validateRawCDP_def Let_def checks_Cons_ok]
  have "\<exists>ps. params = Obj ps" "\<exists>qs. ?inner = Obj qs" using checks unfolding validateParamsObject_ok by blast+
  then have objects: "isObject params" "isObject ?inner" "\<not> nullish ?inner" by (auto simp: isObject_def nullish_def)
  have "js_includes RAW_CDP_METHODS ?name" using checks unfolding throw_if_ok by blast
  then obtain m where m: "m \<in> set RAW_CDP_METHODS" "?name = jstr m" by (auto simp: includes_iff)
  have keys: "set (object_keys params) \<subseteq> set (map lit [''method'', ''params'', ''maxDepth'', ''maxNodes'', ''maxStringChars'', ''maxBytes''])"
    using checks assertAllowedProperties_closed assms(2) by blast
  obtain config where config: "method_config (jstr m) = Some config" "mc_fields config = rawCDPAllowed (jstr m)"
    using method_fields [OF m(1)] by blast
  have "returns (assertAllowedProperties ?inner (rawCDPAllowed (jstr m)))" using checks unfolding m(2) by blast
  then have fields: "find (\<lambda>key. key \<notin> set (map lit (mc_fields config))) (object_keys ?inner) \<in> {None, Some []}"
    unfolding assertAllowedProperties_ok unexpectedProperty_def config .
  have ranges: "returns (requireIntegerRange (getp params ''maxDepth'') ''params.maxDepth'' 1 20)"
    "returns (requireIntegerRange (getp params ''maxNodes'') ''params.maxNodes'' 2 5000)"
    "returns (requireIntegerRange (getp params ''maxStringChars'') ''params.maxStringChars'' 1 10000)"
    "returns (requireIntegerRange (getp params ''maxBytes'') ''params.maxBytes'' (64 * 1024) 1000000)"
    using checks by blast+
  have limits: "integerBetween (getp params ''maxDepth'') 1 MAX_DEPTH" "integerBetween (getp params ''maxNodes'') 2 MAX_NODES"
    "integerBetween (getp params ''maxStringChars'') 1 MAX_STRING_CHARS"
    "integerBetween (getp params ''maxBytes'') MIN_RESULT_BYTES MAX_RESULT_BYTES"
    using ranges unfolding range_checks_ok
    by (simp_all add: integerBetween_integer MAX_DEPTH_def MAX_NODES_def MAX_STRING_CHARS_def MIN_RESULT_BYTES_def MAX_RESULT_BYTES_def MAX_SAFE_INTEGER_def)
  have inner: "returns (method_checks (jstr m) ?inner)"
    using checks unfolding m(2) by (intro method_checks_agree [OF m(1)]) blast+
  have "method_checks (jstr m) ?inner = ok" using inner by (simp add: returns_unit)
  moreover have "validateMethod (jstr m) = Inr config" using config by (simp add: validateMethod_def)
  moreover have "\<not> list_ex (\<lambda>key. key \<notin> set (map lit [''method'', ''params'', ''maxDepth'', ''maxNodes'', ''maxStringChars'', ''maxBytes'']))
      (object_keys params)" using keys by (auto simp: list_ex_iff)
  ultimately show ?thesis using objects limits fields
    by (auto simp: assertRawCDPParams_def Let_def m(2) bind_res_Inr throw_if_def checks.simps)
qed

section \<open>Witnesses\<close>

definition raw_url :: url where
  "raw_url = \<lparr>url_protocol = lit ''https:'', url_hostname = lit ''a.b'', url_username = [], url_password = [], url_hash = [],
     url_search = [], url_pathname = lit ''/'', url_origin = lit ''https://a.b'', url_href = lit ''https://a.b/''\<rparr>"

definition raw_platform :: platform where
  "raw_platform = demo_platform\<lparr>parseURL := (\<lambda>v. if v = jstr ''https://a.b/'' then Some raw_url else None)\<rparr>"

definition raw_params :: jsval where
  "raw_params = obj [(''method'', jstr ''Page.getLayoutMetrics''), (''params'', obj []), (''maxDepth'', jnum 3), (''maxNodes'', jnum 5),
     (''maxStringChars'', jnum 9), (''maxBytes'', jnum 65536)]"







definition secret_node :: "string \<Rightarrow> jsval" where
  "secret_node secret = obj [(''node'', obj [(''attributes'', Arr (map jstr [''type'', ''password'', ''value'', secret]))])]"

theorem raw_secrets_dropped_witness:
  "raw_answer raw_platform raw_params (jnum 1) (jstr ''D'') (secret_node ''a'')
   = raw_answer raw_platform raw_params (jnum 1) (jstr ''D'') (secret_node ''b'')"
proof (rule raw_secrets_dropped)
  have "same_attributes raw_platform (map lit [''type'', ''password'', ''value'', ''a'']) (map lit [''type'', ''password'', ''value'', ''b''])"
    by code_simp
  moreover have "Arr (map jstr names) = Arr (map Str (map lit names))" for names by simp
  ultimately have "same_public raw_platform (Obj [(lit ''attributes'', Arr (map jstr [''type'', ''password'', ''value'', ''a'']))])
      (Obj [(lit ''attributes'', Arr (map jstr [''type'', ''password'', ''value'', ''b'']))])"
    by (intro same_public_Obj) (simp only: list.rel_inject fst_conv snd_conv list.rel_intros, blast)
  then show "same_public raw_platform (secret_node ''a'') (secret_node ''b'')"
    by (auto simp: secret_node_def obj_def intro!: same_public_Obj)
qed

end
