(* ===== verification/Capabilities.thy ===== *)
theory Capabilities
  imports Command_Table
begin

text \<open>
  Which commands the extension offers (\<open>chrome-extension/src/capabilities.js\<close>), given the browser's version,
  the APIs it has, the permissions and origins granted, and the feature flags; and the permission profiles of
  the settings page (\<open>permission-profiles.js\<close>): their states, what enabling one requests and disabling one removes.
\<close>

section \<open>Capabilities\<close>

definition MINIMUM_BROWSER_VERSION :: nat where "MINIMUM_BROWSER_VERSION = 116"

record apis =
  api_windows :: bool
  api_tabs :: bool
  api_captureVisibleTab :: bool
  api_debugger :: bool
  api_tabGrouping :: bool
  api_tabGroups :: bool
  api_sessions :: bool
  api_downloads :: bool
  api_history :: bool
  api_bookmarks :: bool
  api_readingList :: bool
  api_cookies :: bool
  api_originStorage :: bool
  api_scripting :: bool
  api_webNavigation :: bool
  api_frameTree :: bool

record grants =
  granted_permissions :: "string list"
  granted_origins :: "string list"

record flags =
  pageAutomation :: jsval
  javascriptEvaluation :: jsval
  rawCDP :: jsval
  sensitiveData :: jsval

definition parseMajorVersion :: "jsstr \<Rightarrow> nat option" where
  "parseMajorVersion version =
     (let digits = takeWhile is_digit version in if digits = [] then None else Some (dec_value digits))"

abbreviation has :: "grants \<Rightarrow> string \<Rightarrow> bool" where
  "has g permission \<equiv> permission \<in> set (granted_permissions g)"

definition canResetEmulation :: "apis \<Rightarrow> grants \<Rightarrow> bool" where
  "canResetEmulation a g \<longleftrightarrow> api_tabs a \<and> has g ''tabs'' \<and> api_debugger a \<and> has g ''debugger''"

definition hasWebsiteAccess :: "grants \<Rightarrow> bool" where
  "hasWebsiteAccess g \<longleftrightarrow> granted_origins g \<noteq> []"

text \<open>\<open>only b names\<close> pushes the names when \<open>b\<close> holds.\<close>

definition only :: "bool \<Rightarrow> string list \<Rightarrow> string list" where
  "only b names = (if b then names else [])"

definition tab_capabilities :: "apis \<Rightarrow> grants \<Rightarrow> flags \<Rightarrow> string list" where
  "tab_capabilities a g f =
     [''tabs.list'', ''tabs.get'', ''tabs.create'', ''tabs.activate'', ''tabs.navigate'', ''tabs.reload'']
     @ only (pageAutomation f \<noteq> Bool False \<and> api_scripting a \<and> has g ''scripting'' \<and> granted_origins g \<noteq> []) [''tabs.stop'']
     @ [''tabs.back'', ''tabs.forward'', ''tabs.move'', ''tabs.duplicate'', ''tabs.close'', ''tabs.pin'', ''tabs.mute'',
        ''tabs.getZoom'', ''tabs.setZoom'']
     @ only (api_tabGrouping a) [''tabs.group'', ''tabs.ungroup'']
     @ only (api_tabGroups a \<and> has g ''tabGroups'') [''tabGroups.update'']"

definition personal_capabilities :: "nat option \<Rightarrow> apis \<Rightarrow> grants \<Rightarrow> flags \<Rightarrow> string list" where
  "personal_capabilities majorVersion a g f =
     only (api_sessions a \<and> has g ''sessions'') [''sessions.recentlyClosed'', ''sessions.restore'']
     @ only (api_cookies a \<and> api_tabs a \<and> api_webNavigation a \<and> has g ''tabs'' \<and> has g ''cookies'' \<and> hasWebsiteAccess g)
         ([''cookies.list'', ''cookies.get'', ''cookies.set'', ''cookies.remove'']
          @ only (sensitiveData f = Bool True) [''cookies.listSensitive'', ''cookies.getSensitive''])
     @ only (api_originStorage a \<and> api_tabs a \<and> api_scripting a \<and> api_webNavigation a \<and> has g ''tabs'' \<and> has g ''scripting''
          \<and> has g ''browsingData'' \<and> hasWebsiteAccess g)
         ([''storage.list'', ''storage.get'', ''storage.set'', ''storage.remove'', ''storage.cacheMetadata'',
           ''storage.indexedDBMetadata'', ''storage.clear'']
          @ only (sensitiveData f = Bool True) [''storage.listSensitive'', ''storage.getSensitive''])
     @ only (api_downloads a \<and> has g ''downloads'')
         [''downloads.list'', ''downloads.get'', ''downloads.create'', ''downloads.pause'', ''downloads.resume'', ''downloads.cancel'',
          ''downloads.erase'']
     @ only (api_history a \<and> has g ''history'')
         [''history.search'', ''history.getVisits'', ''history.deleteUrl'', ''history.deleteRange'', ''history.deleteAll'']
     @ only (api_bookmarks a \<and> has g ''bookmarks'')
         [''bookmarks.list'', ''bookmarks.create'', ''bookmarks.update'', ''bookmarks.move'', ''bookmarks.remove'']
     @ only (api_readingList a \<and> has g ''readingList'' \<and> (case majorVersion of None \<Rightarrow> True | Some n \<Rightarrow> n \<ge> 120))
         [''readingList.list'', ''readingList.add'', ''readingList.update'', ''readingList.remove'']"

definition page_capabilities :: "apis \<Rightarrow> grants \<Rightarrow> flags \<Rightarrow> string list" where
  "page_capabilities a g f =
     only (api_frameTree a) [''page.info'']
     @ [''page.getHTML'', ''page.getHTMLBySelector'', ''page.getText'', ''page.query'', ''page.getElement'', ''page.snapshot'',
        ''page.click'', ''page.fill'', ''page.hover'', ''page.focus'', ''page.blur'', ''page.type'', ''page.clear'', ''page.press'',
        ''page.select'', ''page.setChecked'', ''page.scroll'', ''page.drag'', ''page.dispatch'', ''page.submit'', ''page.wait'']
     @ only (api_captureVisibleTab a \<and> has g ''activeTab'') [''page.screenshot'']
     @ only (api_debugger a \<and> has g ''debugger'')
         ([''page.printToPDF'', ''accessibility.getTree'', ''emulation.set'', ''emulation.get'', ''emulation.reset'']
          @ only (javascriptEvaluation f = Bool True) [''runtime.evaluateIsolated'']
          @ only (rawCDP f = Bool True) [''cdp.sendReadOnly'']
          @ [''performance.metrics'', ''performance.capture'']
          @ [''network.start'', ''network.stop'', ''network.clear'', ''network.read'', ''network.getBody'', ''network.exportHAR''])
     @ [''console.start'', ''console.stop'', ''console.clear'', ''console.read'']"

definition detectCapabilities :: "jsstr \<Rightarrow> apis \<Rightarrow> grants \<Rightarrow> flags \<Rightarrow> string list" where
  "detectCapabilities browserVersion a g f =
     (let majorVersion = parseMajorVersion browserVersion
      in if (case majorVersion of None \<Rightarrow> False | Some n \<Rightarrow> n < MINIMUM_BROWSER_VERSION) then [''browser.ping'']
         else let capabilities = [''browser.ping'']
             @ only (api_windows a) [''windows.list'', ''windows.get'', ''windows.create'', ''windows.update'', ''windows.focus'', ''windows.close'']
             @ only (api_tabs a \<and> has g ''tabs'') (tab_capabilities a g f)
             @ personal_capabilities majorVersion a g f
             @ only (pageAutomation f \<noteq> Bool False \<and> api_scripting a \<and> api_webNavigation a \<and> has g ''scripting'' \<and> hasWebsiteAccess g)
                 (page_capabilities a g f)
           in capabilities @ only (canResetEmulation a g \<and> ''emulation.reset'' \<notin> set capabilities) [''emulation.reset''])"

text \<open>\<open>capabilitiesFor\<close> of the service worker: \<open>chrome name\<close> says whether the browser has the member
  \<open>chrome.name\<close> of its API.\<close>

definition apis_of :: "(string \<Rightarrow> bool) \<Rightarrow> apis" where
  "apis_of chrome = \<lparr>
     api_windows = chrome ''windows'',
     api_tabs = chrome ''tabs'',
     api_captureVisibleTab = chrome ''tabs.captureVisibleTab'',
     api_debugger = (chrome ''debugger.attach'' \<and> chrome ''debugger.sendCommand''),
     api_tabGrouping = (chrome ''tabs.group'' \<and> chrome ''tabs.ungroup''),
     api_tabGroups = chrome ''tabGroups.update'',
     api_sessions = (chrome ''sessions.getRecentlyClosed'' \<and> chrome ''sessions.restore''),
     api_downloads = list_all chrome [''downloads.search'', ''downloads.download'', ''downloads.pause'', ''downloads.resume'',
       ''downloads.cancel'', ''downloads.erase''],
     api_history = list_all chrome [''history.search'', ''history.getVisits'', ''history.deleteUrl'', ''history.deleteRange'',
       ''history.deleteAll''],
     api_bookmarks = list_all chrome [''bookmarks.search'', ''bookmarks.getChildren'', ''bookmarks.get'', ''bookmarks.create'',
       ''bookmarks.update'', ''bookmarks.move'', ''bookmarks.remove'', ''bookmarks.removeTree''],
     api_readingList = list_all chrome [''readingList.query'', ''readingList.addEntry'', ''readingList.updateEntry'',
       ''readingList.removeEntry''],
     api_cookies = list_all chrome [''cookies.getAll'', ''cookies.get'', ''cookies.set'', ''cookies.remove'',
       ''cookies.getAllCookieStores''],
     api_originStorage = chrome ''scripting.executeScript'',
     api_scripting = chrome ''scripting'',
     api_webNavigation = chrome ''webNavigation.getFrame'',
     api_frameTree = chrome ''webNavigation.getAllFrames''\<rparr>"

definition capabilitiesFor :: "(string \<Rightarrow> bool) \<Rightarrow> jsstr \<Rightarrow> grants \<Rightarrow> flags \<Rightarrow> string list" where
  "capabilitiesFor chrome browserVersion permissions featureFlags =
     detectCapabilities browserVersion (apis_of chrome) permissions featureFlags"

section \<open>Permission profiles\<close>

record profile =
  profile_id :: string
  profile_name :: string
  profile_permissions :: "string list"
  profile_origins :: "string list"
  profile_dependencies :: "string list"
  profile_optional :: bool

definition core :: profile where
  "core = \<lparr>profile_id = ''core'', profile_name = ''Core'',
     profile_permissions = [''activeTab'', ''alarms'', ''scripting'', ''storage'', ''tabs'', ''webNavigation''],
     profile_origins = [], profile_dependencies = [], profile_optional = False\<rparr>"

definition observe :: profile where
  "observe = \<lparr>profile_id = ''observe'', profile_name = ''Observe'', profile_permissions = [''webRequest''],
     profile_origins = [''http://*/*'', ''https://*/*''], profile_dependencies = [], profile_optional = True\<rparr>"

definition debug :: profile where
  "debug = \<lparr>profile_id = ''debug'', profile_name = ''Debug'', profile_permissions = [''debugger''],
     profile_origins = [], profile_dependencies = [], profile_optional = True\<rparr>"

definition personal :: profile where
  "personal = \<lparr>profile_id = ''personal'', profile_name = ''Personal data'',
     profile_permissions = [''bookmarks'', ''browsingData'', ''clipboardRead'', ''clipboardWrite'', ''cookies'', ''downloads'',
       ''history'', ''sessions'', ''tabGroups''],
     profile_origins = [], profile_dependencies = [''observe''], profile_optional = True\<rparr>"

definition PROFILE_DEFINITIONS :: "profile list" where
  "PROFILE_DEFINITIONS = [core, observe, debug, personal]"

definition DEFINITIONS_BY_ID :: "string \<Rightarrow> profile option" where
  "DEFINITIONS_BY_ID profileId = find (\<lambda>p. profile_id p = profileId) PROFILE_DEFINITIONS"

datatype profile_state = Disabled | Partial | Enabled

record profile_view =
  view_profile :: profile
  view_state :: profile_state
  view_grantedCount :: nat
  view_itemCount :: nat
  view_grantedOrigins :: "string list"

definition isWebsiteOrigin :: "string \<Rightarrow> bool" where
  "isWebsiteOrigin origin \<longleftrightarrow> prefix ''http://'' origin \<or> prefix ''https://'' origin"

text \<open>The body of the loop over the profiles; \<open>states\<close> are the profiles already seen.\<close>

definition profile_view_of :: "grants \<Rightarrow> profile_view list \<Rightarrow> profile \<Rightarrow> profile_view" where
  "profile_view_of g states p =
     (let grantedProfilePermissions = filter (\<lambda>x. x \<in> set (granted_permissions g)) (profile_permissions p);
          grantedProfileOrigins = (if profile_origins p \<noteq> [] then filter isWebsiteOrigin (unique (granted_origins g)) else []);
          exactOriginsGranted = filter (\<lambda>x. x \<in> set (granted_origins g)) (profile_origins p);
          itemCount = length (profile_permissions p) + length (profile_origins p);
          grantedCount = length grantedProfilePermissions + length exactOriginsGranted;
          ownComplete = (grantedCount = itemCount);
          hasSomeAccess = (grantedProfilePermissions \<noteq> [] \<or> grantedProfileOrigins \<noteq> []);
          dependenciesComplete = list_all (\<lambda>d. map_option view_state
            (find (\<lambda>v. profile_id (view_profile v) = d) states) = Some Enabled) (profile_dependencies p)
      in \<lparr>view_profile = p,
          view_state = (if ownComplete \<and> dependenciesComplete then Enabled
            else if hasSomeAccess \<or> (ownComplete \<and> \<not> dependenciesComplete) then Partial else Disabled),
          view_grantedCount = grantedCount, view_itemCount = itemCount, view_grantedOrigins = grantedProfileOrigins\<rparr>)"

definition permissionProfileStates :: "grants \<Rightarrow> profile_view list" where
  "permissionProfileStates g = fold (\<lambda>p states. states @ [profile_view_of g states p]) PROFILE_DEFINITIONS []"

definition enabledPermissionProfileNames :: "grants \<Rightarrow> string list" where
  "enabledPermissionProfileNames g =
     map (profile_name \<circ> view_profile) (filter (\<lambda>v. view_state v = Enabled) (permissionProfileStates g))"

definition requireOptionalProfile :: "string \<Rightarrow> profile res" where
  "requireOptionalProfile profileId =
     (case DEFINITIONS_BY_ID profileId of
        Some p \<Rightarrow> if profile_optional p then Inr p
          else Inl (ForeignError (obj [(''message'', Str (lit ''Unknown optional permission profile '' @ 34 # lit profileId @ [34]))]))
      | None \<Rightarrow> Inl (ForeignError (obj [(''message'', Str (lit ''Unknown optional permission profile '' @ 34 # lit profileId @ [34]))])))"

text \<open>The recursion over dependencies; \<open>None\<close> when the fuel is used up, or a dependency is unknown.\<close>

fun collectWithDependencies :: "nat \<Rightarrow> profile \<Rightarrow> profile list \<Rightarrow> profile list option" where
  "collectWithDependencies 0 p collected = None"
| "collectWithDependencies (Suc n) p collected =
     (if profile_id p \<in> profile_id ` set collected then Some collected
      else map_option (\<lambda>ps. ps @ [p])
        (fold (\<lambda>d acc. Option.bind acc (\<lambda>ps. Option.bind (DEFINITIONS_BY_ID d) (\<lambda>q. collectWithDependencies n q ps)))
          (profile_dependencies p) (Some collected)))"

text \<open>What a profile asks for; the request leaves a list out when it is empty. A dependency that does not end would
  overflow the stack.\<close>

definition permissionRequestFor :: "string \<Rightarrow> grants res" where
  "permissionRequestFor profileId = bind_res (requireOptionalProfile profileId) (\<lambda>p.
     case collectWithDependencies (Suc (length PROFILE_DEFINITIONS)) p [] of
       None \<Rightarrow> Inl (ForeignError (obj [(''message'', jstr ''Maximum call stack size exceeded'')]))
     | Some profiles \<Rightarrow> Inr \<lparr>granted_permissions = unique (concat (map profile_permissions profiles)),
             granted_origins = unique (concat (map profile_origins profiles))\<rparr>)"

definition permissionRemovalFor :: "string \<Rightarrow> grants res" where
  "permissionRemovalFor profileId = bind_res (requireOptionalProfile profileId) (\<lambda>p.
     Inr \<lparr>granted_permissions = profile_permissions p, granted_origins = profile_origins p\<rparr>)"

section \<open>States of the profiles\<close>

lemma all_counted:
  "length (filter P xs) + length (filter Q ys) = length xs + length ys \<longleftrightarrow> list_all P xs \<and> list_all Q ys"
proof -
  have "length (filter P xs) \<le> length xs" "length (filter Q ys) \<le> length ys" by (rule length_filter_le)+
  moreover have "length (filter P xs) = length xs \<longleftrightarrow> list_all P xs" for P :: "'c \<Rightarrow> bool" and xs
    unfolding list_all_iff by (metis filter_True filter_id_conv length_filter_less less_irrefl)
  ultimately show ?thesis by (metis add_le_imp_le_left add_le_imp_le_right le_antisym nat_add_left_cancel_le)
qed

text \<open>A profile is complete when everything it names is granted.\<close>

definition complete :: "grants \<Rightarrow> profile \<Rightarrow> bool" where
  "complete g p \<longleftrightarrow> set (profile_permissions p) \<subseteq> set (granted_permissions g) \<and> set (profile_origins p) \<subseteq> set (granted_origins g)"

lemma view_enabled:
  "view_state (profile_view_of g states p) = Enabled \<longleftrightarrow> complete g p \<and> list_all (\<lambda>d. map_option view_state
     (find (\<lambda>v. profile_id (view_profile v) = d) states) = Some Enabled) (profile_dependencies p)"
proof -
  have "(if b \<and> d then Enabled else if c then Partial else Disabled) = Enabled \<longleftrightarrow> b \<and> d" for b c d by simp
  moreover have "complete g p \<longleftrightarrow> list_all (\<lambda>x. x \<in> set (granted_permissions g)) (profile_permissions p)
      \<and> list_all (\<lambda>x. x \<in> set (granted_origins g)) (profile_origins p)"
    by (auto simp: complete_def list_all_iff)
  ultimately show ?thesis unfolding profile_view_of_def Let_def profile_view.simps all_counted by (simp only:)
qed

lemma profile_simps [simp]:
  "profile_id core = ''core''" "profile_id observe = ''observe''" "profile_id debug = ''debug''" "profile_id personal = ''personal''"
  "profile_dependencies core = []" "profile_dependencies observe = []" "profile_dependencies debug = []"
  "profile_dependencies personal = [''observe'']" "\<not> profile_optional core" "profile_optional observe" "profile_optional debug"
  "profile_optional personal"
  by (simp_all add: core_def observe_def debug_def personal_def)

lemma view_profile_of [simp]: "view_profile (profile_view_of g states p) = p"
  by (simp add: profile_view_of_def Let_def)

definition enabled :: "grants \<Rightarrow> string \<Rightarrow> bool" where
  "enabled g i \<longleftrightarrow> (\<exists>v\<in>set (permissionProfileStates g). profile_id (view_profile v) = i \<and> view_state v = Enabled)"

lemma enabled_iff:
  "enabled g i \<longleftrightarrow> (i = ''core'' \<and> complete g core) \<or> (i = ''observe'' \<and> complete g observe) \<or> (i = ''debug'' \<and> complete g debug)
     \<or> (i = ''personal'' \<and> complete g personal \<and> complete g observe)"
  by (auto simp: enabled_def permissionProfileStates_def PROFILE_DEFINITIONS_def view_enabled)

lemma DEFINITIONS_BY_ID_simps:
  "DEFINITIONS_BY_ID i = (if i = ''core'' then Some core else if i = ''observe'' then Some observe
     else if i = ''debug'' then Some debug else if i = ''personal'' then Some personal else None)"
  by (auto simp: DEFINITIONS_BY_ID_def PROFILE_DEFINITIONS_def)

lemma request_cases:
  assumes "permissionRequestFor i = Inr q"
  obtains "i = ''observe''" "set (granted_permissions q) = set (profile_permissions observe)"
      "set (granted_origins q) = set (profile_origins observe)"
    | "i = ''debug''" "set (granted_permissions q) = set (profile_permissions debug)"
      "set (granted_origins q) = set (profile_origins debug)"
    | "i = ''personal''" "set (granted_permissions q) = set (profile_permissions observe) \<union> set (profile_permissions personal)"
      "set (granted_origins q) = set (profile_origins observe) \<union> set (profile_origins personal)"
  using assms
  by (auto simp: permissionRequestFor_def requireOptionalProfile_def DEFINITIONS_BY_ID_simps PROFILE_DEFINITIONS_def
      eval_nat_numeral split: if_splits)

lemma removal_cases:
  "permissionRemovalFor i = Inr q \<Longrightarrow> \<exists>p\<in>{observe, debug, personal}. i = profile_id p
     \<and> granted_permissions q = profile_permissions p \<and> granted_origins q = profile_origins p"
  by (auto simp: permissionRemovalFor_def requireOptionalProfile_def DEFINITIONS_BY_ID_simps split: if_splits)

definition add_grants :: "grants \<Rightarrow> grants \<Rightarrow> grants" where
  "add_grants g q = \<lparr>granted_permissions = granted_permissions g @ granted_permissions q,
     granted_origins = granted_origins g @ granted_origins q\<rparr>"

definition remove_grants :: "grants \<Rightarrow> grants \<Rightarrow> grants" where
  "remove_grants g q = \<lparr>granted_permissions = filter (\<lambda>x. x \<notin> set (granted_permissions q)) (granted_permissions g),
     granted_origins = filter (\<lambda>x. x \<notin> set (granted_origins q)) (granted_origins g)\<rparr>"

lemma complete_mono: "complete g p \<Longrightarrow> complete (add_grants g q) p"
  by (auto simp: complete_def add_grants_def)

lemma request_returns: "p \<in> set PROFILE_DEFINITIONS \<Longrightarrow> profile_optional p \<Longrightarrow> returns (permissionRequestFor (profile_id p))"
proof -
  have "list_all (\<lambda>p. profile_optional p \<longrightarrow> returns (permissionRequestFor (profile_id p))) PROFILE_DEFINITIONS" by code_simp
  then show "p \<in> set PROFILE_DEFINITIONS \<Longrightarrow> profile_optional p \<Longrightarrow> returns (permissionRequestFor (profile_id p))"
    by (simp add: list_all_iff)
qed

text \<open>Granting what a profile requests enables the profile, whatever was granted before, and disables none.\<close>

theorem profile_request_enables:
  assumes "permissionRequestFor i = Inr q"
  shows "enabled (add_grants g q) i \<and> (enabled g j \<longrightarrow> enabled (add_grants g q) j)"
proof
  show "enabled (add_grants g q) i"
    using assms by (rule request_cases) (auto simp: enabled_iff complete_def add_grants_def)
  show "enabled g j \<longrightarrow> enabled (add_grants g q) j" by (auto simp: enabled_iff complete_mono)
qed

lemma profiles_disjoint:
  "list_all (\<lambda>p. list_all (\<lambda>q. profile_id p = profile_id q \<or> (list_all (\<lambda>x. x \<notin> set (profile_permissions q)) (profile_permissions p)
     \<and> list_all (\<lambda>x. x \<notin> set (profile_origins q)) (profile_origins p))) PROFILE_DEFINITIONS) PROFILE_DEFINITIONS"
  by code_simp

lemma complete_remove:
  assumes "p \<in> set PROFILE_DEFINITIONS" "p' \<in> set PROFILE_DEFINITIONS" "profile_id p' \<noteq> profile_id p"
    and "granted_permissions q = profile_permissions p" "granted_origins q = profile_origins p"
  shows "complete (remove_grants g q) p' = complete g p'"
  using assms profiles_disjoint unfolding complete_def remove_grants_def list_all_iff by auto

lemma not_complete_remove:
  assumes "p \<in> {observe, debug, personal}" "granted_permissions q = profile_permissions p"
  shows "\<not> complete (remove_grants g q) p"
proof -
  have "profile_permissions p \<noteq> []" using assms(1) by (auto simp: observe_def debug_def personal_def)
  then show ?thesis using assms(2) hd_in_set unfolding complete_def remove_grants_def by fastforce
qed

text \<open>The profiles' permissions are disjoint: withdrawing what a profile names disables it, and leaves the
  state of every profile that does not depend on it as it was.\<close>

theorem profile_removal_disables:
  assumes "permissionRemovalFor i = Inr q"
  shows "\<not> enabled (remove_grants g q) i
    \<and> (j \<noteq> i \<and> i \<notin> set (profile_dependencies (the (DEFINITIONS_BY_ID j))) \<longrightarrow> enabled (remove_grants g q) j = enabled g j)"
proof -
  obtain p where i: "i = profile_id p" "p \<in> {observe, debug, personal}" "granted_permissions q = profile_permissions p"
    "granted_origins q = profile_origins p"
    using removal_cases [OF assms] by blast
  note own = not_complete_remove [OF i(2,3)]
  have p: "p \<in> set PROFILE_DEFINITIONS" using i(2) by (auto simp: PROFILE_DEFINITIONS_def)
  have apart: "complete (remove_grants g q) p' = complete g p'"
    if "profile_id p' \<noteq> profile_id p" "p' \<in> {core, observe, debug, personal}" for p'
    by (rule complete_remove [OF p _ that(1) i(3,4)]) (use that(2) in \<open>auto simp: PROFILE_DEFINITIONS_def\<close>)
  from i(2) consider "p = observe" | "p = debug" | "p = personal" by blast
  then show ?thesis
    by cases (use own apart [of core] apart [of observe] apart [of debug] apart [of personal] i(1) in
      \<open>simp_all add: enabled_iff DEFINITIONS_BY_ID_simps\<close>)
qed

section \<open>What is offered\<close>

lemma only_iff [simp]: "c \<in> set (only b names) \<longleftrightarrow> b \<and> c \<in> set names"
  by (simp add: only_def)

definition grants_le :: "grants \<Rightarrow> grants \<Rightarrow> bool" where
  "grants_le g h \<longleftrightarrow> set (granted_permissions g) \<subseteq> set (granted_permissions h) \<and> set (granted_origins g) \<subseteq> set (granted_origins h)"

lemma only_mono: "(b \<Longrightarrow> b') \<Longrightarrow> (b \<Longrightarrow> set names \<subseteq> set names') \<Longrightarrow> set (only b names) \<subseteq> set (only b' names')"
  by (auto simp: only_def)

lemma has_mono: "grants_le g h \<Longrightarrow> has g x \<Longrightarrow> has h x"
  and origins_mono: "grants_le g h \<Longrightarrow> granted_origins g \<noteq> [] \<Longrightarrow> granted_origins h \<noteq> []"
  by (auto simp: grants_le_def)

definition too_old :: "jsstr \<Rightarrow> bool" where
  "too_old v \<longleftrightarrow> (case parseMajorVersion v of None \<Rightarrow> False | Some n \<Rightarrow> n < MINIMUM_BROWSER_VERSION)"

lemma detect_set:
  "set (detectCapabilities v a g f) =
     (if too_old v then {''browser.ping''}
      else insert ''browser.ping''
        (set (only (api_windows a) [''windows.list'', ''windows.get'', ''windows.create'', ''windows.update'', ''windows.focus'', ''windows.close''])
         \<union> set (only (api_tabs a \<and> has g ''tabs'') (tab_capabilities a g f))
         \<union> set (personal_capabilities (parseMajorVersion v) a g f)
         \<union> set (only (pageAutomation f \<noteq> Bool False \<and> api_scripting a \<and> api_webNavigation a \<and> has g ''scripting'' \<and> hasWebsiteAccess g)
                 (page_capabilities a g f))
         \<union> set (only (canResetEmulation a g) [''emulation.reset''])))"
proof -
  have last: "set (xs @ only (b \<and> c \<notin> set xs) [c]) = set xs \<union> set (only b [c])" for xs b and c :: string
    by (auto simp: only_def)
  have "set [''browser.ping''] \<union> X = insert ''browser.ping'' X" for X by simp
  then show ?thesis unfolding detectCapabilities_def Let_def too_old_def [symmetric]
    unfolding if_distrib [of set] last by (simp only: set_append Un_assoc list.set Un_insert_left Un_empty_left)
qed

text \<open>Every condition of the code is monotone in the APIs, the grants and the flags.\<close>

definition apis_le :: "apis \<Rightarrow> apis \<Rightarrow> bool" where
  "apis_le a b \<longleftrightarrow> (api_windows a \<longrightarrow> api_windows b) \<and> (api_tabs a \<longrightarrow> api_tabs b) \<and> (api_captureVisibleTab a \<longrightarrow> api_captureVisibleTab b)
     \<and> (api_debugger a \<longrightarrow> api_debugger b) \<and> (api_tabGrouping a \<longrightarrow> api_tabGrouping b) \<and> (api_tabGroups a \<longrightarrow> api_tabGroups b)
     \<and> (api_sessions a \<longrightarrow> api_sessions b) \<and> (api_downloads a \<longrightarrow> api_downloads b) \<and> (api_history a \<longrightarrow> api_history b)
     \<and> (api_bookmarks a \<longrightarrow> api_bookmarks b) \<and> (api_readingList a \<longrightarrow> api_readingList b) \<and> (api_cookies a \<longrightarrow> api_cookies b)
     \<and> (api_originStorage a \<longrightarrow> api_originStorage b) \<and> (api_scripting a \<longrightarrow> api_scripting b)
     \<and> (api_webNavigation a \<longrightarrow> api_webNavigation b) \<and> (api_frameTree a \<longrightarrow> api_frameTree b)"

definition flags_le :: "flags \<Rightarrow> flags \<Rightarrow> bool" where
  "flags_le f k \<longleftrightarrow> (pageAutomation f \<noteq> Bool False \<longrightarrow> pageAutomation k \<noteq> Bool False)
     \<and> (javascriptEvaluation f = Bool True \<longrightarrow> javascriptEvaluation k = Bool True) \<and> (rawCDP f = Bool True \<longrightarrow> rawCDP k = Bool True)
     \<and> (sensitiveData f = Bool True \<longrightarrow> sensitiveData k = Bool True)"

lemma apis_leD:
  assumes "apis_le a b"
  shows "api_windows a \<Longrightarrow> api_windows b" "api_tabs a \<Longrightarrow> api_tabs b" "api_captureVisibleTab a \<Longrightarrow> api_captureVisibleTab b"
    "api_debugger a \<Longrightarrow> api_debugger b" "api_tabGrouping a \<Longrightarrow> api_tabGrouping b" "api_tabGroups a \<Longrightarrow> api_tabGroups b"
    "api_sessions a \<Longrightarrow> api_sessions b" "api_downloads a \<Longrightarrow> api_downloads b" "api_history a \<Longrightarrow> api_history b"
    "api_bookmarks a \<Longrightarrow> api_bookmarks b" "api_readingList a \<Longrightarrow> api_readingList b" "api_cookies a \<Longrightarrow> api_cookies b"
    "api_originStorage a \<Longrightarrow> api_originStorage b" "api_scripting a \<Longrightarrow> api_scripting b" "api_webNavigation a \<Longrightarrow> api_webNavigation b"
    "api_frameTree a \<Longrightarrow> api_frameTree b"
  using assms by (simp_all add: apis_le_def)

lemma flags_leD:
  assumes "flags_le f k"
  shows "pageAutomation f \<noteq> Bool False \<Longrightarrow> pageAutomation k \<noteq> Bool False"
    "javascriptEvaluation f = Bool True \<Longrightarrow> javascriptEvaluation k = Bool True" "rawCDP f = Bool True \<Longrightarrow> rawCDP k = Bool True"
    "sensitiveData f = Bool True \<Longrightarrow> sensitiveData k = Bool True"
  using assms by (simp_all add: flags_le_def)

lemma set_append_mono: "set xs \<subseteq> set xs' \<Longrightarrow> set ys \<subseteq> set ys' \<Longrightarrow> set (xs @ ys) \<subseteq> set (xs' @ ys')"
  by auto

lemma tab_mono:
  assumes "apis_le a b" "grants_le g h" "flags_le f k"
  shows "set (tab_capabilities a g f) \<subseteq> set (tab_capabilities b h k)"
  unfolding tab_capabilities_def
  by (intro set_append_mono only_mono order_refl conjI; (elim conjE)?;
      rule apis_leD [OF assms(1)] has_mono [OF assms(2)] origins_mono [OF assms(2)] flags_leD [OF assms(3)]; assumption)

lemma personal_mono:
  assumes "apis_le a b" "grants_le g h" "flags_le f k"
  shows "set (personal_capabilities n a g f) \<subseteq> set (personal_capabilities n b h k)"
  unfolding personal_capabilities_def hasWebsiteAccess_def
  by (intro set_append_mono only_mono order_refl conjI; (elim conjE)?; assumption?;
      rule apis_leD [OF assms(1)] has_mono [OF assms(2)] origins_mono [OF assms(2)] flags_leD [OF assms(3)]; assumption)

lemma page_mono:
  assumes "apis_le a b" "grants_le g h" "flags_le f k"
  shows "set (page_capabilities a g f) \<subseteq> set (page_capabilities b h k)"
  unfolding page_capabilities_def
  by (intro set_append_mono only_mono order_refl conjI; (elim conjE)?;
      rule apis_leD [OF assms(1)] has_mono [OF assms(2)] origins_mono [OF assms(2)] flags_leD [OF assms(3)]; assumption)

lemma capabilities_mono:
  assumes "apis_le a b" "grants_le g h" "flags_le f k"
  shows "set (detectCapabilities v a g f) \<subseteq> set (detectCapabilities v b h k)"
proof (cases "too_old v")
  case False
  show ?thesis
    unfolding detect_set if_not_P [OF False] canResetEmulation_def hasWebsiteAccess_def
    by (intro insert_mono Un_mono only_mono order_refl conjI tab_mono [OF assms] personal_mono [OF assms] page_mono [OF assms];
        (elim conjE)?; rule apis_leD [OF assms(1)] has_mono [OF assms(2)] origins_mono [OF assms(2)] flags_leD [OF assms(3)]; assumption)
qed (simp add: detect_set)

text \<open>More APIs, permissions, origins or flags never take a command away.\<close>

theorem capabilities_monotone:
  assumes "apis_le a b" "grants_le g h" "flags_le f k"
  shows "set (detectCapabilities v a g f) \<subseteq> set (detectCapabilities v b h k)"
  by (rule capabilities_mono [OF assms])

text \<open>The permissions a domain of commands needs, by the part of a command's name before the dot, and the flag that a
  sensitive command needs.\<close>

definition domain_permissions :: "(string \<times> string list) list" where
  "domain_permissions =
    [(''browser'', []), (''windows'', []), (''tabs'', [''tabs'']), (''tabGroups'', [''tabs'', ''tabGroups'']), (''sessions'', [''sessions'']),
     (''cookies'', [''tabs'', ''cookies'']), (''storage'', [''tabs'', ''scripting'', ''browsingData'']), (''downloads'', [''downloads'']),
     (''history'', [''history'']), (''bookmarks'', [''bookmarks'']), (''readingList'', [''readingList'']), (''page'', [''scripting'']),
     (''console'', [''scripting'']), (''accessibility'', [''scripting'', ''debugger'']), (''emulation'', [''debugger'']),
     (''runtime'', [''scripting'', ''debugger'']), (''cdp'', [''scripting'', ''debugger'']),
     (''performance'', [''scripting'', ''debugger'']), (''network'', [''scripting'', ''debugger''])]"

definition needs :: "string \<Rightarrow> string list" where
  "needs c = (case map_of domain_permissions (takeWhile (\<lambda>x. x \<noteq> CHR 0x2E) c) of None \<Rightarrow> [[]] | Some ps \<Rightarrow> ps)"

definition sensitive_commands :: "(string \<times> (flags \<Rightarrow> jsval)) list" where
  "sensitive_commands =
    [(''cookies.listSensitive'', sensitiveData), (''cookies.getSensitive'', sensitiveData), (''storage.listSensitive'', sensitiveData),
     (''storage.getSensitive'', sensitiveData), (''runtime.evaluateIsolated'', javascriptEvaluation), (''cdp.sendReadOnly'', rawCDP)]"

definition permitted :: "grants \<Rightarrow> flags \<Rightarrow> string \<Rightarrow> bool" where
  "permitted g f c \<longleftrightarrow> set (needs c) \<subseteq> set (granted_permissions g)
     \<and> (\<forall>flag. map_of sensitive_commands c = Some flag \<longrightarrow> flag f = Bool True)"

definition needs_only :: "string list \<Rightarrow> string list \<Rightarrow> bool" where
  "needs_only ps names \<longleftrightarrow> list_all (\<lambda>c. list_all (\<lambda>x. x \<in> set ps) (needs c) \<and> map_of sensitive_commands c = None) names"

definition all_permitted :: "grants \<Rightarrow> flags \<Rightarrow> string list \<Rightarrow> bool" where
  "all_permitted g f names \<longleftrightarrow> list_all (permitted g f) names"

lemma permitted_group: "needs_only ps names \<Longrightarrow> set ps \<subseteq> set (granted_permissions g) \<Longrightarrow> all_permitted g f names"
  by (auto simp: needs_only_def permitted_def list_all_iff all_permitted_def)

lemma permitted_only: "(b \<Longrightarrow> all_permitted g f names) \<Longrightarrow> all_permitted g f (only b names)"
  by (simp add: only_def all_permitted_def)

lemma permitted_append: "all_permitted g f xs \<Longrightarrow> all_permitted g f ys \<Longrightarrow> all_permitted g f (xs @ ys)"
  by (simp add: all_permitted_def)

lemma sensitive_permitted:
  "sensitiveData f = Bool True \<and> has g ''tabs'' \<and> has g ''cookies'' \<Longrightarrow> all_permitted g f [''cookies.listSensitive'', ''cookies.getSensitive'']"
  "sensitiveData f = Bool True \<and> has g ''tabs'' \<and> has g ''scripting'' \<and> has g ''browsingData''
    \<Longrightarrow> all_permitted g f [''storage.listSensitive'', ''storage.getSensitive'']"
  "javascriptEvaluation f = Bool True \<and> has g ''scripting'' \<and> has g ''debugger'' \<Longrightarrow> all_permitted g f [''runtime.evaluateIsolated'']"
  "rawCDP f = Bool True \<and> has g ''scripting'' \<and> has g ''debugger'' \<Longrightarrow> all_permitted g f [''cdp.sendReadOnly'']"
  by (simp_all add: all_permitted_def permitted_def needs_def domain_permissions_def sensitive_commands_def)

lemma groups_need:
  "needs_only [] [''browser.ping'', ''windows.list'', ''windows.get'', ''windows.create'', ''windows.update'', ''windows.focus'', ''windows.close'']"
  "needs_only [''tabs''] [''tabs.list'', ''tabs.get'', ''tabs.create'', ''tabs.activate'', ''tabs.navigate'', ''tabs.reload'']"
  "needs_only [''tabs''] [''tabs.stop'']"
  "needs_only [''tabs''] [''tabs.back'', ''tabs.forward'', ''tabs.move'', ''tabs.duplicate'', ''tabs.close'', ''tabs.pin'', ''tabs.mute'', ''tabs.getZoom'', ''tabs.setZoom'']"
  "needs_only [''tabs''] [''tabs.group'', ''tabs.ungroup'']"
  "needs_only [''tabs'', ''tabGroups''] [''tabGroups.update'']"
  "needs_only [''sessions''] [''sessions.recentlyClosed'', ''sessions.restore'']"
  "needs_only [''tabs'', ''cookies''] [''cookies.list'', ''cookies.get'', ''cookies.set'', ''cookies.remove'']"
  "needs_only [''tabs'', ''scripting'', ''browsingData''] [''storage.list'', ''storage.get'', ''storage.set'', ''storage.remove'', ''storage.cacheMetadata'', ''storage.indexedDBMetadata'', ''storage.clear'']"
  "needs_only [''downloads''] [''downloads.list'', ''downloads.get'', ''downloads.create'', ''downloads.pause'', ''downloads.resume'', ''downloads.cancel'', ''downloads.erase'']"
  "needs_only [''history''] [''history.search'', ''history.getVisits'', ''history.deleteUrl'', ''history.deleteRange'', ''history.deleteAll'']"
  "needs_only [''bookmarks''] [''bookmarks.list'', ''bookmarks.create'', ''bookmarks.update'', ''bookmarks.move'', ''bookmarks.remove'']"
  "needs_only [''readingList''] [''readingList.list'', ''readingList.add'', ''readingList.update'', ''readingList.remove'']"
  "needs_only [''scripting''] [''page.info'']"
  "needs_only [''scripting''] [''page.getHTML'', ''page.getHTMLBySelector'', ''page.getText'', ''page.query'', ''page.getElement'', ''page.snapshot'', ''page.click'', ''page.fill'', ''page.hover'', ''page.focus'', ''page.blur'', ''page.type'', ''page.clear'', ''page.press'', ''page.select'', ''page.setChecked'', ''page.scroll'', ''page.drag'', ''page.dispatch'', ''page.submit'', ''page.wait'']"
  "needs_only [''scripting''] [''page.screenshot'']"
  "needs_only [''scripting'', ''debugger''] [''page.printToPDF'', ''accessibility.getTree'', ''emulation.set'', ''emulation.get'', ''emulation.reset'']"
  "needs_only [''debugger''] [''emulation.reset'']"
  "needs_only [''scripting'', ''debugger''] [''performance.metrics'', ''performance.capture'']"
  "needs_only [''scripting'', ''debugger''] [''network.start'', ''network.stop'', ''network.clear'', ''network.read'', ''network.getBody'', ''network.exportHAR'']"
  "needs_only [''scripting''] [''console.start'', ''console.stop'', ''console.clear'', ''console.read'']"
  by code_simp+

lemma groups_permitted:
  "has g ''tabs'' \<Longrightarrow> all_permitted g f (tab_capabilities a g f)"
  "all_permitted g f (personal_capabilities n a g f)"
  "has g ''scripting'' \<Longrightarrow> all_permitted g f (page_capabilities a g f)"
  unfolding tab_capabilities_def personal_capabilities_def page_capabilities_def
  by (intro permitted_append permitted_only; (rule groups_need [THEN permitted_group] sensitive_permitted; simp))+

lemma offered_permitted:
  assumes "c \<in> set (detectCapabilities v a g f)"
  shows "set (needs c) \<subseteq> set (granted_permissions g)
    \<and> (\<forall>flag. map_of sensitive_commands c = Some flag \<longrightarrow> flag f = Bool True)"
proof -
  have D: "all_permitted g f names \<Longrightarrow> c \<in> set names \<Longrightarrow> permitted g f c" for names
    by (simp add: all_permitted_def list_all_iff)
  have "permitted g f c"
  proof (cases "too_old v")
    case True
    then show ?thesis using assms by (simp add: detect_set permitted_def needs_def domain_permissions_def sensitive_commands_def)
  next
    case False
    have "all_permitted g f ([''browser.ping'', ''windows.list'', ''windows.get'', ''windows.create'', ''windows.update'', ''windows.focus'', ''windows.close'']
        @ only (api_tabs a \<and> has g ''tabs'') (tab_capabilities a g f) @ personal_capabilities (parseMajorVersion v) a g f
        @ only (pageAutomation f \<noteq> Bool False \<and> api_scripting a \<and> api_webNavigation a \<and> has g ''scripting'' \<and> hasWebsiteAccess g)
            (page_capabilities a g f)
        @ only (canResetEmulation a g) [''emulation.reset''])"
      by (intro permitted_append permitted_only groups_permitted; (rule groups_need [THEN permitted_group])?; simp add: canResetEmulation_def)
    moreover have "c \<in> set \<dots>" using assms False
      unfolding detect_set if_not_P [OF False] by auto
    ultimately show ?thesis by (rule D)
  qed
  then show ?thesis by (simp add: permitted_def)
qed

text \<open>The names of the table in its order, around those of the reading list.\<close>

definition names_before :: "string list" where
  "names_before =
  [''browser.ping'', ''windows.list'', ''windows.get'', ''windows.create'', ''windows.update'', ''windows.focus'',
     ''windows.close'', ''tabs.list'', ''tabs.get'', ''tabs.create'', ''tabs.activate'', ''tabs.navigate'', ''tabs.reload'',
     ''tabs.stop'', ''tabs.back'', ''tabs.forward'', ''tabs.move'', ''tabs.duplicate'', ''tabs.close'', ''tabs.pin'', ''tabs.mute'',
     ''tabs.getZoom'', ''tabs.setZoom'', ''tabs.group'', ''tabs.ungroup'', ''tabGroups.update'', ''sessions.recentlyClosed'',
     ''sessions.restore'', ''cookies.list'', ''cookies.get'', ''cookies.set'', ''cookies.remove'', ''cookies.listSensitive'',
     ''cookies.getSensitive'', ''storage.list'', ''storage.get'', ''storage.set'', ''storage.remove'', ''storage.cacheMetadata'',
     ''storage.indexedDBMetadata'', ''storage.clear'', ''storage.listSensitive'', ''storage.getSensitive'', ''downloads.list'',
     ''downloads.get'', ''downloads.create'', ''downloads.pause'', ''downloads.resume'', ''downloads.cancel'', ''downloads.erase'',
     ''history.search'', ''history.getVisits'', ''history.deleteUrl'', ''history.deleteRange'', ''history.deleteAll'',
     ''bookmarks.list'', ''bookmarks.create'', ''bookmarks.update'', ''bookmarks.move'', ''bookmarks.remove'']"

definition reading_list_names :: "string list" where
  "reading_list_names = [''readingList.list'', ''readingList.add'', ''readingList.update'', ''readingList.remove'']"

definition names_after :: "string list" where
  "names_after =
  [''page.info'', ''page.getHTML'', ''page.getHTMLBySelector'', ''page.getText'', ''page.query'', ''page.getElement'',
     ''page.snapshot'', ''page.click'', ''page.fill'', ''page.hover'', ''page.focus'', ''page.blur'', ''page.type'', ''page.clear'',
     ''page.press'', ''page.select'', ''page.setChecked'', ''page.scroll'', ''page.drag'', ''page.dispatch'', ''page.submit'',
     ''page.wait'', ''page.screenshot'', ''page.printToPDF'', ''accessibility.getTree'', ''emulation.set'', ''emulation.get'',
     ''emulation.reset'', ''runtime.evaluateIsolated'', ''cdp.sendReadOnly'', ''performance.metrics'', ''performance.capture'',
     ''network.start'', ''network.stop'', ''network.clear'', ''network.read'', ''network.getBody'', ''network.exportHAR'',
     ''console.start'', ''console.stop'', ''console.clear'', ''console.read'']"

lemma COMMAND_NAMES_list: "COMMAND_NAMES = names_before @ reading_list_names @ names_after"
  by (simp add: COMMAND_NAMES_def COMMANDS_def command_tables command_def names_before_def reading_list_names_def names_after_def)

definition all_apis :: "bool \<Rightarrow> apis" where
  "all_apis readingList = \<lparr>api_windows = True, api_tabs = True, api_captureVisibleTab = True, api_debugger = True, api_tabGrouping = True,
     api_tabGroups = True, api_sessions = True, api_downloads = True, api_history = True, api_bookmarks = True, api_readingList = readingList,
     api_cookies = True, api_originStorage = True, api_scripting = True, api_webNavigation = True, api_frameTree = True\<rparr>"

definition all_flags :: flags where
  "all_flags = \<lparr>pageAutomation = Bool True, javascriptEvaluation = Bool True, rawCDP = Bool True, sensitiveData = Bool True\<rparr>"

lemma detect_everything:
  assumes "\<not> too_old v" "\<forall>p\<in>set PROFILE_DEFINITIONS. complete h p"
  shows "detectCapabilities v (all_apis r) h all_flags = names_before
    @ only (r \<and> has h ''readingList'' \<and> (case parseMajorVersion v of None \<Rightarrow> True | Some n \<Rightarrow> n \<ge> 120)) reading_list_names @ names_after"
proof -
  have "\<forall>x\<in>set [''activeTab'', ''scripting'', ''tabs'', ''debugger'', ''browsingData'', ''cookies'', ''downloads'', ''history'', ''bookmarks'',
      ''sessions'', ''tabGroups'']. has h x" and "granted_origins h \<noteq> []"
    using assms(2) by (auto simp: complete_def PROFILE_DEFINITIONS_def core_def observe_def debug_def personal_def)
  then show ?thesis using assms(1)
    by (simp add: detectCapabilities_def Let_def too_old_def [symmetric] tab_capabilities_def personal_capabilities_def page_capabilities_def
        only_def all_apis_def all_flags_def hasWebsiteAccess_def canResetEmulation_def names_before_def reading_list_names_def names_after_def)
qed

text \<open>With every API and every feature flag on and every profile enabled, a supported browser is offered every
  command of the table, but for those of the reading list, whose permission is in no profile.\<close>

theorem capabilities_complete:
  assumes "\<not> too_old v" "\<forall>p\<in>set PROFILE_DEFINITIONS. enabled h (profile_id p)"
  shows "set COMMAND_NAMES - set reading_list_names \<subseteq> set (detectCapabilities v (all_apis r) h all_flags)"
proof -
  have "\<forall>p\<in>set PROFILE_DEFINITIONS. complete h p" using assms(2) by (auto simp: PROFILE_DEFINITIONS_def enabled_iff)
  then show ?thesis using assms(1) by (auto simp: detect_everything COMMAND_NAMES_list)
qed

lemma personal_any_version: "set (personal_capabilities n a g f) \<subseteq> set (personal_capabilities None a g f)"
  unfolding personal_capabilities_def
  by (intro set_append_mono only_mono order_refl) simp_all

lemma offered_known:
  assumes "c \<in> set (detectCapabilities v a g f)"
  shows "\<exists>d. (c, d) \<in> set COMMANDS \<and> hasHandler (cmd_domain d) (cmd_handler d)"
proof -
  define h where "h = \<lparr>granted_permissions = ''readingList'' # concat (map profile_permissions PROFILE_DEFINITIONS) @ granted_permissions g,
     granted_origins = concat (map profile_origins PROFILE_DEFINITIONS) @ granted_origins g\<rparr>"
  have supported: "\<not> too_old []" by (simp add: too_old_def parseMajorVersion_def)
  have "c \<in> set (detectCapabilities [] a g f)"
    using assms supported personal_any_version [of _ a g f] by (auto simp: detect_set parseMajorVersion_def split: if_splits)
  moreover have "apis_le a (all_apis True)" "grants_le g h" "flags_le f all_flags"
    by (auto simp: apis_le_def all_apis_def grants_le_def h_def flags_le_def all_flags_def)
  ultimately have "c \<in> set (detectCapabilities [] (all_apis True) h all_flags)" using capabilities_mono by blast
  moreover have "\<forall>p\<in>set PROFILE_DEFINITIONS. complete h p" by (auto simp: complete_def h_def)
  ultimately have "c \<in> set COMMAND_NAMES" by (auto simp: detect_everything supported COMMAND_NAMES_list only_def split: if_splits)
  then obtain d where "(c, d) \<in> set COMMANDS" by (auto simp: COMMAND_NAMES_def)
  then show ?thesis using routes_registered by (fastforce simp: list_all_iff)
qed

text \<open>A command that is offered is one of the table and has a registered handler; the permissions of its domain
  are granted; and if it is one of the sensitive ones, its feature flag is on.\<close>

theorem capabilities_sound:
  assumes "c \<in> set (detectCapabilities v a g f)"
  shows "(\<exists>d. (c, d) \<in> set COMMANDS \<and> hasHandler (cmd_domain d) (cmd_handler d)) \<and> set (needs c) \<subseteq> set (granted_permissions g)
    \<and> (\<forall>flag. map_of sensitive_commands c = Some flag \<longrightarrow> flag f = Bool True)"
  using offered_known [OF assms] offered_permitted [OF assms] by blast

section \<open>Witnesses\<close>

definition no_grants :: grants where
  "no_grants = \<lparr>granted_permissions = [], granted_origins = []\<rparr>"

definition debug_grants :: grants where
  "debug_grants = \<lparr>granted_permissions = [''tabs'', ''scripting'', ''debugger''], granted_origins = [''https://a.b/*'']\<rparr>"

definition some_apis :: apis where
  "some_apis = (all_apis False)\<lparr>api_windows := False, api_frameTree := False\<rparr>"

theorem profile_request_enables_witness:
  "\<exists>q. permissionRequestFor ''personal'' = Inr q \<and> enabled (add_grants no_grants q) ''personal''"
proof -
  have "returns (permissionRequestFor ''personal'')" by code_simp
  then obtain q where "permissionRequestFor ''personal'' = Inr q" by (cases "permissionRequestFor ''personal''") auto
  then show ?thesis using profile_request_enables by blast
qed

theorem profile_removal_disables_witness:
  "\<exists>q. permissionRemovalFor ''observe'' = Inr q \<and> \<not> enabled (remove_grants debug_grants q) ''observe''
     \<and> enabled (remove_grants debug_grants q) ''debug''"
proof -
  have "returns (permissionRemovalFor ''observe'')" by code_simp
  then obtain q where q: "permissionRemovalFor ''observe'' = Inr q" by (cases "permissionRemovalFor ''observe''") auto
  have "enabled debug_grants ''debug''" by (simp add: enabled_iff complete_def debug_grants_def debug_def)
  moreover have "''observe'' \<notin> set (profile_dependencies (the (DEFINITIONS_BY_ID ''debug'')))" by (simp add: DEFINITIONS_BY_ID_simps)
  ultimately show ?thesis using q profile_removal_disables [OF q, of debug_grants "''debug''"] by (intro exI [of _ q]) simp
qed

theorem capabilities_monotone_witness:
  "set (detectCapabilities [] some_apis no_grants all_flags) \<subseteq> set (detectCapabilities [] (all_apis True) debug_grants all_flags)"
  by (rule capabilities_monotone)
    (simp_all add: apis_le_def some_apis_def all_apis_def grants_le_def no_grants_def flags_le_def)

theorem capabilities_complete_witness:
  "set COMMAND_NAMES - set reading_list_names \<subseteq> set (detectCapabilities [] (all_apis True)
     \<lparr>granted_permissions = concat (map profile_permissions PROFILE_DEFINITIONS),
      granted_origins = concat (map profile_origins PROFILE_DEFINITIONS)\<rparr> all_flags)"
  by (rule capabilities_complete)
    (auto simp: too_old_def parseMajorVersion_def enabled_iff complete_def PROFILE_DEFINITIONS_def)

theorem capabilities_sound_witness: "set (needs ''cdp.sendReadOnly'') \<subseteq> set (granted_permissions debug_grants) \<and> rawCDP all_flags = Bool True"
proof -
  have "''cdp.sendReadOnly'' \<in> set (detectCapabilities [] some_apis debug_grants all_flags)" by code_simp
  from capabilities_sound [OF this] show ?thesis by (simp add: sensitive_commands_def)
qed

end
