(* ===== verification/Paging.thy ===== *)
theory Paging
  imports Handler_Support Network_Redaction "HOL-Library.Multiset"
begin

text \<open>
  Lists that are handed out page by page: a request names how many items it wants and a cursor, the number of items
  already seen; a result names the cursor to go on with, or the empty string.
\<close>

section \<open>Pages\<close>

definition page_offset :: "jsval \<Rightarrow> nat" where
  "page_offset cursor = (if truthy cursor then dec_value (str_of cursor) else 0)"

text \<open>The number of a numeric limit.\<close>

definition page_limit :: "jsval \<Rightarrow> nat" where
  "page_limit v = nat \<lfloor>case num_of v of Fin r \<Rightarrow> r | _ \<Rightarrow> 0\<rfloor>"

definition page_items :: "nat \<Rightarrow> jsval \<Rightarrow> 'a list \<Rightarrow> 'a list" where
  "page_items limit cursor items = take limit (drop (page_offset cursor) items)"

definition page_next :: "nat \<Rightarrow> jsval \<Rightarrow> 'a list \<Rightarrow> jsstr" where
  "page_next limit cursor items =
     (let reached = page_offset cursor + length (page_items limit cursor items)
      in if reached < length items then show_nat reached else [])"

section \<open>Sorting\<close>

text \<open>\<open>xs.sort(compare)\<close> is stable; \<open>before x y\<close> says that the comparison of \<open>x\<close> with \<open>y\<close> is negative.\<close>

fun insert_by :: "('a \<Rightarrow> 'a \<Rightarrow> bool) \<Rightarrow> 'a \<Rightarrow> 'a list \<Rightarrow> 'a list" where
  "insert_by before x [] = [x]"
| "insert_by before x (y # ys) = (if before y x then y # insert_by before x ys else x # y # ys)"

definition sort_by :: "('a \<Rightarrow> 'a \<Rightarrow> bool) \<Rightarrow> 'a list \<Rightarrow> 'a list" where
  "sort_by before xs = foldr (insert_by before) xs []"

lemma mset_insert_by: "mset (insert_by before x ys) = add_mset x (mset ys)"
  by (induction ys) auto

lemma mset_sort_by: "mset (sort_by before xs) = mset xs"
  unfolding sort_by_def by (induction xs) (simp_all add: mset_insert_by)

lemma set_sort_by [simp]: "set (sort_by before xs) = set xs"
  by (rule mset_eq_setD [OF mset_sort_by])

lemma length_sort_by [simp]: "length (sort_by before xs) = length xs"
  by (rule mset_eq_length [OF mset_sort_by])

lemma insert_by_sorted:
  assumes total: "\<And>x y. P x \<Longrightarrow> P y \<Longrightarrow> before y x \<Longrightarrow> \<not> before x y"
    and trans: "\<And>x y z. P x \<Longrightarrow> P y \<Longrightarrow> P z \<Longrightarrow> \<not> before y x \<Longrightarrow> \<not> before z y \<Longrightarrow> \<not> before z x"
  shows "sorted_wrt (\<lambda>a b. \<not> before b a) ys \<Longrightarrow> P x \<Longrightarrow> list_all P ys \<Longrightarrow> sorted_wrt (\<lambda>a b. \<not> before b a) (insert_by before x ys)"
proof (induction ys)
  case (Cons y ys)
  have elems: "set (insert_by before x ys) = insert x (set ys)"
    using mset_eq_setD [of "insert_by before x ys" "x # ys"] by (simp add: mset_insert_by)
  show ?case
  proof (cases "before y x")
    case True
    then show ?thesis using Cons total [of x y] by (auto simp: elems)
  next
    case False
    have "\<not> before z x" if "z \<in> set ys" for z
      using trans [of x y z] False Cons.prems that by (auto simp: list_all_iff)
    then show ?thesis using Cons.prems False by auto
  qed
qed simp

lemma sorted_sort_by:
  assumes "\<And>x y. P x \<Longrightarrow> P y \<Longrightarrow> before y x \<Longrightarrow> \<not> before x y"
    and "\<And>x y z. P x \<Longrightarrow> P y \<Longrightarrow> P z \<Longrightarrow> \<not> before y x \<Longrightarrow> \<not> before z y \<Longrightarrow> \<not> before z x"
    and "list_all P xs"
  shows "sorted_wrt (\<lambda>a b. \<not> before b a) (sort_by before xs)"
  using assms(3) unfolding sort_by_def
proof (induction xs)
  case (Cons x xs)
  have "list_all P (sort_by before xs)" using Cons.prems by (simp add: list_all_iff)
  then have "list_all P (foldr (insert_by before) xs [])" by (simp add: sort_by_def)
  moreover have "P x" "sorted_wrt (\<lambda>a b. \<not> before b a) (foldr (insert_by before) xs [])" using Cons by simp_all
  ultimately show ?case unfolding foldr.simps comp_apply
    by (intro insert_by_sorted [where P = P, OF assms(1) assms(2)])
qed simp

section \<open>Reading on\<close>

text \<open>\<open>xs.map(f)\<close> of a function that throws.\<close>

fun map_res :: "('a \<Rightarrow> 'b res) \<Rightarrow> 'a list \<Rightarrow> 'b list res" where
  "map_res f [] = Inr []"
| "map_res f (x # xs) = bind_res (f x) (\<lambda>y. bind_res (map_res f xs) (\<lambda>ys. Inr (y # ys)))"

lemma map_res_Inr: "map_res f xs = Inr ys \<Longrightarrow> length ys = length xs \<and> (\<forall>y\<in>set ys. \<exists>x\<in>set xs. f x = Inr y)"
  by (induction xs arbitrary: ys) (fastforce simp: bind_res_Inr)+

text \<open>The next request has the cursor that the last result gave.\<close>

definition with_cursor :: "jsval \<Rightarrow> jsstr \<Rightarrow> jsval" where
  "with_cursor params c = Obj (assoc_set (lit ''cursor'') (Str c) (members params))"

fun pages :: "(jsval \<Rightarrow> nat) \<Rightarrow> nat \<Rightarrow> jsval \<Rightarrow> 'a list \<Rightarrow> 'a list list" where
  "pages limit 0 params items = []"
| "pages limit (Suc n) params items = page_items (limit params) (getp params ''cursor'') items #
     (let c = page_next (limit params) (getp params ''cursor'') items
      in if c = [] then [] else pages limit n (with_cursor params c) items)"

lemma getp_with_cursor:
  "isObject params \<Longrightarrow> getp (with_cursor params c) k = (if k = ''cursor'' then Str c else getp params k)"
  by (cases params) (auto simp: with_cursor_def getp_def map_of_assoc_set isObject_def members_def)

lemma object_with_cursor [simp]: "isObject (with_cursor params c)"
  by (simp add: with_cursor_def isObject_def)

lemma keys_with_cursor: "isObject params \<Longrightarrow> set (object_keys (with_cursor params c)) = insert (lit ''cursor'') (set (object_keys params))"
  by (cases params) (auto simp: with_cursor_def set_assoc_set isObject_def members_def simp del: set_map)

lemma page_limit_of_nat [simp]: "page_limit (jnum (of_nat n)) = n"
  by (simp add: page_limit_def)

text \<open>What a list command promises: its parameters are an object with a positive limit, and stay valid with a cursor within
  the bound.\<close>

locale paged =
  fixes valid :: "jsval \<Rightarrow> bool" and limit :: "jsval \<Rightarrow> nat" and bound :: nat
  assumes valid_object: "valid params \<Longrightarrow> isObject params"
    and valid_limit: "valid params \<Longrightarrow> 1 \<le> limit params"
    and cursor_limit: "valid params \<Longrightarrow> limit (with_cursor params c) = limit params"
    and cursor_valid: "valid params \<Longrightarrow> 1 \<le> k \<Longrightarrow> k < bound \<Longrightarrow> valid (with_cursor params (show_nat k))"
begin

lemma next_valid:
  assumes "valid params" and "length items \<le> bound" and c: "page_next (limit params) (getp params ''cursor'') items \<noteq> []"
  shows "valid (with_cursor params (page_next (limit params) (getp params ''cursor'') items))"
proof -
  let ?k = "page_offset (getp params ''cursor'') + length (page_items (limit params) (getp params ''cursor'') items)"
  have k: "?k < length items" "page_next (limit params) (getp params ''cursor'') items = show_nat ?k"
    using c by (auto simp: page_next_def Let_def split: if_splits)
  have "1 \<le> ?k" using valid_limit [OF assms(1)] k(1) by (simp add: page_items_def)
  then show ?thesis unfolding k(2) by (rule cursor_valid [OF assms(1)]) (use k(1) assms(2) in simp)
qed

lemma pages_from:
  assumes "valid params" and "length items \<le> bound"
    and "length items - page_offset (getp params ''cursor'') \<le> n" "0 < n" "page_offset (getp params ''cursor'') \<le> length items"
  shows "concat (pages limit n params items) = drop (page_offset (getp params ''cursor'')) items"
  using assms
proof (induction n arbitrary: params)
  case (Suc n)
  let ?o = "page_offset (getp params ''cursor'')" and ?cursor = "getp params ''cursor''"
  note valid = Suc.prems(1) and object = valid_object [OF Suc.prems(1)]
  have page: "page_items (limit params) ?cursor items = take (limit params) (drop ?o items)" by (simp add: page_items_def)
  show ?case
  proof (cases "?o + length (page_items (limit params) ?cursor items) < length items")
    case True
    let ?c = "show_nat (?o + length (page_items (limit params) ?cursor items))"
    have c: "page_next (limit params) ?cursor items = ?c" using True by (simp add: page_next_def)
    have len: "length (page_items (limit params) ?cursor items) = limit params" using True by (auto simp: page)
    have offset: "page_offset (getp (with_cursor params ?c) ''cursor'') = ?o + limit params"
      using digits_show(2) by (simp add: getp_with_cursor [OF object] page_offset_def dec_value_show_nat len)
    have "valid (with_cursor params ?c)"
      using next_valid [OF valid Suc.prems(2)] c digits_show(2) by metis
    then have rest: "concat (pages limit n (with_cursor params ?c) items) = drop (?o + limit params) items"
      using Suc.IH [of "with_cursor params ?c"] Suc.prems True len offset valid_limit [OF valid] by simp
    have "concat (pages limit (Suc n) params items) = page_items (limit params) ?cursor items @ drop (?o + limit params) items"
      by (simp only: pages.simps c Let_def digits_show(2) if_False concat.simps rest)
    then show ?thesis unfolding page using append_take_drop_id [of "limit params" "drop ?o items"] by (simp add: add.commute)
  next
    case False
    then have "page_next (limit params) ?cursor items = []" by (simp add: page_next_def)
    then show ?thesis using False by (auto simp: page)
  qed
qed simp

text \<open>Who follows the cursors sees every item exactly once, in order, and every request on the way is valid.\<close>

lemma pages_complete:
  assumes "valid params" and "getp params ''cursor'' = Undefined" and "length items \<le> bound"
  shows "concat (pages limit (Suc (length items)) params items) = items"
  using pages_from [of params items "Suc (length items)"] assms by (simp add: page_offset_def)

end

end
