(* ===== verification/Cookies.thy ===== *)
theory Cookies
  imports Paging Data_Commands
begin

text \<open>
  The cookie handlers (\<open>chrome-extension/src/handlers/cookies.js\<close>): the checks of parameters, the target (a tab, its
  origin, root document and cookie store), what the browser is asked, and the cookies that are returned.
\<close>

section \<open>Checks\<close>

definition DEFAULT_TIMEOUT_MS :: rat where "DEFAULT_TIMEOUT_MS = 30000"
definition MAX_TIMEOUT_MS :: rat where "MAX_TIMEOUT_MS = 120000"
definition MAX_COOKIES :: rat where "MAX_COOKIES = 200"
definition MAX_SCAN_COOKIES :: nat where "MAX_SCAN_COOKIES = 10000"
definition MAX_NAME_BYTES :: nat where "MAX_NAME_BYTES = 256"
definition MAX_VALUE_BYTES :: nat where "MAX_VALUE_BYTES = 4096"
definition MAX_DOMAIN_BYTES :: nat where "MAX_DOMAIN_BYTES = 253"
definition MAX_PATH_BYTES :: nat where "MAX_PATH_BYTES = 2048"
definition MAX_STORE_ID_BYTES :: nat where "MAX_STORE_ID_BYTES = 256"
definition SAME_SITE :: "string list" where "SAME_SITE = [''no_restriction'', ''lax'', ''strict'', ''unspecified'']"

abbreviation invalidCookieParams :: "string \<Rightarrow> exn" where
  "invalidCookieParams message \<equiv> invalid message"

definition invalidCookieResult :: exn where
  "invalidCookieResult = invalid ''The browser returned an invalid cookie result''"

definition hasControl :: "jsstr \<Rightarrow> bool" where
  "hasControl value \<longleftrightarrow> list_ex (\<lambda>code. code < 32 \<or> code = 127) (code_points value)"

definition assertObject :: "jsval \<Rightarrow> string list \<Rightarrow> unit res" where
  "assertObject value allowedKeys =
     throw_if (\<not> isObject value \<or> list_ex (\<lambda>key. key \<notin> set (map lit allowedKeys)) (object_keys value))
       (invalidCookieParams ''Cookie parameters have an invalid shape'')"

definition validateOptionalBoolean :: "jsval \<Rightarrow> string \<Rightarrow> unit res" where
  "validateOptionalBoolean value path =
     throw_if (value \<noteq> Undefined \<and> \<not> is_boolean value) (invalidCookieParams (path @ '' must be a boolean''))"

definition parseHTTPURL :: "platform \<Rightarrow> jsval \<Rightarrow> string \<Rightarrow> url res" where
  "parseHTTPURL P value message =
     (case parseURL P value of
        None \<Rightarrow> Inl (invalidCookieParams message)
      | Some parsed \<Rightarrow>
          if \<not> web_protocol parsed \<or> url_username parsed \<noteq> [] \<or> url_password parsed \<noteq> [] \<or> url_hash parsed \<noteq> []
             \<or> length (string_of P value) > 8192
          then Inl (invalidCookieParams message) else Inr parsed)"

text \<open>\<open>/^[a-z0-9](?:[a-z0-9-]*[a-z0-9])?$/\<close>.\<close>

definition valid_label :: "jsstr \<Rightarrow> bool" where
  "valid_label label \<longleftrightarrow> label \<noteq> [] \<and> length label \<le> 63
     \<and> (let inner = (\<lambda>u. is_lower u \<or> is_digit u) in inner (hd label) \<and> inner (last label) \<and> list_all (\<lambda>u. inner u \<or> u = 0x2D) label)"

definition validHostname :: "jsstr \<Rightarrow> bool" where
  "validHostname value \<longleftrightarrow> value \<noteq> [] \<and> hd value \<noteq> 0x2E \<and> last value \<noteq> 0x2E \<and> list_all valid_label (split_when (\<lambda>u. u = 0x2E) value)"

definition validateDomain :: "platform \<Rightarrow> jsval \<Rightarrow> jsstr \<Rightarrow> bool \<Rightarrow> unit res" where
  "validateDomain P value urlHost optional =
     (if value = Undefined \<and> optional then ok
      else let text = str_of value; lower = toLowerCase P text; host = (if prefix (lit ''.'') lower then tl lower else lower)
        in checks [
          throw_if (\<not> is_string value \<or> text \<noteq> trim text \<or> utf8_length text > MAX_DOMAIN_BYTES)
            (invalidCookieParams ''Cookie domain is invalid''),
          throw_if (\<not> validHostname host \<or> \<not> (urlHost = host \<or> suffix (lit ''.'' @ host) urlHost))
            (invalidCookieParams ''Cookie domain must contain the URL host or a parent domain'')])"

definition validateCookieName :: "jsval \<Rightarrow> string \<Rightarrow> unit res" where
  "validateCookieName value path =
     throw_if (\<not> is_string value \<or> utf8_length (str_of value) = 0 \<or> utf8_length (str_of value) > MAX_NAME_BYTES
         \<or> \<not> list_all is_cookie_unit (str_of value))
       (invalidCookieParams (path @ '' is invalid''))"

definition validatePath :: "jsval \<Rightarrow> unit res" where
  "validatePath value =
     throw_if (\<not> is_string value \<or> \<not> prefix (lit ''/'') (str_of value) \<or> utf8_length (str_of value) > MAX_PATH_BYTES
         \<or> hasControl (str_of value) \<or> sublist (lit '';'') (str_of value))
       (invalidCookieParams ''Cookie path is invalid'')"

definition safeStoreId :: "jsval \<Rightarrow> bool" where
  "safeStoreId value \<longleftrightarrow> is_string value \<and> utf8_length (str_of value) \<le> MAX_STORE_ID_BYTES \<and> \<not> hasControl (str_of value)"

definition validateStoreId :: "jsval \<Rightarrow> unit res" where
  "validateStoreId value = throw_if (value \<noteq> Undefined \<and> \<not> safeStoreId value) (invalidCookieParams ''Cookie storeId is invalid'')"

definition validatePartitionKey :: "platform \<Rightarrow> jsval \<Rightarrow> jsstr \<Rightarrow> unit res" where
  "validatePartitionKey P value origin =
     (if value = Undefined then ok
      else bind_res (assertObject value [''topLevelSite'', ''hasCrossSiteAncestor'']) (\<lambda>_.
        bind_res (parseHTTPURL P (getp value ''topLevelSite'') ''partitionKey.topLevelSite is invalid'') (\<lambda>site. checks [
          throw_if (url_origin site \<noteq> origin \<or> (url_pathname site \<noteq> lit ''/'' \<and> url_pathname site \<noteq> []) \<or> url_search site \<noteq> [])
            (invalidCookieParams ''partitionKey.topLevelSite must exactly match the selected URL origin''),
          validateOptionalBoolean (getp value ''hasCrossSiteAncestor'') ''partitionKey.hasCrossSiteAncestor''])))"

definition invalid_cursor :: "jsval \<Rightarrow> bool" where
  "invalid_cursor cursor \<longleftrightarrow> cursor \<noteq> Undefined \<and> (\<not> is_string cursor \<or> \<not> digit_string (str_of cursor)
     \<or> (of_nat (dec_value (str_of cursor)) :: rat) > MAX_SAFE_INTEGER \<or> dec_value (str_of cursor) < 1)"

definition validateListParams :: "platform \<Rightarrow> jsval \<Rightarrow> unit res" where
  "validateListParams P params =
     bind_res (assertObject params [''url'', ''domain'', ''name'', ''path'', ''secure'', ''session'', ''storeId'', ''partitionKey'',
       ''cursor'', ''limit'']) (\<lambda>_.
     bind_res (parseHTTPURL P (getp params ''url'') ''params.url must be an HTTP(S) URL'') (\<lambda>parsed. checks [
       validateDomain P (getp params ''domain'') (url_hostname parsed) True,
       only_if (getp params ''name'' \<noteq> Undefined) (validateCookieName (getp params ''name'') ''params.name''),
       only_if (getp params ''path'' \<noteq> Undefined) (validatePath (getp params ''path'')),
       validateOptionalBoolean (getp params ''secure'') ''params.secure'',
       validateOptionalBoolean (getp params ''session'') ''params.session'',
       validateStoreId (getp params ''storeId''),
       validatePartitionKey P (getp params ''partitionKey'') (url_origin parsed),
       throw_if (invalid_cursor (getp params ''cursor'')) (invalidCookieParams ''params.cursor is invalid''),
       throw_if (\<not> is_integer (getp params ''limit'') \<or> less_than (getp params ''limit'') 1
           \<or> greater_than (getp params ''limit'') MAX_COOKIES)
         (invalidCookieParams ''params.limit is outside the supported range'')]))"

definition validateIdentityParams :: "platform \<Rightarrow> jsval \<Rightarrow> unit res" where
  "validateIdentityParams P params =
     bind_res (assertObject params [''url'', ''name'', ''storeId'', ''partitionKey'']) (\<lambda>_.
     bind_res (parseHTTPURL P (getp params ''url'') ''params.url must be an HTTP(S) URL'') (\<lambda>parsed. checks [
       validateCookieName (getp params ''name'') ''params.name'',
       validateStoreId (getp params ''storeId''),
       validatePartitionKey P (getp params ''partitionKey'') (url_origin parsed)]))"

definition validateSetParams :: "platform \<Rightarrow> jsval \<Rightarrow> unit res" where
  "validateSetParams P params =
     bind_res (assertObject params [''url'', ''name'', ''value'', ''domain'', ''path'', ''secure'', ''httpOnly'', ''sameSite'',
       ''expirationDate'', ''storeId'', ''partitionKey'']) (\<lambda>_.
     bind_res (parseHTTPURL P (getp params ''url'') ''params.url must be an HTTP(S) URL'') (\<lambda>parsed. checks [
       validateCookieName (getp params ''name'') ''params.name'',
       throw_if (\<not> is_string (getp params ''value'') \<or> utf8_length (str_of (getp params ''value'')) > MAX_VALUE_BYTES
           \<or> hasControl (str_of (getp params ''value'')) \<or> sublist (lit '';'') (str_of (getp params ''value'')))
         (invalidCookieParams ''params.value is invalid or exceeds 4096 bytes''),
       validateDomain P (getp params ''domain'') (url_hostname parsed) True,
       only_if (getp params ''path'' \<noteq> Undefined) (validatePath (getp params ''path'')),
       validateOptionalBoolean (getp params ''secure'') ''params.secure'',
       validateOptionalBoolean (getp params ''httpOnly'') ''params.httpOnly'',
       throw_if (getp params ''sameSite'' \<noteq> Undefined \<and> \<not> js_includes SAME_SITE (getp params ''sameSite''))
         (invalidCookieParams ''params.sameSite is unsupported''),
       throw_if (getp params ''sameSite'' = jstr ''no_restriction'' \<and> getp params ''secure'' \<noteq> Bool True)
         (invalidCookieParams ''SameSite=None requires secure=true''),
       throw_if (getp params ''expirationDate'' \<noteq> Undefined
           \<and> (\<not> is_finite (getp params ''expirationDate'') \<or> \<not> greater_than (getp params ''expirationDate'') 0))
         (invalidCookieParams ''params.expirationDate must be a positive finite timestamp''),
       validateStoreId (getp params ''storeId''),
       validatePartitionKey P (getp params ''partitionKey'') (url_origin parsed)]))"

definition validateTimeout :: "jsval \<Rightarrow> jsval res" where
  "validateTimeout value =
     (let timeout = js_or value (jnum DEFAULT_TIMEOUT_MS)
      in if \<not> is_integer timeout \<or> less_than timeout 1 \<or> greater_than timeout MAX_TIMEOUT_MS
         then Inl (invalidCookieParams ''Cookie timeout is outside the supported range'') else Inr timeout)"

section \<open>Results\<close>

record cookie_target =
  t_tab :: jsval
  t_origin :: jsstr
  t_documentId :: jsval
  t_storeId :: jsval

definition oversized_warning :: string where
  "oversized_warning = ''One or more oversized cookie values were omitted''"

text \<open>The cookie and the warnings it adds.\<close>

definition mapCookie :: "platform \<Rightarrow> jsval \<Rightarrow> bool \<Rightarrow> cookie_target \<Rightarrow> (jsval \<times> jsval list) res" where
  "mapCookie P cookie sensitive target =
     (let value = str_of (getp cookie ''value''); valueLength = utf8_length value;
          valueIncluded = (sensitive \<and> valueLength \<le> MAX_VALUE_BYTES); isSession = truthy (getp cookie ''session'')
      in bind_res (throw_if (\<not> truthy cookie \<or> \<not> typeof_object cookie) invalidCookieResult) (\<lambda>_.
         bind_res (validateCookieName (getp cookie ''name'') ''cookie.name'') (\<lambda>_.
         bind_res (case parseURL P (Str (t_origin target)) of
             None \<Rightarrow> Inl (ForeignError (obj [(''name'', jstr ''TypeError''), (''message'', jstr ''Invalid URL'')]))
           | Some parsed \<Rightarrow> validateDomain P (getp cookie ''domain'') (url_hostname parsed) False) (\<lambda>_.
         bind_res (checks [
           validatePath (getp cookie ''path''),
           validateStoreId (getp cookie ''storeId''),
           throw_if (\<not> js_includes SAME_SITE (getp cookie ''sameSite'') \<or> \<not> is_string (getp cookie ''value'') \<or> hasControl value)
             invalidCookieResult,
           throw_if (valueLength > 1000000) invalidCookieResult,
           throw_if (\<not> isSession \<and> (\<not> is_finite (getp cookie ''expirationDate'') \<or> \<not> greater_than (getp cookie ''expirationDate'') 0))
             invalidCookieResult,
           only_if (getp cookie ''partitionKey'' \<noteq> Undefined) (validatePartitionKey P (getp cookie ''partitionKey'') (t_origin target))]) (\<lambda>_.
         Inr (obj ([(''name'', getp cookie ''name''),
             (''value'', if valueIncluded then Str value else if sensitive then jstr ''[OMITTED]'' else jstr ''[MASKED]''),
             (''valueIncluded'', Bool valueIncluded),
             (''valueLength'', jnum (of_nat valueLength)),
             (''domain'', Str (toLowerCase P (str_of (getp cookie ''domain'')))),
             (''hostOnly'', Bool (truthy (getp cookie ''hostOnly''))),
             (''path'', getp cookie ''path''),
             (''secure'', Bool (truthy (getp cookie ''secure''))),
             (''httpOnly'', Bool (truthy (getp cookie ''httpOnly''))),
             (''sameSite'', getp cookie ''sameSite''),
             (''session'', Bool isSession),
             (''storeId'', getp cookie ''storeId'')]
             @ (if isSession then [] else [(''expirationDate'', getp cookie ''expirationDate'')])
             @ (if getp cookie ''partitionKey'' = Undefined then [] else [(''partitionKey'', obj (
                 [(''topLevelSite'', case parseURL P (getp (getp cookie ''partitionKey'') ''topLevelSite'') of
                     None \<Rightarrow> Undefined | Some site \<Rightarrow> Str (url_origin site))]
                 @ (if getp (getp cookie ''partitionKey'') ''hasCrossSiteAncestor'' = Undefined then []
                    else [(''hasCrossSiteAncestor'', getp (getp cookie ''partitionKey'') ''hasCrossSiteAncestor'')])))])),
           if valueLength > MAX_VALUE_BYTES then [jstr oversized_warning] else []))))))"

text \<open>The mapped cookies, in order, and all warnings; the first cookie that does not fit throws.\<close>

fun map_cookies :: "platform \<Rightarrow> bool \<Rightarrow> cookie_target \<Rightarrow> jsval list \<Rightarrow> (jsval list \<times> jsval list) res" where
  "map_cookies P sensitive target [] = Inr ([], [])"
| "map_cookies P sensitive target (cookie # cookies) =
     bind_res (mapCookie P cookie sensitive target) (\<lambda>(mapped, ws).
     bind_res (map_cookies P sensitive target cookies) (\<lambda>(rest, vs). Inr (mapped # rest, ws @ vs)))"

definition cookieResult :: "platform \<Rightarrow> string \<Rightarrow> cookie_target \<Rightarrow> jsval list \<Rightarrow> bool \<Rightarrow> nat \<Rightarrow> jsstr \<Rightarrow> jsval res" where
  "cookieResult P kind target cookies sensitive totalMatched nextCursor =
     bind_res (map_cookies P sensitive target cookies) (\<lambda>(mapped, warnings). Inr (obj [
       (''kind'', jstr kind), (''tabId'', getp (t_tab target) ''id''), (''documentId'', t_documentId target),
       (''origin'', Str (t_origin target)), (''valuesIncluded'', Bool sensitive), (''cookies'', Arr mapped),
       (''totalMatched'', jnum (of_nat totalMatched)), (''nextCursor'', Str nextCursor), (''removed'', Bool False),
       (''warnings'', Arr (take 4 (unique warnings)))]))"

section \<open>The target\<close>

definition resolveTab :: "jsval \<Rightarrow> ('s, jsval) io" where
  "resolveTab = resolve_tab True"

definition currentRootDocument :: "platform \<Rightarrow> jsval \<Rightarrow> ('s, jsval) io" where
  "currentRootDocument P = root_document P ''The root document is unavailable''"

definition cookie_permission :: "url \<Rightarrow> call" where
  "cookie_permission u = Call ''permissions.contains'' [obj [(''permissions'', Arr [jstr ''cookies'']), (''origins'', Arr [site_pattern u])]]"

definition requireCookieAccess :: "url \<Rightarrow> ('s, unit) io" where
  "requireCookieAccess tabURL =
     bind_io (await (callee (cookie_permission tabURL)) (arguments (cookie_permission tabURL))) (\<lambda>granted.
     throw_when (\<not> truthy granted) (protocolError PERMISSION_REQUIRED
       [Txt ''Cookies and site access are required. Grant Personal data and Observe in settings.''] False
       (obj [(''origin'', Str (url_origin tabURL))])))"

text \<open>The stores that contain the tab; the requested one of them, or the first.\<close>

definition containing_stores :: "jsval \<Rightarrow> jsval \<Rightarrow> jsval list" where
  "containing_stores stores tabId = filter (\<lambda>store. truthy store \<and> safeStoreId (getp store ''id'') \<and> is_array (getp store ''tabIds'')
     \<and> tabId \<in> set (elems (getp store ''tabIds''))) (elems stores)"

definition select_store :: "jsval \<Rightarrow> jsval \<Rightarrow> jsval \<Rightarrow> jsval option" where
  "select_store stores tabId requested =
     (if truthy requested then find (\<lambda>store. strict_eq (getp store ''id'') requested) (containing_stores stores tabId)
      else case containing_stores stores tabId of [] \<Rightarrow> None | store # _ \<Rightarrow> Some store)"

definition resolveCookieStore :: "platform \<Rightarrow> jsval \<Rightarrow> jsval \<Rightarrow> ('s, jsval) io" where
  "resolveCookieStore P tabId requestedStoreId =
     bind_io (rejection P (await ''cookies.getAllCookieStores'' [])) (\<lambda>stores.
     bind_io (throw_when (\<not> is_array stores) invalidCookieResult) (\<lambda>_.
     case select_store stores tabId requestedStoreId of
       None \<Rightarrow> Throw (fault PERMISSION_REQUIRED [Txt ''The requested cookie store does not contain the selected tab''])
     | Some selected \<Rightarrow> Return (getp selected ''id'')))"

definition prepareTarget :: "platform \<Rightarrow> bool \<Rightarrow> jsval \<Rightarrow> jsval \<Rightarrow> ('s, cookie_target) io" where
  "prepareTarget P available request timeoutMs =
     bind_io (throw_when (\<not> available) (fault CAPABILITY_UNAVAILABLE [Txt ''The browser cookie API is unavailable''])) (\<lambda>_.
     bind_io (resolveTab (getp (getp request ''target'') ''tabId'')) (\<lambda>tab.
     bind_io (lift_res (parseHTTPURL P (getp tab ''url'') ''The selected tab URL is unavailable'')) (\<lambda>tabURL.
     bind_io (lift_res (parseHTTPURL P (getp (getp request ''params'') ''url'') ''params.url must be an HTTP(S) URL'')) (\<lambda>requestedURL.
     bind_io (throw_when (url_origin requestedURL \<noteq> url_origin tabURL)
       (fault RESTRICTED_URL [Txt ''Cookie operations are limited to the selected root-document origin''])) (\<lambda>_.
     bind_io (requireCookieAccess tabURL) (\<lambda>_.
     bind_io (currentRootDocument P (getp tab ''id'')) (\<lambda>frame.
     bind_io (if truthy (getp (getp request ''target'') ''documentId'')
       then lift_res (assertFreshDocument (getp (getp request ''target'') ''documentId'') (getp frame ''documentId'')) else Return ()) (\<lambda>_.
     bind_io (resolveCookieStore P (getp tab ''id'') (getp (getp request ''params'') ''storeId'')) (\<lambda>storeId.
     bind_io (throw_if_cancelled timeoutMs) (\<lambda>_.
     Return \<lparr>t_tab = tab, t_origin = url_origin tabURL, t_documentId = getp frame ''documentId'', t_storeId = storeId\<rparr>))))))))))"

definition recheckTarget :: "platform \<Rightarrow> cookie_target \<Rightarrow> ('s, unit) io" where
  "recheckTarget P target =
     (let tabId = getp (t_tab target) ''id'' in
     bind_io (resolveTab tabId) (\<lambda>tab.
     bind_io (lift_res (parseHTTPURL P (getp tab ''url'') ''The selected tab URL is unavailable'')) (\<lambda>currentURL.
     bind_io (throw_when (url_origin currentURL \<noteq> t_origin target)
       (protocolError STALE_TARGET [Txt ''The target tab navigated to another origin''] True Undefined)) (\<lambda>_.
     bind_io (requireCookieAccess currentURL) (\<lambda>_.
     bind_io (currentRootDocument P tabId) (\<lambda>frame.
     bind_io (lift_res (assertFreshDocument (t_documentId target) (getp frame ''documentId''))) (\<lambda>_.
     bind_io (resolveCookieStore P tabId (t_storeId target)) (\<lambda>_. Return ()))))))))"

section \<open>The operations\<close>

definition callCookies :: "platform \<Rightarrow> string \<Rightarrow> jsval \<Rightarrow> ('s, jsval) io" where
  "callCookies P operation details = rejection P (await (''cookies.'' @ operation) [details])"

definition requireSensitiveMode :: "('s, unit) io" where
  "requireSensitiveMode =
     bind_io (await ''getSettings'' []) (\<lambda>settings.
     throw_when (getp (getp settings ''featureFlags'') ''sensitiveData'' \<noteq> Bool True)
       (fault CAPABILITY_UNAVAILABLE [Txt ''Sensitive data mode is disabled in extension settings'']))"

definition cookieQuery :: "jsval \<Rightarrow> jsval \<Rightarrow> jsval" where
  "cookieQuery params storeId =
     obj ([(''url'', getp params ''url''), (''storeId'', storeId)]
       @ filter (\<lambda>(_, v). v \<noteq> Undefined) (map (\<lambda>name. (name, getp params name)) [''domain'', ''name'', ''path'', ''secure'', ''session'', ''partitionKey'']))"

definition cookie_identity :: "jsval \<Rightarrow> jsval \<Rightarrow> jsval" where
  "cookie_identity params storeId =
     obj ([(''url'', getp params ''url''), (''name'', getp params ''name''), (''storeId'', storeId)]
       @ (if truthy (getp params ''partitionKey'') then [(''partitionKey'', getp params ''partitionKey'')] else []))"

definition runCookieOperation ::
    "platform \<Rightarrow> bool \<Rightarrow> jsval \<Rightarrow> (jsval \<Rightarrow> cookie_target \<Rightarrow> ('s, jsval) io) \<Rightarrow> ('s, jsval) io" where
  "runCookieOperation P available request operation =
     bind_io (lift_res (validateTimeout (getp request ''timeoutMs''))) (\<lambda>timeoutMs.
     deadline timeoutMs (bind_io (prepareTarget P available request timeoutMs) (operation timeoutMs)))"

definition cookie_page :: "jsval \<Rightarrow> jsval list \<Rightarrow> jsval list" where
  "cookie_page params cookies = page_items (page_limit (getp params ''limit'')) (getp params ''cursor'') cookies"

definition cookie_next :: "jsval \<Rightarrow> jsval list \<Rightarrow> jsstr" where
  "cookie_next params cookies = page_next (page_limit (getp params ''limit'')) (getp params ''cursor'') cookies"

definition list_cookies :: "platform \<Rightarrow> bool \<Rightarrow> jsval \<Rightarrow> ('s, jsval) io" where
  "list_cookies P available request =
     (let params = getp request ''params''; sensitive = (getp request ''command'' = jstr ''cookies.listSensitive'') in
     bind_io (lift_res (validateListParams P params)) (\<lambda>_.
     runCookieOperation P available request (\<lambda>timeoutMs target.
       bind_io (if sensitive then requireSensitiveMode else Return ()) (\<lambda>_.
       bind_io (callCookies P ''getAll'' (cookieQuery params (t_storeId target))) (\<lambda>cookies.
       bind_io (throw_if_cancelled timeoutMs) (\<lambda>_.
       bind_io (throw_when (\<not> is_array cookies \<or> length (elems cookies) > MAX_SCAN_COOKIES) invalidCookieResult) (\<lambda>_.
       bind_io (recheckTarget P target) (\<lambda>_.
       lift_res (cookieResult P ''list'' target (cookie_page params (elems cookies)) sensitive (length (elems cookies))
         (cookie_next params (elems cookies)))))))))))"

definition get_cookie :: "platform \<Rightarrow> bool \<Rightarrow> jsval \<Rightarrow> ('s, jsval) io" where
  "get_cookie P available request =
     (let params = getp request ''params''; sensitive = (getp request ''command'' = jstr ''cookies.getSensitive'') in
     bind_io (lift_res (validateIdentityParams P params)) (\<lambda>_.
     runCookieOperation P available request (\<lambda>timeoutMs target.
       bind_io (if sensitive then requireSensitiveMode else Return ()) (\<lambda>_.
       bind_io (callCookies P ''get'' (cookie_identity params (t_storeId target))) (\<lambda>cookie.
       bind_io (throw_if_cancelled timeoutMs) (\<lambda>_.
       bind_io (recheckTarget P target) (\<lambda>_.
       lift_res (cookieResult P ''get'' target (if truthy cookie then [cookie] else []) sensitive (if truthy cookie then 1 else 0) []))))))))"

definition set_cookie :: "platform \<Rightarrow> bool \<Rightarrow> jsval \<Rightarrow> ('s, jsval) io" where
  "set_cookie P available request =
     (let params = getp request ''params'' in
     bind_io (lift_res (validateSetParams P params)) (\<lambda>_.
     runCookieOperation P available request (\<lambda>timeoutMs target.
       bind_io (callCookies P ''set'' (Obj (assoc_set (lit ''storeId'') (t_storeId target) (members params)))) (\<lambda>cookie.
       bind_io (throw_if_cancelled timeoutMs) (\<lambda>_.
       bind_io (throw_when (\<not> truthy cookie) invalidCookieResult) (\<lambda>_.
       bind_io (recheckTarget P target) (\<lambda>_.
       lift_res (cookieResult P ''set'' target [cookie] False 1 []))))))))"

definition remove_cookie :: "platform \<Rightarrow> bool \<Rightarrow> jsval \<Rightarrow> ('s, jsval) io" where
  "remove_cookie P available request =
     (let params = getp request ''params'' in
     bind_io (lift_res (validateIdentityParams P params)) (\<lambda>_.
     runCookieOperation P available request (\<lambda>timeoutMs target.
       bind_io (callCookies P ''remove'' (cookie_identity params (t_storeId target))) (\<lambda>removed.
       bind_io (throw_if_cancelled timeoutMs) (\<lambda>_.
       bind_io (recheckTarget P target) (\<lambda>_.
       Return (obj [(''kind'', jstr ''remove''), (''tabId'', getp (t_tab target) ''id''), (''documentId'', t_documentId target),
         (''origin'', Str (t_origin target)), (''valuesIncluded'', Bool False), (''cookies'', Arr []), (''totalMatched'', jnum 0),
         (''nextCursor'', Str []), (''removed'', Bool (truthy removed)), (''warnings'', Arr [])])))))))"

definition cookie_handlers :: "platform \<Rightarrow> bool \<Rightarrow> (string \<times> (jsval \<Rightarrow> ('s, jsval) io)) list" where
  "cookie_handlers P available =
     [(''list'', list_cookies P available), (''listSensitive'', list_cookies P available), (''get'', get_cookie P available),
      (''getSensitive'', get_cookie P available), (''set'', set_cookie P available), (''remove'', remove_cookie P available)]"

end
