(* ===== verification/Cookie_Properties.thy ===== *)
theory Cookie_Properties
  imports Cookies
begin

text \<open>
  The cookie handlers ask the browser only about the target they saw, see it again before they return, mask
  values, and hand out a list page by page.
\<close>

section \<open>What the browser is asked\<close>

definition cookie_api :: "string list" where
  "cookie_api = [''cookies.getAll'', ''cookies.get'', ''cookies.set'', ''cookies.remove'']"

definition sensitive_command :: "jsval \<Rightarrow> bool" where
  "sensitive_command request \<longleftrightarrow> js_includes [''cookies.listSensitive'', ''cookies.getSensitive''] (getp request ''command'')"

definition sensitive_mode :: "log \<Rightarrow> bool" where
  "sensitive_mode l \<longleftrightarrow> (\<exists>settings. answered l (Call ''getSettings'' []) settings
     \<and> getp (getp settings ''featureFlags'') ''sensitiveData'' = Bool True)"

text \<open>What the log shows of a target: the tab, its origin, the permission, the document, the store.\<close>

definition target_seen :: "platform \<Rightarrow> jsval \<Rightarrow> log \<Rightarrow> cookie_target \<Rightarrow> bool" where
  "target_seen P request l target \<longleftrightarrow> (\<exists>v u requested frame stores store.
     answered l (tab_call (getp (getp request ''target'') ''tabId'')) v \<and> t_tab target = tab_answer (getp (getp request ''target'') ''tabId'') v
     \<and> parseURL P (getp (t_tab target) ''url'') = Some u \<and> web_protocol u \<and> t_origin target = url_origin u
     \<and> parseURL P (getp (getp request ''params'') ''url'') = Some requested \<and> url_origin requested = url_origin u
     \<and> granted l (cookie_permission u)
     \<and> answered l (frame_call (getp (t_tab target) ''id'')) frame \<and> t_documentId target = getp frame ''documentId''
     \<and> (truthy (getp (getp request ''target'') ''documentId'') \<longrightarrow> t_documentId target = getp (getp request ''target'') ''documentId'')
     \<and> answered l (Call ''cookies.getAllCookieStores'' []) stores
     \<and> store \<in> set (containing_stores stores (getp (t_tab target) ''id'')) \<and> t_storeId target = getp store ''id''
     \<and> (truthy (getp (getp request ''params'') ''storeId'') \<longrightarrow> t_storeId target = getp (getp request ''params'') ''storeId''))"

definition cookie_call_allowed :: "platform \<Rightarrow> jsval \<Rightarrow> log \<Rightarrow> call \<Rightarrow> bool" where
  "cookie_call_allowed P request l c \<longleftrightarrow> (callee c \<in> set cookie_api \<longrightarrow>
     (\<exists>target details. target_seen P request l target \<and> arguments c = [details]
        \<and> getp details ''url'' = getp (getp request ''params'') ''url'' \<and> getp details ''storeId'' = t_storeId target
        \<and> (sensitive_command request \<longrightarrow> callee c \<in> {''cookies.getAll'', ''cookies.get''} \<longrightarrow> sensitive_mode l)))"

lemma cookie_allows_support [simp]: "lets_support (cookie_call_allowed P request)"
  by (auto simp: lets_support_def cookie_call_allowed_def support_calls_def cookie_api_def)

lemma cookie_allows_other [simp]: "name \<notin> set cookie_api \<Longrightarrow> cookie_call_allowed P request h (Call name args)"
  by (simp add: cookie_call_allowed_def)

lemma parseHTTPURL_Inr:
  "parseHTTPURL P v message = Inr u \<Longrightarrow> parseURL P v = Some u \<and> web_protocol u"
  by (auto simp: parseHTTPURL_def split: option.splits if_splits)

lemma select_store_Some:
  "select_store stores tabId requested = Some store \<Longrightarrow>
     store \<in> set (containing_stores stores tabId) \<and> (truthy requested \<longrightarrow> getp store ''id'' = requested)"
  by (auto simp: select_store_def find_Some_iff dest: strict_eq_imp_eq split: if_splits list.splits)

lemma safe_requireCookieAccess [safe_intros]:
  assumes "lets_support G" and "\<And>t v. R s t \<Longrightarrow> truthy v \<Longrightarrow> Q t (h @ [(cookie_permission u, Inr v)]) ()"
  shows "safe R G (requireCookieAccess u) s h Q"
  unfolding requireCookieAccess_def
  by (intro safe_intros) (use assms in \<open>auto simp: cookie_permission_def\<close>)

lemma safe_resolveCookieStore [safe_intros]:
  assumes "\<And>h. G h (Call ''cookies.getAllCookieStores'' [])"
    and "\<And>t stores store. R s t \<Longrightarrow> store \<in> set (containing_stores stores tabId) \<Longrightarrow> (truthy requested \<Longrightarrow> getp store ''id'' = requested)
      \<Longrightarrow> Q t (h @ [(Call ''cookies.getAllCookieStores'' [], Inr stores)]) (getp store ''id'')"
  shows "safe R G (resolveCookieStore P tabId requested) s h Q"
  unfolding resolveCookieStore_def
  apply (intro safe_intros assms(1))
  subgoal for t v
    using assms(2) [of t _ v] select_store_Some [of v tabId requested]
    by (cases "select_store v tabId requested") (auto intro: safe_intros)
  done

lemma target_seenI:
  assumes "parseHTTPURL P (getp (tab_answer (getp (getp request ''target'') ''tabId'') v) ''url'') m = Inr u"
    and "parseHTTPURL P (getp (getp request ''params'') ''url'') m' = Inr requested" and "url_origin requested = url_origin u"
    and "truthy g" and "truthy (getp (getp request ''target'') ''documentId'') \<Longrightarrow> getp frame ''documentId'' = getp (getp request ''target'') ''documentId''"
    and "store \<in> set (containing_stores stores (getp (tab_answer (getp (getp request ''target'') ''tabId'') v) ''id''))"
    and "truthy (getp (getp request ''params'') ''storeId'') \<Longrightarrow> getp store ''id'' = getp (getp request ''params'') ''storeId''"
    and "{(tab_call (getp (getp request ''target'') ''tabId''), Inr v), (cookie_permission u, Inr g),
       (frame_call (getp (tab_answer (getp (getp request ''target'') ''tabId'') v) ''id''), Inr frame),
       (Call ''cookies.getAllCookieStores'' [], Inr stores)} \<subseteq> set l"
  shows "target_seen P request l \<lparr>t_tab = tab_answer (getp (getp request ''target'') ''tabId'') v, t_origin = url_origin u,
     t_documentId = getp frame ''documentId'', t_storeId = getp store ''id''\<rparr>"
proof -
  note u = parseHTTPURL_Inr [OF assms(1)] and requested = parseHTTPURL_Inr [OF assms(2)]
  have l: "answered l (tab_call (getp (getp request ''target'') ''tabId'')) v" "granted l (cookie_permission u)"
    "answered l (frame_call (getp (tab_answer (getp (getp request ''target'') ''tabId'') v) ''id'')) frame"
    "answered l (Call ''cookies.getAllCookieStores'' []) stores"
    using assms(4,8) unfolding granted_def answered_def by blast+
  show ?thesis
    unfolding target_seen_def cookie_target.simps
    by (intro exI [of _ v] exI [of _ u] exI [of _ requested] exI [of _ frame] exI [of _ stores] exI [of _ store])
      (use u requested l assms(3,5,6,7) in blast)
qed

lemma safe_prepareTarget [safe_intros]:
  assumes G: "lets_support G" "\<And>h. G h (Call ''cookies.getAllCookieStores'' [])"
    and Q: "\<And>t h' target. prefix h h' \<Longrightarrow> target_seen P request h' target \<Longrightarrow> Q t h' target"
  shows "safe R G (prepareTarget P available request timeoutMs) s h Q"
  unfolding prepareTarget_def resolveTab_def currentRootDocument_def
proof (intro safe_intros G, goal_cases)
  case 1
  then show ?case by (intro Q target_seenI [OF 1(3,4)]) (auto dest: fresh_document)
next
  case 2
  then show ?case by (intro Q target_seenI [OF 2(3,4)]) auto
qed

text \<open>Four calls show the target again.\<close>

definition target_current :: "platform \<Rightarrow> log \<Rightarrow> cookie_target \<Rightarrow> bool" where
  "target_current P l target \<longleftrightarrow> (\<exists>v u g frame stores store.
     l = [(tab_call (getp (t_tab target) ''id''), Inr v), (cookie_permission u, Inr g), (frame_call (getp (t_tab target) ''id''), Inr frame),
       (Call ''cookies.getAllCookieStores'' [], Inr stores)]
     \<and> parseURL P (getp (tab_answer (getp (t_tab target) ''id'') v) ''url'') = Some u \<and> url_origin u = t_origin target \<and> truthy g
     \<and> truthy (t_documentId target) \<and> getp frame ''documentId'' = t_documentId target
     \<and> store \<in> set (containing_stores stores (getp (t_tab target) ''id''))
     \<and> (truthy (t_storeId target) \<longrightarrow> getp store ''id'' = t_storeId target))"

lemma safe_cookie_recheck [safe_intros]:
  assumes G: "lets_support G" "\<And>h. G h (Call ''cookies.getAllCookieStores'' [])"
    and Q: "\<And>t l. target_current P l target \<Longrightarrow> Q t (h @ l) ()"
  shows "safe R G (recheckTarget P target) s h Q"
  unfolding recheckTarget_def resolveTab_def currentRootDocument_def Let_def
proof (intro safe_intros G, goal_cases)
  case (1 t v u ta g tb frame x tc stores store)
  then have "target_current P [(tab_call (getp (t_tab target) ''id''), Inr v), (cookie_permission u, Inr g),
      (frame_call (getp (t_tab target) ''id''), Inr frame), (Call ''cookies.getAllCookieStores'' [], Inr stores)] target"
    by (auto simp: target_current_def dest!: parseHTTPURL_Inr fresh_document)
  from Q [OF this] show ?case by simp
qed

section \<open>Every operation\<close>

text \<open>What a result says of its run: the browser was asked once, the target was seen again after the answer, and values
  are masked but for a sensitive command in sensitive mode.\<close>

definition values_masked :: "jsval \<Rightarrow> bool" where
  "values_masked res \<longleftrightarrow> list_all (\<lambda>cookie. getp cookie ''value'' = jstr ''[MASKED]'' \<and> getp cookie ''valueIncluded'' = Bool False)
     (elems (getp res ''cookies''))"

definition cookie_result_ok :: "platform \<Rightarrow> jsval \<Rightarrow> log \<Rightarrow> jsval \<Rightarrow> bool" where
  "cookie_result_ok P request l res \<longleftrightarrow>
     (\<exists>target l1 c v w l2 x y. target_seen P request l1 target
        \<and> l = l1 @ [(c, Inr v), (Call ''signal.aborted'' [], Inr w)] @ l2 @ [(Call ''clearTimeout'' [], Inr x), (Call ''parentSignal.removeEventListener'' [jstr ''abort''], Inr y)]
        \<and> callee c \<in> set cookie_api \<and> target_current P l2 target
        \<and> getp res ''documentId'' = t_documentId target \<and> getp res ''origin'' = Str (t_origin target)
        \<and> getp res ''tabId'' = getp (t_tab target) ''id'')
     \<and> (if sensitive_command request \<and> sensitive_mode l then True else values_masked res)"

lemma map_cookies_masked:
  "map_cookies P False target cookies = Inr (mapped, ws)
   \<Longrightarrow> list_all (\<lambda>cookie. getp cookie ''value'' = jstr ''[MASKED]'' \<and> getp cookie ''valueIncluded'' = Bool False) mapped"
proof (induction cookies arbitrary: mapped ws)
  case (Cons cookie cookies)
  then obtain m v rest vs where m: "mapCookie P cookie False target = Inr (m, v)" "map_cookies P False target cookies = Inr (rest, vs)"
    "mapped = m # rest" by (auto simp: bind_res_Inr)
  have "getp m ''value'' = jstr ''[MASKED]'' \<and> getp m ''valueIncluded'' = Bool False"
    using m(1) by (auto simp: mapCookie_def Let_def bind_res_Inr)
  with Cons.IH [OF m(2)] m(3) show ?case by simp
qed simp

lemma cookieResult_fields:
  assumes "cookieResult P kind target cookies sensitive n c = Inr res"
  shows "getp res ''documentId'' = t_documentId target \<and> getp res ''origin'' = Str (t_origin target)
    \<and> getp res ''tabId'' = getp (t_tab target) ''id'' \<and> (\<not> sensitive \<longrightarrow> values_masked res)"
  using assms by (auto simp: cookieResult_def bind_res_Inr values_masked_def dest: map_cookies_masked)

lemma safe_requireSensitiveMode [safe_intros]:
  assumes "\<And>h. G h (Call ''getSettings'' [])"
    and "\<And>t settings. R s t \<Longrightarrow> getp (getp settings ''featureFlags'') ''sensitiveData'' = Bool True
      \<Longrightarrow> Q t (h @ [(Call ''getSettings'' [], Inr settings)]) ()"
  shows "safe R G requireSensitiveMode s h Q"
  unfolding requireSensitiveMode_def by (intro safe_intros) (use assms in auto)

lemma safe_callCookies [safe_intros]:
  assumes "G h (Call (''cookies.'' @ operation) [details])"
    and "\<And>t v. R s t \<Longrightarrow> Q t (h @ [(Call (''cookies.'' @ operation) [details], Inr v)]) v"
  shows "safe R G (callCookies P operation details) s h Q"
  unfolding callCookies_def by (intro safe_intros) (use assms in auto)

lemma target_seen_mono: "target_seen P request l target \<Longrightarrow> prefix l l' \<Longrightarrow> target_seen P request l' target"
proof -
  assume "prefix l l'"
  then have "answered l c v \<Longrightarrow> answered l' c v" "granted l c \<Longrightarrow> granted l' c" for c v
    unfolding answered_def granted_def by (auto simp: prefix_def)
  then show "target_seen P request l target \<Longrightarrow> target_seen P request l' target"
    unfolding target_seen_def by blast
qed

lemma safe_sensitive [safe_intros]:
  assumes "\<And>h. G h (Call ''getSettings'' [])" and "\<And>t h'. prefix h h' \<Longrightarrow> (b \<Longrightarrow> sensitive_mode h') \<Longrightarrow> Q t h' ()"
  shows "safe R G (if b then requireSensitiveMode else Return ()) s h Q"
  by (intro safe_intros assms) (auto simp: sensitive_mode_def)

lemma cookie_queries [simp]: "getp (cookieQuery params storeId) ''url'' = getp params ''url''"
  "getp (cookieQuery params storeId) ''storeId'' = storeId"
  "getp (cookie_identity params storeId) ''url'' = getp params ''url''"
  "getp (cookie_identity params storeId) ''storeId'' = storeId"
  by (simp_all add: cookieQuery_def cookie_identity_def)

lemma cookie_callI:
  assumes "target_seen P request h target" "prefix h h'" "getp details ''url'' = getp (getp request ''params'') ''url''"
    "getp details ''storeId'' = t_storeId target"
    "sensitive_command request \<Longrightarrow> operation \<in> {''getAll'', ''get''} \<Longrightarrow> sensitive_mode h'"
  shows "cookie_call_allowed P request h' (Call (''cookies.'' @ operation) [details])"
  using assms target_seen_mono [OF assms(1,2)] by (auto simp: cookie_call_allowed_def)

lemma cookie_resultI:
  assumes "target_seen P request h target" "prefix h h'" "target_current P l2 target"
    "operation \<in> {''getAll'', ''get'', ''set'', ''remove''}"
    "getp res ''documentId'' = t_documentId target \<and> getp res ''origin'' = Str (t_origin target)
      \<and> getp res ''tabId'' = getp (t_tab target) ''id'' \<and> (\<not> sensitive \<longrightarrow> values_masked res)"
    "sensitive \<Longrightarrow> sensitive_command request \<and> sensitive_mode h'"
  shows "\<forall>x y. cookie_result_ok P request ((((h' @ [(Call (''cookies.'' @ operation) args, Inr v)]) @ [(Call ''signal.aborted'' [], Inr w)]) @ l2)
     @ [(Call ''clearTimeout'' [], Inr x), (Call ''parentSignal.removeEventListener'' [jstr ''abort''], Inr y)]) res"
  unfolding cookie_result_ok_def
  apply (intro allI conjI)
   apply (rule exI [of _ target], rule exI [of _ h'], rule exI [of _ "Call (''cookies.'' @ operation) args"], intro exI conjI,
     rule target_seen_mono [OF assms(1,2)])
  using assms by (auto simp: cookie_api_def sensitive_mode_def answered_def)

lemmas cookie_intros = safe_lift safe_bindI safe_deadline safe_prepareTarget safe_sensitive safe_callCookies
  safe_throw_if_cancelled safe_throw_when safe_cookie_recheck safe_Return cookie_allows_support

lemma sensitive_commands:
  "getp request ''command'' = jstr ''cookies.listSensitive'' \<Longrightarrow> sensitive_command request"
  "getp request ''command'' = jstr ''cookies.getSensitive'' \<Longrightarrow> sensitive_command request"
  by (auto simp: sensitive_command_def)

lemma set_details:
  assumes "validateSetParams P params = Inr x"
  shows "getp (Obj (assoc_set (lit ''storeId'') v (members params))) ''url'' = getp params ''url''"
    "getp (Obj (assoc_set (lit ''storeId'') v (members params))) ''storeId'' = v"
proof -
  have "isObject params" using assms unfolding validateSetParams_def assertObject_def bind_res_Inr throw_if_def by (auto split: if_splits)
  then obtain ps where "params = Obj ps" by (cases params) (simp_all add: isObject_def)
  then show "getp (Obj (assoc_set (lit ''storeId'') v (members params))) ''url'' = getp params ''url''"
    "getp (Obj (assoc_set (lit ''storeId'') v (members params))) ''storeId'' = v"
    by (simp_all add: getp_def map_of_assoc_set members_def)
qed

lemma safe_list_cookies:
  assumes "sensitive_command request \<longleftrightarrow> getp request ''command'' = jstr ''cookies.listSensitive''"
  shows "safe R (cookie_call_allowed P request) (list_cookies P available request) s [] (\<lambda>_ l res. cookie_result_ok P request l res)"
  unfolding list_cookies_def runCookieOperation_def Let_def
proof (intro cookie_intros, goal_cases)
  case (3 x xa h1 l t h' target ta h'a)
  then show ?case by (intro cookie_callI) (auto simp: assms)
next
  case (5 x xa h1 l t h' target ta h'a tb v va tc la xb)
  then show ?case
    by - (rule cookie_resultI [OF _ _ _ _ cookieResult_fields], assumption, assumption, assumption, simp, assumption, simp add: assms)
qed (simp_all add: cookie_api_def)

lemma safe_get_cookie:
  assumes "sensitive_command request \<longleftrightarrow> getp request ''command'' = jstr ''cookies.getSensitive''"
  shows "safe R (cookie_call_allowed P request) (get_cookie P available request) s [] (\<lambda>_ l res. cookie_result_ok P request l res)"
  unfolding get_cookie_def runCookieOperation_def Let_def
proof (intro cookie_intros, goal_cases)
  case (3 x xa h1 l t h' target ta h'a)
  then show ?case by (intro cookie_callI) (auto simp: assms)
next
  case (5 x xa h1 l t h' target ta h'a tb v va tc la xb)
  then show ?case
    by - (rule cookie_resultI [OF _ _ _ _ cookieResult_fields], assumption, assumption, assumption, simp, assumption, simp add: assms)
qed (simp_all add: cookie_api_def)

lemma safe_set_cookie:
  "safe R (cookie_call_allowed P request) (set_cookie P available request) s [] (\<lambda>_ l res. cookie_result_ok P request l res)"
  unfolding set_cookie_def runCookieOperation_def Let_def
proof (intro cookie_intros, goal_cases)
  case (2 x xa h1 l t h' target)
  then show ?case by - (rule cookie_callI, assumption, auto simp: set_details)
next
  case (4 x xa h1 l t h' target ta v va tb la xb)
  then show ?case
    by - (rule cookie_resultI [OF _ _ _ _ cookieResult_fields, where h' = h'], assumption, simp, assumption, simp, assumption, simp)
qed (simp_all add: cookie_api_def)

lemma safe_remove_cookie:
  "safe R (cookie_call_allowed P request) (remove_cookie P available request) s [] (\<lambda>_ l res. cookie_result_ok P request l res)"
  unfolding remove_cookie_def runCookieOperation_def Let_def
proof (intro cookie_intros, goal_cases)
  case (2 x xa h1 l t h' target)
  then show ?case by - (rule cookie_callI, assumption, auto)
next
  case (4 x xa h1 l t h' target ta v va tb la)
  then show ?case
    by - (rule cookie_resultI [where sensitive = False and h' = h'], assumption, simp, assumption, simp, simp add: values_masked_def, simp)
qed (simp_all add: cookie_api_def)

lemma safe_cookie_handlers:
  assumes "map_of (cookie_handlers P available) name = Some m" and "getp request ''command'' = jstr (''cookies.'' @ name)"
  shows "safe R (cookie_call_allowed P request) (m request) s [] (\<lambda>_ l res. cookie_result_ok P request l res)"
  using assms unfolding cookie_handlers_def
  by (auto split: if_splits simp: sensitive_command_def
      intro!: safe_list_cookies safe_get_cookie safe_set_cookie safe_remove_cookie)

text \<open>C26: a cookie handler asks the browser for cookies, or to change one, only after it saw the tab, that its page and the
  requested URL have one web origin, the permission for that site, the document of the target and the store that holds the tab;
  the call names this URL and this store, and a sensitive command asks only after the settings allowed sensitive data.\<close>

theorem cookie_calls_confined:
  assumes "map_of (cookie_handlers P available) name = Some m" and "getp request ''command'' = jstr (''cookies.'' @ name)"
    and "exec R (m request) s l r t" and "i < length l"
  shows "cookie_call_allowed P request (take i l) (fst (l ! i))"
  using safe_exec [OF assms(3) safe_cookie_handlers [OF assms(1,2)]] assms(4) by (simp add: guarded_iff)

text \<open>A cookie handler that returns has asked the browser once more after the cookies' answer and found the same origin,
  permission, document and store; its result is about them; and but for a sensitive command in sensitive mode
  every value in it is masked.\<close>

theorem cookie_result_confirmed:
  assumes "map_of (cookie_handlers P available) name = Some m" and "getp request ''command'' = jstr (''cookies.'' @ name)"
    and "exec R (m request) s l (Inr res) t"
  shows "cookie_result_ok P request l res"
  using safe_exec [OF assms(3) safe_cookie_handlers [OF assms(1,2)]] by simp

section \<open>Pages\<close>

lemma list_params_object: "returns (validateListParams P params) \<Longrightarrow> isObject params"
  by (cases "isObject params") (simp_all add: validateListParams_def assertObject_def throw_if_def)

lemma list_params_cursor:
  assumes "returns (validateListParams P params)" and "1 \<le> k" "k < MAX_SCAN_COOKIES"
  shows "returns (validateListParams P (with_cursor params (show_nat k)))"
proof -
  let ?keys = "[''url'', ''domain'', ''name'', ''path'', ''secure'', ''session'', ''storeId'', ''partitionKey'', ''cursor'', ''limit'']"
  have object: "isObject params" by (rule list_params_object [OF assms(1)])
  obtain u where u: "assertObject params ?keys = ok" "parseHTTPURL P (getp params ''url'') ''params.url must be an HTTP(S) URL'' = Inr u"
    using assms(1) unfolding validateListParams_def returns_unit bind_res_Inr by auto
  have keys: "\<not> list_ex (\<lambda>key. key \<notin> set (map lit ?keys)) (object_keys params)"
    using u(1) object unfolding assertObject_def throw_if_def by (simp split: if_split_asm)
  have "list_all (\<lambda>key. key \<in> set (map lit ?keys)) (object_keys (with_cursor params (show_nat k)))"
    using keys unfolding list_all_iff list_ex_iff keys_with_cursor [OF object] by auto
  then have shape: "assertObject (with_cursor params (show_nat k)) ?keys = ok"
    by (simp add: assertObject_def throw_if_def list_all_iff list_ex_iff isObject_def with_cursor_def)
  have cursor: "\<not> invalid_cursor (Str (show_nat k))"
    using assms(2,3) by (simp add: invalid_cursor_def dec_value_show_nat digit_string_show_nat MAX_SAFE_INTEGER_def MAX_SCAN_COOKIES_def)
  show ?thesis
    using assms(1) cursor u by (simp add: validateListParams_def getp_with_cursor [OF object] shape checks_Cons_ok throw_if_ok)
qed

lemma list_params_limit:
  assumes "returns (validateListParams P params)"
  shows "Suc 0 \<le> page_limit (getp params ''limit'')"
proof -
  have "is_integer (getp params ''limit'') \<and> \<not> less_than (getp params ''limit'') 1"
    using assms unfolding validateListParams_def returns_unit bind_res_Inr
    by (auto simp: checks_Cons_ok throw_if_ok simp flip: returns_unit)
  then obtain i :: int where "getp params ''limit'' = jnum (of_int i)" "1 \<le> i"
    by (auto simp: is_integer_iff)
  then show ?thesis by (simp add: page_limit_def)
qed

interpretation cookies: paged "\<lambda>params. returns (validateListParams P params)" "\<lambda>params. page_limit (getp params ''limit'')" MAX_SCAN_COOKIES
  for P
  by unfold_locales (simp_all add: list_params_object list_params_limit getp_with_cursor list_params_cursor)

text \<open>A reader who follows the cursors of list requests sees every cookie of an unchanged store exactly once, in the
  browser's order.\<close>

theorem cookie_pages_complete:
  assumes "returns (validateListParams P params)" and "getp params ''cursor'' = Undefined" and "length cookies \<le> MAX_SCAN_COOKIES"
  shows "concat (pages (\<lambda>params. page_limit (getp params ''limit'')) (Suc (length cookies)) params cookies) = cookies
    \<and> (\<forall>request. returns (validateListParams P request) \<and> cookie_next request cookies \<noteq> []
         \<longrightarrow> returns (validateListParams P (with_cursor request (cookie_next request cookies))))"
  using cookies.pages_complete [OF assms] cookies.next_valid [OF _ assms(3)] unfolding cookie_next_def by blast

section \<open>Witnesses\<close>

definition cookie_url :: url where
  "cookie_url = \<lparr>url_protocol = lit ''https:'', url_hostname = lit ''a.b'', url_username = [], url_password = [], url_hash = [],
     url_search = [], url_pathname = lit ''/'', url_origin = lit ''https://a.b'', url_href = lit ''https://a.b/''\<rparr>"

definition cookie_platform :: platform where
  "cookie_platform = demo_platform\<lparr>parseURL := (\<lambda>v. if v = jstr ''https://a.b/'' \<or> v = jstr ''https://a.b'' then Some cookie_url else None)\<rparr>"

definition cookie_params :: jsval where
  "cookie_params = obj [(''url'', jstr ''https://a.b/''), (''limit'', jnum 2)]"

definition cookie_request :: jsval where
  "cookie_request = obj [(''command'', jstr ''cookies.list''), (''params'', cookie_params), (''target'', obj [(''tabId'', jnum 1)])]"

definition found_cookie :: jsval where
  "found_cookie = obj [(''name'', jstr ''n''), (''value'', jstr ''secret''), (''domain'', jstr ''a.b''), (''path'', jstr ''/''),
     (''sameSite'', jstr ''lax''), (''session'', Bool True), (''storeId'', jstr ''0'')]"

text \<open>What the browser shows of the target: the tab, the permission, the document, the stores.\<close>

definition seen_answers :: "jsval res list" where
  "seen_answers = [Inr (obj [(''id'', jnum 1), (''url'', jstr ''https://a.b/'')]), Inr (Bool True),
     Inr (obj [(''documentId'', jstr ''D'')]), Inr (Arr [obj [(''id'', jstr ''0''), (''tabIds'', Arr [jnum 1])]])]"

definition seen_target :: cookie_target where
  "seen_target = \<lparr>t_tab = obj [(''id'', jnum 1), (''url'', jstr ''https://a.b/'')], t_origin = lit ''https://a.b'',
     t_documentId = jstr ''D'', t_storeId = jstr ''0''\<rparr>"

lemma seen_target_run:
  "case play (prepareTarget cookie_platform True cookie_request (jnum 30000)) (0 :: nat) (seen_answers @ [Inr Undefined]) of
     (l, q, n) \<Rightarrow> length l = 5 \<and> q = Some (Inr seen_target) \<and> n = 0"
  "case play (recheckTarget cookie_platform seen_target) (0 :: nat) seen_answers of (l, q, n) \<Rightarrow> q = Some (Inr ()) \<and> n = 0"
  by code_simp+

lemma found_cookie_mapped:
  obtains m where "map_cookies cookie_platform False seen_target [found_cookie] = Inr ([m], [])"
proof -
  have name: "Cookies.validateCookieName (getp found_cookie ''name'') ''cookie.name'' = ok" by code_simp
  have url: "parseURL cookie_platform (Str (t_origin seen_target)) = Some cookie_url" by code_simp
  have domain: "validateDomain cookie_platform (getp found_cookie ''domain'') (url_hostname cookie_url) False = ok" by code_simp
  have path: "validatePath (getp found_cookie ''path'') = ok" by code_simp
  have store: "validateStoreId (getp found_cookie ''storeId'') = ok" by code_simp
  have "\<not> (\<not> truthy found_cookie \<or> \<not> typeof_object found_cookie)"
    "\<not> (\<not> js_includes SAME_SITE (getp found_cookie ''sameSite'') \<or> \<not> is_string (getp found_cookie ''value'')
        \<or> hasControl (str_of (getp found_cookie ''value'')))"
    "utf8_length (str_of (getp found_cookie ''value'')) = 6" "truthy (getp found_cookie ''session'')"
    "getp found_cookie ''partitionKey'' = Undefined" by code_simp+
  then show thesis
    using that unfolding map_cookies.simps mapCookie_def Let_def name url option.case domain path store
    by (simp add: checks.simps throw_if_def only_if_def MAX_VALUE_BYTES_def)
qed


lemma cookie_params_valid: "validateListParams cookie_platform cookie_params = ok"
proof -
  have a: "assertObject cookie_params [''url'', ''domain'', ''name'', ''path'', ''secure'', ''session'', ''storeId'', ''partitionKey'',
       ''cursor'', ''limit''] = ok" by code_simp
  have b: "parseHTTPURL cookie_platform (getp cookie_params ''url'') ''params.url must be an HTTP(S) URL'' = Inr cookie_url" by code_simp
  show ?thesis unfolding validateListParams_def a b bind_res.simps by code_simp
qed

lemma cookie_run:
  obtains l res where "exec (\<lambda>_ _. True) (list_cookies cookie_platform True cookie_request) (0 :: nat) l (Inr res) 0"
    and "8 < length l" and "callee (fst (l ! 8)) = ''cookies.getAll''" and "length (elems (getp res ''cookies'')) = 1"
proof -
  let ?R = "\<lambda>_ _. True :: bool"
  have request: "getp cookie_request ''params'' = cookie_params" "getp cookie_request ''command'' \<noteq> jstr ''cookies.listSensitive''"
    "validateTimeout (getp cookie_request ''timeoutMs'') = Inr (jnum 30000)" by code_simp+
  obtain l1 where prepared: "exec ?R (prepareTarget cookie_platform True cookie_request (jnum 30000)) (0 :: nat) l1 (Inr seen_target) 0" "length l1 = 5"
    using seen_target_run(1) by (auto split: prod.splits dest!: play_exec [where R = ?R])
  obtain l2 where rechecked: "exec ?R (recheckTarget cookie_platform seen_target) (0 :: nat) l2 (Inr ()) 0"
    using seen_target_run(2) by (auto split: prod.splits dest!: play_exec [where R = ?R])
  have page: "cookie_page cookie_params [found_cookie] = [found_cookie]" "cookie_next cookie_params [found_cookie] = []" by code_simp+
  obtain m where "map_cookies cookie_platform False seen_target [found_cookie] = Inr ([m], [])" by (rule found_cookie_mapped)
  then obtain res where res: "cookieResult cookie_platform ''list'' seen_target [found_cookie] False 1 [] = Inr res" "length (elems (getp res ''cookies'')) = 1"
    by (simp add: cookieResult_def)
  let ?details = "cookieQuery cookie_params (t_storeId seen_target)"
  have called: "exec ?R (callCookies cookie_platform ''getAll'' ?details) (0 :: nat)
      [(Call ''cookies.getAll'' [?details], Inr (Arr [found_cookie]))] (Inr (Arr [found_cookie])) 0"
    unfolding callCookies_def rejection_def by (simp add: exec_catch exec_await)
  have rest: "exec ?R (bind_io (throw_if_cancelled (jnum 30000)) (\<lambda>_.
       bind_io (throw_when (\<not> is_array (Arr [found_cookie]) \<or> length (elems (Arr [found_cookie])) > MAX_SCAN_COOKIES) invalidCookieResult) (\<lambda>_.
       bind_io (recheckTarget cookie_platform seen_target) (\<lambda>_. lift_res (Inr res))))) (0 :: nat)
      ([(Call ''signal.aborted'' [], Inr Undefined)] @ [] @ l2 @ []) (Inr res) 0"
    by (rule exec_bind [OF exec_throw_if_cancelled exec_bind [OF exec_throw_when exec_bind [OF rechecked exec_lift]]])
      (simp add: MAX_SCAN_COOKIES_def)
  have skipped: "exec ?R (if getp cookie_request ''command'' = jstr ''cookies.listSensitive'' then requireSensitiveMode else Return ()) (0 :: nat) [] (Inr ()) 0"
    using request(2) by (simp add: exec_Return)
  have "exec ?R (list_cookies cookie_platform True cookie_request) (0 :: nat)
     ([(Call ''parentSignal.aborted'' [], Inr Undefined), (Call ''parentSignal.addEventListener'' [jstr ''abort''], Inr Undefined),
      (Call ''setTimeout'' [jnum 30000], Inr Undefined)] @ (l1 @ [] @ [(Call ''cookies.getAll'' [?details], Inr (Arr [found_cookie]))]
         @ [(Call ''signal.aborted'' [], Inr Undefined)] @ [] @ l2 @ [])
      @ [(Call ''clearTimeout'' [], Inr Undefined), (Call ''parentSignal.removeEventListener'' [jstr ''abort''], Inr Undefined)]) (Inr res) 0"
    unfolding list_cookies_def runCookieOperation_def Let_def request cookie_params_valid lift_res_def [of ok] lift_res_def [of "Inr (jnum 30000)"]
      sum.case bind_io.simps
    using request(2) rest
    by (intro exec_deadline exec_bind [OF prepared(1)] exec_bind [OF skipped] exec_bind [OF called]) (simp add: page res(1) [simplified])
  then show thesis by (rule that) (simp_all add: prepared(2) nth_append res(2))
qed

lemma list_is_handler:
  "map_of (cookie_handlers P available) ''list'' = Some (list_cookies P available)"
  "getp cookie_request ''command'' = jstr (''cookies.'' @ ''list'')"
  by (simp_all add: cookie_handlers_def cookie_request_def)

theorem cookie_calls_confined_witness:
  "\<exists>l target details. 8 < length l \<and> target_seen cookie_platform cookie_request (take 8 l) target
     \<and> callee (fst (l ! 8)) = ''cookies.getAll'' \<and> arguments (fst (l ! 8)) = [details] \<and> getp details ''storeId'' = t_storeId target"
proof (rule cookie_run)
  fix l res
  assume "exec (\<lambda>_ _. True) (list_cookies cookie_platform True cookie_request) (0 :: nat) l (Inr res) 0"
    and at: "8 < length l" "callee (fst (l ! 8)) = ''cookies.getAll''"
  from cookie_calls_confined [OF list_is_handler this(1) at(1)] at show ?thesis
    unfolding cookie_call_allowed_def cookie_api_def by auto
qed

theorem cookie_pages_complete_witness:
  "concat (pages (\<lambda>params. page_limit (getp params ''limit'')) 4 cookie_params [jnum 1, jnum 2, jnum 3]) = [jnum 1, jnum 2, jnum 3]"
proof -
  have valid: "returns (validateListParams cookie_platform cookie_params)" by (simp add: cookie_params_valid)
  have "getp cookie_params ''cursor'' = Undefined" by (simp add: cookie_params_def)
  moreover have "length [jnum 1, jnum 2, jnum 3] \<le> MAX_SCAN_COOKIES" by (simp add: MAX_SCAN_COOKIES_def)
  moreover have "Suc (length [jnum 1, jnum 2, jnum 3]) = 4" by simp
  ultimately show ?thesis using cookie_pages_complete [OF valid] by metis
qed

end
