(* ===== verification/Downloads.thy ===== *)
theory Downloads
  imports Paging
begin

text \<open>
  The download handlers (\<open>chrome-extension/src/handlers/downloads.js\<close>): checks of parameters, the downloads the browser
  reports, stripped of queries, credentials and directories, and the commands that change them. \<open>api\<close> says which
  functions the browser has.
\<close>

section \<open>Checks\<close>

definition DEFAULT_TIMEOUT_MS :: rat where "DEFAULT_TIMEOUT_MS = 30000"
definition MAX_TIMEOUT_MS :: rat where "MAX_TIMEOUT_MS = 120000"
definition MAX_PAGE_ITEMS :: rat where "MAX_PAGE_ITEMS = 200"
definition MAX_SCAN_ITEMS :: nat where "MAX_SCAN_ITEMS = 10000"
definition MAX_URL_BYTES :: nat where "MAX_URL_BYTES = 8192"
definition MAX_FILENAME_BYTES :: nat where "MAX_FILENAME_BYTES = 1024"
definition MAX_TEXT_BYTES :: nat where "MAX_TEXT_BYTES = 256"
definition STATES :: "string list" where "STATES = [''in_progress'', ''interrupted'', ''complete'']"

abbreviation invalidDownloadParams :: "string \<Rightarrow> exn" where
  "invalidDownloadParams message \<equiv> invalid message"

definition invalidDownloadResult :: exn where
  "invalidDownloadResult = invalid ''The browser returned an invalid download result''"

definition incognito_refused :: exn where
  "incognito_refused = fault RESTRICTED_URL [Txt ''Incognito downloads are disabled by server action policy'']"

definition containsControl :: "jsstr \<Rightarrow> bool" where
  "containsControl s \<longleftrightarrow> list_ex (\<lambda>codePoint. codePoint < 32 \<or> codePoint = 127) (code_points s)"

definition assertObject :: "jsval \<Rightarrow> string list \<Rightarrow> unit res" where
  "assertObject v allowedKeys =
     throw_if (\<not> isObject v \<or> list_ex (\<lambda>key. key \<notin> set (map lit allowedKeys)) (object_keys v))
       (invalidDownloadParams ''Download parameters have an invalid shape'')"

definition validDownloadID :: "jsval \<Rightarrow> bool" where
  "validDownloadID v \<longleftrightarrow> integerBetween v 0 MAX_SAFE_INTEGER"

definition validateAllowIncognito :: "jsval \<Rightarrow> unit res" where
  "validateAllowIncognito v = throw_if (\<not> is_boolean v) (invalidDownloadParams ''params.allowIncognito must be a server boolean'')"

definition validateCursor :: "jsval \<Rightarrow> unit res" where
  "validateCursor v =
     throw_if (v \<noteq> Undefined \<and> (\<not> is_string v \<or> \<not> digit_string (str_of v)
         \<or> (of_nat (dec_value (str_of v)) :: rat) > MAX_SAFE_INTEGER \<or> dec_value (str_of v) < 1 \<or> dec_value (str_of v) \<ge> MAX_SCAN_ITEMS))
       (invalidDownloadParams ''params.cursor is invalid'')"

definition isBrowserStoreURL :: "platform \<Rightarrow> url \<Rightarrow> bool" where
  "isBrowserStoreURL P parsed \<longleftrightarrow>
     (let host = toLowerCase P (url_hostname parsed); path = toLowerCase P (url_pathname parsed)
      in host = lit ''chromewebstore.google.com''
       \<or> (host = lit ''chrome.google.com'' \<and> prefix (lit ''/webstore'') path)
       \<or> (host = lit ''microsoftedge.microsoft.com'' \<and> prefix (lit ''/addons'') path))"

definition validateListParams :: "jsval \<Rightarrow> unit res" where
  "validateListParams params =
     bind_res (assertObject params [''cursor'', ''limit'', ''state'', ''paused'', ''allowIncognito'']) (\<lambda>_. checks [
       validateCursor (getp params ''cursor''),
       throw_if (\<not> is_integer (getp params ''limit'') \<or> less_than (getp params ''limit'') 1
           \<or> greater_than (getp params ''limit'') MAX_PAGE_ITEMS)
         (invalidDownloadParams ''params.limit is outside the supported range''),
       throw_if (getp params ''state'' \<noteq> Undefined \<and> \<not> js_includes STATES (getp params ''state''))
         (invalidDownloadParams ''params.state is unsupported''),
       throw_if (getp params ''paused'' \<noteq> Undefined \<and> \<not> is_boolean (getp params ''paused''))
         (invalidDownloadParams ''params.paused must be a boolean''),
       validateAllowIncognito (getp params ''allowIncognito'')])"

definition validateIDParams :: "jsval \<Rightarrow> unit res" where
  "validateIDParams params =
     bind_res (assertObject params [''downloadId'', ''allowIncognito'']) (\<lambda>_. checks [
       throw_if (\<not> validDownloadID (getp params ''downloadId'')) (invalidDownloadParams ''params.downloadId is invalid''),
       validateAllowIncognito (getp params ''allowIncognito'')])"

definition validateEraseParams :: "jsval \<Rightarrow> unit res" where
  "validateEraseParams params =
     bind_res (assertObject params [''downloadId'', ''confirm'', ''allowIncognito'']) (\<lambda>_. checks [
       throw_if (getp params ''confirm'' \<noteq> Bool True)
         (fault CONFIRMATION_REQUIRED [Txt ''Erasing download history requires confirm: true'']),
       throw_if (\<not> validDownloadID (getp params ''downloadId'')) (invalidDownloadParams ''params.downloadId is invalid''),
       validateAllowIncognito (getp params ''allowIncognito'')])"

definition validateCreateParams :: "platform \<Rightarrow> jsval \<Rightarrow> unit res" where
  "validateCreateParams P params =
     bind_res (assertObject params [''url'', ''allowIncognito'']) (\<lambda>_.
     bind_res (throw_if (\<not> is_string (getp params ''url'') \<or> utf8_length (str_of (getp params ''url'')) > MAX_URL_BYTES)
       (invalidDownloadParams ''params.url is invalid'')) (\<lambda>_.
     case parseURL P (getp params ''url'') of
       None \<Rightarrow> Inl (invalidDownloadParams ''params.url must be an HTTP(S) URL'')
     | Some parsed \<Rightarrow> checks [
         throw_if (\<not> web_protocol parsed \<or> url_username parsed \<noteq> [] \<or> url_password parsed \<noteq> [] \<or> isBrowserStoreURL P parsed)
           (fault RESTRICTED_URL [Txt ''The download URL is restricted'']),
         validateAllowIncognito (getp params ''allowIncognito'')]))"

definition validateTimeout :: "jsval \<Rightarrow> jsval res" where
  "validateTimeout v =
     (let timeout = js_or v (jnum DEFAULT_TIMEOUT_MS)
      in if \<not> is_integer timeout \<or> less_than timeout 1 \<or> greater_than timeout MAX_TIMEOUT_MS
         then Inl (invalidDownloadParams ''Download timeout is outside the supported range'') else Inr timeout)"

section \<open>Downloads\<close>

definition safeDownloadURL :: "platform \<Rightarrow> jsval \<Rightarrow> jsval res" where
  "safeDownloadURL P v =
     (if \<not> is_string v \<or> utf8_length (str_of v) > MAX_URL_BYTES then Inl invalidDownloadResult
      else case parseURL P v of
        None \<Rightarrow> Inr (jstr ''[REDACTED]'')
      | Some parsed \<Rightarrow>
          if \<not> web_protocol parsed \<or> url_username parsed \<noteq> [] \<or> url_password parsed \<noteq> [] then Inr (jstr ''[REDACTED]'')
          else Inr (Str (url_origin parsed @ url_pathname parsed)))"

definition filename_limit :: exn where
  "filename_limit = fault PAYLOAD_TOO_LARGE [Txt ''Download filename metadata exceeds limits'']"

definition safeBaseName :: "jsval \<Rightarrow> jsval res" where
  "safeBaseName v =
     (if \<not> is_string v then Inl invalidDownloadResult
      else let segment = last (split_when (\<lambda>u. u = 0x5C \<or> u = 0x2F) (str_of v));
               baseName = (if segment = [] then lit ''[REDACTED]'' else segment)
        in if utf8_length baseName > MAX_FILENAME_BYTES \<or> containsControl baseName then Inl filename_limit else Inr (Str baseName))"

definition boundedText :: "jsval \<Rightarrow> string \<Rightarrow> jsval res" where
  "boundedText v name =
     (if \<not> is_string v \<or> utf8_length (str_of v) > MAX_TEXT_BYTES \<or> containsControl (str_of v)
      then Inl (fault PAYLOAD_TOO_LARGE [Txt (''Download '' @ name @ '' metadata exceeds limits'')]) else Inr v)"

definition boundedByteCount :: "jsval \<Rightarrow> bool \<Rightarrow> jsval res" where
  "boundedByteCount v allowUnknown =
     (if \<not> integerBetween v (if allowUnknown then -1 else 0) MAX_SAFE_INTEGER then Inl invalidDownloadResult else Inr v)"

definition normalizedTime :: "net_platform \<Rightarrow> jsval \<Rightarrow> bool \<Rightarrow> jsval res" where
  "normalizedTime N v optional =
     (if optional \<and> v = Undefined then Inr (Str [])
      else if \<not> is_string v \<or> length (str_of v) > 64 then Inl invalidDownloadResult
      else case dateParse (np N) (str_of v) of
        Fin timestamp \<Rightarrow> Inr (Str (isoDate N \<lfloor>timestamp\<rfloor>))
      | _ \<Rightarrow> Inl invalidDownloadResult)"

definition normalizeDownload :: "net_platform \<Rightarrow> jsval \<Rightarrow> jsval res" where
  "normalizeDownload N item =
     (if \<not> isObject item \<or> \<not> validDownloadID (getp item ''id'') \<or> \<not> js_includes STATES (getp item ''state'')
         \<or> \<not> is_boolean (getp item ''paused'') \<or> \<not> is_boolean (getp item ''canResume'') \<or> \<not> is_boolean (getp item ''exists'')
         \<or> \<not> is_boolean (getp item ''incognito'')
      then Inl invalidDownloadResult
      else
        bind_res (safeDownloadURL (np N) (getp item ''url'')) (\<lambda>sourceUrl.
        bind_res (safeDownloadURL (np N) (getp item ''finalUrl'')) (\<lambda>finalUrl.
        bind_res (safeBaseName (getp item ''filename'')) (\<lambda>fileName.
        bind_res (boundedText (getp item ''danger'') ''danger'') (\<lambda>danger.
        bind_res (if getp item ''error'' = Undefined then Inr (Str []) else boundedText (getp item ''error'') ''error'') (\<lambda>failure.
        bind_res (boundedByteCount (getp item ''bytesReceived'') False) (\<lambda>bytesReceived.
        bind_res (boundedByteCount (getp item ''totalBytes'') True) (\<lambda>totalBytes.
        bind_res (boundedByteCount (getp item ''fileSize'') True) (\<lambda>fileSize.
        bind_res (boundedText (getp item ''mime'') ''mime'') (\<lambda>mime.
        bind_res (normalizedTime N (getp item ''startTime'') False) (\<lambda>startTime.
        bind_res (normalizedTime N (getp item ''endTime'') True) (\<lambda>endTime.
        bind_res (normalizedTime N (getp item ''estimatedEndTime'') True) (\<lambda>estimatedEndTime.
        Inr (obj [(''id'', getp item ''id''), (''sourceUrl'', sourceUrl), (''finalUrl'', finalUrl), (''fileName'', fileName),
          (''pathRedacted'', Bool True), (''state'', getp item ''state''), (''paused'', getp item ''paused''),
          (''canResume'', getp item ''canResume''), (''danger'', danger), (''error'', failure), (''bytesReceived'', bytesReceived),
          (''totalBytes'', totalBytes), (''fileSize'', fileSize), (''exists'', getp item ''exists''),
          (''incognito'', getp item ''incognito''), (''mime'', mime), (''startTime'', startTime), (''endTime'', endTime),
          (''estimatedEndTime'', estimatedEndTime)]))))))))))))))"

section \<open>The commands\<close>

definition downloads_permission :: call where
  "downloads_permission = Call ''permissions.contains'' [obj [(''permissions'', Arr [jstr ''downloads''])]]"

definition downloads_unavailable :: exn where
  "downloads_unavailable = fault CAPABILITY_UNAVAILABLE [Txt ''The downloads API is unavailable'']"

definition requireDownloadAccess :: "(string \<Rightarrow> bool) \<Rightarrow> ('s, unit) io" where
  "requireDownloadAccess api =
     bind_io (throw_when (\<not> api ''downloads.search'' \<or> \<not> api ''permissions.contains'') downloads_unavailable) (\<lambda>_.
     bind_io (await (callee downloads_permission) (arguments downloads_permission)) (\<lambda>granted.
     throw_when (\<not> truthy granted)
       (fault PERMISSION_REQUIRED [Txt ''Downloads access is required. Grant Personal data in extension settings.''])))"

definition withTimeout :: "jsval \<Rightarrow> ('s, 'a) io \<Rightarrow> ('s, 'a) io" where
  "withTimeout timeoutMs operation = deadline timeoutMs (race timeoutMs operation)"

definition run :: "(string \<Rightarrow> bool) \<Rightarrow> jsval \<Rightarrow> (jsval \<Rightarrow> ('s, 'a) io) \<Rightarrow> ('s, 'a) io" where
  "run api request operation =
     bind_io (lift_res (validateTimeout (getp request ''timeoutMs''))) (\<lambda>timeoutMs.
     withTimeout timeoutMs (
       bind_io (requireDownloadAccess api) (\<lambda>_.
       bind_io (operation timeoutMs) (\<lambda>result.
       bind_io (requireDownloadAccess api) (\<lambda>_. Return result)))))"

definition callDownloads :: "platform \<Rightarrow> (string \<Rightarrow> bool) \<Rightarrow> string \<Rightarrow> jsval \<Rightarrow> ('s, jsval) io" where
  "callDownloads P api name argument =
     bind_io (throw_when (\<not> api (''downloads.'' @ name)) downloads_unavailable) (\<lambda>_.
     rejection P (await (''downloads.'' @ name) [argument]))"

definition findDownload :: "net_platform \<Rightarrow> (string \<Rightarrow> bool) \<Rightarrow> jsval \<Rightarrow> jsval \<Rightarrow> ('s, jsval) io" where
  "findDownload N api downloadId allowIncognito =
     bind_io (callDownloads (np N) api ''search'' (obj [(''id'', downloadId)])) (\<lambda>found.
     bind_io (throw_when (\<not> is_array found \<or> length (elems found) > 1) invalidDownloadResult) (\<lambda>_.
     case elems found of
       [] \<Rightarrow> Throw (fault DOWNLOAD_NOT_FOUND [Txt ''The download was not found''])
     | first # _ \<Rightarrow>
         bind_io (lift_res (normalizeDownload N first)) (\<lambda>item.
         bind_io (throw_when (truthy (getp item ''incognito'') \<and> \<not> truthy allowIncognito) incognito_refused) (\<lambda>_. Return item))))"

definition validateLifecycleState :: "string \<Rightarrow> jsval \<Rightarrow> unit res" where
  "validateLifecycleState operation item = checks [
     throw_if (operation = ''pause'' \<and> (getp item ''state'' \<noteq> jstr ''in_progress'' \<or> truthy (getp item ''paused'')))
       (invalid ''Only an active unpaused download can be paused''),
     throw_if (operation = ''resume'' \<and> \<not> truthy (getp item ''canResume'')) (invalid ''The download cannot be resumed''),
     throw_if (operation = ''cancel'' \<and> getp item ''state'' \<noteq> jstr ''in_progress'')
       (invalid ''Only an active download can be cancelled'')]"

text \<open>The members of every result.\<close>

definition download_result :: "string \<Rightarrow> jsval list \<Rightarrow> jsval \<Rightarrow> nat \<Rightarrow> jsstr \<Rightarrow> string \<Rightarrow> bool \<Rightarrow> jsval list \<Rightarrow> string list \<Rightarrow> jsval" where
  "download_result kind downloads downloadId totalMatched nextCursor operation changed erasedIds warnings =
     obj [(''kind'', jstr kind), (''downloads'', Arr downloads), (''downloadId'', downloadId),
       (''totalMatched'', jnum (of_nat totalMatched)), (''nextCursor'', Str nextCursor), (''operation'', jstr operation),
       (''changed'', Bool changed), (''erasedIds'', Arr erasedIds), (''warnings'', Arr (map jstr warnings))]"

definition itemResult :: "string \<Rightarrow> string \<Rightarrow> jsval \<Rightarrow> bool \<Rightarrow> jsval" where
  "itemResult kind operation item changed = download_result kind [item] (getp item ''id'') 1 [] operation changed [] []"

definition download_query :: "jsval \<Rightarrow> jsval" where
  "download_query params =
     obj ([(''orderBy'', Arr [jstr ''-startTime'']), (''limit'', jnum (of_nat (MAX_SCAN_ITEMS + 1)))]
       @ (if truthy (getp params ''state'') then [(''state'', getp params ''state'')] else [])
       @ (if getp params ''paused'' \<noteq> Undefined then [(''paused'', getp params ''paused'')] else []))"

definition visible_downloads :: "jsval \<Rightarrow> jsval list \<Rightarrow> jsval list" where
  "visible_downloads params found =
     (if truthy (getp params ''allowIncognito'') then found else filter (\<lambda>item. getp item ''incognito'' \<noteq> Bool True) found)"

definition list_downloads :: "net_platform \<Rightarrow> (string \<Rightarrow> bool) \<Rightarrow> jsval \<Rightarrow> ('s, jsval) io" where
  "list_downloads N api request =
     (let params = getp request ''params''; limit = page_limit (getp params ''limit''); cursor = getp params ''cursor'' in
     bind_io (lift_res (validateListParams params)) (\<lambda>_.
     run api request (\<lambda>timeoutMs.
       bind_io (callDownloads (np N) api ''search'' (download_query params)) (\<lambda>found.
       bind_io (throw_if_cancelled timeoutMs) (\<lambda>_.
       bind_io (throw_when (\<not> is_array found \<or> length (elems found) > MAX_SCAN_ITEMS)
         (fault PAYLOAD_TOO_LARGE [Txt ''The download history exceeds the bounded scan limit''])) (\<lambda>_.
       let visible = visible_downloads params (elems found) in
       bind_io (lift_res (map_res (normalizeDownload N) (page_items limit cursor visible))) (\<lambda>page.
       Return (download_result ''list'' page (jnum 0) (length visible) (page_next limit cursor visible) [] False [] []))))))))"

definition get_download :: "net_platform \<Rightarrow> (string \<Rightarrow> bool) \<Rightarrow> jsval \<Rightarrow> ('s, jsval) io" where
  "get_download N api request =
     (let params = getp request ''params'' in
     bind_io (lift_res (validateIDParams params)) (\<lambda>_.
     run api request (\<lambda>timeoutMs.
       bind_io (findDownload N api (getp params ''downloadId'') (getp params ''allowIncognito'')) (\<lambda>item.
       bind_io (throw_if_cancelled timeoutMs) (\<lambda>_. Return (itemResult ''item'' [] item False))))))"

text \<open>\<open>incognito\<close>: the extension runs in an incognito context.\<close>

definition create_download :: "net_platform \<Rightarrow> (string \<Rightarrow> bool) \<Rightarrow> bool \<Rightarrow> jsval \<Rightarrow> ('s, jsval) io" where
  "create_download N api incognito request =
     (let params = getp request ''params'' in
     bind_io (lift_res (validateCreateParams (np N) params)) (\<lambda>_.
     run api request (\<lambda>timeoutMs.
       bind_io (throw_when (incognito \<and> \<not> truthy (getp params ''allowIncognito'')) incognito_refused) (\<lambda>_.
       bind_io (rejection (np N) (await ''downloads.download''
         [obj [(''url'', getp params ''url''), (''conflictAction'', jstr ''uniquify''), (''saveAs'', Bool False)]])) (\<lambda>downloadId.
       bind_io (throw_if_cancelled timeoutMs) (\<lambda>_.
       bind_io (throw_when (\<not> validDownloadID downloadId) invalidDownloadResult) (\<lambda>_.
       Return (download_result ''create'' [] downloadId 0 [] ''create'' True []
         [''HTTP(S) downloads may include cookies already stored for the destination host'']))))))))"

definition lifecycle :: "net_platform \<Rightarrow> (string \<Rightarrow> bool) \<Rightarrow> string \<Rightarrow> jsval \<Rightarrow> ('s, jsval) io" where
  "lifecycle N api operation request =
     (let params = getp request ''params''; find_again = findDownload N api (getp params ''downloadId'') (getp params ''allowIncognito'') in
     bind_io (lift_res (validateIDParams params)) (\<lambda>_.
     run api request (\<lambda>timeoutMs.
       bind_io find_again (\<lambda>before.
       bind_io (lift_res (validateLifecycleState operation before)) (\<lambda>_.
       bind_io (callDownloads (np N) api operation (getp params ''downloadId'')) (\<lambda>_.
       bind_io (throw_if_cancelled timeoutMs) (\<lambda>_.
       bind_io find_again (\<lambda>after. Return (itemResult ''mutation'' operation after True)))))))))"

definition erase_download :: "net_platform \<Rightarrow> (string \<Rightarrow> bool) \<Rightarrow> jsval \<Rightarrow> ('s, jsval) io" where
  "erase_download N api request =
     (let params = getp request ''params''; downloadId = getp params ''downloadId'' in
     bind_io (lift_res (validateEraseParams params)) (\<lambda>_.
     run api request (\<lambda>timeoutMs.
       bind_io (findDownload N api downloadId (getp params ''allowIncognito'')) (\<lambda>before.
       bind_io (throw_when (getp before ''state'' = jstr ''in_progress'')
         (invalid ''Cancel an active download before erasing its history entry'')) (\<lambda>_.
       bind_io (callDownloads (np N) api ''erase'' (obj [(''id'', downloadId)])) (\<lambda>erasedIds.
       bind_io (throw_if_cancelled timeoutMs) (\<lambda>_.
       bind_io (throw_when (erasedIds \<noteq> Arr [downloadId]) invalidDownloadResult) (\<lambda>_.
       Return (download_result ''erase'' [] downloadId 0 [] ''erase'' True [downloadId] [''The downloaded file was not deleted''])))))))))"

definition download_handlers :: "net_platform \<Rightarrow> (string \<Rightarrow> bool) \<Rightarrow> bool \<Rightarrow> (string \<times> (jsval \<Rightarrow> ('s, jsval) io)) list" where
  "download_handlers N api incognito =
     [(''list'', list_downloads N api), (''get'', get_download N api), (''create'', create_download N api incognito),
      (''pause'', lifecycle N api ''pause''), (''resume'', lifecycle N api ''resume''), (''cancel'', lifecycle N api ''cancel''),
      (''erase'', erase_download N api)]"

end
