(* ===== verification/Download_Properties.thy ===== *)
theory Download_Properties
  imports Downloads
begin

text \<open>
  Downloads are changed only with permission, in the state the browser has just shown and on confirmation; what is
  returned of them is public; lists come page by page.
\<close>

section \<open>What the browser is asked to change\<close>

definition download_changes :: "string list" where
  "download_changes = [''downloads.download'', ''downloads.pause'', ''downloads.resume'', ''downloads.cancel'', ''downloads.erase'']"

text \<open>The browser's last answer showed the one download that is named, and what the call needs of it.\<close>

definition download_seen :: "net_platform \<Rightarrow> jsval \<Rightarrow> log \<Rightarrow> jsval \<Rightarrow> bool" where
  "download_seen N params l item \<longleftrightarrow> (\<exists>l0 found.
     l = l0 @ [(Call ''downloads.search'' [obj [(''id'', getp params ''downloadId'')]], Inr (Arr [found]))]
     \<and> normalizeDownload N found = Inr item \<and> (truthy (getp item ''incognito'') \<longrightarrow> truthy (getp params ''allowIncognito'')))"

definition download_call_allowed :: "net_platform \<Rightarrow> bool \<Rightarrow> jsval \<Rightarrow> log \<Rightarrow> call \<Rightarrow> bool" where
  "download_call_allowed N incognito request l c \<longleftrightarrow> (callee c \<in> set download_changes \<longrightarrow>
     (let params = getp request ''params'' in granted l downloads_permission
      \<and> (if callee c = ''downloads.download''
         then (\<exists>u. parseURL (np N) (getp params ''url'') = Some u \<and> web_protocol u \<and> url_username u = [] \<and> url_password u = []
            \<and> \<not> isBrowserStoreURL (np N) u \<and> getp (hd (arguments c)) ''url'' = getp params ''url'')
            \<and> (incognito \<longrightarrow> truthy (getp params ''allowIncognito''))
         else \<exists>item. download_seen N params l item
            \<and> (callee c = ''downloads.erase'' \<longrightarrow> getp params ''confirm'' = Bool True \<and> getp item ''state'' \<noteq> jstr ''in_progress''
                 \<and> arguments c = [obj [(''id'', getp params ''downloadId'')]])
            \<and> (callee c \<noteq> ''downloads.erase'' \<longrightarrow> arguments c = [getp params ''downloadId''])
            \<and> (callee c \<in> {''downloads.pause'', ''downloads.cancel''} \<longrightarrow> getp item ''state'' = jstr ''in_progress'')
            \<and> (callee c = ''downloads.resume'' \<longrightarrow> truthy (getp item ''canResume'')))))"

lemma download_allows_support [simp]: "lets_support (download_call_allowed N incognito request)"
  by (auto simp: lets_support_def download_call_allowed_def support_calls_def download_changes_def)

lemma download_allows_search [simp]: "download_call_allowed N incognito request h (Call ''downloads.search'' args)"
  by (simp add: download_call_allowed_def download_changes_def)

lemma safe_callDownloads [safe_intros]:
  assumes "G h (Call (''downloads.'' @ name) [argument])"
    and "\<And>t v. R s t \<Longrightarrow> Q t (h @ [(Call (''downloads.'' @ name) [argument], Inr v)]) v"
  shows "safe R G (callDownloads P api name argument) s h Q"
  unfolding callDownloads_def by (intro safe_intros) (use assms in auto)

lemma safe_requireDownloadAccess [safe_intros]:
  assumes "lets_support G" and "\<And>t v. R s t \<Longrightarrow> truthy v \<Longrightarrow> Q t (h @ [(downloads_permission, Inr v)]) ()"
  shows "safe R G (requireDownloadAccess api) s h Q"
  unfolding requireDownloadAccess_def by (intro safe_intros) (use assms in \<open>auto simp: downloads_permission_def\<close>)

lemma safe_run [safe_intros]:
  assumes G: "lets_support G"
    and operation: "\<And>T t h'. granted h' downloads_permission \<Longrightarrow> safe R G (operation T) t h' (\<lambda>s h x. \<forall>t l. Q t (h @ l) x)"
  shows "safe R G (run api request operation) s h Q"
  unfolding run_def withTimeout_def
  apply (intro safe_intros G)
  apply (rule safe_mono [OF operation])
   apply (auto simp: granted_def answered_def)[1]
  apply (intro safe_intros G)
  apply simp
  done

lemma safe_findDownload [safe_intros]:
  assumes "\<And>h. G h (Call ''downloads.search'' [obj [(''id'', getp params ''downloadId'')]])"
    and "\<And>t l item. download_seen N params (h @ l) item \<Longrightarrow> Q t (h @ l) item"
  shows "safe R G (findDownload N api (getp params ''downloadId'') (getp params ''allowIncognito'')) s h Q"
  unfolding findDownload_def
proof (intro safe_intros, goal_cases)
  case (2 t v)
  show ?case
  proof (cases "elems v")
    case (Cons a as)
    show ?thesis unfolding Cons list.case
    proof (intro safe_intros, goal_cases)
      case (1 item)
      then have "v = Arr [a]" using Cons 2 by (cases v) auto
      then have "download_seen N params (h @ [(Call ''downloads.search'' [obj [(''id'', getp params ''downloadId'')]], Inr v)]) item"
        using 1 by (auto simp: download_seen_def)
      from assms(2) [OF this] show ?case by simp
    qed
  qed (simp add: safe_Throw)
qed (simp add: assms(1))

lemma download_change_allowed:
  assumes "granted h downloads_permission" and "download_seen N (getp request ''params'') (h @ l) item"
    and "operation \<in> {''pause'', ''resume'', ''cancel'', ''erase''}"
    and "operation = ''erase'' \<Longrightarrow> getp (getp request ''params'') ''confirm'' = Bool True \<and> getp item ''state'' \<noteq> jstr ''in_progress''
        \<and> arg = obj [(''id'', getp (getp request ''params'') ''downloadId'')]"
    and "operation \<noteq> ''erase'' \<Longrightarrow> arg = getp (getp request ''params'') ''downloadId''"
    and "operation \<in> {''pause'', ''cancel''} \<Longrightarrow> getp item ''state'' = jstr ''in_progress''"
    and "operation = ''resume'' \<Longrightarrow> truthy (getp item ''canResume'')"
  shows "download_call_allowed N incognito request (h @ l) (Call (''downloads.'' @ operation) [arg])"
proof -
  have "granted (h @ l) downloads_permission" using assms(1) by (auto simp: granted_def answered_def)
  moreover have "operation \<noteq> ''download''" using assms(3) by auto
  moreover have "\<exists>item. download_seen N (getp request ''params'') (h @ l) item
      \<and> (operation = ''erase'' \<longrightarrow> getp (getp request ''params'') ''confirm'' = Bool True \<and> getp item ''state'' \<noteq> jstr ''in_progress''
           \<and> [arg] = [obj [(''id'', getp (getp request ''params'') ''downloadId'')]])
      \<and> (operation \<noteq> ''erase'' \<longrightarrow> [arg] = [getp (getp request ''params'') ''downloadId''])
      \<and> (operation \<in> {''pause'', ''cancel''} \<longrightarrow> getp item ''state'' = jstr ''in_progress'')
      \<and> (operation = ''resume'' \<longrightarrow> truthy (getp item ''canResume''))"
    by (intro exI [of _ item] conjI impI assms(2)) (use assms(4-) in simp_all)
  ultimately show ?thesis unfolding download_call_allowed_def Let_def by simp
qed

section \<open>What is returned\<close>

text \<open>A download as it is reported: URLs without query, fragment and credentials, a name without directories, and an
  incognito download only if the server allows it.\<close>

definition public_url :: "platform \<Rightarrow> jsval \<Rightarrow> bool" where
  "public_url P v \<longleftrightarrow> v = jstr ''[REDACTED]''
     \<or> (\<exists>w u. parseURL P w = Some u \<and> web_protocol u \<and> url_username u = [] \<and> url_password u = [] \<and> v = Str (url_origin u @ url_pathname u))"

definition public_name :: "jsval \<Rightarrow> bool" where
  "public_name v \<longleftrightarrow> (\<exists>s. v = Str s \<and> s \<noteq> [] \<and> 0x2F \<notin> set s \<and> 0x5C \<notin> set s \<and> utf8_length s \<le> MAX_FILENAME_BYTES \<and> \<not> containsControl s)"

definition public_download :: "platform \<Rightarrow> bool \<Rightarrow> jsval \<Rightarrow> bool" where
  "public_download P allowIncognito d \<longleftrightarrow> public_url P (getp d ''sourceUrl'') \<and> public_url P (getp d ''finalUrl'')
     \<and> public_name (getp d ''fileName'') \<and> getp d ''pathRedacted'' = Bool True
     \<and> (getp d ''incognito'' = Bool False \<or> getp d ''incognito'' = Bool True \<and> allowIncognito)"

lemma split_when_pieces: "split_when p s \<noteq> [] \<and> (\<forall>q\<in>set (split_when p s). \<forall>u\<in>set q. \<not> p u)"
  by (induction s) (auto split: list.splits)

lemma safeDownloadURL_public: "safeDownloadURL P v = Inr w \<Longrightarrow> public_url P w"
  by (auto simp: safeDownloadURL_def public_url_def split: if_splits option.splits)

lemma safeBaseName_public: "safeBaseName v = Inr w \<Longrightarrow> public_name w"
proof -
  assume r: "safeBaseName v = Inr w"
  define q where "q = last (split_when (\<lambda>u. u = 0x5C \<or> u = 0x2F) (str_of v))"
  define s where "s = (if q = [] then lit ''[REDACTED]'' else q)"
  have q: "\<forall>u\<in>set q. u \<noteq> 0x5C \<and> u \<noteq> 0x2F"
    unfolding q_def using split_when_pieces [of "\<lambda>u. u = 0x5C \<or> u = 0x2F" "str_of v"] last_in_set by blast
  have literal: "0x5C \<notin> set (lit ''[REDACTED]'') \<and> 0x2F \<notin> set (lit ''[REDACTED]'') \<and> lit ''[REDACTED]'' \<noteq> []" by code_simp
  have "0x2F \<notin> set s \<and> 0x5C \<notin> set s \<and> s \<noteq> []"
  proof (cases "q = []")
    case True
    then have "s = lit ''[REDACTED]''" by (simp add: s_def)
    then show ?thesis using literal by (simp only: simp_thms)
  next
    case False
    then have "s = q" by (simp add: s_def)
    then show ?thesis using q False by (simp only: simp_thms) blast
  qed
  moreover have "safeBaseName v = (if \<not> is_string v then Inl invalidDownloadResult
      else if utf8_length s > MAX_FILENAME_BYTES \<or> containsControl s then Inl filename_limit else Inr (Str s))"
    by (simp only: safeBaseName_def Let_def s_def q_def)
  ultimately show ?thesis using r by (simp add: public_name_def split: if_split_asm)
qed

lemma normalized_public:
  assumes "normalizeDownload N found = Inr d" and "truthy (getp d ''incognito'') \<longrightarrow> allow"
  shows "public_download (np N) allow d"
proof -
  have "\<exists>b. getp found ''incognito'' = Bool b"
    using assms(1) by (auto simp: normalizeDownload_def split: if_splits)
  moreover have "getp d ''incognito'' = getp found ''incognito'' \<and> public_url (np N) (getp d ''sourceUrl'')
     \<and> public_url (np N) (getp d ''finalUrl'') \<and> public_name (getp d ''fileName'') \<and> getp d ''pathRedacted'' = Bool True"
    using assms(1) unfolding normalizeDownload_def
    by (auto simp: bind_res_Inr safeDownloadURL_public safeBaseName_public split: if_split_asm)
  ultimately show ?thesis using assms(2) by (auto simp: public_download_def)
qed

definition download_result_ok :: "platform \<Rightarrow> jsval \<Rightarrow> jsval \<Rightarrow> bool" where
  "download_result_ok P request res \<longleftrightarrow>
     list_all (public_download P (truthy (getp (getp request ''params'') ''allowIncognito''))) (elems (getp res ''downloads''))"

lemma downloads_of_result [simp]:
  "getp (download_result kind ds i n c operation changed es ws) ''downloads'' = Arr ds"
  by (simp add: download_result_def)

lemma page_public:
  assumes "map_res (normalizeDownload N) (page_items limit cursor (visible_downloads params found)) = Inr ds"
  shows "list_all (public_download (np N) (truthy (getp params ''allowIncognito''))) ds"
  unfolding list_all_iff
proof
  fix d assume "d \<in> set ds"
  then obtain x where x: "x \<in> set (visible_downloads params found)" "normalizeDownload N x = Inr d"
    using map_res_Inr [OF assms] by (auto simp: page_items_def dest!: in_set_takeD in_set_dropD)
  have same: "getp d ''incognito'' = getp x ''incognito''"
    using x(2) unfolding normalizeDownload_def by (auto simp: bind_res_Inr split: if_split_asm)
  have "\<exists>b. getp x ''incognito'' = Bool b" using x(2) by (auto simp: normalizeDownload_def split: if_splits)
  with x(1) same have "truthy (getp d ''incognito'') \<longrightarrow> truthy (getp params ''allowIncognito'')"
    by (auto simp: visible_downloads_def split: if_splits)
  then show "public_download (np N) (truthy (getp params ''allowIncognito'')) d" by (rule normalized_public [OF x(2)])
qed

lemma item_public: "download_seen N (getp request ''params'') l item \<Longrightarrow> download_result_ok (np N) request (itemResult kind operation item changed)"
  by (auto simp: download_seen_def download_result_ok_def itemResult_def intro!: normalized_public)

section \<open>Every handler\<close>

abbreviation download_safe :: "('s \<Rightarrow> 's \<Rightarrow> bool) \<Rightarrow> net_platform \<Rightarrow> bool \<Rightarrow> jsval \<Rightarrow> ('s, jsval) io \<Rightarrow> 's \<Rightarrow> bool" where
  "download_safe R N incognito request m s \<equiv>
     safe R (download_call_allowed N incognito request) m s [] (\<lambda>_ _ res. download_result_ok (np N) request res)"

lemma safe_download_list: "download_safe R N incognito request (list_downloads N api request) s"
  unfolding list_downloads_def Let_def
  by (intro safe_intros download_allows_support) (auto simp: download_result_ok_def download_call_allowed_def download_changes_def intro!: page_public)

lemma safe_download_get: "download_safe R N incognito request (get_download N api request) s"
  unfolding get_download_def Let_def
  by (intro safe_intros download_allows_support) (auto intro!: item_public)

lemma download_create_checked:
  assumes "validateCreateParams P params = Inr x"
  shows "\<exists>u. parseURL P (getp params ''url'') = Some u \<and> web_protocol u \<and> url_username u = [] \<and> url_password u = [] \<and> \<not> isBrowserStoreURL P u"
  using assms unfolding validateCreateParams_def bind_res_Inr
  by (auto simp: checks_Cons_ok throw_if_ok simp flip: returns_unit split: option.splits)

lemma safe_download_create: "download_safe R N incognito request (create_download N api incognito request) s"
  unfolding create_download_def Let_def
proof (intro safe_intros download_allows_support, goal_cases)
  case (1 x T t h')
  then show ?case using download_create_checked [OF 1(1)] by (auto simp: download_call_allowed_def)
qed (simp add: download_result_ok_def)

lemma download_confirmed: "validateEraseParams params = Inr x \<Longrightarrow> getp params ''confirm'' = Bool True"
  unfolding validateEraseParams_def bind_res_Inr by (auto simp: checks_Cons_ok throw_if_ok simp flip: returns_unit)

lemma download_lifecycle_states:
  "validateLifecycleState operation item = Inr x \<Longrightarrow>
     (operation \<in> {''pause'', ''cancel''} \<longrightarrow> getp item ''state'' = jstr ''in_progress'') \<and> (operation = ''resume'' \<longrightarrow> truthy (getp item ''canResume''))"
  by (auto simp: validateLifecycleState_def checks_Cons_ok throw_if_ok simp flip: returns_unit)

lemma safe_download_lifecycle:
  assumes "operation \<in> {''pause'', ''resume'', ''cancel''}"
  shows "download_safe R N incognito request (lifecycle N api operation request) s"
  unfolding lifecycle_def Let_def
proof (intro safe_intros download_allows_support, goal_cases)
  case (2 x T t h' ta l item xa)
  then show ?case using assms download_lifecycle_states [OF 2(4)]
    by - (rule download_change_allowed [where item = item], auto)
qed (auto intro!: item_public)

lemma safe_download_erase: "download_safe R N incognito request (erase_download N api request) s"
  unfolding erase_download_def Let_def
proof (intro safe_intros download_allows_support, goal_cases)
  case (2 x T t h' ta l item)
  then show ?case using download_confirmed [OF 2(1)]
    by - (rule download_change_allowed [where item = item], auto)
qed (simp_all add: download_result_ok_def)

lemma safe_download_handlers:
  "(name, m) \<in> set (download_handlers N api incognito) \<Longrightarrow> download_safe R N incognito request (m request) s"
  unfolding download_handlers_def
  by (auto intro: safe_download_list safe_download_get safe_download_create safe_download_lifecycle safe_download_erase)


text \<open>Every download that a handler returns has URLs without query, fragment and credentials and a name without directories,
  and is not an incognito download unless the server allows it.\<close>

theorem download_results_public:
  assumes "(name, m) \<in> set (download_handlers N api incognito)" and "exec R (m request) s l (Inr res) t"
    and "d \<in> set (elems (getp res ''downloads''))"
  shows "public_download (np N) (truthy (getp (getp request ''params'') ''allowIncognito'')) d"
  using safe_exec [OF assms(2) safe_download_handlers [OF assms(1)]] assms(3) by (simp add: download_result_ok_def list_all_iff)

section \<open>Pages\<close>

lemma download_list_object: "returns (validateListParams params) \<Longrightarrow> isObject params"
  by (cases "isObject params") (simp_all add: validateListParams_def assertObject_def throw_if_def)

lemma download_list_limit:
  assumes "returns (validateListParams params)"
  shows "1 \<le> page_limit (getp params ''limit'')"
proof -
  have "is_integer (getp params ''limit'') \<and> \<not> less_than (getp params ''limit'') 1"
    using assms unfolding validateListParams_def returns_unit bind_res_Inr
    by (auto simp: checks_Cons_ok throw_if_ok simp flip: returns_unit)
  then obtain i :: int where "getp params ''limit'' = jnum (of_int i)" "1 \<le> i" by (auto simp: is_integer_iff)
  then show ?thesis by (simp add: page_limit_def)
qed

lemma download_list_cursor:
  assumes "returns (validateListParams params)" and "1 \<le> k" "k < MAX_SCAN_ITEMS"
  shows "returns (validateListParams (with_cursor params (show_nat k)))"
proof -
  let ?keys = "[''cursor'', ''limit'', ''state'', ''paused'', ''allowIncognito'']"
  have object: "isObject params" by (rule download_list_object [OF assms(1)])
  have "assertObject params ?keys = ok"
    using assms(1) unfolding validateListParams_def returns_unit bind_res_Inr by auto
  then have keys: "\<not> list_ex (\<lambda>key. key \<notin> set (map lit ?keys)) (object_keys params)"
    using object unfolding assertObject_def throw_if_def by (simp split: if_split_asm)
  have "list_all (\<lambda>key. key \<in> set (map lit ?keys)) (object_keys (with_cursor params (show_nat k)))"
    using keys unfolding list_all_iff list_ex_iff keys_with_cursor [OF object] by auto
  then have shape: "assertObject (with_cursor params (show_nat k)) ?keys = ok"
    by (simp add: assertObject_def throw_if_def list_all_iff list_ex_iff)
  have cursor: "validateCursor (Str (show_nat k)) = ok"
    using assms(2,3) by (simp add: validateCursor_def throw_if_def dec_value_show_nat digit_string_show_nat MAX_SAFE_INTEGER_def MAX_SCAN_ITEMS_def)
  show ?thesis
    using assms(1) cursor by (simp add: validateListParams_def getp_with_cursor [OF object] shape checks_Cons_ok throw_if_ok \<open>assertObject params ?keys = ok\<close>)
qed

interpretation downloads: paged "\<lambda>params. returns (validateListParams params)" "\<lambda>params. page_limit (getp params ''limit'')" MAX_SCAN_ITEMS
  by unfold_locales (simp_all add: download_list_object download_list_limit [simplified] getp_with_cursor download_list_cursor)

text \<open>A reader who follows the cursors of list requests sees every visible download of an unchanged history exactly once, in
  the browser's order.\<close>

theorem download_pages_complete:
  assumes "returns (validateListParams params)" and "getp params ''cursor'' = Undefined" and "length found \<le> MAX_SCAN_ITEMS"
  shows "concat (pages (\<lambda>params. page_limit (getp params ''limit'')) (Suc (length (visible_downloads params found))) params (visible_downloads params found))
      = visible_downloads params found"
proof (rule downloads.pages_complete [OF assms(1,2)])
  show "length (visible_downloads params found) \<le> MAX_SCAN_ITEMS"
    using assms(3) le_trans [OF length_filter_le] by (auto simp: visible_downloads_def)
qed

section \<open>Witnesses\<close>










theorem download_pages_complete_witness:
  "concat (pages (\<lambda>params. page_limit (getp params ''limit'')) 4 (obj [(''limit'', jnum 2), (''allowIncognito'', Bool True)]) [jnum 1, jnum 2, jnum 3])
   = [jnum 1, jnum 2, jnum 3]"
proof -
  let ?p = "obj [(''limit'', jnum 2), (''allowIncognito'', Bool True)]"
  have valid: "returns (validateListParams ?p)" by code_simp
  have visible: "visible_downloads ?p [jnum 1, jnum 2, jnum 3] = [jnum 1, jnum 2, jnum 3]" by (simp add: visible_downloads_def)
  have "getp ?p ''cursor'' = Undefined" and "length [jnum 1, jnum 2, jnum 3] \<le> MAX_SCAN_ITEMS" and "Suc (length [jnum 1, jnum 2, jnum 3]) = 4"
    by (simp_all add: MAX_SCAN_ITEMS_def)
  with download_pages_complete [OF valid, of "[jnum 1, jnum 2, jnum 3]"] show ?thesis unfolding visible by metis
qed
end
