(* ===== verification/Personal_Data.thy ===== *)
theory Personal_Data
  imports Paging Data_Commands
begin

text \<open>
  The handlers of history, bookmarks and the reading list (\<open>chrome-extension/src/handlers/personal-data.js\<close>). \<open>api\<close> says
  which objects and functions the browser has. Validators return the object with the normalised parameters.
\<close>

section \<open>Parameters of the model\<close>

text \<open>Of the URL class: the names of \<open>searchParams\<close>, and \<open>href\<close> after user name, password and fragment have been emptied
  and the named parameters set to \<open>[REDACTED]\<close>. \<open>url_before\<close>: \<open>localeCompare\<close> of two URLs is negative.\<close>

record data_platform =
  dp :: platform
  queryNames :: "jsstr \<Rightarrow> jsstr list"
  scrubURL :: "jsstr \<Rightarrow> jsstr list \<Rightarrow> jsstr"
  url_before :: "jsstr \<Rightarrow> jsstr \<Rightarrow> bool"

definition DEFAULT_TIMEOUT_MS :: rat where "DEFAULT_TIMEOUT_MS = 30000"
definition MAX_TIMEOUT_MS :: rat where "MAX_TIMEOUT_MS = 120000"
definition DEFAULT_PAGE_ITEMS :: rat where "DEFAULT_PAGE_ITEMS = 50"
definition MAX_PAGE_ITEMS :: rat where "MAX_PAGE_ITEMS = 200"
definition MAX_SCAN_ITEMS :: nat where "MAX_SCAN_ITEMS = 10000"
definition MAX_URL_BYTES :: nat where "MAX_URL_BYTES = 8192"
definition MAX_TITLE_BYTES :: nat where "MAX_TITLE_BYTES = 2048"
definition MAX_ID_BYTES :: nat where "MAX_ID_BYTES = 256"
definition MAX_QUERY_BYTES :: nat where "MAX_QUERY_BYTES = 1024"

definition HISTORY_TRANSITIONS :: "string list" where
  "HISTORY_TRANSITIONS = [''link'', ''typed'', ''auto_bookmark'', ''auto_subframe'', ''manual_subframe'', ''generated'',
     ''auto_toplevel'', ''form_submit'', ''reload'', ''keyword'', ''keyword_generated'']"

text \<open>Case folding of the flags \<open>iu\<close>, for the letters of the pattern: the long s and the Kelvin sign fold to letters.\<close>

definition fold_unit :: "16 word \<Rightarrow> 16 word" where
  "fold_unit u = (if u = 0x17F then 0x73 else if u = 0x212A then 0x6B else ascii_lower u)"

definition gaps :: "string \<Rightarrow> string \<Rightarrow> string list" where
  "gaps a b = [a @ b, a @ ''-'' @ b, a @ ''_'' @ b]"

definition sensitive_names :: "string list" where
  "sensitive_names = [''password'', ''passwd'', ''passphrase'', ''secret''] @ gaps ''client'' ''secret'' @ [''token''] @ gaps ''id'' ''token''
     @ [''credential'', ''authorization'', ''cookie''] @ gaps ''api'' ''key'' @ gaps ''access'' ''token'' @ gaps ''refresh'' ''token''"

definition SENSITIVE_QUERY_NAME :: "jsstr \<Rightarrow> bool" where
  "SENSITIVE_QUERY_NAME name \<longleftrightarrow> map fold_unit name \<in> set (map lit sensitive_names)"

section \<open>Checks\<close>

abbreviation invalidParams :: "string \<Rightarrow> exn" where
  "invalidParams message \<equiv> invalid message"

definition invalidBrowserResult :: "string \<Rightarrow> exn" where
  "invalidBrowserResult label = invalid (''The browser returned invalid '' @ label @ '' data'')"

definition objectParams :: "jsval \<Rightarrow> unit res" where
  "objectParams params = throw_if (\<not> isObject params) (invalidParams ''params must be an object'')"

definition allowedKeys :: "jsval \<Rightarrow> string list \<Rightarrow> unit res" where
  "allowedKeys params keys =
     (case find (\<lambda>key. key \<notin> set (map lit keys)) (object_keys params) of
        None \<Rightarrow> ok
      | Some key \<Rightarrow> Inl (fault INVALID_MESSAGE [Txt ''params.'', Val (Str key), Txt '' is not allowed'']))"

definition requiredBoundedText :: "jsval \<Rightarrow> nat \<Rightarrow> string \<Rightarrow> jsval res" where
  "requiredBoundedText v maxBytes field =
     (if \<not> is_string v \<or> trim (str_of v) = [] \<or> utf8_length (str_of v) > maxBytes
      then Inl (invalidParams (field @ '' must be a non-empty bounded string'')) else Inr v)"

definition optionalBoundedText :: "jsval \<Rightarrow> nat \<Rightarrow> string \<Rightarrow> jsval res" where
  "optionalBoundedText v maxBytes field =
     (if v = Undefined then Inr Undefined
      else if \<not> is_string v \<or> utf8_length (str_of v) > maxBytes then Inl (invalidParams (field @ '' must be a bounded string'')) else Inr v)"

definition hasControl :: "jsstr \<Rightarrow> bool" where
  "hasControl s \<longleftrightarrow> list_ex (\<lambda>code. code < 32 \<or> code = 127) (code_points s)"

definition boundedText :: "jsval \<Rightarrow> nat \<Rightarrow> string \<Rightarrow> jsval res" where
  "boundedText v maxBytes field =
     (if \<not> is_string v \<or> utf8_length (str_of v) > maxBytes \<or> hasControl (str_of v) then Inl (invalidBrowserResult field) else Inr v)"

definition requiredID :: "jsval \<Rightarrow> string \<Rightarrow> jsval res" where
  "requiredID v field =
     (if \<not> is_string v \<or> \<not> truthy v \<or> utf8_length (str_of v) > MAX_ID_BYTES
      then Inl (invalidParams (field @ '' must be a non-empty bounded string'')) else Inr v)"

definition optionalID :: "jsval \<Rightarrow> string \<Rightarrow> jsval res" where
  "optionalID v field = (if v = Undefined then Inr (Str []) else requiredID v field)"

definition boundedID :: "jsval \<Rightarrow> string \<Rightarrow> jsval res" where
  "boundedID v label =
     (if \<not> is_string v \<or> \<not> truthy v \<or> utf8_length (str_of v) > MAX_ID_BYTES then Inl (invalidBrowserResult label) else Inr v)"

definition boundedOptionalID :: "jsval \<Rightarrow> jsval res" where
  "boundedOptionalID v = (if nullish v \<or> v = Str [] then Inr (Str []) else boundedID v ''identifier'')"

definition optionalIndex :: "jsval \<Rightarrow> jsval res" where
  "optionalIndex v =
     (if v = Undefined then Inr Undefined
      else if \<not> is_integer v \<or> less_than v 0 \<or> greater_than v MAX_SAFE_INTEGER
      then Inl (invalidParams ''params.index must be a non-negative safe integer'') else Inr v)"

definition boundedCount :: "jsval \<Rightarrow> jsval res" where
  "boundedCount v =
     (if nullish v then Inr (jnum 0)
      else if \<not> is_integer v \<or> less_than v 0 \<or> greater_than v MAX_SAFE_INTEGER then Inl (invalidBrowserResult ''count'') else Inr v)"

definition epoch_time :: "jsval \<Rightarrow> bool" where
  "epoch_time v \<longleftrightarrow> is_finite v \<and> \<not> less_than v 0 \<and> \<not> greater_than v MAX_SAFE_INTEGER"

definition requiredTime :: "jsval \<Rightarrow> string \<Rightarrow> jsval res" where
  "requiredTime v field =
     (if \<not> epoch_time v then Inl (invalidParams (field @ '' must be a non-negative epoch time in milliseconds'')) else Inr v)"

definition optionalTime :: "jsval \<Rightarrow> string \<Rightarrow> jsval res" where
  "optionalTime v field = (if v = Undefined then Inr Undefined else requiredTime v field)"

definition boundedTime :: "jsval \<Rightarrow> bool \<Rightarrow> jsval res" where
  "boundedTime v required =
     (if nullish v then (if \<not> required then Inr (jnum 0) else Inl (invalidBrowserResult ''time''))
      else if \<not> epoch_time v then Inl (invalidBrowserResult ''time'') else Inr v)"

definition exactHTTPURL :: "platform \<Rightarrow> jsval \<Rightarrow> jsval res" where
  "exactHTTPURL P v =
     bind_res (requiredBoundedText v MAX_URL_BYTES ''params.url'') (\<lambda>t. case parseURL P t of
       None \<Rightarrow> Inl (invalidParams ''params.url must be a valid HTTP(S) URL'')
     | Some parsed \<Rightarrow>
         if \<not> web_protocol parsed \<or> url_hostname parsed = [] \<or> url_username parsed \<noteq> [] \<or> url_password parsed \<noteq> []
         then Inl (invalidParams ''params.url must be an HTTP(S) URL without credentials'') else Inr (Str (url_href parsed)))"

definition boundedBrowserURL :: "data_platform \<Rightarrow> jsval \<Rightarrow> jsval res" where
  "boundedBrowserURL D v =
     bind_res (boundedText (js_or v (Str [])) MAX_URL_BYTES ''browser URL'') (\<lambda>t. case parseURL (dp D) t of
       None \<Rightarrow> Inl (invalidBrowserResult ''URL'')
     | Some parsed \<Rightarrow>
         if url_protocol parsed = [] \<or> (url_hostname parsed = [] \<and> web_protocol parsed) then Inl (invalidBrowserResult ''URL'')
         else Inr (Str (scrubURL D (str_of t) (filter SENSITIVE_QUERY_NAME (queryNames D (str_of t))))))"

definition validatePage :: "jsval \<Rightarrow> (jsval \<times> jsval) res" where
  "validatePage params =
     (let limit = (if getp params ''limit'' = Undefined then jnum DEFAULT_PAGE_ITEMS else getp params ''limit'');
          cursor = (if getp params ''cursor'' = Undefined then Str [] else getp params ''cursor'')
      in bind_res (checks [
           throw_if (\<not> is_integer limit \<or> less_than limit 1 \<or> greater_than limit MAX_PAGE_ITEMS)
             (invalidParams ''params.limit must be between 1 and 200''),
           throw_if (\<not> is_string cursor \<or> (cursor \<noteq> Str [] \<and> (\<not> positive_numeral (str_of cursor) \<or> dec_value (str_of cursor) \<ge> MAX_SCAN_ITEMS)))
             (invalidParams ''params.cursor is invalid'')]) (\<lambda>_. Inr (limit, cursor)))"

definition confirmation_missing :: "string \<Rightarrow> exn" where
  "confirmation_missing label = fault CONFIRMATION_REQUIRED [Txt (label @ '' requires confirm: true'')]"

definition validateConfirmation :: "jsval \<Rightarrow> string \<Rightarrow> unit res" where
  "validateConfirmation params label = bind_res (objectParams params) (\<lambda>_.
     throw_if (getp params ''confirm'' \<noteq> Bool True) (confirmation_missing label))"

definition checked :: "jsval \<Rightarrow> string list \<Rightarrow> 'a res \<Rightarrow> 'a res" where
  "checked params keys continue = bind_res (objectParams params) (\<lambda>_. bind_res (allowedKeys params keys) (\<lambda>_. continue))"

definition page_members :: "jsval \<times> jsval \<Rightarrow> (string \<times> jsval) list" where
  "page_members page = [(''limit'', fst page), (''cursor'', snd page)]"

definition optional_boolean :: "jsval \<Rightarrow> string \<Rightarrow> unit res" where
  "optional_boolean v field = throw_if (v \<noteq> Undefined \<and> \<not> is_boolean v) (invalidParams (field @ '' must be a boolean''))"

definition validateHistorySearch :: "jsval \<Rightarrow> jsval res" where
  "validateHistorySearch params = checked params [''text'', ''startTime'', ''endTime'', ''cursor'', ''limit''] (
     bind_res (validatePage params) (\<lambda>page.
     bind_res (optionalBoundedText (getp params ''text'') MAX_QUERY_BYTES ''params.text'') (\<lambda>t.
     bind_res (optionalTime (getp params ''startTime'') ''params.startTime'') (\<lambda>startTime.
     bind_res (optionalTime (getp params ''endTime'') ''params.endTime'') (\<lambda>endTime.
     bind_res (throw_if (startTime \<noteq> Undefined \<and> endTime \<noteq> Undefined \<and> num_ge (num_of startTime) (num_of endTime))
       (invalidParams ''params.startTime must be before params.endTime'')) (\<lambda>_.
     Inr (obj (page_members page @ [(''text'', js_or t (Str [])), (''startTime'', startTime), (''endTime'', endTime)]))))))))"

definition validateURLPage :: "platform \<Rightarrow> jsval \<Rightarrow> jsval res" where
  "validateURLPage P params = checked params [''url'', ''cursor'', ''limit''] (
     bind_res (validatePage params) (\<lambda>page.
     bind_res (exactHTTPURL P (getp params ''url'')) (\<lambda>url. Inr (obj (page_members page @ [(''url'', url)])))))"

definition validateConfirmedURL :: "platform \<Rightarrow> jsval \<Rightarrow> string \<Rightarrow> jsval res" where
  "validateConfirmedURL P params label = checked params [''url'', ''confirm''] (
     bind_res (throw_if (getp params ''confirm'' \<noteq> Bool True) (confirmation_missing label)) (\<lambda>_.
     bind_res (exactHTTPURL P (getp params ''url'')) (\<lambda>url. Inr (obj [(''url'', url), (''confirm'', Bool True)]))))"

definition validateHistoryRange :: "jsval \<Rightarrow> jsval res" where
  "validateHistoryRange params = checked params [''startTime'', ''endTime'', ''confirm''] (
     bind_res (validateConfirmation params ''Deleting a history range'') (\<lambda>_.
     bind_res (requiredTime (getp params ''startTime'') ''params.startTime'') (\<lambda>startTime.
     bind_res (requiredTime (getp params ''endTime'') ''params.endTime'') (\<lambda>endTime.
     bind_res (throw_if (num_ge (num_of startTime) (num_of endTime)) (invalidParams ''params.startTime must be before params.endTime'')) (\<lambda>_.
     Inr (obj [(''startTime'', startTime), (''endTime'', endTime), (''confirm'', Bool True)]))))))"

definition validateBookmarkList :: "jsval \<Rightarrow> jsval res" where
  "validateBookmarkList params = checked params [''query'', ''parentId'', ''cursor'', ''limit''] (
     bind_res (optionalBoundedText (getp params ''query'') MAX_QUERY_BYTES ''params.query'') (\<lambda>q. let query = js_or q (Str []) in
     bind_res (optionalID (getp params ''parentId'') ''params.parentId'') (\<lambda>parentId.
     bind_res (throw_if (truthy query \<and> truthy parentId) (invalidParams ''params.query and params.parentId are mutually exclusive'')) (\<lambda>_.
     bind_res (validatePage params) (\<lambda>page.
     Inr (obj (page_members page @ [(''query'', query), (''parentId'', parentId)])))))))"

definition validateBookmarkCreate :: "platform \<Rightarrow> jsval \<Rightarrow> jsval res" where
  "validateBookmarkCreate P params = checked params [''title'', ''url'', ''parentId'', ''index''] (
     bind_res (requiredBoundedText (getp params ''title'') MAX_TITLE_BYTES ''params.title'') (\<lambda>title.
     bind_res (if getp params ''url'' = Undefined then Inr (Str []) else exactHTTPURL P (getp params ''url'')) (\<lambda>url.
     bind_res (optionalID (getp params ''parentId'') ''params.parentId'') (\<lambda>parentId.
     bind_res (optionalIndex (getp params ''index'')) (\<lambda>index.
     Inr (obj [(''title'', title), (''url'', url), (''parentId'', parentId), (''index'', index)]))))))"

definition optional_title :: "jsval \<Rightarrow> jsval res" where
  "optional_title params = (if getp params ''title'' = Undefined then Inr Undefined
     else requiredBoundedText (getp params ''title'') MAX_TITLE_BYTES ''params.title'')"

definition validateBookmarkUpdate :: "platform \<Rightarrow> jsval \<Rightarrow> jsval res" where
  "validateBookmarkUpdate P params = checked params [''bookmarkId'', ''title'', ''url''] (
     bind_res (optional_title params) (\<lambda>title.
     bind_res (if getp params ''url'' = Undefined then Inr Undefined else exactHTTPURL P (getp params ''url'')) (\<lambda>url.
     bind_res (throw_if (title = Undefined \<and> url = Undefined) (invalidParams ''params.title or params.url is required'')) (\<lambda>_.
     bind_res (requiredID (getp params ''bookmarkId'') ''params.bookmarkId'') (\<lambda>bookmarkId.
     Inr (obj [(''bookmarkId'', bookmarkId), (''title'', title), (''url'', url)]))))))"

definition validateBookmarkMove :: "jsval \<Rightarrow> jsval res" where
  "validateBookmarkMove params = checked params [''bookmarkId'', ''parentId'', ''index''] (
     bind_res (optionalID (getp params ''parentId'') ''params.parentId'') (\<lambda>parentId.
     bind_res (optionalIndex (getp params ''index'')) (\<lambda>index.
     bind_res (throw_if (\<not> truthy parentId \<and> index = Undefined) (invalidParams ''params.parentId or params.index is required'')) (\<lambda>_.
     bind_res (requiredID (getp params ''bookmarkId'') ''params.bookmarkId'') (\<lambda>bookmarkId.
     Inr (obj [(''bookmarkId'', bookmarkId), (''parentId'', parentId), (''index'', index)]))))))"

definition validateBookmarkRemove :: "jsval \<Rightarrow> jsval res" where
  "validateBookmarkRemove params = checked params [''bookmarkId'', ''recursive'', ''confirm''] (
     let recursive = (getp params ''recursive'' = Bool True) in
     bind_res (checks [
       optional_boolean (getp params ''recursive'') ''params.recursive'',
       optional_boolean (getp params ''confirm'') ''params.confirm'',
       throw_if (recursive \<and> getp params ''confirm'' \<noteq> Bool True) (confirmation_missing ''Recursive bookmark removal'')]) (\<lambda>_.
     bind_res (requiredID (getp params ''bookmarkId'') ''params.bookmarkId'') (\<lambda>bookmarkId.
     Inr (obj [(''bookmarkId'', bookmarkId), (''recursive'', Bool recursive)]))))"

definition validateReadingListQuery :: "platform \<Rightarrow> jsval \<Rightarrow> jsval res" where
  "validateReadingListQuery P params = checked params [''title'', ''url'', ''hasBeenRead'', ''cursor'', ''limit''] (
     bind_res (optional_boolean (getp params ''hasBeenRead'') ''params.hasBeenRead'') (\<lambda>_.
     bind_res (validatePage params) (\<lambda>page.
     bind_res (optionalBoundedText (getp params ''title'') MAX_TITLE_BYTES ''params.title'') (\<lambda>title.
     bind_res (if getp params ''url'' = Undefined then Inr (Str []) else exactHTTPURL P (getp params ''url'')) (\<lambda>url.
     Inr (obj (page_members page @ [(''title'', js_or title (Str [])), (''url'', url), (''hasBeenRead'', getp params ''hasBeenRead'')])))))))"

definition validateReadingListAdd :: "platform \<Rightarrow> jsval \<Rightarrow> jsval res" where
  "validateReadingListAdd P params = checked params [''url'', ''title'', ''hasBeenRead''] (
     bind_res (throw_if (\<not> is_boolean (getp params ''hasBeenRead'')) (invalidParams ''params.hasBeenRead must be a boolean'')) (\<lambda>_.
     bind_res (exactHTTPURL P (getp params ''url'')) (\<lambda>url.
     bind_res (requiredBoundedText (getp params ''title'') MAX_TITLE_BYTES ''params.title'') (\<lambda>title.
     Inr (obj [(''url'', url), (''title'', title), (''hasBeenRead'', getp params ''hasBeenRead'')])))))"

definition validateReadingListUpdate :: "platform \<Rightarrow> jsval \<Rightarrow> jsval res" where
  "validateReadingListUpdate P params = checked params [''url'', ''title'', ''hasBeenRead''] (
     bind_res (optional_title params) (\<lambda>title.
     bind_res (optional_boolean (getp params ''hasBeenRead'') ''params.hasBeenRead'') (\<lambda>_.
     bind_res (throw_if (title = Undefined \<and> getp params ''hasBeenRead'' = Undefined)
       (invalidParams ''params.title or params.hasBeenRead is required'')) (\<lambda>_.
     bind_res (exactHTTPURL P (getp params ''url'')) (\<lambda>url.
     Inr (obj [(''url'', url), (''title'', title), (''hasBeenRead'', getp params ''hasBeenRead'')]))))))"

definition validateExactURL :: "platform \<Rightarrow> jsval \<Rightarrow> jsval res" where
  "validateExactURL P params = checked params [''url''] (
     bind_res (exactHTTPURL P (getp params ''url'')) (\<lambda>url. Inr (obj [(''url'', url)])))"

definition validateTimeout :: "jsval \<Rightarrow> jsval res" where
  "validateTimeout v =
     (if v = Undefined then Inr (jnum DEFAULT_TIMEOUT_MS)
      else if \<not> is_integer v \<or> less_than v 1 \<or> greater_than v MAX_TIMEOUT_MS
      then Inl (invalidParams ''timeoutMs must be between 1 and 120000'') else Inr v)"

section \<open>What the browser reports\<close>

text \<open>\<open>if (!item || typeof item !== "object") throw\<close>.\<close>

definition reported :: "jsval \<Rightarrow> string \<Rightarrow> 'a res \<Rightarrow> 'a res" where
  "reported item label continue = bind_res (throw_if (\<not> truthy item \<or> \<not> typeof_object item) (invalidBrowserResult label)) (\<lambda>_. continue)"

definition normalizeHistoryItem :: "data_platform \<Rightarrow> jsval \<Rightarrow> jsval res" where
  "normalizeHistoryItem D item = reported item ''history'' (
     bind_res (boundedID (getp item ''id'') ''history item'') (\<lambda>i.
     bind_res (boundedBrowserURL D (getp item ''url'')) (\<lambda>url.
     bind_res (boundedText (js_or (getp item ''title'') (Str [])) MAX_TITLE_BYTES ''history title'') (\<lambda>title.
     bind_res (boundedTime (getp item ''lastVisitTime'') False) (\<lambda>lastVisitTime.
     bind_res (boundedCount (getp item ''visitCount'')) (\<lambda>visitCount.
     bind_res (boundedCount (getp item ''typedCount'')) (\<lambda>typedCount.
     Inr (obj [(''id'', i), (''url'', url), (''title'', title), (''lastVisitTime'', lastVisitTime), (''visitCount'', visitCount),
       (''typedCount'', typedCount)]))))))))"

definition normalizeVisit :: "jsval \<Rightarrow> jsval res" where
  "normalizeVisit item = reported item ''history visits'' (
     bind_res (boundedText (js_or (getp item ''transition'') (jstr ''link'')) 64 ''history transition'') (\<lambda>transition.
     bind_res (throw_if (\<not> js_includes HISTORY_TRANSITIONS transition) (invalidBrowserResult ''history transition'')) (\<lambda>_.
     bind_res (boundedID (getp item ''id'') ''history visit'') (\<lambda>i.
     bind_res (boundedID (getp item ''visitId'') ''history visit'') (\<lambda>visitId.
     bind_res (boundedOptionalID (getp item ''referringVisitId'')) (\<lambda>referringVisitId.
     bind_res (boundedTime (getp item ''visitTime'') False) (\<lambda>visitTime.
     Inr (obj [(''id'', i), (''visitId'', visitId), (''referringVisitId'', referringVisitId), (''visitTime'', visitTime),
       (''transition'', transition)]))))))))"

definition normalizeBookmark :: "data_platform \<Rightarrow> jsval \<Rightarrow> jsval res" where
  "normalizeBookmark D item = reported item ''bookmarks'' (
     bind_res (throw_if (getp item ''syncing'' \<noteq> Undefined \<and> \<not> is_boolean (getp item ''syncing'')) (invalidBrowserResult ''bookmark sync state'')) (\<lambda>_.
     bind_res (boundedID (getp item ''id'') ''bookmark'') (\<lambda>i.
     bind_res (boundedOptionalID (getp item ''parentId'')) (\<lambda>parentId.
     bind_res (boundedCount (getp item ''index'')) (\<lambda>index.
     bind_res (boundedText (js_or (getp item ''title'') (Str [])) MAX_TITLE_BYTES ''bookmark title'') (\<lambda>title.
     bind_res (if truthy (getp item ''url'') then boundedBrowserURL D (getp item ''url'') else Inr (Str [])) (\<lambda>url.
     bind_res (boundedTime (getp item ''dateAdded'') False) (\<lambda>dateAdded.
     bind_res (boundedTime (getp item ''dateGroupModified'') False) (\<lambda>dateGroupModified.
     bind_res (boundedText (js_or (getp item ''unmodifiable'') (Str [])) 64 ''bookmark state'') (\<lambda>unmodifiable.
     Inr (obj [(''id'', i), (''parentId'', parentId), (''index'', index), (''title'', title), (''url'', url), (''dateAdded'', dateAdded),
       (''dateGroupModified'', dateGroupModified), (''unmodifiable'', unmodifiable),
       (''syncing'', if getp item ''syncing'' = Undefined then Bool False else Bool (truthy (getp item ''syncing'')))])))))))))))"

definition normalizeReadingListEntry :: "data_platform \<Rightarrow> jsval \<Rightarrow> jsval res" where
  "normalizeReadingListEntry D item = reported item ''reading list'' (
     bind_res (throw_if (\<not> is_boolean (getp item ''hasBeenRead'')) (invalidBrowserResult ''reading-list state'')) (\<lambda>_.
     bind_res (boundedBrowserURL D (getp item ''url'')) (\<lambda>url.
     bind_res (boundedText (js_or (getp item ''title'') (Str [])) MAX_TITLE_BYTES ''reading-list title'') (\<lambda>title.
     bind_res (boundedTime (getp item ''creationTime'') True) (\<lambda>creationTime.
     bind_res (boundedTime (getp item ''lastUpdateTime'') True) (\<lambda>lastUpdateTime.
     Inr (obj [(''url'', url), (''title'', title), (''hasBeenRead'', Bool (truthy (getp item ''hasBeenRead''))),
       (''creationTime'', creationTime), (''lastUpdateTime'', lastUpdateTime)])))))))"

definition normalizeBoundedCollection :: "jsval \<Rightarrow> (jsval \<Rightarrow> jsval res) \<Rightarrow> string \<Rightarrow> jsval list res" where
  "normalizeBoundedCollection v item_of label =
     (if \<not> is_array v then Inl (invalidBrowserResult label)
      else if length (elems v) > MAX_SCAN_ITEMS
      then Inl (fault PAYLOAD_TOO_LARGE [Txt (''The '' @ label @ '' exceeds the bounded scan limit'')])
      else map_res item_of (elems v))"

text \<open>The order of the reading list: the entry updated last first, then by URL. \<open>sort\<close> is stable.\<close>

definition entry_before :: "data_platform \<Rightarrow> jsval \<Rightarrow> jsval \<Rightarrow> bool" where
  "entry_before D left right \<longleftrightarrow>
     (let l = num_of (getp left ''lastUpdateTime''); r = num_of (getp right ''lastUpdateTime'')
      in num_lt r l \<or> (\<not> num_lt l r \<and> url_before D (str_of (getp left ''url'')) (str_of (getp right ''url''))))"

definition sort_entries :: "data_platform \<Rightarrow> jsval list \<Rightarrow> jsval list" where
  "sort_entries D entries = sort_by (entry_before D) entries"

section \<open>Results\<close>

definition pageResult :: "string \<Rightarrow> jsval list \<Rightarrow> jsval \<Rightarrow> jsval \<Rightarrow> string \<Rightarrow> jsval" where
  "pageResult kind items cursor limit field =
     obj [(''kind'', jstr kind), (field, Arr (page_items (page_limit limit) cursor items)), (''totalMatched'', jnum (of_nat (length items))),
       (''nextCursor'', Str (page_next (page_limit limit) cursor items)), (''warnings'', Arr [])]"

text \<open>\<open>mutationResult\<close> with its options \<open>deletedCount\<close>, \<open>scope\<close>, \<open>startTime\<close>, \<open>endTime\<close> and \<open>warnings\<close>.\<close>

definition mutationResult :: "string \<Rightarrow> nat \<Rightarrow> string \<Rightarrow> jsval \<Rightarrow> jsval \<Rightarrow> string list \<Rightarrow> jsval" where
  "mutationResult operation deletedCount scope startTime endTime warnings =
     obj [(''kind'', jstr ''history_mutation''), (''items'', Arr []), (''visits'', Arr []), (''totalMatched'', jnum 0), (''nextCursor'', Str []),
       (''operation'', jstr operation), (''changed'', Bool True), (''deletedCount'', jnum (of_nat deletedCount)), (''scope'', jstr scope),
       (''startTime'', js_or startTime (jnum 0)), (''endTime'', js_or endTime (jnum 0)), (''warnings'', Arr (map jstr warnings))]"

definition unreported :: string where
  "unreported = ''The browser API does not report the number of deleted visits''"

definition bookmarkMutation :: "string \<Rightarrow> jsval \<Rightarrow> jsval" where
  "bookmarkMutation operation bookmark =
     obj [(''kind'', jstr ''bookmark_mutation''), (''bookmarks'', Arr [bookmark]), (''totalMatched'', jnum 1), (''nextCursor'', Str []),
       (''bookmarkId'', getp bookmark ''id''), (''operation'', jstr operation), (''changed'', Bool True), (''removedIds'', Arr []),
       (''warnings'', Arr [])]"

section \<open>Calls\<close>

definition cancelledError :: exn where
  "cancelledError = protocolError CANCELLED [Txt ''Command was cancelled''] True Undefined"

definition throwIfCancelled :: "('s, unit) io" where
  "throwIfCancelled = bind_io (ask ''signal.aborted'' []) (\<lambda>v. throw_when (truthy v) cancelledError)"

text \<open>This \<open>withTimeout\<close> waits for the operation, and replaces its error when the signal has been aborted.\<close>

definition withTimeout :: "jsval \<Rightarrow> ('s, 'a) io \<Rightarrow> ('s, 'a) io" where
  "withTimeout timeoutMs operation =
     bind_io (ask ''parentSignal.aborted'' []) (\<lambda>v.
     bind_io (throw_when (truthy v) cancelledError) (\<lambda>_.
     bind_io (ask ''setTimeout'' [timeoutMs]) (\<lambda>_.
     bind_io (ask ''parentSignal.addEventListener'' [jstr ''abort'']) (\<lambda>_.
     finally_io
       (catch_io operation (\<lambda>e. bind_io (ask ''signal.aborted'' []) (\<lambda>v.
          if truthy v then Throw (if v = jstr ''timeout'' then protocolError TIMEOUT [Txt ''Command timed out''] True Undefined else cancelledError)
          else Throw e)))
       (bind_io (ask ''clearTimeout'' []) (\<lambda>_. ask ''parentSignal.removeEventListener'' [jstr ''abort'']))))))"

definition data_permission :: "string \<Rightarrow> call" where
  "data_permission permission = Call ''permissions.contains'' [obj [(''permissions'', Arr [jstr permission])]]"

definition requirePermission :: "(string \<Rightarrow> bool) \<Rightarrow> string \<Rightarrow> ('s, unit) io" where
  "requirePermission api permission =
     bind_io (throw_when (\<not> api permission \<or> \<not> api ''permissions.contains'')
       (fault CAPABILITY_UNAVAILABLE [Txt (''The '' @ permission @ '' API is unavailable'')])) (\<lambda>_.
     bind_io (await (callee (data_permission permission)) (arguments (data_permission permission))) (\<lambda>granted.
     throw_when (\<not> truthy granted)
       (fault PERMISSION_REQUIRED [Txt (permission @ '' access is required. Grant Personal data in extension settings.'')])))"

definition run :: "(string \<Rightarrow> bool) \<Rightarrow> string \<Rightarrow> jsval \<Rightarrow> ('s, 'a) io \<Rightarrow> ('s, 'a) io" where
  "run api permission request operation =
     bind_io (lift_res (validateTimeout (getp request ''timeoutMs''))) (\<lambda>timeoutMs.
     withTimeout timeoutMs (
       bind_io (requirePermission api permission) (\<lambda>_.
       bind_io operation (\<lambda>result.
       bind_io (requirePermission api permission) (\<lambda>_. Return result)))))"

definition callAPI :: "platform \<Rightarrow> (string \<Rightarrow> bool) \<Rightarrow> string \<Rightarrow> jsval list \<Rightarrow> ('s, jsval) io" where
  "callAPI P api name args =
     bind_io (throw_when (\<not> api name) (fault CAPABILITY_UNAVAILABLE [Txt ''The browser API method is unavailable''])) (\<lambda>_.
     rejection P (await name args))"

text \<open>Spreading \<open>{ name: value }\<close> into an object on a condition.\<close>

definition given :: "bool \<Rightarrow> string \<Rightarrow> jsval \<Rightarrow> (string \<times> jsval) list" where
  "given b name v = (if b then [(name, v)] else [])"

section \<open>History\<close>

definition search_history :: "data_platform \<Rightarrow> (string \<Rightarrow> bool) \<Rightarrow> jsval \<Rightarrow> ('s, jsval) io" where
  "search_history D api request =
     bind_io (lift_res (validateHistorySearch (getp request ''params''))) (\<lambda>params.
     run api ''history'' request (
       bind_io (callAPI (dp D) api ''history.search'' [obj ([(''text'', getp params ''text''), (''maxResults'', jnum (of_nat (MAX_SCAN_ITEMS + 1)))]
         @ given (getp params ''startTime'' \<noteq> Undefined) ''startTime'' (getp params ''startTime'')
         @ given (getp params ''endTime'' \<noteq> Undefined) ''endTime'' (getp params ''endTime''))]) (\<lambda>found.
       bind_io throwIfCancelled (\<lambda>_.
       bind_io (lift_res (normalizeBoundedCollection found (normalizeHistoryItem D) ''history'')) (\<lambda>normalized.
       Return (pageResult ''history'' normalized (getp params ''cursor'') (getp params ''limit'') ''items''))))))"

definition get_visits :: "data_platform \<Rightarrow> (string \<Rightarrow> bool) \<Rightarrow> jsval \<Rightarrow> ('s, jsval) io" where
  "get_visits D api request =
     bind_io (lift_res (validateURLPage (dp D) (getp request ''params''))) (\<lambda>params.
     run api ''history'' request (
       bind_io (callAPI (dp D) api ''history.getVisits'' [obj [(''url'', getp params ''url'')]]) (\<lambda>found.
       bind_io throwIfCancelled (\<lambda>_.
       bind_io (lift_res (normalizeBoundedCollection found normalizeVisit ''history visits'')) (\<lambda>normalized.
       Return (pageResult ''visits'' normalized (getp params ''cursor'') (getp params ''limit'') ''visits''))))))"

definition delete_url :: "data_platform \<Rightarrow> (string \<Rightarrow> bool) \<Rightarrow> jsval \<Rightarrow> ('s, jsval) io" where
  "delete_url D api request =
     bind_io (lift_res (validateConfirmedURL (dp D) (getp request ''params'') ''Deleting URL history'')) (\<lambda>params.
     run api ''history'' request (
       bind_io (callAPI (dp D) api ''history.getVisits'' [obj [(''url'', getp params ''url'')]]) (\<lambda>visits.
       bind_io (throw_when (\<not> is_array visits \<or> length (elems visits) > MAX_SCAN_ITEMS)
         (fault PAYLOAD_TOO_LARGE [Txt ''The URL has too many history visits''])) (\<lambda>_.
       bind_io (callAPI (dp D) api ''history.deleteUrl'' [obj [(''url'', getp params ''url'')]]) (\<lambda>_.
       bind_io throwIfCancelled (\<lambda>_.
       Return (mutationResult ''delete_url'' (length (elems visits)) ''url'' Undefined Undefined [])))))))"

definition delete_range :: "data_platform \<Rightarrow> (string \<Rightarrow> bool) \<Rightarrow> jsval \<Rightarrow> ('s, jsval) io" where
  "delete_range D api request =
     bind_io (lift_res (validateHistoryRange (getp request ''params''))) (\<lambda>params.
     run api ''history'' request (
       bind_io (callAPI (dp D) api ''history.deleteRange''
         [obj [(''startTime'', getp params ''startTime''), (''endTime'', getp params ''endTime'')]]) (\<lambda>_.
       bind_io throwIfCancelled (\<lambda>_.
       Return (mutationResult ''delete_range'' 0 ''range'' (getp params ''startTime'') (getp params ''endTime'') [unreported])))))"

definition delete_all :: "data_platform \<Rightarrow> (string \<Rightarrow> bool) \<Rightarrow> jsval \<Rightarrow> ('s, jsval) io" where
  "delete_all D api request =
     bind_io (lift_res (checked (getp request ''params'') [''confirm'']
       (validateConfirmation (getp request ''params'') ''Clearing browser history''))) (\<lambda>_.
     run api ''history'' request (
       bind_io (callAPI (dp D) api ''history.deleteAll'' []) (\<lambda>_.
       bind_io throwIfCancelled (\<lambda>_.
       Return (mutationResult ''delete_all'' 0 ''all'' Undefined Undefined [unreported])))))"

section \<open>Bookmarks\<close>

definition list_bookmarks :: "data_platform \<Rightarrow> (string \<Rightarrow> bool) \<Rightarrow> jsval \<Rightarrow> ('s, jsval) io" where
  "list_bookmarks D api request =
     bind_io (lift_res (validateBookmarkList (getp request ''params''))) (\<lambda>params.
     run api ''bookmarks'' request (
       bind_io (if truthy (getp params ''parentId'') then callAPI (dp D) api ''bookmarks.getChildren'' [getp params ''parentId'']
         else callAPI (dp D) api ''bookmarks.search'' [getp params ''query'']) (\<lambda>found.
       bind_io throwIfCancelled (\<lambda>_.
       bind_io (lift_res (normalizeBoundedCollection found (normalizeBookmark D) ''bookmarks'')) (\<lambda>normalized.
       Return (pageResult ''bookmarks'' normalized (getp params ''cursor'') (getp params ''limit'') ''bookmarks''))))))"

text \<open>The call, the bookmark it returns, the result.\<close>

definition changed_bookmark :: "data_platform \<Rightarrow> (string \<Rightarrow> bool) \<Rightarrow> jsval \<Rightarrow> string \<Rightarrow> jsval list \<Rightarrow> ('s, jsval) io" where
  "changed_bookmark D api request operation args =
     run api ''bookmarks'' request (
       bind_io (callAPI (dp D) api (''bookmarks.'' @ operation) args) (\<lambda>answer.
       bind_io (lift_res (normalizeBookmark D answer)) (\<lambda>bookmark.
       bind_io throwIfCancelled (\<lambda>_. Return (bookmarkMutation operation bookmark)))))"

definition create_bookmark :: "data_platform \<Rightarrow> (string \<Rightarrow> bool) \<Rightarrow> jsval \<Rightarrow> ('s, jsval) io" where
  "create_bookmark D api request =
     bind_io (lift_res (validateBookmarkCreate (dp D) (getp request ''params''))) (\<lambda>params.
     changed_bookmark D api request ''create'' [obj ([(''title'', getp params ''title'')]
       @ given (truthy (getp params ''parentId'')) ''parentId'' (getp params ''parentId'')
       @ given (getp params ''index'' \<noteq> Undefined) ''index'' (getp params ''index'')
       @ given (truthy (getp params ''url'')) ''url'' (getp params ''url''))])"

definition update_bookmark :: "data_platform \<Rightarrow> (string \<Rightarrow> bool) \<Rightarrow> jsval \<Rightarrow> ('s, jsval) io" where
  "update_bookmark D api request =
     bind_io (lift_res (validateBookmarkUpdate (dp D) (getp request ''params''))) (\<lambda>params.
     changed_bookmark D api request ''update'' [getp params ''bookmarkId'', obj (
       given (getp params ''title'' \<noteq> Undefined) ''title'' (getp params ''title'')
       @ given (getp params ''url'' \<noteq> Undefined) ''url'' (getp params ''url''))])"

definition move_bookmark :: "data_platform \<Rightarrow> (string \<Rightarrow> bool) \<Rightarrow> jsval \<Rightarrow> ('s, jsval) io" where
  "move_bookmark D api request =
     bind_io (lift_res (validateBookmarkMove (getp request ''params''))) (\<lambda>params.
     changed_bookmark D api request ''move'' [getp params ''bookmarkId'', obj (
       given (truthy (getp params ''parentId'')) ''parentId'' (getp params ''parentId'')
       @ given (getp params ''index'' \<noteq> Undefined) ''index'' (getp params ''index''))])"

definition remove_bookmark :: "data_platform \<Rightarrow> (string \<Rightarrow> bool) \<Rightarrow> jsval \<Rightarrow> ('s, jsval) io" where
  "remove_bookmark D api request =
     bind_io (lift_res (validateBookmarkRemove (getp request ''params''))) (\<lambda>params.
     run api ''bookmarks'' request (let recursive = truthy (getp params ''recursive'') in
       bind_io (callAPI (dp D) api ''bookmarks.get'' [getp params ''bookmarkId'']) (\<lambda>before.
       bind_io (throw_when (\<not> is_array before \<or> length (elems before) \<noteq> 1) (invalid ''The bookmark was not found'')) (\<lambda>_.
       bind_io (lift_res (normalizeBookmark D (first_elem before))) (\<lambda>bookmark.
       bind_io (throw_when (recursive \<and> truthy (getp bookmark ''url'')) (invalid ''Recursive removal applies only to folders'')) (\<lambda>_.
       bind_io (callAPI (dp D) api (if recursive then ''bookmarks.removeTree'' else ''bookmarks.remove'') [getp params ''bookmarkId'']) (\<lambda>_.
       bind_io throwIfCancelled (\<lambda>_.
       Return (obj [(''kind'', jstr ''bookmark_mutation''), (''bookmarks'', Arr []), (''totalMatched'', jnum 0), (''nextCursor'', Str []),
         (''bookmarkId'', getp params ''bookmarkId''), (''operation'', jstr (if recursive then ''remove_tree'' else ''remove'')),
         (''changed'', Bool True), (''removedIds'', Arr [getp params ''bookmarkId'']),
         (''warnings'', Arr (if recursive then [jstr ''The removed folder may have contained additional bookmark nodes''] else []))])))))))))"

section \<open>The reading list\<close>

definition list_entries :: "data_platform \<Rightarrow> (string \<Rightarrow> bool) \<Rightarrow> jsval \<Rightarrow> ('s, jsval) io" where
  "list_entries D api request =
     bind_io (lift_res (validateReadingListQuery (dp D) (getp request ''params''))) (\<lambda>params.
     run api ''readingList'' request (
       bind_io (callAPI (dp D) api ''readingList.query'' [obj (given (truthy (getp params ''title'')) ''title'' (getp params ''title'')
         @ given (truthy (getp params ''url'')) ''url'' (getp params ''url'')
         @ given (getp params ''hasBeenRead'' \<noteq> Undefined) ''hasBeenRead'' (getp params ''hasBeenRead''))]) (\<lambda>found.
       bind_io throwIfCancelled (\<lambda>_.
       bind_io (lift_res (normalizeBoundedCollection found (normalizeReadingListEntry D) ''reading list'')) (\<lambda>normalized.
       Return (pageResult ''reading_list'' (sort_entries D normalized) (getp params ''cursor'') (getp params ''limit'') ''entries''))))))"

definition readingListMutation :: "data_platform \<Rightarrow> (string \<Rightarrow> bool) \<Rightarrow> string \<Rightarrow> jsval \<Rightarrow> ('s, jsval) io" where
  "readingListMutation D api operation url =
     bind_io (callAPI (dp D) api ''readingList.query'' [obj [(''url'', url)]]) (\<lambda>found.
     bind_io throwIfCancelled (\<lambda>_.
     bind_io (throw_when (\<not> is_array found \<or> length (elems found) \<noteq> 1) (invalid ''The reading-list mutation was not observable'')) (\<lambda>_.
     bind_io (lift_res (normalizeReadingListEntry D (first_elem found))) (\<lambda>entry.
     Return (obj [(''kind'', jstr ''reading_list_mutation''), (''entries'', Arr [entry]), (''totalMatched'', jnum 1), (''nextCursor'', Str []),
       (''operation'', jstr operation), (''changed'', Bool True), (''targetUrl'', getp entry ''url''), (''warnings'', Arr [])])))))"

definition add_entry :: "data_platform \<Rightarrow> (string \<Rightarrow> bool) \<Rightarrow> jsval \<Rightarrow> ('s, jsval) io" where
  "add_entry D api request =
     bind_io (lift_res (validateReadingListAdd (dp D) (getp request ''params''))) (\<lambda>params.
     run api ''readingList'' request (
       bind_io (callAPI (dp D) api ''readingList.addEntry''
         [obj [(''url'', getp params ''url''), (''title'', getp params ''title''), (''hasBeenRead'', getp params ''hasBeenRead'')]]) (\<lambda>_.
       bind_io throwIfCancelled (\<lambda>_. readingListMutation D api ''add'' (getp params ''url'')))))"

definition update_entry :: "data_platform \<Rightarrow> (string \<Rightarrow> bool) \<Rightarrow> jsval \<Rightarrow> ('s, jsval) io" where
  "update_entry D api request =
     bind_io (lift_res (validateReadingListUpdate (dp D) (getp request ''params''))) (\<lambda>params.
     run api ''readingList'' request (
       bind_io (callAPI (dp D) api ''readingList.updateEntry'' [obj ([(''url'', getp params ''url'')]
         @ given (getp params ''title'' \<noteq> Undefined) ''title'' (getp params ''title'')
         @ given (getp params ''hasBeenRead'' \<noteq> Undefined) ''hasBeenRead'' (getp params ''hasBeenRead''))]) (\<lambda>_.
       bind_io throwIfCancelled (\<lambda>_. readingListMutation D api ''update'' (getp params ''url'')))))"

definition remove_entry :: "data_platform \<Rightarrow> (string \<Rightarrow> bool) \<Rightarrow> jsval \<Rightarrow> ('s, jsval) io" where
  "remove_entry D api request =
     bind_io (lift_res (validateExactURL (dp D) (getp request ''params''))) (\<lambda>params.
     run api ''readingList'' request (
       bind_io (callAPI (dp D) api ''readingList.query'' [obj [(''url'', getp params ''url'')]]) (\<lambda>before.
       bind_io (throw_when (\<not> is_array before \<or> length (elems before) \<noteq> 1) (invalid ''The reading-list entry was not found'')) (\<lambda>_.
       bind_io (callAPI (dp D) api ''readingList.removeEntry'' [obj [(''url'', getp params ''url'')]]) (\<lambda>_.
       bind_io throwIfCancelled (\<lambda>_.
       bind_io (lift_res (boundedBrowserURL D (getp params ''url''))) (\<lambda>targetUrl.
       Return (obj [(''kind'', jstr ''reading_list_mutation''), (''entries'', Arr []), (''totalMatched'', jnum 0), (''nextCursor'', Str []),
         (''operation'', jstr ''remove''), (''changed'', Bool True), (''targetUrl'', targetUrl), (''warnings'', Arr [])]))))))))"

definition personal_data_handlers :: "data_platform \<Rightarrow> (string \<Rightarrow> bool) \<Rightarrow> (string \<times> (jsval \<Rightarrow> ('s, jsval) io)) list" where
  "personal_data_handlers D api =
     [(''history.search'', search_history D api), (''history.getVisits'', get_visits D api), (''history.deleteUrl'', delete_url D api),
      (''history.deleteRange'', delete_range D api), (''history.deleteAll'', delete_all D api),
      (''bookmarks.list'', list_bookmarks D api), (''bookmarks.create'', create_bookmark D api), (''bookmarks.update'', update_bookmark D api),
      (''bookmarks.move'', move_bookmark D api), (''bookmarks.remove'', remove_bookmark D api),
      (''readingList.list'', list_entries D api), (''readingList.add'', add_entry D api), (''readingList.update'', update_entry D api),
      (''readingList.remove'', remove_entry D api)]"

end
