(* ===== verification/Personal_Properties.thy ===== *)
theory Personal_Properties
  imports Personal_Data "HOL-Library.Multiset"
begin

text \<open>
  What the handlers of history, bookmarks and the reading list do to the browser and what they return.
\<close>

section \<open>Which calls are made\<close>

definition data_areas :: "string list" where
  "data_areas = [''history'', ''bookmarks'', ''readingList'']"

definition irreversible :: "string list" where
  "irreversible = [''history.deleteUrl'', ''history.deleteRange'', ''history.deleteAll'', ''bookmarks.removeTree'']"

text \<open>The browser's last answer showed the one bookmark that is named.\<close>

definition bookmark_seen :: "data_platform \<Rightarrow> jsval \<Rightarrow> log \<Rightarrow> jsval \<Rightarrow> bool" where
  "bookmark_seen D bookmarkId l item \<longleftrightarrow> (\<exists>l0 found.
     l = l0 @ [(Call ''bookmarks.get'' [bookmarkId], Inr (Arr [found]))] \<and> normalizeBookmark D found = Inr item)"

definition entry_seen :: "jsval \<Rightarrow> log \<Rightarrow> bool" where
  "entry_seen query l \<longleftrightarrow> (\<exists>l0 found. l = l0 @ [(Call ''readingList.query'' [query], Inr (Arr [found]))])"

definition data_call_allowed :: "data_platform \<Rightarrow> jsval \<Rightarrow> log \<Rightarrow> call \<Rightarrow> bool" where
  "data_call_allowed D request l c \<longleftrightarrow> (let params = getp request ''params'' in
     (\<forall>area\<in>set data_areas. \<forall>name. callee c = area @ ''.'' @ name \<longrightarrow> granted l (data_permission area))
     \<and> (callee c \<in> set irreversible \<longrightarrow> getp params ''confirm'' = Bool True)
     \<and> (callee c = ''history.deleteRange'' \<longrightarrow> num_lt (num_of (getp params ''startTime'')) (num_of (getp params ''endTime''))
          \<and> arguments c = [obj [(''startTime'', getp params ''startTime''), (''endTime'', getp params ''endTime'')]])
     \<and> (callee c \<in> {''bookmarks.remove'', ''bookmarks.removeTree''} \<longrightarrow> arguments c = [getp params ''bookmarkId'']
          \<and> (\<exists>item. bookmark_seen D (getp params ''bookmarkId'') l item \<and> (callee c = ''bookmarks.removeTree'' \<longrightarrow> \<not> truthy (getp item ''url''))))
     \<and> (callee c = ''readingList.removeEntry'' \<longrightarrow> entry_seen (hd (arguments c)) l))"

lemma data_allows_support [simp]: "lets_support (data_call_allowed D request)"
  by (auto simp: lets_support_def data_call_allowed_def support_calls_def data_areas_def irreversible_def)

lemma safe_catch:
  "safe R G m s h Q \<Longrightarrow> (\<And>e s h. safe R G (f e) s h Q) \<Longrightarrow> safe R G (catch_io m f) s h Q"
  unfolding safe_def wp_catch by (erule wp_mono) (auto split: sum.splits)

lemma safe_callAPI [safe_intros]:
  assumes "G h (Call name args)" and "\<And>t v. R s t \<Longrightarrow> Q t (h @ [(Call name args, Inr v)]) v"
  shows "safe R G (callAPI P api name args) s h Q"
  unfolding callAPI_def by (intro safe_intros) (use assms in auto)

lemma safe_throwIfCancelled [safe_intros]:
  assumes "lets_support G" and "\<And>v. Q s (h @ [(Call ''signal.aborted'' [], Inr v)]) ()"
  shows "safe R G throwIfCancelled s h Q"
  unfolding throwIfCancelled_def by (intro safe_intros) (use assms in auto)

lemma safe_requirePermission [safe_intros]:
  assumes "lets_support G" and "\<And>t v. R s t \<Longrightarrow> truthy v \<Longrightarrow> Q t (h @ [(data_permission area, Inr v)]) ()"
  shows "safe R G (requirePermission api area) s h Q"
  unfolding requirePermission_def by (intro safe_intros) (use assms in \<open>auto simp: data_permission_def\<close>)

lemma safe_data_timeout [safe_intros]:
  assumes G: "lets_support G"
    and m: "\<And>h1 l. h1 = h @ l \<Longrightarrow> safe R G m s h1 (\<lambda>s h x. \<forall>v w. Q s (h @ [(Call ''clearTimeout'' [], Inr v),
      (Call ''parentSignal.removeEventListener'' [jstr ''abort''], Inr w)]) x)"
  shows "safe R G (withTimeout t m) s h Q"
  unfolding withTimeout_def
  apply (rule safe_bindI, rule safe_ask, simp add: G, rule safe_bindI, rule safe_throw_when)
  apply (rule safe_bindI, rule safe_ask, simp add: G, rule safe_bindI, rule safe_ask, simp add: G, rule safe_finally)
   apply (rule safe_catch)
    apply (rule safe_mono [OF m])
     apply simp
    apply (simp add: G wp_bind)
   apply (intro safe_intros safe_If)
     apply (simp_all add: G wp_bind)
  done

lemma safe_data_run [safe_intros]:
  assumes G: "lets_support G"
    and operation: "\<And>t h'. granted h' (data_permission area) \<Longrightarrow> safe R G operation t h' (\<lambda>s h x. \<forall>t l. Q t (h @ l) x)"
  shows "safe R G (run api area request operation) s h Q"
  unfolding run_def
  apply (intro safe_intros G)
  apply (rule safe_mono [OF operation])
   apply (auto simp: granted_def answered_def)[1]
  apply (intro safe_intros G)
  apply simp
  done

section \<open>What is returned\<close>

text \<open>A URL that went through \<open>boundedBrowserURL\<close>, or no URL; an item with such a URL and a bounded title without control
  characters.\<close>

definition public_data_url :: "data_platform \<Rightarrow> jsval \<Rightarrow> bool" where
  "public_data_url D v \<longleftrightarrow> v = Str []
     \<or> (\<exists>u. parseURL (dp D) (Str u) \<noteq> None \<and> utf8_length u \<le> MAX_URL_BYTES \<and> v = Str (scrubURL D u (filter SENSITIVE_QUERY_NAME (queryNames D u))))"

definition public_item :: "data_platform \<Rightarrow> jsval \<Rightarrow> bool" where
  "public_item D x \<longleftrightarrow> public_data_url D (getp x ''url'')
     \<and> (\<exists>t. getp x ''title'' = Str t \<and> utf8_length t \<le> MAX_TITLE_BYTES \<and> \<not> hasControl t)"

definition data_result_ok :: "data_platform \<Rightarrow> jsval \<Rightarrow> bool" where
  "data_result_ok D res \<longleftrightarrow> (\<forall>field\<in>set [''items'', ''bookmarks'', ''entries'']. list_all (public_item D) (elems (getp res field)))
     \<and> (getp res ''targetUrl'' = Undefined \<or> public_data_url D (getp res ''targetUrl''))"

lemma boundedText_Inr: "boundedText v n field = Inr t \<Longrightarrow> \<exists>s. t = Str s \<and> v = Str s \<and> utf8_length s \<le> n \<and> \<not> hasControl s"
  by (cases v) (auto simp: boundedText_def split: if_splits)

lemma boundedBrowserURL_Inr:
  assumes "boundedBrowserURL D v = Inr u"
  shows "public_data_url D u"
proof -
  obtain t where t: "boundedText (js_or v (Str [])) MAX_URL_BYTES ''browser URL'' = Inr t"
    and rest: "(case parseURL (dp D) t of None \<Rightarrow> Inl (invalidBrowserResult ''URL'') | Some parsed \<Rightarrow>
         if url_protocol parsed = [] \<or> (url_hostname parsed = [] \<and> web_protocol parsed) then Inl (invalidBrowserResult ''URL'')
         else Inr (Str (scrubURL D (str_of t) (filter SENSITIVE_QUERY_NAME (queryNames D (str_of t)))))) = Inr u"
    using assms unfolding boundedBrowserURL_def bind_res_Inr by blast
  obtain s where "t = Str s" "utf8_length s \<le> MAX_URL_BYTES" using boundedText_Inr [OF t] by blast
  with rest show ?thesis by (auto simp: public_data_url_def split: option.splits if_splits)
qed

lemma history_item_public: "normalizeHistoryItem D item = Inr x \<Longrightarrow> public_item D x"
  unfolding normalizeHistoryItem_def reported_def bind_res_Inr public_item_def
  by (auto dest!: boundedText_Inr boundedBrowserURL_Inr)

lemma bookmark_public: "normalizeBookmark D item = Inr x \<Longrightarrow> public_item D x"
  unfolding normalizeBookmark_def reported_def bind_res_Inr public_item_def
  by (auto dest!: boundedText_Inr boundedBrowserURL_Inr split: if_splits simp: public_data_url_def [of _ "Str []"])

lemma entry_public: "normalizeReadingListEntry D item = Inr x \<Longrightarrow> public_item D x"
  unfolding normalizeReadingListEntry_def reported_def bind_res_Inr public_item_def
  by (auto dest!: boundedText_Inr boundedBrowserURL_Inr)

lemma collection_public:
  assumes "normalizeBoundedCollection v f label = Inr items" and "\<And>item x. f item = Inr x \<Longrightarrow> P x"
  shows "list_all P items"
proof -
  have "map_res f (elems v) = Inr items" using assms(1) by (simp add: normalizeBoundedCollection_def split: if_splits)
  from map_res_Inr [OF this] assms(2) show ?thesis unfolding list_all_iff by blast
qed

lemma page_items_all: "list_all P items \<Longrightarrow> list_all P (page_items n cursor items)"
  by (auto simp: list_all_iff page_items_def dest!: in_set_takeD in_set_dropD)

lemma sort_entries_mset: "mset (sort_entries D es) = mset es"
  by (simp add: sort_entries_def mset_sort_by)

lemma page_result_ok:
  assumes "list_all (public_item D) items"
  shows "data_result_ok D (pageResult kind items cursor limit ''items'')" "data_result_ok D (pageResult kind items cursor limit ''bookmarks'')"
    "data_result_ok D (pageResult kind items cursor limit ''entries'')"
  using page_items_all [OF assms] by (simp_all add: data_result_ok_def pageResult_def elems_def)

lemma visits_result_ok: "data_result_ok D (pageResult kind items cursor limit ''visits'')"
  by (simp add: data_result_ok_def pageResult_def elems_def)

lemma mutation_result_ok: "data_result_ok D (mutationResult operation n scope st en ws)"
  by (simp add: data_result_ok_def mutationResult_def elems_def)

section \<open>Every handler\<close>

abbreviation data_safe :: "('s \<Rightarrow> 's \<Rightarrow> bool) \<Rightarrow> data_platform \<Rightarrow> jsval \<Rightarrow> ('s, jsval) io \<Rightarrow> 's \<Rightarrow> bool" where
  "data_safe R D request m s \<equiv> safe R (data_call_allowed D request) m s [] (\<lambda>_ _ res. data_result_ok D res)"

lemmas data_allowed_simps = data_call_allowed_def data_areas_def irreversible_def Let_def

lemma granted_later [simp]: "granted h c \<Longrightarrow> granted (h @ l) c"
  by (auto simp: granted_def answered_def)

lemma safe_search_history: "data_safe R D request (search_history D api request) s"
  unfolding search_history_def
  by (intro safe_intros data_allows_support)
     (auto simp: data_allowed_simps intro!: page_result_ok collection_public [OF _ history_item_public])

lemma safe_get_visits: "data_safe R D request (get_visits D api request) s"
  unfolding get_visits_def
  by (intro safe_intros data_allows_support) (auto simp: data_allowed_simps visits_result_ok)

lemma checked_Inr: "checked params keys m = Inr x \<longleftrightarrow> objectParams params = Inr () \<and> allowedKeys params keys = Inr () \<and> m = Inr x"
  by (auto simp: checked_def bind_res_Inr)

lemma confirmed_url: "validateConfirmedURL P params label = Inr x \<Longrightarrow> getp params ''confirm'' = Bool True"
  by (auto simp: validateConfirmedURL_def checked_Inr bind_res_Inr throw_if_def split: if_splits)

lemma confirmation: "validateConfirmation params label = Inr x \<Longrightarrow> getp params ''confirm'' = Bool True"
  by (auto simp: validateConfirmation_def bind_res_Inr throw_if_def split: if_splits)

lemma safe_delete_url: "data_safe R D request (delete_url D api request) s"
  unfolding delete_url_def
  by (intro safe_intros data_allows_support) (auto simp: data_allowed_simps mutation_result_ok dest: confirmed_url)

lemma safe_delete_all: "data_safe R D request (delete_all D api request) s"
  unfolding delete_all_def
  by (intro safe_intros data_allows_support) (auto simp: data_allowed_simps mutation_result_ok checked_Inr dest: confirmation)

lemma safe_list_bookmarks: "data_safe R D request (list_bookmarks D api request) s"
  unfolding list_bookmarks_def
  by (intro safe_intros data_allows_support)
     (auto simp: data_allowed_simps intro!: page_result_ok collection_public [OF _ bookmark_public])

lemma history_range:
  assumes "validateHistoryRange params = Inr x"
  shows "getp params ''confirm'' = Bool True" "\<not> num_ge (num_of (getp params ''startTime'')) (num_of (getp params ''endTime''))"
    "getp x ''startTime'' = getp params ''startTime''" "getp x ''endTime'' = getp params ''endTime''"
    "epoch_time (getp params ''startTime'')" "epoch_time (getp params ''endTime'')"
  using assms by (auto simp: validateHistoryRange_def checked_Inr bind_res_Inr requiredTime_def throw_if_def split: if_splits dest: confirmation)

lemma epoch_order:
  assumes "epoch_time v" "epoch_time w" "\<not> num_ge (num_of v) (num_of w)"
  shows "num_lt (num_of v) (num_of w)"
proof -
  obtain a b where "v = Num (Fin a)" "w = Num (Fin b)"
    using assms(1,2) by (auto simp: epoch_time_def is_finite_def split: jsval.splits jsnum.splits)
  with assms(3) show ?thesis by (simp add: num_ge_def)
qed

lemma safe_delete_range: "data_safe R D request (delete_range D api request) s"
  unfolding delete_range_def
  by (intro safe_intros data_allows_support) (auto simp: data_allowed_simps mutation_result_ok history_range epoch_order)

lemma safe_changed_bookmark:
  assumes "operation \<in> {''create'', ''update'', ''move''}"
  shows "data_safe R D request (changed_bookmark D api request operation args) s"
  unfolding changed_bookmark_def
  by (intro safe_intros data_allows_support)
     (use assms in \<open>auto simp: data_allowed_simps data_result_ok_def bookmarkMutation_def elems_def [of Undefined] dest: bookmark_public\<close>)

lemma safe_bookmark_changes:
  "data_safe R D request (create_bookmark D api request) s" "data_safe R D request (update_bookmark D api request) s"
  "data_safe R D request (move_bookmark D api request) s"
  unfolding create_bookmark_def update_bookmark_def move_bookmark_def
  by (intro safe_bindI safe_lift safe_changed_bookmark, simp)+

lemma sort_entries_all: "list_all P (sort_entries D es) \<longleftrightarrow> list_all P es"
  unfolding list_all_iff using mset_eq_setD [OF sort_entries_mset] by blast

lemma sorted_page_ok:
  "normalizeBoundedCollection v (normalizeReadingListEntry D) label = Inr items
    \<Longrightarrow> data_result_ok D (pageResult kind (sort_entries D items) cursor limit ''entries'')"
  by (rule page_result_ok(3)) (simp add: sort_entries_all collection_public [OF _ entry_public])

lemma safe_list_entries: "data_safe R D request (list_entries D api request) s"
  unfolding list_entries_def
  by (intro safe_intros data_allows_support)
     (auto simp: data_allowed_simps intro: sorted_page_ok)

lemma mutation_entries_ok:
  assumes "public_item D entry"
  shows "data_result_ok D (obj [(''kind'', k), (''entries'', Arr [entry]), (''totalMatched'', n), (''nextCursor'', c), (''operation'', operation),
    (''changed'', b), (''targetUrl'', getp entry ''url''), (''warnings'', w)])"
  using assms by (simp add: data_result_ok_def elems_def [of Undefined] public_item_def)

lemma safe_readingListMutation:
  assumes "granted h (data_permission ''readingList'')"
  shows "safe R (data_call_allowed D request) (readingListMutation D api operation url) s h (\<lambda>s h res. \<forall>t l. data_result_ok D res)"
  unfolding readingListMutation_def
  by (intro safe_intros data_allows_support) (use assms in \<open>auto simp: data_allowed_simps intro: mutation_entries_ok entry_public\<close>)

lemma safe_entry_changes:
  "data_safe R D request (add_entry D api request) s" "data_safe R D request (update_entry D api request) s"
  unfolding add_entry_def update_entry_def
  by (intro safe_intros data_allows_support safe_readingListMutation; simp add: data_allowed_simps)+

lemma one_elem: "is_array v \<Longrightarrow> length (elems v) = 1 \<Longrightarrow> v = Arr [first_elem v]"
  by (cases v) (auto simp: is_array_def first_elem_def length_Suc_conv)

lemma removed_entry_ok:
  "public_data_url D u \<Longrightarrow> data_result_ok D (obj [(''kind'', k), (''entries'', Arr []), (''totalMatched'', n), (''nextCursor'', c),
    (''operation'', operation), (''changed'', b), (''targetUrl'', u), (''warnings'', w)])"
  by (simp add: data_result_ok_def elems_def [of Undefined])

lemma safe_remove_entry: "data_safe R D request (remove_entry D api request) s"
  unfolding remove_entry_def
proof (intro safe_intros data_allows_support, goal_cases)
  case (2 params t h' ta v)
  then show ?case using one_elem [of v] by (auto simp: data_allowed_simps entry_seen_def)
qed (auto simp: data_allowed_simps intro!: removed_entry_ok dest: boundedBrowserURL_Inr)

lemma bookmark_removal:
  assumes "validateBookmarkRemove params = Inr x"
  shows "getp x ''bookmarkId'' = getp params ''bookmarkId''" "truthy (getp x ''recursive'') \<Longrightarrow> getp params ''confirm'' = Bool True"
proof -
  from assms have "getp params ''recursive'' = Bool True \<longrightarrow> getp params ''confirm'' = Bool True"
    unfolding validateBookmarkRemove_def checked_Inr Let_def bind_res_Inr
    by (auto simp: checks_Cons_ok throw_if_ok simp flip: returns_unit)
  moreover from assms have "x = obj [(''bookmarkId'', getp params ''bookmarkId''), (''recursive'', Bool (getp params ''recursive'' = Bool True))]"
    unfolding validateBookmarkRemove_def checked_Inr Let_def bind_res_Inr by (auto simp: requiredID_def split: if_splits)
  ultimately show "getp x ''bookmarkId'' = getp params ''bookmarkId''" "truthy (getp x ''recursive'') \<Longrightarrow> getp params ''confirm'' = Bool True"
    by simp_all
qed

lemma removed_bookmark_ok:
  "data_result_ok D (obj [(''kind'', k), (''bookmarks'', Arr []), (''totalMatched'', n), (''nextCursor'', c), (''bookmarkId'', i),
    (''operation'', operation), (''changed'', b), (''removedIds'', r), (''warnings'', w)])"
  by (simp add: data_result_ok_def elems_def [of Undefined])

lemma safe_remove_bookmark: "data_safe R D request (remove_bookmark D api request) s"
  unfolding remove_bookmark_def Let_def
proof (intro safe_intros data_allows_support removed_bookmark_ok, goal_cases)
  case (2 x t h' ta v item)
  note valid = bookmark_removal [OF 2(1)]
  have v: "v = Arr [first_elem v]" using 2 one_elem by auto
  then have "bookmark_seen D (getp (getp request ''params'') ''bookmarkId'')
      (h' @ [(Call ''bookmarks.get'' [getp x ''bookmarkId''], Inr v)]) item"
    using 2 valid(1) unfolding bookmark_seen_def by (intro exI [of _ h'] exI [of _ "first_elem v"]) auto
  then show ?case using 2 valid by (auto simp: data_allowed_simps)
qed (auto simp: data_allowed_simps removed_bookmark_ok)

lemma safe_personal_handlers:
  "(name, m) \<in> set (personal_data_handlers D api) \<Longrightarrow> data_safe R D request (m request) s"
  unfolding personal_data_handlers_def
  by (auto intro: safe_search_history safe_get_visits safe_delete_url safe_delete_range safe_delete_all safe_list_bookmarks
    safe_bookmark_changes safe_remove_bookmark safe_list_entries safe_entry_changes safe_remove_entry)

text \<open>C32: A handler of history, bookmarks or the reading list calls the API of an area only after the browser has granted the
  permission of that area; it deletes history or a folder of bookmarks only on confirmation, a range only if it starts before it
  ends and exactly the range that was asked for; it removes only a bookmark or an entry that the browser showed in the answer
  directly before, and a whole tree only of a folder.\<close>

theorem personal_calls_guarded:
  assumes "(name, m) \<in> set (personal_data_handlers D api)" and "exec R (m request) s l r t" and "i < length l"
  shows "data_call_allowed D request (take i l) (fst (l ! i))"
  using safe_exec [OF assms(2) safe_personal_handlers [OF assms(1)]] assms(3) by (simp add: guarded_iff)

text \<open>Every history item, bookmark and reading-list entry that a handler returns has a URL in which the values of
  sensitive query parameters have been replaced and a bounded title without control characters.\<close>

theorem personal_results_public:
  assumes "(name, m) \<in> set (personal_data_handlers D api)" and "exec R (m request) s l (Inr res) t"
    and "field \<in> {''items'', ''bookmarks'', ''entries''}" and "x \<in> set (elems (getp res field))"
  shows "public_item D x"
  using safe_exec [OF assms(2) safe_personal_handlers [OF assms(1)]] assms(3,4) by (auto simp: data_result_ok_def list_all_iff)

section \<open>The order of the reading list\<close>

text \<open>The reading list is returned with all its entries, ordered by the time of the last update, the latest first, and entries
  updated at the same time by URL, when the comparison of URLs is a weak order.\<close>

theorem reading_list_ordered:
  assumes "list_all (\<lambda>e. is_finite (getp e ''lastUpdateTime'')) entries"
    and "\<And>u v. url_before D u v \<Longrightarrow> \<not> url_before D v u"
    and "\<And>u v w. \<not> url_before D v u \<Longrightarrow> \<not> url_before D w v \<Longrightarrow> \<not> url_before D w u"
  shows "mset (sort_entries D entries) = mset entries \<and> sorted_wrt (\<lambda>x y. \<not> entry_before D y x) (sort_entries D entries)"
proof
  show "mset (sort_entries D entries) = mset entries" by (rule sort_entries_mset)
  let ?P = "\<lambda>e. is_finite (getp e ''lastUpdateTime'')"
  have fin: "\<exists>a. getp e ''lastUpdateTime'' = Num (Fin a)" if "?P e" for e
    using that by (auto simp: is_finite_def split: jsval.splits jsnum.splits)
  show "sorted_wrt (\<lambda>x y. \<not> entry_before D y x) (sort_entries D entries)"
    unfolding sort_entries_def
  proof (rule sorted_sort_by [where P = ?P])
    fix x y assume xy: "?P x" "?P y" "entry_before D y x"
    then show "\<not> entry_before D x y" using fin [OF xy(1)] fin [OF xy(2)] assms(2) by (auto simp: entry_before_def Let_def)
  next
    fix x y z assume xyz: "?P x" "?P y" "?P z" "\<not> entry_before D y x" "\<not> entry_before D z y"
    then show "\<not> entry_before D z x"
      using fin [OF xyz(1)] fin [OF xyz(2)] fin [OF xyz(3)] assms(3) by (fastforce simp: entry_before_def Let_def not_less)
  qed (rule assms(1))
qed

section \<open>Pages\<close>

definition data_lists :: "platform \<Rightarrow> (jsval \<Rightarrow> jsval res) list" where
  "data_lists P = [validateHistorySearch, validateURLPage P, validateBookmarkList, validateReadingListQuery P]"

definition data_limit :: "jsval \<Rightarrow> nat" where
  "data_limit params = page_limit (if getp params ''limit'' = Undefined then jnum DEFAULT_PAGE_ITEMS else getp params ''limit'')"

lemma validatePage_Inr:
  assumes "validatePage params = Inr page"
  shows "1 \<le> data_limit params" "page_limit (fst page) = data_limit params" "page_offset (snd page) = page_offset (getp params ''cursor'')"
proof -
  let ?limit = "if getp params ''limit'' = Undefined then jnum DEFAULT_PAGE_ITEMS else getp params ''limit''"
  have page: "page = (?limit, if getp params ''cursor'' = Undefined then Str [] else getp params ''cursor'')"
    and "is_integer ?limit \<and> \<not> less_than ?limit 1"
    using assms unfolding validatePage_def Let_def bind_res_Inr by (auto simp: checks_Cons_ok throw_if_ok simp flip: returns_unit)
  then obtain i :: int where "?limit = jnum (of_int i)" "1 \<le> i" by (auto simp: is_integer_iff)
  then show "1 \<le> data_limit params" by (simp add: data_limit_def page_limit_def split: if_splits)
  show "page_limit (fst page) = data_limit params" "page_offset (snd page) = page_offset (getp params ''cursor'')"
    by (simp_all add: page data_limit_def page_offset_def)
qed

lemma first_digit: "1 \<le> n \<Longrightarrow> hd (show_nat n) \<noteq> 0x30"
proof (induction n rule: show_nat.induct)
  case (1 n)
  show ?case
  proof (cases "n < 10")
    case True
    then have "unat (digit_unit n) \<noteq> 48" using 1 by (simp add: unat_digit_unit)
    then have "digit_unit n \<noteq> 0x30" by fastforce
    with True show ?thesis by (subst show_nat.simps) simp
  next
    case False
    then have "show_nat n = show_nat (n div 10) @ [digit_unit (n mod 10)]" by (subst show_nat.simps) simp
    then show ?thesis using 1 False digits_show(2) [of "n div 10"] by (simp add: hd_append)
  qed
qed

lemma positive_show_nat: "1 \<le> n \<Longrightarrow> positive_numeral (show_nat n)"
  using first_digit [of n] digits_show(1) [of _ n] digits_show(2) [of n]
  by (cases "show_nat n") (auto simp: positive_numeral_def list_all_iff)

lemma validatePage_cursor:
  assumes "isObject params" and "validatePage params = Inr page" and "1 \<le> k" "k < MAX_SCAN_ITEMS"
  shows "\<exists>page'. validatePage (with_cursor params (show_nat k)) = Inr page'"
  using assms(2-) positive_show_nat [of k] unfolding validatePage_def Let_def bind_res_Inr
  by (auto simp: checks_Cons_ok throw_if_ok getp_with_cursor [OF assms(1)] dec_value_show_nat simp flip: returns_unit)

lemma allowedKeys_ok: "allowedKeys params keys = Inr () \<longleftrightarrow> set (object_keys params) \<subseteq> set (map lit keys)"
proof (cases "find (\<lambda>key. key \<notin> set (map lit keys)) (object_keys params)")
  case (Some key)
  then obtain i where "i < length (object_keys params)" "object_keys params ! i \<notin> set (map lit keys)"
    by (metis find_Some_iff)
  then have "\<not> set (object_keys params) \<subseteq> set (map lit keys)" using nth_mem by blast
  then show ?thesis unfolding allowedKeys_def Some by simp
next
  case None
  then have "set (object_keys params) \<subseteq> set (map lit keys)" unfolding find_None_iff by blast
  then show ?thesis unfolding allowedKeys_def None by simp
qed

lemma checked_cursor:
  assumes "isObject params" and "allowedKeys params keys = ok" and "''cursor'' \<in> set keys"
  shows "checked (with_cursor params c) keys m = m"
proof -
  have "allowedKeys (with_cursor params c) keys = ok"
    using assms unfolding allowedKeys_ok keys_with_cursor [OF assms(1)] by auto
  then show ?thesis by (simp add: checked_def objectParams_def throw_if_def)
qed

lemma checked_object: "checked params keys m = Inr x \<Longrightarrow> isObject params"
  by (auto simp: checked_Inr objectParams_def throw_if_def split: if_splits)

text \<open>The parameters of a list are an object with a valid page, and another cursor does not change what else is checked.\<close>

lemma data_lists_page:
  assumes "V \<in> set (data_lists P)" and "V params = Inr x"
  shows "isObject params \<and> (\<exists>page. validatePage params = Inr page \<and> getp x ''limit'' = fst page \<and> getp x ''cursor'' = snd page)"
proof (rule conjI)
  show "isObject params"
    using assms by (auto simp: data_lists_def validateHistorySearch_def validateURLPage_def validateBookmarkList_def validateReadingListQuery_def
      dest: checked_object)
  show "\<exists>page. validatePage params = Inr page \<and> getp x ''limit'' = fst page \<and> getp x ''cursor'' = snd page"
    using assms
    by (auto simp: data_lists_def validateHistorySearch_def validateURLPage_def validateBookmarkList_def validateReadingListQuery_def
      checked_Inr bind_res_Inr Let_def page_members_def)
qed

lemma data_lists_cursor:
  assumes "V \<in> set (data_lists P)" and "V params = Inr x" and "1 \<le> k" "k < MAX_SCAN_ITEMS"
  shows "\<exists>y. V (with_cursor params (show_nat k)) = Inr y"
proof -
  note params = data_lists_page [OF assms(1,2)]
  then obtain page' where page': "validatePage (with_cursor params (show_nat k)) = Inr page'"
    using validatePage_cursor [OF _ _ assms(3,4)] by blast
  note page_cursor = checked_cursor [OF conjunct1 [OF params]] getp_with_cursor [OF conjunct1 [OF params]] page'
  have "\<exists>y. validateHistorySearch (with_cursor params (show_nat k)) = Inr y" if "validateHistorySearch params = Inr x"
    using that [unfolded validateHistorySearch_def checked_Inr bind_res_Inr] unfolding validateHistorySearch_def
    by (clarsimp simp: page_cursor)
  moreover have "\<exists>y. validateURLPage P (with_cursor params (show_nat k)) = Inr y" if "validateURLPage P params = Inr x"
    using that [unfolded validateURLPage_def checked_Inr bind_res_Inr] unfolding validateURLPage_def
    by (clarsimp simp: page_cursor)
  moreover have "\<exists>y. validateBookmarkList (with_cursor params (show_nat k)) = Inr y" if "validateBookmarkList params = Inr x"
    using that [unfolded validateBookmarkList_def checked_Inr bind_res_Inr Let_def] unfolding validateBookmarkList_def Let_def
    by (clarsimp simp: page_cursor)
  moreover have "\<exists>y. validateReadingListQuery P (with_cursor params (show_nat k)) = Inr y" if "validateReadingListQuery P params = Inr x"
    using that [unfolded validateReadingListQuery_def checked_Inr bind_res_Inr] unfolding validateReadingListQuery_def
    by (clarsimp simp: page_cursor)
  ultimately show ?thesis using assms(1,2) by (auto simp: data_lists_def)
qed

interpretation data_pages: paged "\<lambda>params. V \<in> set (data_lists P) \<and> returns (V params)" data_limit MAX_SCAN_ITEMS
  for V P
proof
  fix params c k assume V: "V \<in> set (data_lists P) \<and> returns (V params)"
  then obtain x where x: "V params = Inr x" by (auto simp: returns_def split: sum.splits)
  note params = data_lists_page [OF conjunct1 [OF V] x]
  show "isObject params" "1 \<le> data_limit params" using params validatePage_Inr(1) by blast+
  show "data_limit (with_cursor params c) = data_limit params" using params by (simp add: data_limit_def getp_with_cursor)
  assume "1 \<le> k" "k < MAX_SCAN_ITEMS"
  then show "V \<in> set (data_lists P) \<and> returns (V (with_cursor params (show_nat k)))"
    using data_lists_cursor [OF conjunct1 [OF V] x, of k] V by (auto simp: returns_def)
qed

text \<open>What a list handler returns is the page of its parameters.\<close>

lemma data_page:
  assumes "V \<in> set (data_lists P)" and "V params = Inr x"
  shows "page_items (page_limit (getp x ''limit'')) (getp x ''cursor'') items = page_items (data_limit params) (getp params ''cursor'') items"
    and "page_next (page_limit (getp x ''limit'')) (getp x ''cursor'') items = page_next (data_limit params) (getp params ''cursor'') items"
  using data_lists_page [OF assms] validatePage_Inr [of params] by (auto simp: page_items_def page_next_def)

text \<open>A reader who follows the cursors of a search of the history, of the visits of a URL, of the bookmarks or of the reading
  list sees every item of an unchanged collection exactly once, in order.\<close>

theorem personal_pages_complete:
  assumes "V \<in> set (data_lists P)" and "returns (V params)" and "getp params ''cursor'' = Undefined" and "length items \<le> MAX_SCAN_ITEMS"
  shows "concat (pages data_limit (Suc (length items)) params items) = items"
  using data_pages.pages_complete [of V P params items] assms by simp

section \<open>Witnesses\<close>

definition data_net :: data_platform where
  "data_net = \<lparr>dp = demo_platform, queryNames = (\<lambda>_. []), scrubURL = (\<lambda>u _. u), url_before = (\<lambda>_ _. False)\<rparr>"

definition data_request :: jsval where
  "data_request = obj [(''params'', obj [(''bookmarkId'', jstr ''7''), (''recursive'', Bool True), (''confirm'', Bool True)])]"

definition data_folder :: jsval where
  "data_folder = obj [(''id'', jstr ''7''), (''title'', jstr ''F'')]"

definition data_run :: "log \<times> jsval res option \<times> nat" where
  "data_run = play (remove_bookmark data_net (\<lambda>_. True) data_request) 0
     (let nothing = Inr Undefined; yes = Inr (Bool True)
      in [nothing, nothing, nothing, yes, Inr (Arr [data_folder]), nothing, nothing, yes, nothing, nothing])"

lemma data_run_ends:
  "case data_run of (l, Some (Inr res), n) \<Rightarrow> 5 < length l \<and> callee (fst (l ! 5)) = ''bookmarks.removeTree'' | _ \<Rightarrow> False"
  by code_simp

lemma data_handler_names: "(''bookmarks.remove'', remove_bookmark D api) \<in> set (personal_data_handlers D api)"
  by (simp add: personal_data_handlers_def)

theorem personal_calls_guarded_witness:
  "granted (take 5 (fst data_run)) (data_permission ''bookmarks'') \<and> (\<exists>item. bookmark_seen data_net (jstr ''7'') (take 5 (fst data_run)) item)"
proof -
  obtain l res n where run: "data_run = (l, Some (Inr res), n)"
    and at: "5 < length l" "callee (fst (l ! 5)) = ''bookmarks.removeTree''"
    using data_run_ends by (auto split: prod.splits option.splits sum.splits)
  have params: "getp (getp data_request ''params'') ''bookmarkId'' = jstr ''7''" by (simp add: data_request_def)
  show ?thesis
    using personal_calls_guarded [OF data_handler_names play_exec [OF run [unfolded data_run_def], of "\<lambda>_ _. True"] at(1)] at(2)
    unfolding run by (auto simp: data_allowed_simps params)
qed

theorem reading_list_ordered_witness:
  "sort_entries data_net [obj [(''lastUpdateTime'', jnum 1)], obj [(''lastUpdateTime'', jnum 2)]]
     = [obj [(''lastUpdateTime'', jnum 2)], obj [(''lastUpdateTime'', jnum 1)]]
   \<and> sorted_wrt (\<lambda>x y. \<not> entry_before data_net y x) [obj [(''lastUpdateTime'', jnum 2)], obj [(''lastUpdateTime'', jnum 1)]]"
proof -
  let ?es = "[obj [(''lastUpdateTime'', jnum 1)], obj [(''lastUpdateTime'', jnum 2)]]"
  have sorted: "sort_entries data_net ?es = rev ?es"
    by (simp add: sort_entries_def sort_by_def entry_before_def)
  have "list_all (\<lambda>e. is_finite (getp e ''lastUpdateTime'')) ?es" by (simp add: is_finite_def)
  from reading_list_ordered [OF this, of data_net] show ?thesis unfolding sorted by (simp add: data_net_def)
qed

theorem personal_pages_complete_witness:
  "concat (pages data_limit 4 (obj [(''limit'', jnum 2)]) [jnum 1, jnum 2, jnum 3]) = [jnum 1, jnum 2, jnum 3]"
proof -
  have "validateBookmarkList \<in> set (data_lists demo_platform)" by (simp add: data_lists_def)
  moreover have "returns (validateBookmarkList (obj [(''limit'', jnum 2)]))" by code_simp
  moreover have "getp (obj [(''limit'', jnum 2)]) ''cursor'' = Undefined" by simp
  moreover have "length [jnum 1, jnum 2, jnum 3] \<le> MAX_SCAN_ITEMS" and "Suc (length [jnum 1, jnum 2, jnum 3]) = 4"
    by (simp_all add: MAX_SCAN_ITEMS_def)
  ultimately show ?thesis using personal_pages_complete [of validateBookmarkList demo_platform "obj [(''limit'', jnum 2)]" "[jnum 1, jnum 2, jnum 3]"] by metis
qed

end
