(* ===== verification/Page_Storage.thy ===== *)
theory Page_Storage
  imports Paging
begin

text \<open>
  The function that the storage handler injects into the page, \<open>isolatedStorageOperation\<close> of
  \<open>chrome-extension/src/handlers/storage.js\<close>. The state is the storage of the page's origin; the calls of Cache Storage and
  IndexedDB are answered by the environment.
\<close>

section \<open>The page\<close>

text \<open>The entries of the two storage areas, in the order of \<open>storage.key(index)\<close>, without duplicate keys.\<close>

record page_store =
  ps_origin :: jsstr
  ps_local :: "(jsstr \<times> jsstr) list"
  ps_session :: "(jsstr \<times> jsstr) list"

text \<open>What the page's environment decides: which areas can be accessed (the getter throws otherwise), which contents fit the quota,
  whether the two asynchronous APIs exist, and whether \<open>localeCompare\<close> is negative.\<close>

record page_env =
  pe_area :: "string \<Rightarrow> bool"
  pe_fits :: "(jsstr \<times> jsstr) list \<Rightarrow> bool"
  pe_caches :: bool
  pe_databases :: bool
  pe_before :: "jsstr \<Rightarrow> jsstr \<Rightarrow> bool"

definition MAX_SCAN :: nat where "MAX_SCAN = 10000"
definition MAX_KEY :: nat where "MAX_KEY = 1024"
definition MAX_VALUE :: nat where "MAX_VALUE = 64 * 1024"
definition MAX_OBSERVED :: nat where "MAX_OBSERVED = 1000000"
definition MAX_NAME :: nat where "MAX_NAME = 1024"

section \<open>Results\<close>

definition ok_data :: "jsval \<Rightarrow> jsval" where
  "ok_data data = obj [(''ok'', Bool True), (''data'', data)]"

definition fail :: "ErrorCode \<Rightarrow> string \<Rightarrow> bool \<Rightarrow> jsval" where
  "fail code message retryable = obj [(''ok'', Bool False),
     (''error'', obj [(''code'', jstr (error_code_name code)), (''message'', jstr message), (''retryable'', Bool retryable)])]"

text \<open>\<open>base(kind)\<close> with the members that the code assigns afterwards.\<close>

definition base :: "string \<Rightarrow> (string \<times> jsval) list \<Rightarrow> jsval" where
  "base kind assigned = obj (map (\<lambda>(name, v). (name, case map_of assigned name of None \<Rightarrow> v | Some w \<Rightarrow> w))
     [(''kind'', jstr kind), (''storageType'', Str []), (''valuesIncluded'', Bool False), (''items'', Arr []), (''caches'', Arr []),
      (''databases'', Arr []), (''totalMatched'', jnum 0), (''nextCursor'', Str []), (''operation'', Str []), (''changed'', Bool False),
      (''supported'', Bool True), (''requestedTypes'', Arr []), (''clearedTypes'', Arr []), (''clearedCounts'', Null), (''warnings'', Arr [])])"

definition page :: "jsval \<Rightarrow> 'a list \<Rightarrow> ('a list \<times> nat \<times> jsstr) option" where
  "page params values =
     (if length values > MAX_SCAN then None
      else let offset = page_offset (getp params ''cursor''); limit = page_limit (getp params ''limit'')
        in Some (take limit (drop offset values), length values,
             if offset + min limit (length values - offset) < length values then show_nat (offset + limit) else []))"

definition item :: "jsval \<Rightarrow> jsstr \<Rightarrow> jsstr \<Rightarrow> jsval option" where
  "item params key v =
     (let valueLength = utf8_length v;
          valueIncluded = (getp params ''includeValues'' = Bool True \<and> valueLength \<le> MAX_VALUE)
      in if utf8_length key > MAX_KEY \<or> valueLength > MAX_OBSERVED then None
         else Some (obj [(''key'', Str key),
           (''value'', if valueIncluded then Str v else if truthy (getp params ''includeValues'') then jstr ''[OMITTED]'' else jstr ''[MASKED]''),
           (''valueIncluded'', Bool valueIncluded), (''valueLength'', jnum (of_nat valueLength))]))"

section \<open>The storage areas\<close>

definition storageArea :: "jsval \<Rightarrow> string" where
  "storageArea params = (if getp params ''storageType'' = jstr ''localStorage'' then ''localStorage'' else ''sessionStorage'')"

definition entries_of :: "string \<Rightarrow> page_store \<Rightarrow> (jsstr \<times> jsstr) list" where
  "entries_of area s = (if area = ''localStorage'' then ps_local s else ps_session s)"

definition set_entries :: "string \<Rightarrow> (jsstr \<times> jsstr) list \<Rightarrow> page_store \<Rightarrow> page_store" where
  "set_entries area es s = (if area = ''localStorage'' then s\<lparr>ps_local := es\<rparr> else s\<lparr>ps_session := es\<rparr>)"

text \<open>\<open>globalThis.localStorage\<close>, with its current entries.\<close>

definition open_area :: "page_env \<Rightarrow> string \<Rightarrow> (page_store, (jsstr \<times> jsstr) list) io" where
  "open_area E area = (if pe_area E area then Update id (\<lambda>s. Return (entries_of area s)) else Throw (ForeignError Undefined))"

definition storageEntries :: "page_env \<Rightarrow> (jsstr \<times> jsstr) list \<Rightarrow> (jsstr \<times> jsstr) list option" where
  "storageEntries E entries =
     (if length entries > MAX_SCAN then None else Some (sort_by (\<lambda>left right. pe_before E (fst left) (fst right)) entries))"

definition list_answer :: "page_env \<Rightarrow> jsval \<Rightarrow> (jsstr \<times> jsstr) list \<Rightarrow> jsval" where
  "list_answer E params entries =
     (case storageEntries E entries of
         None \<Rightarrow> fail PAYLOAD_TOO_LARGE ''The storage area exceeds scan limits'' False
       | Some es \<Rightarrow> case page params es of
           None \<Rightarrow> fail PAYLOAD_TOO_LARGE ''The storage area exceeds scan limits'' False
         | Some (vs, matched, next_cursor) \<Rightarrow>
             let items = map (\<lambda>(key, v). item params key v) vs
             in if None \<in> set items then fail PAYLOAD_TOO_LARGE ''A storage item exceeds limits'' False
                else ok_data (base ''items'' [(''storageType'', getp params ''storageType''),
                  (''valuesIncluded'', Bool (getp params ''includeValues'' = Bool True)), (''items'', Arr (map the items)),
                  (''totalMatched'', jnum (of_nat matched)), (''nextCursor'', Str next_cursor),
                  (''warnings'', Arr (if list_ex (\<lambda>x. \<not> truthy (getp (the x) ''valueIncluded'') \<and> truthy (getp params ''includeValues'')) items
                     then [jstr ''One or more oversized storage values were omitted''] else []))]))"

definition list_items :: "page_env \<Rightarrow> jsval \<Rightarrow> (page_store, jsval) io" where
  "list_items E params = bind_io (open_area E (storageArea params)) (\<lambda>entries. Return (list_answer E params entries))"

definition get_answer :: "jsval \<Rightarrow> (jsstr \<times> jsstr) list \<Rightarrow> jsval" where
  "get_answer params entries =
     (let key = str_of (getp params ''key'');
          result = [(''storageType'', getp params ''storageType''), (''valuesIncluded'', Bool (getp params ''includeValues'' = Bool True))]
      in case map_of entries key of
         None \<Rightarrow> ok_data (base ''item'' result)
       | Some v \<Rightarrow> case item params key v of
           None \<Rightarrow> fail PAYLOAD_TOO_LARGE ''The storage item exceeds limits'' False
         | Some mapped \<Rightarrow> ok_data (base ''item'' (result @ [(''items'', Arr [mapped]), (''totalMatched'', jnum 1)])))"

definition get_item :: "page_env \<Rightarrow> jsval \<Rightarrow> (page_store, jsval) io" where
  "get_item E params = bind_io (open_area E (storageArea params)) (\<lambda>entries. Return (get_answer params entries))"

definition mutate_item :: "page_env \<Rightarrow> string \<Rightarrow> jsval \<Rightarrow> (page_store, jsval) io" where
  "mutate_item E operation params =
     bind_io (open_area E (storageArea params)) (\<lambda>entries.
     let key = str_of (getp params ''key''); v = str_of (getp params ''value''); previous = map_of entries key;
         after = (if operation = ''set'' then assoc_set key v entries else filter (\<lambda>e. fst e \<noteq> key) entries)
     in bind_io (throw_when (operation = ''set'' \<and> \<not> pe_fits E after) (ForeignError Undefined)) (\<lambda>_.
        Update (set_entries (storageArea params) after) (\<lambda>_.
        Return (ok_data (base ''mutation'' [(''storageType'', getp params ''storageType''), (''operation'', jstr operation),
          (''changed'', Bool (if operation = ''set'' then previous \<noteq> Some v else previous \<noteq> None))])))))"

section \<open>Cache Storage and IndexedDB\<close>

definition valid_names :: "jsval \<Rightarrow> bool" where
  "valid_names names \<longleftrightarrow> is_array names \<and> length (elems names) \<le> MAX_SCAN
     \<and> list_all (\<lambda>name. is_string name \<and> utf8_length (str_of name) \<le> MAX_NAME) (elems names)"

definition named_database :: "jsval \<Rightarrow> bool" where
  "named_database database \<longleftrightarrow> is_string (getp database ''name'') \<and> utf8_length (str_of (getp database ''name'')) \<le> MAX_NAME"

definition valid_version :: "jsval \<Rightarrow> bool" where
  "valid_version v \<longleftrightarrow> is_integer v \<and> \<not> less_than v 1 \<and> \<not> greater_than v MAX_SAFE_INTEGER"

definition cache_metadata :: "page_env \<Rightarrow> jsval \<Rightarrow> (page_store, jsval) io" where
  "cache_metadata E params =
     (if \<not> pe_caches E then Return (fail CAPABILITY_UNAVAILABLE ''Cache Storage is unavailable for this origin'' False)
      else bind_io (await ''caches.keys'' []) (\<lambda>names.
        if \<not> valid_names names then Return (fail PAYLOAD_TOO_LARGE ''Cache Storage metadata exceeds limits'' False)
        else case page params (sort_by (\<lambda>left right. pe_before E (str_of left) (str_of right)) (elems names)) of
            None \<Rightarrow> Throw (ForeignError Undefined)
          | Some (vs, matched, next_cursor) \<Rightarrow>
              Return (ok_data (base ''cacheMetadata'' [(''caches'', Arr (map (\<lambda>name. obj [(''name'', name)]) vs)),
                (''totalMatched'', jnum (of_nat matched)), (''nextCursor'', Str next_cursor)]))))"

definition database_before :: "page_env \<Rightarrow> jsval \<Rightarrow> jsval \<Rightarrow> bool" where
  "database_before E left right =
     (if getp left ''name'' = getp right ''name'' then num_lt (num_of (getp left ''version'')) (num_of (getp right ''version''))
      else pe_before E (str_of (getp left ''name'')) (str_of (getp right ''name'')))"

definition indexedDB_metadata :: "page_env \<Rightarrow> jsval \<Rightarrow> (page_store, jsval) io" where
  "indexedDB_metadata E params =
     (if \<not> pe_databases E then Return (fail CAPABILITY_UNAVAILABLE ''IndexedDB metadata is unavailable for this origin'' False)
      else bind_io (await ''indexedDB.databases'' []) (\<lambda>databases.
        if \<not> is_array databases \<or> length (elems databases) > MAX_SCAN
           \<or> \<not> list_all (\<lambda>database. named_database database \<and> valid_version (getp database ''version'')) (elems databases)
        then Return (fail PAYLOAD_TOO_LARGE ''IndexedDB metadata exceeds limits'' False)
        else case page params (sort_by (database_before E) (elems databases)) of
            None \<Rightarrow> Throw (ForeignError Undefined)
          | Some (vs, matched, next_cursor) \<Rightarrow>
              Return (ok_data (base ''indexedDBMetadata'' [(''databases'', Arr (map (\<lambda>database.
                  obj [(''name'', getp database ''name''), (''version'', getp database ''version'')]) vs)),
                (''totalMatched'', jnum (of_nat matched)), (''nextCursor'', Str next_cursor)]))))"

section \<open>Clearing\<close>

text \<open>What the checks before the first change find: the number of entries of an area, or the names to delete.\<close>

datatype inventory = Area nat | Names "jsval list"

definition storage_areas :: "string list" where
  "storage_areas = [''localStorage'', ''sessionStorage'']"

text \<open>\<open>Inl\<close>: the function returns a failure.\<close>

fun preflight :: "page_env \<Rightarrow> jsval list \<Rightarrow> (jsval \<times> inventory) list \<Rightarrow> (page_store, jsval + (jsval \<times> inventory) list) io" where
  "preflight E [] inventories = Return (Inr inventories)"
| "preflight E (t # ts) inventories =
     (if js_includes storage_areas t
      then bind_io (open_area E (if t = jstr ''localStorage'' then ''localStorage'' else ''sessionStorage'')) (\<lambda>entries.
        if length entries > MAX_SCAN then Return (Inl (fail PAYLOAD_TOO_LARGE ''The storage area exceeds clear limits'' False))
        else preflight E ts (assoc_set t (Area (length entries)) inventories))
      else if t = jstr ''cacheStorage''
      then if \<not> pe_caches E then Return (Inl (fail CAPABILITY_UNAVAILABLE ''Cache Storage is unavailable for this origin'' False))
        else bind_io (await ''caches.keys'' []) (\<lambda>names.
          if \<not> valid_names names then Return (Inl (fail PAYLOAD_TOO_LARGE ''Cache Storage exceeds clear limits'' False))
          else preflight E ts (assoc_set t (Names (elems names)) inventories))
      else if t = jstr ''indexedDB''
      then if \<not> pe_databases E then Return (Inl (fail CAPABILITY_UNAVAILABLE ''IndexedDB metadata is unavailable for this origin'' False))
        else bind_io (await ''indexedDB.databases'' []) (\<lambda>databases.
          if \<not> is_array databases \<or> length (elems databases) > MAX_SCAN \<or> \<not> list_all named_database (elems databases)
          then Return (Inl (fail PAYLOAD_TOO_LARGE ''IndexedDB metadata exceeds clear limits'' False))
          else preflight E ts (assoc_set t (Names (map (\<lambda>database. getp database ''name'') (elems databases))) inventories))
      else preflight E ts inventories)"

text \<open>\<open>Promise.all(names.map(f))\<close>: every deletion is started before the first one is awaited.\<close>

definition delete_caches :: "jsval list \<Rightarrow> (page_store, jsval list) io" where
  "delete_caches names = bind_io (each_io (\<lambda>name. ask ''caches.delete'' [name]) names) (\<lambda>_.
     each_io (\<lambda>name. await ''caches.delete settled'' [name]) names)"

definition deleteDatabases :: "jsval list \<Rightarrow> (page_store, jsval list) io" where
  "deleteDatabases names = bind_io (each_io (\<lambda>name. ask ''indexedDB.deleteDatabase'' [name]) names) (\<lambda>_.
     each_io (\<lambda>name. catch_io (bind_io (await ''indexedDB.deleteDatabase settled'' [name]) (\<lambda>_. Return (Bool True)))
       (\<lambda>_. Return (Bool False))) names)"

text \<open>The count and the warnings of one type.\<close>

definition clear_type :: "(jsval \<times> inventory) list \<Rightarrow> jsval \<Rightarrow> (page_store, nat \<times> jsval list) io" where
  "clear_type inventories t =
     (case map_of inventories t of
        None \<Rightarrow> Return (0, [])
      | Some (Area n) \<Rightarrow> Update (set_entries (if t = jstr ''localStorage'' then ''localStorage'' else ''sessionStorage'') []) (\<lambda>_. Return (n, []))
      | Some (Names names) \<Rightarrow>
          bind_io (if t = jstr ''cacheStorage'' then delete_caches names else deleteDatabases names) (\<lambda>deleted.
          let count = length (filter truthy deleted)
          in Return (count, if count \<noteq> length names
               then [jstr (if t = jstr ''cacheStorage'' then ''One or more caches could not be deleted''
                           else ''One or more IndexedDB databases were blocked or not deleted'')]
               else [])))"

text \<open>\<open>[...new Set(xs)]\<close>.\<close>

definition without_repeats :: "'a list \<Rightarrow> 'a list" where
  "without_repeats xs = rev (remdups (rev xs))"

definition clear_storage :: "page_env \<Rightarrow> jsval \<Rightarrow> (page_store, jsval) io" where
  "clear_storage E params =
     (let types = elems (getp params ''types'') in
     bind_io (preflight E types []) (\<lambda>checked. case checked of
         Inl failure \<Rightarrow> Return failure
       | Inr inventories \<Rightarrow>
           bind_io (each_io (clear_type inventories) types) (\<lambda>cleared.
           Return (ok_data (base ''clear'' [(''operation'', jstr ''clear''), (''requestedTypes'', Arr types), (''clearedTypes'', Arr types),
             (''clearedCounts'', Obj (fold (\<lambda>(t, n). assoc_set (str_of t) (jnum (of_nat n))) (zip types (map fst cleared)) [])),
             (''warnings'', Arr (take 4 (without_repeats (concat (map snd cleared)))))])))))"

section \<open>The operation\<close>

definition storage_body :: "page_env \<Rightarrow> string \<Rightarrow> jsval \<Rightarrow> (page_store, jsval) io" where
  "storage_body E operation params =
     (if operation = ''list'' then list_items E params
      else if operation = ''get'' then get_item E params
      else if operation \<in> {''set'', ''remove''} then mutate_item E operation params
      else if operation = ''cacheMetadata'' then cache_metadata E params
      else if operation = ''indexedDBMetadata'' then indexedDB_metadata E params
      else if operation = ''clear'' then clear_storage E params
      else Return (fail INVALID_MESSAGE ''The storage operation is unsupported'' False))"

definition isolatedStorageOperation :: "page_env \<Rightarrow> string \<Rightarrow> jsval \<Rightarrow> (page_store, jsval) io" where
  "isolatedStorageOperation E operation params =
     Update id (\<lambda>s. if Str (ps_origin s) \<noteq> getp params ''origin''
       then Return (fail STALE_TARGET ''The root document origin changed'' True)
       else catch_io (storage_body E operation params) (\<lambda>_. Return (fail INTERNAL_ERROR ''The isolated storage operation failed'' False)))"

end
