(* ===== verification/Storage.thy ===== *)
theory Storage
  imports Paging
begin

text \<open>
  The storage handler (\<open>chrome-extension/src/handlers/storage.js\<close>) without the function it injects into the page, which is
  \<open>Page_Storage\<close>. Validators return nothing of interest; \<open>signal.reason\<close> is always set.
\<close>

definition DEFAULT_TIMEOUT_MS :: rat where "DEFAULT_TIMEOUT_MS = 30000"
definition MAX_TIMEOUT_MS :: rat where "MAX_TIMEOUT_MS = 120000"
definition MAX_PAGE_ITEMS :: nat where "MAX_PAGE_ITEMS = 200"
definition MAX_SCAN_ITEMS :: nat where "MAX_SCAN_ITEMS = 10000"
definition MAX_KEY_BYTES :: nat where "MAX_KEY_BYTES = 1024"
definition MAX_VALUE_BYTES :: nat where "MAX_VALUE_BYTES = 64 * 1024"
definition MAX_OBSERVED_VALUE_BYTES :: rat where "MAX_OBSERVED_VALUE_BYTES = 1000000"
definition MAX_NAME_BYTES :: nat where "MAX_NAME_BYTES = 1024"
definition STORAGE_TYPES :: "string list" where "STORAGE_TYPES = [''localStorage'', ''sessionStorage'']"
definition CLEAR_TYPES :: "string list" where
  "CLEAR_TYPES = [''localStorage'', ''sessionStorage'', ''cacheStorage'', ''indexedDB'']"
definition MASKED_VALUE :: jsval where "MASKED_VALUE = jstr ''[MASKED]''"
definition OMITTED_VALUE :: jsval where "OMITTED_VALUE = jstr ''[OMITTED]''"

section \<open>Checks of parameters\<close>

abbreviation invalidStorageParams :: "string \<Rightarrow> exn" where
  "invalidStorageParams message \<equiv> invalid message"

definition invalidStorageResult :: exn where
  "invalidStorageResult = invalid ''The browser returned an invalid storage result''"

definition assertObject :: "jsval \<Rightarrow> string list \<Rightarrow> unit res" where
  "assertObject v allowedKeys =
     throw_if (\<not> isObject v \<or> list_ex (\<lambda>key. key \<notin> set (map lit allowedKeys)) (object_keys v))
       (invalidStorageParams ''Storage parameters have an invalid shape'')"

definition parseHTTPURL :: "platform \<Rightarrow> jsval \<Rightarrow> url res" where
  "parseHTTPURL P v =
     (case parseURL P v of
        None \<Rightarrow> Inl (invalidStorageParams ''A valid HTTP(S) origin is required'')
      | Some parsed \<Rightarrow>
          if \<not> web_protocol parsed \<or> url_username parsed \<noteq> [] \<or> url_password parsed \<noteq> []
          then Inl (invalidStorageParams ''A valid HTTP(S) origin is required'') else Inr parsed)"

definition validateOrigin :: "platform \<Rightarrow> jsval \<Rightarrow> unit res" where
  "validateOrigin P v = bind_res (parseHTTPURL P v) (\<lambda>parsed.
     throw_if (Str (url_origin parsed) \<noteq> v \<or> url_pathname parsed \<noteq> lit ''/'' \<or> url_search parsed \<noteq> [] \<or> url_hash parsed \<noteq> [])
       (invalidStorageParams ''params.origin must be an exact HTTP(S) origin''))"

definition validateStorageType :: "jsval \<Rightarrow> unit res" where
  "validateStorageType v = throw_if (\<not> js_includes STORAGE_TYPES v) (invalidStorageParams ''params.storageType is unsupported'')"

definition validateCursor :: "jsval \<Rightarrow> unit res" where
  "validateCursor v =
     throw_if (v \<noteq> Undefined \<and> (\<not> is_string v \<or> \<not> digit_string (str_of v)
         \<or> (of_nat (dec_value (str_of v)) :: rat) > MAX_SAFE_INTEGER \<or> dec_value (str_of v) < 1))
       (invalidStorageParams ''params.cursor is invalid'')"

definition validateLimit :: "jsval \<Rightarrow> unit res" where
  "validateLimit v = throw_if (\<not> is_integer v \<or> less_than v 1 \<or> greater_than v (of_nat MAX_PAGE_ITEMS))
     (invalidStorageParams ''params.limit is outside the supported range'')"

definition validateBoundedString :: "jsval \<Rightarrow> nat \<Rightarrow> string \<Rightarrow> unit res" where
  "validateBoundedString v maximum path =
     throw_if (\<not> is_string v \<or> utf8_length (str_of v) > maximum) (invalidStorageParams (path @ '' exceeds its UTF-8 byte limit''))"

definition validateListParams :: "platform \<Rightarrow> jsval \<Rightarrow> unit res" where
  "validateListParams P params = checks [
     assertObject params [''origin'', ''storageType'', ''cursor'', ''limit''],
     validateOrigin P (getp params ''origin''),
     validateStorageType (getp params ''storageType''),
     validateCursor (getp params ''cursor''),
     validateLimit (getp params ''limit'')]"

definition validateItemParams :: "platform \<Rightarrow> jsval \<Rightarrow> unit res" where
  "validateItemParams P params = checks [
     assertObject params [''origin'', ''storageType'', ''key''],
     validateOrigin P (getp params ''origin''),
     validateStorageType (getp params ''storageType''),
     validateBoundedString (getp params ''key'') MAX_KEY_BYTES ''params.key'']"

definition validateSetParams :: "platform \<Rightarrow> jsval \<Rightarrow> unit res" where
  "validateSetParams P params = checks [
     assertObject params [''origin'', ''storageType'', ''key'', ''value''],
     validateOrigin P (getp params ''origin''),
     validateStorageType (getp params ''storageType''),
     validateBoundedString (getp params ''key'') MAX_KEY_BYTES ''params.key'',
     validateBoundedString (getp params ''value'') MAX_VALUE_BYTES ''params.value'']"

definition validateMetadataParams :: "platform \<Rightarrow> jsval \<Rightarrow> unit res" where
  "validateMetadataParams P params = checks [
     assertObject params [''origin'', ''cursor'', ''limit''],
     validateOrigin P (getp params ''origin''),
     validateCursor (getp params ''cursor''),
     validateLimit (getp params ''limit'')]"

definition validateClearParams :: "platform \<Rightarrow> jsval \<Rightarrow> unit res" where
  "validateClearParams P params = checks [
     assertObject params [''origin'', ''types'', ''confirm''],
     validateOrigin P (getp params ''origin''),
     throw_if (getp params ''confirm'' \<noteq> Bool True) (fault CONFIRMATION_REQUIRED [Txt ''Clearing origin storage requires confirm: true'']),
     throw_if (\<not> is_array (getp params ''types'') \<or> (let types = elems (getp params ''types'')
         in length types < 1 \<or> length types > length CLEAR_TYPES \<or> \<not> distinct types \<or> \<not> list_all (js_includes CLEAR_TYPES) types))
       (invalidStorageParams ''params.types contains an unsupported or duplicate storage type'')]"

definition validateTimeout :: "jsval \<Rightarrow> jsval res" where
  "validateTimeout v =
     (let timeout = js_or v (jnum DEFAULT_TIMEOUT_MS)
      in if \<not> is_integer timeout \<or> less_than timeout 1 \<or> greater_than timeout MAX_TIMEOUT_MS
         then Inl (invalidStorageParams ''Storage timeout is outside the supported range'') else Inr timeout)"

section \<open>What the page returns\<close>

definition validStorageTypes :: "jsval \<Rightarrow> jsval list \<Rightarrow> bool" where
  "validStorageTypes vs allowed \<longleftrightarrow> is_array vs \<and> 0 < length (elems vs) \<and> length (elems vs) \<le> length (remdups allowed)
     \<and> distinct (elems vs) \<and> list_all (\<lambda>v. v \<in> set allowed) (elems vs)"

definition normalizeWarnings :: "jsval \<Rightarrow> jsval list res" where
  "normalizeWarnings v =
     (if \<not> is_array v \<or> length (elems v) > 4
         \<or> list_ex (\<lambda>warning. \<not> is_string warning \<or> trim (str_of warning) = [] \<or> length (str_of warning) > 256) (elems v)
      then Inl invalidStorageResult else Inr (rev (remdups (rev (elems v)))))"

definition normalizeCursor :: "jsval \<Rightarrow> jsval res" where
  "normalizeCursor v = (if v = Str [] then Inr (Str []) else bind_res (validateCursor v) (\<lambda>_. Inr v))"

definition normalizeCount :: "jsval \<Rightarrow> jsval res" where
  "normalizeCount v = (if \<not> is_integer v \<or> less_than v 0 \<or> greater_than v (of_nat MAX_SCAN_ITEMS) then Inl invalidStorageResult else Inr v)"

definition normalizeItem :: "bool \<Rightarrow> jsval \<Rightarrow> jsval res" where
  "normalizeItem valuesIncluded item =
     (let key = getp item ''key''; v = getp item ''value''; included = truthy (getp item ''valueIncluded''); valueLength = getp item ''valueLength'' in
     bind_res (throw_if (\<not> isObject item) invalidStorageResult) (\<lambda>_.
     bind_res (validateBoundedString key MAX_KEY_BYTES ''item.key'') (\<lambda>_.
     bind_res (throw_if (\<not> is_integer valueLength \<or> less_than valueLength 0 \<or> greater_than valueLength MAX_OBSERVED_VALUE_BYTES
         \<or> \<not> is_boolean (getp item ''valueIncluded'') \<or> \<not> is_string v) invalidStorageResult) (\<lambda>_.
     bind_res (throw_if (\<not> valuesIncluded \<and> (included \<or> v \<noteq> MASKED_VALUE)) invalidStorageResult) (\<lambda>_.
     bind_res (throw_if (valuesIncluded \<and> \<not> ((included \<and> jnum (of_nat (utf8_length (str_of v))) = valueLength
             \<and> \<not> greater_than valueLength (of_nat MAX_VALUE_BYTES))
           \<or> (\<not> included \<and> v = OMITTED_VALUE \<and> greater_than valueLength (of_nat MAX_VALUE_BYTES)))) invalidStorageResult) (\<lambda>_.
     Inr (obj [(''key'', key), (''value'', v), (''valueIncluded'', getp item ''valueIncluded''), (''valueLength'', valueLength)])))))))"

definition normalizeCache :: "jsval \<Rightarrow> jsval res" where
  "normalizeCache cache =
     bind_res (throw_if (\<not> isObject cache) invalidStorageResult) (\<lambda>_.
     bind_res (validateBoundedString (getp cache ''name'') MAX_NAME_BYTES ''cache.name'') (\<lambda>_.
     Inr (obj [(''name'', getp cache ''name'')])))"

definition normalizeDatabase :: "jsval \<Rightarrow> jsval res" where
  "normalizeDatabase database =
     bind_res (throw_if (\<not> isObject database \<or> \<not> is_integer (getp database ''version'') \<or> less_than (getp database ''version'') 1
         \<or> greater_than (getp database ''version'') MAX_SAFE_INTEGER) invalidStorageResult) (\<lambda>_.
     bind_res (validateBoundedString (getp database ''name'') MAX_NAME_BYTES ''database.name'') (\<lambda>_.
     Inr (obj [(''name'', getp database ''name''), (''version'', getp database ''version'')])))"

text \<open>\<open>common\<close> with the members that the operation assigns.\<close>

definition normalized_result :: "jsval \<Rightarrow> jsval list \<Rightarrow> (string \<times> jsval) list \<Rightarrow> jsval" where
  "normalized_result raw warnings assigned =
     (let text_of = (\<lambda>name. if is_string (getp raw name) then getp raw name else Str []) in
     obj (map (\<lambda>(name, v). (name, case map_of assigned name of None \<Rightarrow> v | Some w \<Rightarrow> w))
     [(''kind'', getp raw ''kind''), (''valuesIncluded'', getp raw ''valuesIncluded''), (''supported'', Bool True), (''warnings'', Arr warnings),
      (''nextCursor'', getp raw ''nextCursor''), (''totalMatched'', getp raw ''totalMatched''), (''storageType'', text_of ''storageType''),
      (''items'', Arr []), (''caches'', Arr []), (''databases'', Arr []), (''operation'', text_of ''operation''),
      (''changed'', Bool (truthy (getp raw ''changed''))), (''requestedTypes'', Arr []), (''clearedTypes'', Arr []), (''clearedCounts'', Null)]))"

definition valid_count :: "jsval \<Rightarrow> bool" where
  "valid_count n \<longleftrightarrow> is_integer n \<and> \<not> less_than n 0 \<and> \<not> greater_than n (of_nat MAX_SCAN_ITEMS)"

text \<open>The members that an operation assigns; \<open>raw.clearedCounts[type]\<close> for a type, which is a string.\<close>

definition property_of :: "jsval \<Rightarrow> jsval \<Rightarrow> jsval" where
  "property_of v t = (case v of Obj ps \<Rightarrow> (case map_of ps (str_of t) of None \<Rightarrow> Undefined | Some w \<Rightarrow> w) | _ \<Rightarrow> Undefined)"

definition normalize_operation :: "string \<Rightarrow> jsval \<Rightarrow> (string \<times> jsval) list res" where
  "normalize_operation operation raw =
     (let kind = getp raw ''kind''; storageType = getp raw ''storageType'' in
     if operation \<in> {''list'', ''get''} then
       bind_res (throw_if (kind \<noteq> jstr (if operation = ''list'' then ''items'' else ''item'') \<or> \<not> js_includes STORAGE_TYPES storageType
           \<or> \<not> is_array (getp raw ''items'') \<or> length (elems (getp raw ''items'')) > (if operation = ''get'' then 1 else MAX_PAGE_ITEMS))
         invalidStorageResult) (\<lambda>_.
       bind_res (map_res (normalizeItem (getp raw ''valuesIncluded'' = Bool True)) (elems (getp raw ''items''))) (\<lambda>items.
       Inr [(''items'', Arr items)]))
     else if operation \<in> {''set'', ''remove''} then
       bind_res (throw_if (kind \<noteq> jstr ''mutation'' \<or> getp raw ''operation'' \<noteq> jstr operation \<or> \<not> js_includes STORAGE_TYPES storageType
           \<or> \<not> is_boolean (getp raw ''changed'')) invalidStorageResult) (\<lambda>_. Inr [])
     else if operation = ''cacheMetadata'' then
       bind_res (throw_if (kind \<noteq> jstr ''cacheMetadata'' \<or> \<not> is_array (getp raw ''caches'')) invalidStorageResult) (\<lambda>_.
       bind_res (map_res normalizeCache (elems (getp raw ''caches''))) (\<lambda>caches.
       bind_res (throw_if (length caches > MAX_PAGE_ITEMS) invalidStorageResult) (\<lambda>_. Inr [(''caches'', Arr caches)])))
     else if operation = ''indexedDBMetadata'' then
       bind_res (throw_if (kind \<noteq> jstr ''indexedDBMetadata'' \<or> \<not> is_array (getp raw ''databases'')) invalidStorageResult) (\<lambda>_.
       bind_res (map_res normalizeDatabase (elems (getp raw ''databases''))) (\<lambda>databases.
       bind_res (throw_if (length databases > MAX_PAGE_ITEMS) invalidStorageResult) (\<lambda>_. Inr [(''databases'', Arr databases)])))
     else if operation = ''clear'' then
       (let requested = elems (getp raw ''requestedTypes''); counts = map (property_of (getp raw ''clearedCounts'')) requested in
       bind_res (throw_if (kind \<noteq> jstr ''clear'' \<or> getp raw ''operation'' \<noteq> jstr ''clear''
           \<or> \<not> validStorageTypes (getp raw ''requestedTypes'') (map jstr CLEAR_TYPES)
           \<or> \<not> validStorageTypes (getp raw ''clearedTypes'') requested \<or> \<not> isObject (getp raw ''clearedCounts'')) invalidStorageResult) (\<lambda>_.
       bind_res (throw_if (\<not> list_all valid_count counts) invalidStorageResult) (\<lambda>_.
       bind_res (throw_if (length (object_keys (getp raw ''clearedCounts'')) \<noteq> length requested) invalidStorageResult) (\<lambda>_.
       Inr [(''requestedTypes'', Arr requested), (''clearedTypes'', getp raw ''clearedTypes''),
         (''clearedCounts'', Obj (zip (map str_of requested) counts))]))))
     else Inl invalidStorageResult)"

definition normalizeInjectedResult :: "string \<Rightarrow> jsval \<Rightarrow> bool \<Rightarrow> jsval res" where
  "normalizeInjectedResult operation raw expectedValuesIncluded =
     bind_res (throw_if (\<not> isObject raw \<or> \<not> is_boolean (getp raw ''valuesIncluded'')) invalidStorageResult) (\<lambda>_.
     bind_res (normalizeWarnings (getp raw ''warnings'')) (\<lambda>warnings.
     bind_res (normalizeCursor (getp raw ''nextCursor'')) (\<lambda>_.
     bind_res (normalizeCount (getp raw ''totalMatched'')) (\<lambda>_.
     bind_res (throw_if (getp raw ''supported'' \<noteq> Bool True) invalidStorageResult) (\<lambda>_.
     bind_res (throw_if (getp raw ''valuesIncluded'' \<noteq> Bool (operation \<in> {''list'', ''get''} \<and> expectedValuesIncluded)) invalidStorageResult) (\<lambda>_.
     bind_res (normalize_operation operation raw) (\<lambda>assigned.
     Inr (normalized_result raw warnings assigned))))))))"

definition unwrap_codes :: "ErrorCode list" where
  "unwrap_codes = [INVALID_MESSAGE, STALE_TARGET, CAPABILITY_UNAVAILABLE, PAYLOAD_TOO_LARGE, INTERNAL_ERROR]"

definition unwrapInjectedResult :: "jsval \<Rightarrow> jsval res" where
  "unwrapInjectedResult v =
     (if \<not> isObject v \<or> \<not> is_boolean (getp v ''ok'') then Inl invalidStorageResult
      else if getp v ''ok'' = Bool True then Inr (getp v ''data'')
      else let error = getp v ''error''
        in if \<not> isObject error \<or> \<not> is_string (getp error ''message'') then Inl invalidStorageResult
           else case find (\<lambda>c. getp error ''code'' = jstr (error_code_name c)) unwrap_codes of
               None \<Rightarrow> Inl invalidStorageResult
             | Some c \<Rightarrow> Inl (protocolError c [Val (Str (take 500 (str_of (getp error ''message''))))] (truthy (getp error ''retryable'')) Undefined))"

section \<open>The target\<close>

record storage_target =
  st_tab :: jsval
  st_origin :: jsstr
  st_documentId :: jsval

definition resolveTab :: "jsval \<Rightarrow> ('s, jsval) io" where
  "resolveTab = resolve_tab True"

definition currentRootDocument :: "platform \<Rightarrow> jsval \<Rightarrow> ('s, jsval) io" where
  "currentRootDocument P = root_document P ''The root document is unavailable''"

definition storage_permission :: "url \<Rightarrow> call" where
  "storage_permission u = Call ''permissions.contains'' [obj [(''permissions'', Arr [jstr ''browsingData'']), (''origins'', Arr [site_pattern u])]]"

definition requireStorageAccess :: "url \<Rightarrow> ('s, unit) io" where
  "requireStorageAccess tabURL =
     bind_io (await (callee (storage_permission tabURL)) (arguments (storage_permission tabURL))) (\<lambda>granted.
     throw_when (\<not> truthy granted) (protocolError PERMISSION_REQUIRED
       [Txt ''Personal data and site access are required for origin storage''] False (obj [(''origin'', Str (url_origin tabURL))])))"

definition prepareTarget :: "platform \<Rightarrow> bool \<Rightarrow> jsval \<Rightarrow> jsval \<Rightarrow> ('s, storage_target) io" where
  "prepareTarget P available request timeoutMs =
     bind_io (throw_when (\<not> available) (fault CAPABILITY_UNAVAILABLE [Txt ''The isolated storage backend is unavailable''])) (\<lambda>_.
     bind_io (resolveTab (getp (getp request ''target'') ''tabId'')) (\<lambda>tab.
     bind_io (lift_res (parseHTTPURL P (getp tab ''url''))) (\<lambda>tabURL.
     bind_io (throw_when (Str (url_origin tabURL) \<noteq> getp (getp request ''params'') ''origin'')
       (fault RESTRICTED_URL [Txt ''Storage operations are limited to the selected root-document origin''])) (\<lambda>_.
     bind_io (requireStorageAccess tabURL) (\<lambda>_.
     bind_io (currentRootDocument P (getp tab ''id'')) (\<lambda>frame.
     bind_io (if truthy (getp (getp request ''target'') ''documentId'')
       then lift_res (assertFreshDocument (getp (getp request ''target'') ''documentId'') (getp frame ''documentId'')) else Return ()) (\<lambda>_.
     bind_io (throw_if_cancelled timeoutMs) (\<lambda>_.
     Return \<lparr>st_tab = tab, st_origin = url_origin tabURL, st_documentId = getp frame ''documentId''\<rparr>))))))))"

definition recheckTarget :: "platform \<Rightarrow> storage_target \<Rightarrow> ('s, unit) io" where
  "recheckTarget P target =
     (let tabId = getp (st_tab target) ''id'' in
     bind_io (resolveTab tabId) (\<lambda>tab.
     bind_io (lift_res (parseHTTPURL P (getp tab ''url''))) (\<lambda>currentURL.
     bind_io (throw_when (url_origin currentURL \<noteq> st_origin target)
       (protocolError STALE_TARGET [Txt ''The target tab navigated to another origin''] True Undefined)) (\<lambda>_.
     bind_io (requireStorageAccess currentURL) (\<lambda>_.
     bind_io (currentRootDocument P tabId) (\<lambda>frame.
     lift_res (assertFreshDocument (st_documentId target) (getp frame ''documentId''))))))))"

section \<open>The commands\<close>

definition settings_call :: call where
  "settings_call = Call ''getSettings'' []"

definition requireSensitiveMode :: "('s, unit) io" where
  "requireSensitiveMode =
     bind_io (await (callee settings_call) (arguments settings_call)) (\<lambda>settings.
     throw_when (getp (getp settings ''featureFlags'') ''sensitiveData'' \<noteq> Bool True)
       (fault CAPABILITY_UNAVAILABLE [Txt ''Sensitive data mode is disabled in extension settings'']))"

text \<open>The injection into the document of the target.\<close>

definition injection :: "storage_target \<Rightarrow> string \<Rightarrow> jsval \<Rightarrow> jsval" where
  "injection target operation params =
     obj [(''target'', obj [(''tabId'', getp (st_tab target) ''id''), (''documentIds'', Arr [st_documentId target])]),
       (''world'', jstr ''ISOLATED''), (''func'', jstr ''isolatedStorageOperation''), (''args'', Arr [jstr operation, params])]"

text \<open>\<open>abortable\<close>: the call is made first, then the signal is checked; what is awaited afterwards rejects with the reason of an
  abort. An error that has a code is passed on.\<close>

definition execute_script :: "platform \<Rightarrow> jsval \<Rightarrow> jsval \<Rightarrow> ('s, jsval) io" where
  "execute_script P timeoutMs script =
     catch_io
       (bind_io (ask ''scripting.executeScript'' [script]) (\<lambda>_.
        bind_io (throw_if_cancelled timeoutMs) (\<lambda>_. await ''scripting.executeScript settled'' [])))
       (\<lambda>e. Throw (if is_string (getp (error_value P e) ''code'') then e else mapChromeError P e))"

definition withTimeout :: "jsval \<Rightarrow> ('s, 'a) io \<Rightarrow> ('s, 'a) io" where
  "withTimeout = deadline"

definition executeStorage :: "platform \<Rightarrow> bool \<Rightarrow> jsval \<Rightarrow> string \<Rightarrow> jsval \<Rightarrow> ('s, jsval) io" where
  "executeStorage P available request operation params =
     bind_io (lift_res (validateTimeout (getp request ''timeoutMs''))) (\<lambda>timeoutMs.
     withTimeout timeoutMs (
       bind_io (prepareTarget P available request timeoutMs) (\<lambda>target.
       bind_io (execute_script P timeoutMs (injection target operation params)) (\<lambda>results.
       let result = first_elem results in
       bind_io (throw_when (\<not> is_array results \<or> length (elems results) \<noteq> 1 \<or> getp result ''frameId'' \<noteq> jnum 0
           \<or> getp result ''documentId'' \<noteq> st_documentId target) invalidStorageResult) (\<lambda>_.
       bind_io (lift_res (unwrapInjectedResult (getp result ''result''))) (\<lambda>payload.
       bind_io (lift_res (normalizeInjectedResult operation payload (getp params ''includeValues'' = Bool True))) (\<lambda>normalized.
       bind_io (recheckTarget P target) (\<lambda>_.
       Return (Obj (members normalized @ [(lit ''tabId'', getp (st_tab target) ''id''), (lit ''documentId'', st_documentId target),
         (lit ''origin'', Str (st_origin target))]))))))))))"

text \<open>\<open>{ ...params, includeValues: sensitive }\<close>.\<close>

definition with_values :: "jsval \<Rightarrow> bool \<Rightarrow> jsval" where
  "with_values params sensitive = Obj (assoc_set (lit ''includeValues'') (Bool sensitive) (members params))"

definition read_storage :: "platform \<Rightarrow> bool \<Rightarrow> string \<Rightarrow> (jsval \<Rightarrow> unit res) \<Rightarrow> jsval \<Rightarrow> ('s, jsval) io" where
  "read_storage P available operation validate request =
     (let params = getp request ''params''; sensitive = (getp request ''command'' = jstr (''storage.'' @ operation @ ''Sensitive'')) in
     bind_io (lift_res (validate params)) (\<lambda>_.
     bind_io (if sensitive then requireSensitiveMode else Return ()) (\<lambda>_.
     executeStorage P available request operation (with_values params sensitive))))"

definition change_storage :: "platform \<Rightarrow> bool \<Rightarrow> string \<Rightarrow> (jsval \<Rightarrow> unit res) \<Rightarrow> jsval \<Rightarrow> ('s, jsval) io" where
  "change_storage P available operation validate request =
     bind_io (lift_res (validate (getp request ''params''))) (\<lambda>_.
     executeStorage P available request operation (getp request ''params''))"

definition storage_handlers :: "platform \<Rightarrow> bool \<Rightarrow> (string \<times> (jsval \<Rightarrow> ('s, jsval) io)) list" where
  "storage_handlers P available =
     [(''list'', read_storage P available ''list'' (validateListParams P)), (''listSensitive'', read_storage P available ''list'' (validateListParams P)),
      (''get'', read_storage P available ''get'' (validateItemParams P)), (''getSensitive'', read_storage P available ''get'' (validateItemParams P)),
      (''set'', change_storage P available ''set'' (validateSetParams P)), (''remove'', change_storage P available ''remove'' (validateItemParams P)),
      (''cacheMetadata'', change_storage P available ''cacheMetadata'' (validateMetadataParams P)),
      (''indexedDBMetadata'', change_storage P available ''indexedDBMetadata'' (validateMetadataParams P)),
      (''clear'', change_storage P available ''clear'' (validateClearParams P))]"

section \<open>Checked parameters\<close>

lemma object_of_members [simp]: "isObject (obj ps)"
  by (simp add: obj_def isObject_def)

lemma storage_object: "assertObject params keys = ok \<Longrightarrow> isObject params \<and> set (object_keys params) \<subseteq> set (map lit keys)"
  by (auto simp: assertObject_def throw_if_def list_ex_iff split: if_splits)

lemma with_values_members:
  "isObject params \<Longrightarrow> getp (with_values params b) k = (if k = ''includeValues'' then Bool b else getp params k)"
  by (cases params) (auto simp: with_values_def getp_def map_of_assoc_set isObject_def members_def)

lemma no_includeValues:
  assumes "assertObject params keys = ok" and "''includeValues'' \<notin> set keys"
  shows "getp params ''includeValues'' = Undefined"
proof (rule getp_not_key)
  show "lit ''includeValues'' \<notin> set (object_keys params)" using storage_object [OF assms(1)] assms(2) by auto
qed

lemma checks_ok_Cons: "checks (c # cs) = ok \<longleftrightarrow> c = ok \<and> checks cs = ok"
  using checks_Cons_ok [of c cs] by (simp add: returns_unit)

end
