(* ===== verification/Storage_Properties.thy ===== *)
theory Storage_Properties
  imports Page_Storage Storage
begin

text \<open>
  The storage handlers inject their operation only into the document they saw, hand out values only in sensitive mode, and
  accept what the injected function returns; the function itself clears all or nothing.
\<close>

section \<open>The handlers\<close>

definition storage_sensitive :: "jsval \<Rightarrow> bool" where
  "storage_sensitive request \<longleftrightarrow> js_includes [''storage.listSensitive'', ''storage.getSensitive''] (getp request ''command'')"

definition storage_mode :: "log \<Rightarrow> bool" where
  "storage_mode l \<longleftrightarrow> (\<exists>settings. answered l settings_call settings \<and> getp (getp settings ''featureFlags'') ''sensitiveData'' = Bool True)"

text \<open>What the log shows of a target: the tab, its origin, the permission, the document.\<close>

definition storage_seen :: "platform \<Rightarrow> jsval \<Rightarrow> log \<Rightarrow> storage_target \<Rightarrow> bool" where
  "storage_seen P request l target \<longleftrightarrow> (\<exists>v u frame.
     answered l (tab_call (getp (getp request ''target'') ''tabId'')) v \<and> st_tab target = tab_answer (getp (getp request ''target'') ''tabId'') v
     \<and> parseURL P (getp (st_tab target) ''url'') = Some u \<and> web_protocol u \<and> st_origin target = url_origin u
     \<and> getp (getp request ''params'') ''origin'' = Str (url_origin u) \<and> granted l (storage_permission u)
     \<and> answered l (frame_call (getp (st_tab target) ''id'')) frame \<and> st_documentId target = getp frame ''documentId''
     \<and> (truthy (getp (getp request ''target'') ''documentId'') \<longrightarrow> st_documentId target = getp (getp request ''target'') ''documentId''))"

definition storage_call_allowed :: "platform \<Rightarrow> jsval \<Rightarrow> log \<Rightarrow> call \<Rightarrow> bool" where
  "storage_call_allowed P request l c \<longleftrightarrow> (callee c = ''scripting.executeScript'' \<longrightarrow>
     (\<exists>target operation params. storage_seen P request l target \<and> arguments c = [injection target operation params]
        \<and> getp params ''origin'' = Str (st_origin target)
        \<and> (truthy (getp params ''includeValues'') \<longrightarrow> storage_sensitive request \<and> storage_mode l)
        \<and> (operation = ''clear'' \<longrightarrow> getp params ''confirm'' = Bool True)))"

lemma storage_allows_support [simp]: "lets_support (storage_call_allowed P request)"
  by (auto simp: lets_support_def storage_call_allowed_def support_calls_def)

lemma storage_allows_other [simp]: "name \<noteq> ''scripting.executeScript'' \<Longrightarrow> storage_call_allowed P request h (Call name args)"
  by (simp add: storage_call_allowed_def)

lemma storage_url: "parseHTTPURL P v = Inr u \<Longrightarrow> parseURL P v = Some u \<and> web_protocol u"
  by (auto simp: parseHTTPURL_def split: option.splits if_splits)

lemma safe_requireStorageAccess [safe_intros]:
  assumes "lets_support G" and "\<And>t v. R s t \<Longrightarrow> truthy v \<Longrightarrow> Q t (h @ [(storage_permission u, Inr v)]) ()"
  shows "safe R G (requireStorageAccess u) s h Q"
  unfolding requireStorageAccess_def by (intro safe_intros) (use assms in \<open>auto simp: storage_permission_def\<close>)

lemma storage_seenI:
  assumes "parseHTTPURL P (getp (tab_answer (getp (getp request ''target'') ''tabId'') v) ''url'') = Inr u"
    and "Str (url_origin u) = getp (getp request ''params'') ''origin''"
    and "truthy g" and "truthy (getp (getp request ''target'') ''documentId'') \<Longrightarrow> getp frame ''documentId'' = getp (getp request ''target'') ''documentId''"
    and "{(tab_call (getp (getp request ''target'') ''tabId''), Inr v), (storage_permission u, Inr g),
       (frame_call (getp (tab_answer (getp (getp request ''target'') ''tabId'') v) ''id''), Inr frame)} \<subseteq> set l"
  shows "storage_seen P request l \<lparr>st_tab = tab_answer (getp (getp request ''target'') ''tabId'') v, st_origin = url_origin u,
     st_documentId = getp frame ''documentId''\<rparr>"
proof -
  note u = storage_url [OF assms(1)]
  have l: "answered l (tab_call (getp (getp request ''target'') ''tabId'')) v" "granted l (storage_permission u)"
    "answered l (frame_call (getp (tab_answer (getp (getp request ''target'') ''tabId'') v) ''id'')) frame"
    using assms(3,5) unfolding granted_def answered_def by blast+
  show ?thesis
    unfolding storage_seen_def storage_target.simps
    by (intro exI [of _ v] exI [of _ u] exI [of _ frame]) (use u l assms(2,4) in auto)
qed

lemma safe_storage_target [safe_intros]:
  assumes G: "lets_support G" and Q: "\<And>t h' target. prefix h h' \<Longrightarrow> storage_seen P request h' target \<Longrightarrow> Q t h' target"
  shows "safe R G (prepareTarget P available request timeoutMs) s h Q"
  unfolding prepareTarget_def resolveTab_def currentRootDocument_def
proof (intro safe_intros G, goal_cases)
  case 1
  then show ?case by (intro Q storage_seenI [OF 1(3)]) (auto dest: fresh_document)
next
  case 2
  then show ?case by (intro Q storage_seenI [OF 2(3)]) auto
qed

lemma safe_storage_recheck [safe_intros]:
  assumes G: "lets_support G" and Q: "\<And>t l. Q t (h @ l) ()"
  shows "safe R G (recheckTarget P target) s h Q"
  unfolding recheckTarget_def resolveTab_def currentRootDocument_def Let_def
  by (intro safe_intros G) (use Q in simp)

lemma safe_catch_throw: "safe R G m s h Q \<Longrightarrow> safe R G (catch_io m (\<lambda>e. Throw (f e))) s h Q"
  unfolding safe_def wp_catch by (erule wp_mono) (auto split: sum.splits)

lemma safe_execute_script [safe_intros]:
  assumes G: "lets_support G" "G h (Call ''scripting.executeScript'' [script])" "\<And>h. G h (Call ''scripting.executeScript settled'' [])"
    and Q: "\<And>t l v. Q t (h @ l) v"
  shows "safe R G (execute_script P timeoutMs script) s h Q"
  unfolding execute_script_def
  by (intro safe_catch_throw safe_intros G) (use Q in simp)

section \<open>Values\<close>

definition storage_masked :: "jsval \<Rightarrow> bool" where
  "storage_masked res \<longleftrightarrow> list_all (\<lambda>x. getp x ''value'' = MASKED_VALUE \<and> getp x ''valueIncluded'' = Bool False) (elems (getp res ''items''))"

lemma item_masked: "normalizeItem False x = Inr y \<Longrightarrow> getp y ''value'' = MASKED_VALUE \<and> getp y ''valueIncluded'' = Bool False"
  by (auto simp: normalizeItem_def Let_def bind_res_Inr throw_if_def split: if_splits)

lemma normalized_masked:
  assumes "normalizeInjectedResult operation raw False = Inr res"
  shows "storage_masked (Obj (members res @ extra))"
proof -
  obtain warnings assigned where raw: "getp raw ''valuesIncluded'' = Bool False" and assigned: "normalize_operation operation raw = Inr assigned"
    and res: "res = normalized_result raw warnings assigned"
    using assms unfolding normalizeInjectedResult_def bind_res_Inr by (auto simp: throw_if_def split: if_splits)
  have items: "getp (Obj (members res @ extra)) ''items'' = (case map_of assigned ''items'' of None \<Rightarrow> Arr [] | Some v \<Rightarrow> v)"
    unfolding res normalized_result_def Let_def by (simp add: obj_def members_def getp_def)
  have "list_all (\<lambda>x. getp x ''value'' = MASKED_VALUE \<and> getp x ''valueIncluded'' = Bool False)
      (elems (case map_of assigned ''items'' of None \<Rightarrow> Arr [] | Some v \<Rightarrow> v))"
  proof (cases "operation \<in> {''list'', ''get''}")
    case True
    then obtain items where "map_res (normalizeItem False) (elems (getp raw ''items'')) = Inr items" "assigned = [(''items'', Arr items)]"
      using assigned raw unfolding normalize_operation_def Let_def by (auto simp: bind_res_Inr split: if_splits)
    with map_res_Inr [OF this(1)] item_masked show ?thesis by (fastforce simp: list_all_iff)
  next
    case False
    then have "map_of assigned ''items'' = None"
      using assigned unfolding normalize_operation_def Let_def by (auto simp: bind_res_Inr split: if_splits)
    then show ?thesis by simp
  qed
  then show ?thesis unfolding storage_masked_def items .
qed

section \<open>Every handler\<close>

definition storage_result_ok :: "jsval \<Rightarrow> log \<Rightarrow> jsval \<Rightarrow> bool" where
  "storage_result_ok request l res \<longleftrightarrow> (if storage_sensitive request then storage_mode l else storage_masked res)"

lemma storage_seen_mono: "storage_seen P request l target \<Longrightarrow> prefix l l' \<Longrightarrow> storage_seen P request l' target"
proof -
  assume "prefix l l'"
  then have "answered l c v \<Longrightarrow> answered l' c v" "granted l c \<Longrightarrow> granted l' c" for c v
    unfolding answered_def granted_def by (auto simp: prefix_def)
  then show "storage_seen P request l target \<Longrightarrow> storage_seen P request l' target"
    unfolding storage_seen_def by blast
qed

lemma storage_mode_mono: "storage_mode h \<Longrightarrow> prefix h l \<Longrightarrow> storage_mode l"
  unfolding storage_mode_def answered_def by (auto simp: prefix_def)

lemma safe_executeStorage:
  assumes origin: "getp params ''origin'' = getp (getp request ''params'') ''origin''"
    and "operation = ''clear'' \<Longrightarrow> getp params ''confirm'' = Bool True"
    and "getp params ''includeValues'' = Bool True \<Longrightarrow> storage_sensitive request \<and> storage_mode h"
    and "\<not> (truthy (getp params ''includeValues'') \<and> getp params ''includeValues'' \<noteq> Bool True)"
    and "storage_sensitive request \<Longrightarrow> getp params ''includeValues'' = Bool True"
  shows "safe R (storage_call_allowed P request) (executeStorage P available request operation params) s h (\<lambda>_ l res. storage_result_ok request l res)"
  unfolding executeStorage_def withTimeout_def Let_def
proof (intro safe_intros storage_allows_support, goal_cases)
  case (1 timeoutMs h1 l t h' target)
  have prefix: "prefix h h'" and seen: "storage_seen P request h' target" using 1 by (auto simp: prefix_def)
  have "getp params ''origin'' = Str (st_origin target)" using seen origin by (auto simp: storage_seen_def)
  moreover have "truthy (getp params ''includeValues'') \<longrightarrow> storage_sensitive request \<and> storage_mode h'"
    using assms(3,4) storage_mode_mono [OF _ prefix] by blast
  moreover have "operation = ''clear'' \<longrightarrow> getp params ''confirm'' = Bool True" using assms(2) by blast
  ultimately show ?case unfolding storage_call_allowed_def call.sel
    by - (rule impI, rule exI [of _ target], rule exI [of _ operation], rule exI [of _ params], intro conjI seen refl, assumption+)
next
  case 3
  show ?case
  proof (cases "storage_sensitive request")
    case True
    then show ?thesis using assms(3,5) 3 by (auto simp: storage_result_ok_def prefix_def intro!: storage_mode_mono [of h])
  next
    case False
    then have "getp params ''includeValues'' \<noteq> Bool True" using assms(3) by blast
    then show ?thesis using 3 False by (auto simp: storage_result_ok_def intro!: normalized_masked)
  qed
qed simp_all

lemma safe_storage_mode [safe_intros]:
  assumes "G h settings_call" and "\<And>t v. R s t \<Longrightarrow> storage_mode (h @ [(settings_call, Inr v)]) \<Longrightarrow> Q t (h @ [(settings_call, Inr v)]) ()"
  shows "safe R G requireSensitiveMode s h Q"
  unfolding requireSensitiveMode_def by (intro safe_intros) (use assms in \<open>auto simp: settings_call_def storage_mode_def answered_def\<close>)

lemma safe_read_storage:
  assumes "operation \<in> {''list'', ''get''}" and "validate params = ok \<Longrightarrow> isObject params" and "params = getp request ''params''"
    and "storage_sensitive request \<longleftrightarrow> getp request ''command'' = jstr (''storage.'' @ operation @ ''Sensitive'')"
  shows "safe R (storage_call_allowed P request) (read_storage P available operation validate request) s [] (\<lambda>_ l res. storage_result_ok request l res)"
  unfolding read_storage_def Let_def
  apply (intro safe_bindI safe_lift safe_If safe_storage_mode safe_Return safe_executeStorage)
  using assms by (auto simp: with_values_members settings_call_def)

lemma safe_change_storage:
  assumes "operation \<in> {''set'', ''remove'', ''cacheMetadata'', ''indexedDBMetadata'', ''clear''}" and "\<not> storage_sensitive request"
    and "validate (getp request ''params'') = ok \<Longrightarrow> getp (getp request ''params'') ''includeValues'' = Undefined
      \<and> (operation = ''clear'' \<longrightarrow> getp (getp request ''params'') ''confirm'' = Bool True)"
  shows "safe R (storage_call_allowed P request) (change_storage P available operation validate request) s [] (\<lambda>_ l res. storage_result_ok request l res)"
  unfolding change_storage_def
  apply (intro safe_bindI safe_lift safe_executeStorage)
  using assms by auto

lemma storage_validated:
  "validateListParams P params = ok \<Longrightarrow> isObject params" "validateItemParams P params = ok \<Longrightarrow> isObject params"
  "validateItemParams P params = ok \<Longrightarrow> getp params ''includeValues'' = Undefined"
  "validateSetParams P params = ok \<Longrightarrow> getp params ''includeValues'' = Undefined"
  "validateMetadataParams P params = ok \<Longrightarrow> getp params ''includeValues'' = Undefined"
  "validateClearParams P params = ok \<Longrightarrow> getp params ''includeValues'' = Undefined \<and> getp params ''confirm'' = Bool True"
  unfolding validateListParams_def validateItemParams_def validateSetParams_def validateMetadataParams_def validateClearParams_def checks_ok_Cons
       apply (auto dest: storage_object)[2]
     apply (elim conjE, erule no_includeValues, simp)+
  apply (elim conjE, rule conjI, erule no_includeValues, simp, simp add: throw_if_def split: if_splits)
  done

lemma safe_storage_handlers:
  assumes "(name, m) \<in> set (storage_handlers P available)" and "getp request ''command'' = jstr (''storage.'' @ name)"
  shows "safe R (storage_call_allowed P request) (m request) s [] (\<lambda>_ l res. storage_result_ok request l res)"
  using assms unfolding storage_handlers_def
  by (auto simp: storage_sensitive_def storage_validated intro!: safe_read_storage safe_change_storage)

text \<open>C29: A storage handler injects its operation only into the document it found in the target tab, whose origin is the one that the
  request names and for which the browser granted access; with values only for a sensitive command after the settings showed
  sensitive mode on, and a clear only on confirmation.\<close>

theorem storage_calls_confined:
  assumes "(name, m) \<in> set (storage_handlers P available)" and "getp request ''command'' = jstr (''storage.'' @ name)"
    and "exec R (m request) s l r t" and "i < length l"
  shows "storage_call_allowed P request (take i l) (fst (l ! i))"
  using safe_exec [OF assms(3) safe_storage_handlers [OF assms(1,2)]] assms(4) by (simp add: guarded_iff)

text \<open>Whatever the page returns, a storage command that is not sensitive returns no value: every item is masked; a sensitive
  command succeeds only in sensitive mode.\<close>

theorem storage_values_masked:
  assumes "(name, m) \<in> set (storage_handlers P available)" and "getp request ''command'' = jstr (''storage.'' @ name)"
    and "exec R (m request) s l (Inr res) t"
  shows "if name \<in> {''listSensitive'', ''getSensitive''} then storage_mode l else storage_masked res"
proof -
  have "storage_sensitive request \<longleftrightarrow> name \<in> {''listSensitive'', ''getSensitive''}"
    using assms(1,2) unfolding storage_handlers_def by (auto simp: storage_sensitive_def)
  with safe_exec [OF assms(3) safe_storage_handlers [OF assms(1,2)]] show ?thesis by (auto simp: storage_result_ok_def)
qed

section \<open>Witnesses\<close>

definition site_url :: url where
  "site_url = \<lparr>url_protocol = lit ''https:'', url_hostname = lit ''a.b'', url_username = [], url_password = [], url_hash = [],
     url_search = [], url_pathname = lit ''/'', url_origin = lit ''https://a.b'', url_href = lit ''https://a.b/''\<rparr>"

definition site_platform :: platform where
  "site_platform = demo_platform\<lparr>parseURL := (\<lambda>_. Some site_url)\<rparr>"

definition site_request :: jsval where
  "site_request = obj [(''command'', jstr ''storage.get''), (''target'', obj [(''tabId'', jnum 1)]),
     (''params'', obj [(''origin'', jstr ''https://a.b''), (''storageType'', jstr ''localStorage''), (''key'', jstr ''k'')])]"

definition site_item :: jsval where
  "site_item = obj [(''key'', jstr ''k''), (''value'', jstr ''[MASKED]''), (''valueIncluded'', Bool False), (''valueLength'', jnum 1)]"

definition site_data :: jsval where
  "site_data = base ''item'' [(''storageType'', jstr ''localStorage''), (''items'', Arr [site_item]), (''totalMatched'', jnum 1)]"

definition site_answer :: jsval where
  "site_answer = obj [(''frameId'', jnum 0), (''documentId'', jstr ''D''), (''result'', ok_data site_data)]"

definition site_target :: storage_target where
  "site_target = \<lparr>st_tab = obj [(''id'', jnum 1), (''url'', jstr ''https://a.b/'')], st_origin = lit ''https://a.b'', st_documentId = jstr ''D''\<rparr>"

definition site_answers :: "jsval res list" where
  "site_answers = [Inr (obj [(''id'', jnum 1), (''url'', jstr ''https://a.b/'')]), Inr (Bool True), Inr (obj [(''documentId'', jstr ''D'')])]"

lemma site_target_run:
  "case play (prepareTarget site_platform True site_request (jnum 30000)) (0 :: nat) (site_answers @ [Inr Undefined]) of
     (l, q, n) \<Rightarrow> length l = 4 \<and> q = Some (Inr site_target) \<and> n = 0"
  "case play (recheckTarget site_platform site_target) (0 :: nat) site_answers of (l, q, n) \<Rightarrow> q = Some (Inr ()) \<and> n = 0"
  by code_simp+

lemma site_data_normalized:
  obtains res where "normalizeInjectedResult ''get'' site_data False = Inr res" and "length (elems (getp (Obj (members res @ extra)) ''items'')) = 1"
proof -
  have size: "utf8_length (lit ''k'') = 1" by code_simp
  have whole: "is_integer (jnum 1)" by code_simp
  have item: "normalizeItem False site_item = Inr site_item"
    unfolding site_item_def
    by (auto simp: normalizeItem_def Let_def validateBoundedString_def throw_if_def size whole isObject_def obj_def getp_def MAX_KEY_BYTES_def
      MAX_OBSERVED_VALUE_BYTES_def MASKED_VALUE_def OMITTED_VALUE_def)
  have fields: "isObject site_data" "getp site_data ''valuesIncluded'' = Bool False" "getp site_data ''supported'' = Bool True"
    "getp site_data ''warnings'' = Arr []" "getp site_data ''nextCursor'' = Str []" "getp site_data ''totalMatched'' = jnum 1"
    "getp site_data ''kind'' = jstr ''item''" "getp site_data ''storageType'' = jstr ''localStorage''" "getp site_data ''items'' = Arr [site_item]"
    by (simp_all add: site_data_def base_def)
  have "normalize_operation ''get'' site_data = Inr [(''items'', Arr [site_item])]"
    by (simp add: normalize_operation_def fields throw_if_def item STORAGE_TYPES_def js_includes_def)
  then have "normalizeInjectedResult ''get'' site_data False = Inr (normalized_result site_data [] [(''items'', Arr [site_item])])"
    by (auto simp: normalizeInjectedResult_def fields throw_if_def whole normalizeWarnings_def normalizeCursor_def normalizeCount_def MAX_SCAN_ITEMS_def)
  moreover have "length (elems (getp (Obj (members (normalized_result site_data [] [(''items'', Arr [site_item])]) @ extra)) ''items'')) = 1"
    unfolding normalized_result_def Let_def by (simp add: obj_def members_def getp_def)
  ultimately show thesis by (rule that)
qed

lemma site_run:
  obtains l res where "exec (\<lambda>_ _. True) (read_storage site_platform True ''get'' (validateItemParams site_platform) site_request) (0 :: nat) l (Inr res) 0"
    and "7 < length l" and "callee (fst (l ! 7)) = ''scripting.executeScript''" and "length (elems (getp res ''items'')) = 1"
proof -
  let ?R = "\<lambda>_ _. True :: bool"
  have request: "validateItemParams site_platform (getp site_request ''params'') = ok" "getp site_request ''command'' \<noteq> jstr (''storage.'' @ ''get'' @ ''Sensitive'')"
    "validateTimeout (getp site_request ''timeoutMs'') = Inr (jnum 30000)"
    "getp (with_values (getp site_request ''params'') False) ''includeValues'' = Bool False" by code_simp+
  obtain l1 where prepared: "exec ?R (prepareTarget site_platform True site_request (jnum 30000)) (0 :: nat) l1 (Inr site_target) 0" "length l1 = 4"
    using site_target_run(1) by (auto split: prod.splits dest!: play_exec [where R = ?R])
  obtain l2 where rechecked: "exec ?R (recheckTarget site_platform site_target) (0 :: nat) l2 (Inr ()) 0"
    using site_target_run(2) by (auto split: prod.splits dest!: play_exec [where R = ?R])
  let ?extra = "[(lit ''tabId'', getp (st_tab site_target) ''id''), (lit ''documentId'', st_documentId site_target), (lit ''origin'', Str (st_origin site_target))]"
  obtain res where res: "normalizeInjectedResult ''get'' site_data False = Inr res" "length (elems (getp (Obj (members res @ ?extra)) ''items'')) = 1"
    by (rule site_data_normalized)
  have answer: "is_array (Arr [site_answer])" "first_elem (Arr [site_answer]) = site_answer" "getp site_answer ''frameId'' = jnum 0"
    "getp site_answer ''documentId'' = st_documentId site_target" "getp site_answer ''result'' = ok_data site_data" "elems (Arr [site_answer]) = [site_answer]"
    by (simp_all add: site_answer_def site_target_def first_elem_def)
  have unwrapped: "unwrapInjectedResult (ok_data site_data) = Inr site_data"
    by (auto simp: unwrapInjectedResult_def ok_data_def isObject_def obj_def getp_def)
  let ?script = "injection site_target ''get'' (with_values (getp site_request ''params'') False)"
  have called: "exec ?R (execute_script site_platform (jnum 30000) ?script) (0 :: nat)
      ([(Call ''scripting.executeScript'' [?script], Inr Undefined)] @ [(Call ''signal.aborted'' [], Inr Undefined)]
        @ [(Call ''scripting.executeScript settled'' [], Inr (Arr [site_answer]))]) (Inr (Arr [site_answer])) 0"
    unfolding execute_script_def by (intro exec_catch exec_bind [OF exec_ask] exec_bind [OF exec_throw_if_cancelled] exec_await) simp
  have skipped: "exec ?R (if getp site_request ''command'' = jstr (''storage.'' @ ''get'' @ ''Sensitive'') then requireSensitiveMode else Return ()) (0 :: nat) [] (Inr ()) 0"
    unfolding if_not_P [OF request(2)] by (simp add: exec_Return)
  have sensitive: "(getp site_request ''command'' = jstr (''storage.'' @ ''get'' @ ''Sensitive'')) = False" using request(2) by simp
  let ?l = "[(Call ''parentSignal.aborted'' [], Inr Undefined), (Call ''parentSignal.addEventListener'' [jstr ''abort''], Inr Undefined),
      (Call ''setTimeout'' [jnum 30000], Inr Undefined)] @ (l1 @ ([(Call ''scripting.executeScript'' [?script], Inr Undefined)]
        @ [(Call ''signal.aborted'' [], Inr Undefined)] @ [(Call ''scripting.executeScript settled'' [], Inr (Arr [site_answer]))])
      @ [] @ l2 @ [])
      @ [(Call ''clearTimeout'' [], Inr Undefined), (Call ''parentSignal.removeEventListener'' [jstr ''abort''], Inr Undefined)]"
  have rest: "exec ?R (bind_io (recheckTarget site_platform site_target) (\<lambda>_. Return (Obj (members res @ ?extra)))) (0 :: nat) (l2 @ []) (Inr (Obj (members res @ ?extra))) 0"
    by (rule exec_bind [OF rechecked exec_Return])
  have "exec ?R (executeStorage site_platform True site_request ''get'' (with_values (getp site_request ''params'') False)) (0 :: nat) ?l (Inr (Obj (members res @ ?extra))) 0"
    unfolding executeStorage_def Let_def withTimeout_def request(3,4) lift_res_def [of "Inr (jnum 30000)"] sum.case bind_io.simps
    apply (rule exec_deadline, rule exec_bind [OF prepared(1)], rule exec_bind [OF called])
    apply (unfold answer)
    apply (rule exec_bind [OF exec_throw_when])
     apply simp
    apply (simp only: unwrapped jsval.inject simp_thms res(1) lift_res_def sum.case bind_io.simps)
    apply (rule rest)
    done
  then have "exec ?R (read_storage site_platform True ''get'' (validateItemParams site_platform) site_request) (0 :: nat) ?l (Inr (Obj (members res @ ?extra))) 0"
    by (simp only: read_storage_def Let_def request(1) sensitive if_False lift_res_def sum.case bind_io.simps)
  then show thesis by (rule that) (simp_all add: prepared(2) nth_append res(2))
qed

lemma get_is_handler:
  "(''get'', read_storage P available ''get'' (validateItemParams P)) \<in> set (storage_handlers P available)"
  "getp site_request ''command'' = jstr (''storage.'' @ ''get'')"
  by (simp_all add: storage_handlers_def site_request_def)

theorem storage_calls_confined_witness:
  "\<exists>l target operation params. 7 < length l \<and> arguments (fst (l ! 7)) = [injection target operation params]
     \<and> storage_seen site_platform site_request (take 7 l) target \<and> \<not> truthy (getp params ''includeValues'')"
proof (rule site_run)
  fix l res
  assume run: "exec (\<lambda>_ _. True) (read_storage site_platform True ''get'' (validateItemParams site_platform) site_request) (0 :: nat) l (Inr res) 0"
    and at: "7 < length l" "callee (fst (l ! 7)) = ''scripting.executeScript''"
  have "\<not> storage_sensitive site_request" by (simp add: storage_sensitive_def site_request_def)
  with storage_calls_confined [OF get_is_handler run at(1)] at show ?thesis
    unfolding storage_call_allowed_def by blast
qed

theorem storage_values_masked_witness:
  "\<exists>l res. exec (\<lambda>_ _. True) (read_storage site_platform True ''get'' (validateItemParams site_platform) site_request) (0 :: nat) l (Inr res) 0
     \<and> length (elems (getp res ''items'')) = 1 \<and> storage_masked res"
proof (rule site_run)
  fix l res
  assume run: "exec (\<lambda>_ _. True) (read_storage site_platform True ''get'' (validateItemParams site_platform) site_request) (0 :: nat) l (Inr res) 0"
    "length (elems (getp res ''items'')) = 1"
  from storage_values_masked [OF get_is_handler this(1)] run show ?thesis by auto
qed

end
