(* ===== verification/Storage_Answers.thy ===== *)
theory Storage_Answers
  imports Page_Storage Storage
begin

text \<open>
  The function that the storage handler injects into a page and the handler fit together: what the function returns passes the
  handler's checks. The function clears all or nothing, and shows of masked values only their lengths.
\<close>

section \<open>Answers that the handler accepts\<close>

text \<open>A failure is reported as it is, data passes the checks.\<close>

definition answer_accepted :: "string \<Rightarrow> bool \<Rightarrow> jsval \<Rightarrow> bool" where
  "answer_accepted operation sensitive v \<longleftrightarrow>
     (\<exists>c m b. v = fail c m b \<and> unwrapInjectedResult v = Inl (protocolError c [Val (jstr m)] b Undefined))
     \<or> (\<exists>data. v = ok_data data \<and> unwrapInjectedResult v = Inr data \<and> returns (normalizeInjectedResult operation data sensitive))"

lemma fail_accepted:
  assumes "c \<in> set unwrap_codes" and "length m \<le> 500"
  shows "answer_accepted operation sensitive (fail c m b)"
proof -
  have "unwrapInjectedResult (fail c m b) = Inl (protocolError c [Val (jstr m)] b Undefined)"
    using assms by (auto simp: unwrapInjectedResult_def fail_def unwrap_codes_def Let_def)
  then show ?thesis unfolding answer_accepted_def by blast
qed

lemma data_accepted: "returns (normalizeInjectedResult operation data sensitive) \<Longrightarrow> answer_accepted operation sensitive (ok_data data)"
  by (auto simp: answer_accepted_def unwrapInjectedResult_def ok_data_def)

lemma base_accepted:
  assumes "normalize_operation operation (base kind a) = Inr x"
    and "getp (base kind a) ''valuesIncluded'' = Bool (operation \<in> {''list'', ''get''} \<and> sensitive)" and "getp (base kind a) ''supported'' = Bool True"
    and "returns (normalizeWarnings (getp (base kind a) ''warnings''))" and "returns (normalizeCursor (getp (base kind a) ''nextCursor''))"
    and "returns (normalizeCount (getp (base kind a) ''totalMatched''))"
  shows "answer_accepted operation sensitive (ok_data (base kind a))"
proof (rule data_accepted)
  have "isObject (base kind a)" by (simp add: base_def)
  then show "returns (normalizeInjectedResult operation (base kind a) sensitive)"
    using assms unfolding normalizeInjectedResult_def
    by (auto simp: throw_if_def returns_def split: sum.splits)
qed

section \<open>Reading\<close>

lemma page_Some:
  assumes "page params values = Some (vs, n, c)" and "1 \<le> page_limit (getp params ''limit'')"
  shows "n = length values \<and> length values \<le> MAX_SCAN" "set vs \<subseteq> set values \<and> length vs \<le> page_limit (getp params ''limit'')"
    "c = [] \<or> (\<exists>k. 1 \<le> k \<and> k < length values \<and> c = show_nat k)"
proof -
  show "n = length values \<and> length values \<le> MAX_SCAN" "set vs \<subseteq> set values \<and> length vs \<le> page_limit (getp params ''limit'')"
    using assms(1) by (auto simp: page_def Let_def dest!: in_set_takeD in_set_dropD split: if_splits)
  let ?k = "page_offset (getp params ''cursor'') + page_limit (getp params ''limit'')"
  have "c = [] \<or> (?k < length values \<and> c = show_nat ?k)"
    using assms(1) by (auto simp: page_def Let_def split: if_splits)
  then show "c = [] \<or> (\<exists>k. 1 \<le> k \<and> k < length values \<and> c = show_nat k)"
    using assms(2) by (auto intro!: exI [of _ ?k])
qed

lemma integer_of_nat [simp]: "is_integer (jnum (of_nat n))"
  unfolding is_integer_iff by (rule exI [of _ "int n"]) simp

lemma page_cursor: "n \<le> MAX_SCAN \<Longrightarrow> c = [] \<or> (\<exists>k. 1 \<le> k \<and> k < n \<and> c = show_nat k) \<Longrightarrow> returns (normalizeCursor (Str c))"
  by (auto simp: normalizeCursor_def validateCursor_def throw_if_def digits_show digit_string_show_nat dec_value_show_nat MAX_SCAN_def MAX_SAFE_INTEGER_def returns_def)

lemma count_accepted: "n \<le> MAX_SCAN \<Longrightarrow> returns (normalizeCount (jnum (of_nat n)))"
  by (auto simp: normalizeCount_def MAX_SCAN_ITEMS_def MAX_SCAN_def returns_def)

lemma no_warnings: "returns (normalizeWarnings (Arr []))"
  by (simp add: normalizeWarnings_def returns_def)

lemma item_accepted:
  assumes "item params key v = Some x" and "getp params ''includeValues'' = Bool sensitive"
  shows "returns (normalizeItem sensitive x)"
proof -
  let ?n = "utf8_length v" and ?b = "sensitive \<and> utf8_length v \<le> MAX_VALUE"
  have size: "utf8_length key \<le> MAX_KEY_BYTES" "?n \<le> 1000000"
    and x: "x = obj [(''key'', Str key), (''value'', if ?b then Str v else if sensitive then OMITTED_VALUE else MASKED_VALUE),
      (''valueIncluded'', Bool ?b), (''valueLength'', jnum (of_nat ?n))]"
    using assms(1) unfolding item_def Let_def assms(2)
    by (simp_all add: MAX_KEY_def MAX_KEY_BYTES_def MAX_OBSERVED_def MASKED_VALUE_def OMITTED_VALUE_def split: if_split_asm)
  have masked: "is_string MASKED_VALUE" "is_string OMITTED_VALUE" by (simp_all add: MASKED_VALUE_def OMITTED_VALUE_def)
  consider "\<not> sensitive" | "sensitive" "?n \<le> 65536" | "sensitive" "\<not> ?n \<le> 65536" by blast
  then show ?thesis
  proof cases
    case 1
    then show ?thesis using size masked
      by (auto simp: x normalizeItem_def Let_def validateBoundedString_def throw_if_def MAX_OBSERVED_VALUE_BYTES_def)
  next
    case 2
    then show ?thesis using size
      by (auto simp: x normalizeItem_def Let_def validateBoundedString_def throw_if_def MAX_OBSERVED_VALUE_BYTES_def MAX_VALUE_BYTES_def MAX_VALUE_def)
  next
    case 3
    then show ?thesis using size masked
      by (auto simp: x normalizeItem_def Let_def validateBoundedString_def throw_if_def MAX_OBSERVED_VALUE_BYTES_def MAX_VALUE_BYTES_def MAX_VALUE_def)
  qed
qed

lemma map_res_returns: "(\<And>x. x \<in> set xs \<Longrightarrow> returns (f x)) \<Longrightarrow> \<exists>ys. map_res f xs = Inr ys"
proof (induction xs)
  case (Cons x xs)
  obtain y where "f x = Inr y" using Cons.prems [of x] by (cases "f x") auto
  moreover obtain ys where "map_res f xs = Inr ys" using Cons by auto
  ultimately show ?case by simp
qed simp

lemma warning_text: "trim (lit ''One or more oversized storage values were omitted'') \<noteq> []"
  by code_simp

lemma list_accepted:
  assumes params: "js_includes STORAGE_TYPES (getp params ''storageType'')" "getp params ''includeValues'' = Bool sensitive"
    and limit: "1 \<le> page_limit (getp params ''limit'')" "page_limit (getp params ''limit'') \<le> MAX_PAGE_ITEMS"
  shows "answer_accepted ''list'' sensitive (list_answer E params entries)"
proof (cases "storageEntries E entries")
  case None
  then show ?thesis by (simp add: list_answer_def fail_accepted unwrap_codes_def)
next
  case (Some es)
  note es = Some
  show ?thesis
  proof (cases "page params es")
    case None
    then show ?thesis by (simp add: list_answer_def es fail_accepted unwrap_codes_def)
  next
    case (Some p)
    obtain vs n c where p: "p = (vs, n, c)" by (cases p)
    note page = page_Some [OF Some [unfolded p] limit(1)]
    show ?thesis
    proof (cases "None \<in> set (map (\<lambda>(key, v). item params key v) vs)")
      case True
      then show ?thesis by (simp add: list_answer_def es Some p Let_def fail_accepted unwrap_codes_def)
    next
      case False
      let ?items = "map the (map (\<lambda>(key, v). item params key v) vs)"
      have "returns (normalizeItem sensitive x)" if "x \<in> set ?items" for x
      proof -
        obtain key v where kv: "(key, v) \<in> set vs" "x = the (item params key v)" using \<open>x \<in> set ?items\<close> by auto
        then have "item params key v \<noteq> None" using False by force
        then show ?thesis using item_accepted [OF _ params(2)] kv(2) by auto
      qed
      then obtain items where items: "map_res (normalizeItem sensitive) ?items = Inr items" using map_res_returns by blast
      have answer: "list_answer E params entries = ok_data (base ''items'' [(''storageType'', getp params ''storageType''),
          (''valuesIncluded'', Bool (getp params ''includeValues'' = Bool True)), (''items'', Arr ?items),
          (''totalMatched'', jnum (of_nat n)), (''nextCursor'', Str c),
          (''warnings'', Arr (if list_ex (\<lambda>x. \<not> truthy (getp (the x) ''valueIncluded'') \<and> truthy (getp params ''includeValues''))
               (map (\<lambda>(key, v). item params key v) vs)
             then [jstr ''One or more oversized storage values were omitted''] else []))])"
        using False by (simp only: list_answer_def es Some p option.case prod.case Let_def if_False)
      have len: "length ?items \<le> MAX_PAGE_ITEMS" using page(2) limit(2) by simp
      show ?thesis unfolding answer
        by (rule base_accepted [of _ _ _ "[(''items'', Arr items)]"])
          (use params items len page(1) in \<open>simp_all add: base_def normalize_operation_def throw_if_def page_cursor [OF _ page(3)] count_accepted
            no_warnings normalizeWarnings_def warning_text\<close>)
    qed
  qed
qed

lemma get_accepted:
  assumes params: "js_includes STORAGE_TYPES (getp params ''storageType'')" "getp params ''includeValues'' = Bool sensitive"
  shows "answer_accepted ''get'' sensitive (get_answer params entries)"
proof -
  consider "map_of entries (str_of (getp params ''key'')) = None"
    | v where "map_of entries (str_of (getp params ''key'')) = Some v" "item params (str_of (getp params ''key'')) v = None"
    | v x where "map_of entries (str_of (getp params ''key'')) = Some v" "item params (str_of (getp params ''key'')) v = Some x"
    by (metis not_None_eq)
  then show ?thesis
  proof cases
    case 1
    show ?thesis unfolding get_answer_def Let_def 1 option.case
      by (rule base_accepted [of _ _ _ "[(''items'', Arr [])]"])
        (use params in \<open>simp_all add: base_def normalize_operation_def throw_if_def no_warnings normalizeCursor_def count_accepted [of 0, simplified]\<close>)
  next
    case 2
    then show ?thesis by (simp add: get_answer_def Let_def fail_accepted unwrap_codes_def)
  next
    case 3
    obtain y where "normalizeItem sensitive x = Inr y" using item_accepted [OF 3(2) params(2)] by (cases "normalizeItem sensitive x") auto
    then show ?thesis unfolding get_answer_def Let_def 3 option.case
      by (intro base_accepted [of _ _ _ "[(''items'', Arr [y])]"])
        (use params in \<open>simp_all add: base_def normalize_operation_def throw_if_def no_warnings normalizeCursor_def
          count_accepted [of 1, simplified] MAX_SCAN_def\<close>)
  qed
qed

section \<open>Changing\<close>

lemma safe_open_area [safe_intros]: "Q s h (entries_of area s) \<Longrightarrow> safe R G (open_area E area) s h Q"
  unfolding open_area_def by (auto intro!: safe_intros)

lemma safe_mutate:
  assumes "js_includes STORAGE_TYPES (getp params ''storageType'')" and "operation \<in> {''set'', ''remove''}"
  shows "safe R (\<lambda>_ _. True) (mutate_item E operation params) s h (\<lambda>_ _ v. answer_accepted operation False v)"
  unfolding mutate_item_def Let_def
proof (intro safe_intros, goal_cases)
  case 1
  show ?case
    by (rule base_accepted [of _ _ _ "[]"])
      (use assms in \<open>auto simp: base_def normalize_operation_def throw_if_def no_warnings normalizeCursor_def count_accepted [of 0, simplified]\<close>)
qed

section \<open>Metadata\<close>

lemma caches_accepted: "list_all (\<lambda>name. is_string name \<and> utf8_length (str_of name) \<le> MAX_NAME) vs
  \<Longrightarrow> \<exists>xs. map_res normalizeCache (map (\<lambda>name. obj [(''name'', name)]) vs) = Inr xs \<and> length xs = length vs"
  by (induction vs) (auto simp: normalizeCache_def throw_if_def validateBoundedString_def MAX_NAME_def MAX_NAME_BYTES_def)

lemma databases_accepted: "list_all (\<lambda>d. named_database d \<and> valid_version (getp d ''version'')) vs
  \<Longrightarrow> \<exists>xs. map_res normalizeDatabase (map (\<lambda>d. obj [(''name'', getp d ''name''), (''version'', getp d ''version'')]) vs) = Inr xs
        \<and> length xs = length vs"
  by (induction vs) (auto simp: normalizeDatabase_def throw_if_def validateBoundedString_def MAX_NAME_def MAX_NAME_BYTES_def named_database_def
    valid_version_def)

lemma list_all_page: "set vs \<subseteq> set (sort_by before xs) \<Longrightarrow> list_all p xs \<Longrightarrow> list_all p vs"
  by (auto simp: list_all_iff)

lemma safe_page [safe_intros]:
  "(\<And>vs n c. page params values = Some (vs, n, c) \<Longrightarrow> safe R G (f vs n c) s h Q)
   \<Longrightarrow> safe R G (case page params values of None \<Rightarrow> Throw e | Some (vs, n, c) \<Rightarrow> f vs n c) s h Q"
  by (auto split: option.split intro: safe_Throw)

lemma safe_metadata:
  assumes limit: "1 \<le> page_limit (getp params ''limit'')" "page_limit (getp params ''limit'') \<le> MAX_PAGE_ITEMS"
  shows "safe R (\<lambda>_ _. True) (cache_metadata E params) s h (\<lambda>_ _ v. answer_accepted ''cacheMetadata'' False v)"
    and "safe R (\<lambda>_ _. True) (indexedDB_metadata E params) s h (\<lambda>_ _ v. answer_accepted ''indexedDBMetadata'' False v)"
proof -
  have fails: "answer_accepted operation False (fail c m False)" if "c \<in> {CAPABILITY_UNAVAILABLE, PAYLOAD_TOO_LARGE}" "length m \<le> 500" for c m operation
    using that by (auto simp: fail_accepted unwrap_codes_def)
  show "safe R (\<lambda>_ _. True) (cache_metadata E params) s h (\<lambda>_ _ v. answer_accepted ''cacheMetadata'' False v)"
    unfolding cache_metadata_def
  proof (intro safe_intros, goal_cases)
    case (4 t names vs n c)
    note page = page_Some [OF 4(4) limit(1)]
    have "list_all (\<lambda>name. is_string name \<and> utf8_length (str_of name) \<le> MAX_NAME) vs"
      by (rule list_all_page [OF conjunct1 [OF page(2)]]) (use 4 in \<open>simp add: valid_names_def\<close>)
    then obtain xs where "map_res normalizeCache (map (\<lambda>name. obj [(''name'', name)]) vs) = Inr xs" "length xs = length vs"
      using caches_accepted by blast
    then show ?case using page limit(2)
      by (intro base_accepted [of _ _ _ "[(''caches'', Arr xs)]"])
        (simp_all add: base_def normalize_operation_def throw_if_def no_warnings page_cursor [OF _ page(3)] count_accepted)
  qed (simp_all add: fails)
  show "safe R (\<lambda>_ _. True) (indexedDB_metadata E params) s h (\<lambda>_ _ v. answer_accepted ''indexedDBMetadata'' False v)"
    unfolding indexedDB_metadata_def
  proof (intro safe_intros, goal_cases)
    case (4 t databases vs n c)
    note page = page_Some [OF 4(4) limit(1)]
    have "list_all (\<lambda>d. named_database d \<and> valid_version (getp d ''version'')) vs"
      by (rule list_all_page [OF conjunct1 [OF page(2)]]) (use 4 in simp)
    then obtain xs where "map_res normalizeDatabase (map (\<lambda>d. obj [(''name'', getp d ''name''), (''version'', getp d ''version'')]) vs) = Inr xs"
        "length xs = length vs"
      using databases_accepted by blast
    then show ?case using page limit(2)
      by (intro base_accepted [of _ _ _ "[(''databases'', Arr xs)]"])
        (simp_all add: base_def normalize_operation_def throw_if_def no_warnings page_cursor [OF _ page(3)] count_accepted)
  qed (simp_all add: fails)
qed

section \<open>Clearing\<close>

definition harmless :: "log \<Rightarrow> bool" where
  "harmless l \<longleftrightarrow> list_all (\<lambda>(c, _). callee c \<notin> {''caches.delete'', ''indexedDB.deleteDatabase''}) l"

lemma harmless_simps [simp]: "harmless []" "harmless (l @ l') \<longleftrightarrow> harmless l \<and> harmless l'"
  "harmless ((c, a) # l) \<longleftrightarrow> callee c \<notin> {''caches.delete'', ''indexedDB.deleteDatabase''} \<and> harmless l"
  by (auto simp: harmless_def)

fun inventory_size :: "inventory \<Rightarrow> nat" where
  "inventory_size (Area n) = n"
| "inventory_size (Names names) = length names"

definition inventories_ok :: "(jsval \<times> inventory) list \<Rightarrow> bool" where
  "inventories_ok stock \<longleftrightarrow> (\<forall>t i. map_of stock t = Some i \<longrightarrow>
     inventory_size i \<le> MAX_SCAN \<and> ((\<exists>n. i = Area n) \<longrightarrow> js_includes storage_areas t))"

lemma inventories_set: "inventories_ok stock \<Longrightarrow> inventory_size i \<le> MAX_SCAN \<Longrightarrow> js_includes storage_areas t \<longleftrightarrow> (\<exists>n. i = Area n)
    \<Longrightarrow> inventories_ok (assoc_set t i stock)"
  by (auto simp: inventories_ok_def map_of_assoc_set)

text \<open>The areas among the types are in the inventory; nothing has been changed.\<close>

lemma safe_preflight:
  assumes "inventories_ok stock"
    and failed: "\<And>t l c m. harmless l \<Longrightarrow> (R = (=) \<longrightarrow> t = s) \<Longrightarrow> c \<in> {PAYLOAD_TOO_LARGE, CAPABILITY_UNAVAILABLE} \<Longrightarrow> length m \<le> 500
       \<Longrightarrow> Q t (h @ l) (Inl (fail c m False))"
    and passed: "\<And>t l stock'. harmless l \<Longrightarrow> (R = (=) \<longrightarrow> t = s) \<Longrightarrow> inventories_ok stock'
       \<Longrightarrow> (\<forall>t. js_includes storage_areas t \<longrightarrow> t \<in> set types \<or> (\<exists>n. map_of stock t = Some (Area n)) \<longrightarrow> (\<exists>n. map_of stock' t = Some (Area n)))
       \<Longrightarrow> Q t (h @ l) (Inr stock')"
  shows "safe R (\<lambda>_ _. True) (preflight E types stock) s h Q"
  using assms
proof (induction types arbitrary: stock s h)
  case Nil
  then show ?case using Nil.prems(3) [of "[]" s stock] by (auto intro!: safe_intros)
next
  case (Cons ty types)
  note failed = Cons.prems(2) and passed = Cons.prems(3)
  have IH: "safe R (\<lambda>_ _. True) (preflight E types (assoc_set ty i stock)) t (h @ l) Q"
    if "inventory_size i \<le> MAX_SCAN" "harmless l" "R = (=) \<longrightarrow> t = s" "js_includes storage_areas ty \<longleftrightarrow> (\<exists>n. i = Area n)" for i l t
  proof (rule Cons.IH)
    show "inventories_ok (assoc_set ty i stock)" by (rule inventories_set [OF Cons.prems(1) that(1,4)])
    show "Q t' ((h @ l) @ l') (Inl (fail c m False))"
      if "harmless l'" "R = (=) \<longrightarrow> t' = t" "c \<in> {PAYLOAD_TOO_LARGE, CAPABILITY_UNAVAILABLE}" "length m \<le> 500" for t' l' c m
      using failed [of "l @ l'" t' c m] that \<open>harmless l\<close> \<open>R = (=) \<longrightarrow> t = s\<close> by auto
    show "Q t' ((h @ l) @ l') (Inr stock')"
      if "harmless l'" "R = (=) \<longrightarrow> t' = t" "inventories_ok stock'"
        "\<forall>t. js_includes storage_areas t \<longrightarrow> t \<in> set types \<or> (\<exists>n. map_of (assoc_set ty i stock) t = Some (Area n)) \<longrightarrow> (\<exists>n. map_of stock' t = Some (Area n))"
      for t' l' stock'
    proof -
      have "\<forall>t. js_includes storage_areas t \<longrightarrow> t \<in> set (ty # types) \<or> (\<exists>n. map_of stock t = Some (Area n)) \<longrightarrow> (\<exists>n. map_of stock' t = Some (Area n))"
      proof (intro allI impI)
        fix u
        assume u: "js_includes storage_areas u" "u \<in> set (ty # types) \<or> (\<exists>n. map_of stock u = Some (Area n))"
        then have "u \<in> set types \<or> (\<exists>n. map_of (assoc_set ty i stock) u = Some (Area n))"
          using \<open>js_includes storage_areas ty \<longleftrightarrow> (\<exists>n. i = Area n)\<close> by (auto simp: map_of_assoc_set)
        then show "\<exists>n. map_of stock' u = Some (Area n)" using that(4) u(1) by blast
      qed
      with passed [of "l @ l'" t' stock'] that(1,2,3) \<open>harmless l\<close> \<open>R = (=) \<longrightarrow> t = s\<close> show ?thesis by simp
    qed
  qed
  have skip: "safe R (\<lambda>_ _. True) (preflight E types stock) s h Q" if "\<not> js_includes storage_areas ty"
  proof (rule Cons.IH [OF Cons.prems(1)])
    show "Q t (h @ l) (Inl (fail c m False))"
      if "harmless l" "R = (=) \<longrightarrow> t = s" "c \<in> {PAYLOAD_TOO_LARGE, CAPABILITY_UNAVAILABLE}" "length m \<le> 500" for t l c m
      using failed that by blast
    show "Q t (h @ l) (Inr stock')"
      if "harmless l" "R = (=) \<longrightarrow> t = s" "inventories_ok stock'"
        "\<forall>t. js_includes storage_areas t \<longrightarrow> t \<in> set types \<or> (\<exists>n. map_of stock t = Some (Area n)) \<longrightarrow> (\<exists>n. map_of stock' t = Some (Area n))"
      for t l stock'
      by (rule passed [OF that(1-3)]) (use that(4) \<open>\<not> js_includes storage_areas ty\<close> in auto)
  qed
  consider (area) "js_includes storage_areas ty" | (caches) "\<not> js_includes storage_areas ty" "ty = jstr ''cacheStorage''"
    | (databases) "\<not> js_includes storage_areas ty" "ty \<noteq> jstr ''cacheStorage''" "ty = jstr ''indexedDB''"
    | (other) "\<not> js_includes storage_areas ty" "ty \<noteq> jstr ''cacheStorage''" "ty \<noteq> jstr ''indexedDB''" by blast
  then show ?case
  proof cases
    case area
    have "safe R (\<lambda>_ _. True) (preflight E types (assoc_set ty (Area n) stock)) s h Q" if "\<not> MAX_SCAN < n" for n
      using IH [of "Area n" "[]" s] that area by simp
    moreover have "Q s h (Inl (fail PAYLOAD_TOO_LARGE m False))" if "length m \<le> 500" for m
      using failed [of "[]" s] that by simp
    ultimately show ?thesis unfolding preflight.simps if_P [OF area] by (auto intro!: safe_intros)
  next
    case caches
    have fails: "Q s h (Inl (fail CAPABILITY_UNAVAILABLE m False))" if "length m \<le> 500" for m
      using failed [of "[]" s] that by simp
    have large: "Q t (h @ [(Call ''caches.keys'' [], Inr v)]) (Inl (fail PAYLOAD_TOO_LARGE m False))" if "R s t" "length m \<le> 500" for t v m
      using failed [of "[(Call ''caches.keys'' [], Inr v)]" t] that by auto
    have goes: "safe R (\<lambda>_ _. True) (preflight E types (assoc_set ty (Names (elems v)) stock)) t (h @ [(Call ''caches.keys'' [], Inr v)]) Q"
      if "R s t" "valid_names v" for t v
      using IH [of "Names (elems v)" "[(Call ''caches.keys'' [], Inr v)]" t] that caches(1) by (auto simp: valid_names_def)
    show ?thesis unfolding preflight.simps if_not_P [OF caches(1)] if_P [OF caches(2)]
      by (intro safe_intros) (auto intro: fails large goes)
  next
    case databases
    let ?l = "\<lambda>v. [(Call ''indexedDB.databases'' [], Inr v)]"
    have fails: "Q s h (Inl (fail CAPABILITY_UNAVAILABLE m False))" if "length m \<le> 500" for m
      using failed [of "[]" s] that by simp
    have large: "Q t (h @ ?l v) (Inl (fail PAYLOAD_TOO_LARGE m False))" if "R s t" "length m \<le> 500" for t v m
      using failed [of "?l v" t] that by auto
    have goes: "safe R (\<lambda>_ _. True) (preflight E types (assoc_set ty (Names (map f (elems v))) stock)) t (h @ ?l v) Q"
      if "R s t" "length (elems v) \<le> MAX_SCAN" for t v f
      using IH [of "Names (map f (elems v))" "?l v" t] that databases(1) by auto
    show ?thesis unfolding preflight.simps if_not_P [OF databases(1)] if_not_P [OF databases(2)] if_P [OF databases(3)]
      by (intro safe_intros) (auto intro: fails large goes)
  next
    case other
    then show ?thesis using skip by simp
  qed
qed


lemma safe_Return_iff: "safe R G (Return x) s h Q \<longleftrightarrow> Q s h x"
  by (simp add: safe_def)

lemma each_append: "each_io f (xs @ ys) = bind_io (each_io f xs) (\<lambda>us. bind_io (each_io f ys) (\<lambda>vs. Return (us @ vs)))"
  by (induction xs) (simp_all add: bind_io_assoc bind_io_Return)

text \<open>The rule for a loop: the invariant speaks of the results so far.\<close>

lemma safe_each:
  assumes "J s h []"
    and "\<And>s h ys. length ys < length xs \<Longrightarrow> J s h ys \<Longrightarrow> safe R G (f (xs ! length ys)) s h (\<lambda>s h y. J s h (ys @ [y]))"
    and "\<And>s h ys. length ys = length xs \<Longrightarrow> J s h ys \<Longrightarrow> Q s h ys"
  shows "safe R G (each_io f xs) s h Q"
proof -
  have "safe R G (each_io f xs) s h (\<lambda>s h ys. length ys = length xs \<and> J s h ys)"
    using assms(2)
  proof (induction xs rule: rev_induct)
    case Nil
    then show ?case using assms(1) by (simp add: safe_Return)
  next
    case (snoc x xs)
    have step: "safe R G (f x) t h' (\<lambda>s h y. J s h (ys @ [y]))" if "length ys = length xs" "J t h' ys" for t h' ys
      using snoc.prems [of ys t h'] that by (simp add: nth_append)
    have "safe R G (each_io f xs) s h (\<lambda>s h ys. length ys = length xs \<and> J s h ys)"
    proof (rule snoc.IH)
      show "safe R G (f (xs ! length ys)) s h (\<lambda>s h y. J s h (ys @ [y]))" if "length ys < length xs" "J s h ys" for s h ys
        using snoc.prems [of ys s h] that by (simp add: nth_append)
    qed
    then show ?case unfolding each_append
      by (intro safe_bindI, elim safe_mono) (auto simp: safe_bind safe_Return_iff intro!: safe_mono [OF step])
  qed
  then show ?thesis by (rule safe_mono) (use assms(3) in auto)
qed

definition area_of :: "jsval \<Rightarrow> string" where
  "area_of t = (if t = jstr ''localStorage'' then ''localStorage'' else ''sessionStorage'')"

definition clear_warnings :: "jsval list" where
  "clear_warnings = [jstr ''One or more caches could not be deleted'', jstr ''One or more IndexedDB databases were blocked or not deleted'']"

text \<open>The areas that the first types name are empty, the others as before.\<close>

definition cleared_so_far :: "page_store \<Rightarrow> jsval list \<Rightarrow> page_store \<Rightarrow> bool" where
  "cleared_so_far s0 types s \<longleftrightarrow> ps_origin s = ps_origin s0 \<and> (\<forall>area \<in> set storage_areas.
     entries_of area s = (if jstr area \<in> set types then [] else entries_of area s0))"

lemma cleared_start: "cleared_so_far s [] s"
  by (simp add: cleared_so_far_def)

lemma cleared_area: "cleared_so_far s0 types s \<Longrightarrow> js_includes storage_areas t \<Longrightarrow> cleared_so_far s0 (types @ [t]) (set_entries (area_of t) [] s)"
  by (auto simp: cleared_so_far_def storage_areas_def js_includes_def area_of_def set_entries_def entries_of_def)

lemma cleared_other: "cleared_so_far s0 types s \<Longrightarrow> \<not> js_includes storage_areas t \<Longrightarrow> cleared_so_far s0 (types @ [t]) s"
  by (auto simp: cleared_so_far_def storage_areas_def js_includes_def)

lemma safe_attempt:
  "(\<And>t v b. R s t \<Longrightarrow> Q t (h @ [(Call c args, v)]) (Bool b))
    \<Longrightarrow> safe R (\<lambda>_ _. True) (catch_io (bind_io (await c args) (\<lambda>_. Return (Bool True))) (\<lambda>_. Return (Bool False))) s h Q"
  by (auto simp: safe_def wp_catch wp_bind split: sum.split)

lemma safe_delete:
  assumes "\<And>t l ys. R = (=) \<longrightarrow> t = s \<Longrightarrow> length ys = length names \<Longrightarrow> Q t (h @ l) ys"
  shows "safe R (\<lambda>_ _. True) (delete_caches names) s h Q" and "safe R (\<lambda>_ _. True) (deleteDatabases names) s h Q"
proof -
  let ?J = "\<lambda>t h' ys. (R = (=) \<longrightarrow> t = s) \<and> prefix h h'"
  have start: "safe R (\<lambda>_ _. True) (each_io (\<lambda>name. ask c [name]) names) s h ?J" for c
    by (rule safe_each [where J = ?J]) (auto intro!: safe_intros)
  have each: "safe R (\<lambda>_ _. True) (each_io f names) t h' Q"
    if "?J t h' us" "\<And>x t h'. ?J t h' us \<Longrightarrow> safe R (\<lambda>_ _. True) (f x) t h' ?J" for f t h' us
    by (rule safe_each [where J = "\<lambda>t h' ys. ?J t h' ys"]) (use that assms in \<open>auto simp: prefix_def\<close>)
  show "safe R (\<lambda>_ _. True) (delete_caches names) s h Q" unfolding delete_caches_def
    by (rule safe_bindI, rule safe_mono [OF start], rule each, assumption) (auto intro!: safe_intros)
  show "safe R (\<lambda>_ _. True) (deleteDatabases names) s h Q" unfolding deleteDatabases_def
    by (rule safe_bindI, rule safe_mono [OF start], rule each, assumption) (auto intro!: safe_attempt)
qed

lemma safe_clear_type:
  assumes "inventories_ok stock" and "js_includes storage_areas t \<Longrightarrow> \<exists>n. map_of stock t = Some (Area n)"
    and J: "R = (=) \<longrightarrow> cleared_so_far s0 types s"
  shows "safe R (\<lambda>_ _. True) (clear_type stock t) s h
    (\<lambda>s _ y. (R = (=) \<longrightarrow> cleared_so_far s0 (types @ [t]) s) \<and> fst y \<le> MAX_SCAN \<and> set (snd y) \<subseteq> set clear_warnings)"
proof -
  consider (none) "map_of stock t = None" | (area) n where "map_of stock t = Some (Area n)"
    | (names) names where "map_of stock t = Some (Names names)" by (metis inventory.exhaust not_None_eq)
  then show ?thesis
  proof cases
    case none
    then show ?thesis using assms(2) J by (auto simp: clear_type_def intro!: safe_intros cleared_other)
  next
    case area
    have "inventory_size (Area n) \<le> MAX_SCAN" "js_includes storage_areas t" using assms(1) area unfolding inventories_ok_def by blast+
    then show ?thesis using J area by (auto simp: clear_type_def area_of_def [symmetric] intro!: safe_intros cleared_area)
  next
    case names
    have "inventory_size (Names names) \<le> MAX_SCAN" using assms(1) names unfolding inventories_ok_def by blast
    then have size: "length names \<le> MAX_SCAN" by simp
    have other: "\<not> js_includes storage_areas t" using assms(2) names by auto
    show ?thesis unfolding clear_type_def names option.case inventory.case Let_def
      by (intro safe_intros safe_delete)
        (use J other size in \<open>auto simp: clear_warnings_def intro!: cleared_other intro: order_trans [OF length_filter_le]\<close>)
  qed
qed


definition clear_types :: "jsval list \<Rightarrow> bool" where
  "clear_types types \<longleftrightarrow> 1 \<le> length types \<and> length types \<le> 4 \<and> distinct types \<and> list_all (js_includes CLEAR_TYPES) types"

lemma fold_assoc_set: "distinct (map fst ps @ map k xs)
   \<Longrightarrow> fold (\<lambda>x. assoc_set (k x) (f x)) xs ps = ps @ map (\<lambda>x. (k x, f x)) xs"
proof (induction xs arbitrary: ps)
  case (Cons x xs)
  have "assoc_set (k x) (f x) ps = ps @ [(k x, f x)]" if "k x \<notin> fst ` set ps"
    using that by (induction ps) auto
  with Cons show ?case by auto
qed simp

lemma type_strings: "list_all (js_includes CLEAR_TYPES) types \<Longrightarrow> distinct types \<Longrightarrow> distinct (map str_of types)"
proof -
  assume types: "list_all (js_includes CLEAR_TYPES) types" "distinct types"
  have "Str (str_of t) = t" if "t \<in> set types" for t
    using types(1) that by (auto simp: list_all_iff js_includes_def)
  then have "inj_on str_of (set types)" by (rule inj_on_inverseI)
  with types(2) show ?thesis by (simp add: distinct_map)
qed

lemma clear_accepted:
  assumes types: "clear_types types" and ys: "length ys = length types" "\<forall>y \<in> set ys. fst y \<le> MAX_SCAN \<and> set (snd y) \<subseteq> set clear_warnings"
  shows "answer_accepted ''clear'' False (ok_data (base ''clear'' [(''operation'', jstr ''clear''), (''requestedTypes'', Arr types),
    (''clearedTypes'', Arr types), (''clearedCounts'', Obj (fold (\<lambda>(t, n). assoc_set (str_of t) (jnum (of_nat n))) (zip types (map fst ys)) [])),
    (''warnings'', Arr (take 4 (without_repeats (concat (map snd ys)))))]))"
proof -
  let ?z = "zip types (map fst ys)"
  let ?counts = "map (\<lambda>(t, n). (str_of t, jnum (of_nat n))) ?z"
  have fst: "map fst ?z = types" using ys by simp
  have keys: "map (str_of \<circ> fst) ?z = map str_of types" unfolding map_map [symmetric] fst ..
  have distinct: "distinct (map str_of types)" using types by (auto simp: clear_types_def intro: type_strings)
  have counts: "fold (\<lambda>(t, n). assoc_set (str_of t) (jnum (of_nat n))) ?z [] = ?counts"
    using fold_assoc_set [of "[]" "str_of \<circ> fst" ?z "\<lambda>x. jnum (of_nat (snd x))"] distinct keys by (simp add: case_prod_unfold comp_def)
  have "valid_count (property_of (Obj ?counts) t)" if "t \<in> set types" for t
  proof -
    have "map fst ?counts = map str_of types" using keys by (simp add: case_prod_unfold comp_def)
    then have "str_of t \<in> set (map fst ?counts)" using that by simp
    then have "str_of t \<in> fst ` set ?counts" by (simp only: set_map)
    then have "map_of ?counts (str_of t) \<noteq> None" unfolding map_of_eq_None_iff by blast
    then obtain w where w: "map_of ?counts (str_of t) = Some w" unfolding not_None_eq by blast
    obtain n where "w = jnum (of_nat n)" "n \<in> set (map fst ys)" using map_of_SomeD [OF w] by (auto dest: set_zip_rightD)
    then show ?thesis using w ys(2) by (auto simp: property_of_def valid_count_def MAX_SCAN_def MAX_SCAN_ITEMS_def)
  qed
  then have valid: "list_all valid_count (map (property_of (Obj ?counts)) types)" by (simp add: list_all_iff)
  have warnings: "list_all (\<lambda>w. is_string w \<and> trim (str_of w) \<noteq> [] \<and> length (str_of w) \<le> 256) clear_warnings" by code_simp
  have "set (take 4 (without_repeats (concat (map snd ys)))) \<subseteq> set clear_warnings"
  proof
    fix w
    assume "w \<in> set (take 4 (without_repeats (concat (map snd ys))))"
    then obtain y where "y \<in> set ys" "w \<in> set (snd y)" by (auto simp: without_repeats_def dest!: in_set_takeD)
    then show "w \<in> set clear_warnings" using ys(2) by blast
  qed
  with warnings have warned: "returns (normalizeWarnings (Arr (take 4 (without_repeats (concat (map snd ys))))))"
    by (fastforce simp: normalizeWarnings_def returns_def list_ex_iff list_all_iff dest: subsetD)
  have valid_types: "validStorageTypes (Arr types) (map jstr CLEAR_TYPES)" "validStorageTypes (Arr types) types"
    using types by (auto simp: validStorageTypes_def clear_types_def list_all_iff js_includes_def CLEAR_TYPES_def distinct_remdups_id)
  show ?thesis unfolding counts
    by (rule base_accepted [of _ _ _ "[(''requestedTypes'', Arr types), (''clearedTypes'', Arr types),
        (''clearedCounts'', Obj (zip (map str_of types) (map (property_of (Obj ?counts)) types)))]"])
      (use ys(1) valid valid_types warned in \<open>simp_all add: base_def normalize_operation_def throw_if_def normalizeCursor_def
        count_accepted [of 0, simplified] isObject_def object_keys_def Let_def\<close>)
qed


text \<open>A clear empties the areas that are named and no other, or fails before it has changed anything.\<close>

definition clear_outcome :: "page_store \<Rightarrow> jsval list \<Rightarrow> page_store \<Rightarrow> log \<Rightarrow> jsval \<Rightarrow> bool" where
  "clear_outcome s types t l v \<longleftrightarrow>
     (\<exists>data. v = ok_data data \<and> getp data ''clearedTypes'' = Arr types \<and> cleared_so_far s types t)
     \<or> (\<exists>c m. v = fail c m (c = STALE_TARGET) \<and> c \<in> {STALE_TARGET, PAYLOAD_TOO_LARGE, CAPABILITY_UNAVAILABLE} \<and> t = s \<and> harmless l)"

lemma safe_clear_storage:
  "safe R (\<lambda>_ _. True) (clear_storage E params) s [] (\<lambda>t l v.
     (clear_types (elems (getp params ''types'')) \<longrightarrow> answer_accepted ''clear'' False v)
     \<and> (R = (=) \<longrightarrow> clear_outcome s (elems (getp params ''types'')) t l v))"
proof -
  let ?types = "elems (getp params ''types'')"
  let ?Q = "\<lambda>t l v. (clear_types ?types \<longrightarrow> answer_accepted ''clear'' False v) \<and> (R = (=) \<longrightarrow> clear_outcome s ?types t l v)"
  let ?J = "\<lambda>t l ys. (R = (=) \<longrightarrow> cleared_so_far s (take (length ys) ?types) t)
    \<and> (\<forall>y \<in> set ys. fst y \<le> MAX_SCAN \<and> set (snd y) \<subseteq> set clear_warnings)"
  let ?answer = "\<lambda>cleared. ok_data (base ''clear'' [(''operation'', jstr ''clear''), (''requestedTypes'', Arr ?types), (''clearedTypes'', Arr ?types),
    (''clearedCounts'', Obj (fold (\<lambda>(t, n). assoc_set (str_of t) (jnum (of_nat n))) (zip ?types (map fst cleared)) [])),
    (''warnings'', Arr (take 4 (without_repeats (concat (map snd cleared)))))])"
  have failed: "?Q t l (fail c m False)" if "harmless l" "R = (=) \<longrightarrow> t = s" "c \<in> {PAYLOAD_TOO_LARGE, CAPABILITY_UNAVAILABLE}" "length m \<le> 500" for t l c m
  proof (intro conjI impI)
    show "answer_accepted ''clear'' False (fail c m False)" by (rule fail_accepted) (use that in \<open>auto simp: unwrap_codes_def\<close>)
    show "clear_outcome s ?types t l (fail c m False)" if "R = (=)"
      unfolding clear_outcome_def using that \<open>harmless l\<close> \<open>R = (=) \<longrightarrow> t = s\<close> \<open>c \<in> _\<close>
      by (intro disjI2 exI [of _ c] exI [of _ m]) auto
  qed
  have passed: "safe R (\<lambda>_ _. True) (bind_io (each_io (clear_type stock) ?types) (\<lambda>cleared. Return (?answer cleared))) t l ?Q"
    if "R = (=) \<longrightarrow> t = s" "inventories_ok stock"
      "\<forall>u. js_includes storage_areas u \<longrightarrow> u \<in> set ?types \<or> (\<exists>n. map_of [] u = Some (Area n)) \<longrightarrow> (\<exists>n. map_of stock u = Some (Area n))" for t l stock
  proof (rule safe_bindI, rule safe_each [where J = ?J])
    show "?J t l []" using that(1) by (auto simp: cleared_start)
    show "safe R (\<lambda>_ _. True) (clear_type stock (?types ! length ys)) s' h' (\<lambda>s h y. ?J s h (ys @ [y]))"
      if "length ys < length ?types" "?J s' h' ys" for s' h' ys
    proof (rule safe_mono [OF safe_clear_type [OF \<open>inventories_ok stock\<close>, of "?types ! length ys" R s "take (length ys) ?types"]])
      show "\<exists>n. map_of stock (?types ! length ys) = Some (Area n)" if "js_includes storage_areas (?types ! length ys)"
        using that \<open>\<forall>u. js_includes storage_areas u \<longrightarrow> _ u\<close> \<open>length ys < length ?types\<close> nth_mem by blast
    qed (use that in \<open>auto simp: take_Suc_conv_app_nth\<close>)
    show "safe R (\<lambda>_ _. True) (Return (?answer ys)) s' h' ?Q" if "length ys = length ?types" "?J s' h' ys" for s' h' ys
      unfolding safe_Return_iff
    proof (intro conjI impI)
      show "answer_accepted ''clear'' False (?answer ys)" if "clear_types ?types" by (rule clear_accepted [OF that]) (use \<open>length ys = _\<close> \<open>?J s' h' ys\<close> in auto)
      show "clear_outcome s ?types s' h' (?answer ys)" if "R = (=)" unfolding clear_outcome_def
        by (rule disjI1, rule exI, rule conjI, rule refl) (use \<open>length ys = _\<close> \<open>?J s' h' ys\<close> that in \<open>simp add: base_def\<close>)
    qed
  qed
  show ?thesis unfolding clear_storage_def Let_def
    by (rule safe_bindI, rule safe_preflight)
      (use failed passed in \<open>auto simp: inventories_ok_def safe_Return_iff\<close>)
qed


section \<open>The function as a whole\<close>

lemma isolated_exec:
  assumes "safe R (\<lambda>_ _. True) (storage_body E operation params) s [] Q" and "exec R (isolatedStorageOperation E operation params) s l r t"
  shows "\<exists>v. r = Inr v \<and> (if Str (ps_origin s) \<noteq> getp params ''origin''
    then v = fail STALE_TARGET ''The root document origin changed'' True \<and> t = s \<and> l = []
    else Q t l v \<or> v = fail INTERNAL_ERROR ''The isolated storage operation failed'' False)"
proof -
  let ?Q = "\<lambda>t l r. \<exists>v. r = Inr v \<and> (if Str (ps_origin s) \<noteq> getp params ''origin''
    then v = fail STALE_TARGET ''The root document origin changed'' True \<and> t = s \<and> l = []
    else Q t l v \<or> v = fail INTERNAL_ERROR ''The isolated storage operation failed'' False)"
  have "wp R (\<lambda>_ _. True) (isolatedStorageOperation E operation params) s [] ?Q"
  proof (cases "Str (ps_origin s) = getp params ''origin''")
    case True
    show ?thesis unfolding isolatedStorageOperation_def
      using assms(1) [unfolded safe_def] by (simp add: True wp_catch) (erule wp_mono, auto split: sum.splits)
  qed (simp add: isolatedStorageOperation_def)
  from wp_sound [OF assms(2) this] show ?thesis by auto
qed

text \<open>What the handlers inject: checked parameters, with \<open>includeValues\<close> for a reading operation.\<close>

definition storage_request :: "platform \<Rightarrow> string \<Rightarrow> bool \<Rightarrow> jsval \<Rightarrow> jsval \<Rightarrow> bool" where
  "storage_request P operation sensitive params args \<longleftrightarrow>
     (if operation = ''list'' then validateListParams P params = ok \<and> args = with_values params sensitive
      else if operation = ''get'' then validateItemParams P params = ok \<and> args = with_values params sensitive
      else \<not> sensitive \<and> args = params \<and>
        (if operation = ''set'' then validateSetParams P params = ok
         else if operation = ''remove'' then validateItemParams P params = ok
         else if operation \<in> {''cacheMetadata'', ''indexedDBMetadata''} then validateMetadataParams P params = ok
         else operation = ''clear'' \<and> validateClearParams P params = ok))"


lemma valid_limit: "validateLimit v = ok \<Longrightarrow> 1 \<le> page_limit v \<and> page_limit v \<le> MAX_PAGE_ITEMS"
proof -
  assume v: "validateLimit v = ok"
  then obtain i where "v = jnum (of_int i)" by (auto simp: validateLimit_def throw_if_def is_integer_iff split: if_splits)
  moreover from this v have "1 \<le> i" "i \<le> int MAX_PAGE_ITEMS" by (auto simp: validateLimit_def throw_if_def MAX_PAGE_ITEMS_def split: if_splits)
  ultimately show ?thesis by (simp add: page_limit_def le_nat_iff nat_le_iff)
qed

lemma storage_checks:
  "validateListParams P params = ok \<Longrightarrow> isObject params \<and> js_includes STORAGE_TYPES (getp params ''storageType'') \<and> validateLimit (getp params ''limit'') = ok"
  "validateItemParams P params = ok \<Longrightarrow> isObject params \<and> js_includes STORAGE_TYPES (getp params ''storageType'')"
  "validateSetParams P params = ok \<Longrightarrow> js_includes STORAGE_TYPES (getp params ''storageType'')"
  "validateMetadataParams P params = ok \<Longrightarrow> validateLimit (getp params ''limit'') = ok"
  "validateClearParams P params = ok \<Longrightarrow> clear_types (elems (getp params ''types''))"
  unfolding validateListParams_def validateItemParams_def validateSetParams_def validateMetadataParams_def validateClearParams_def checks_ok_Cons
  by (auto simp: assertObject_def validateStorageType_def clear_types_def CLEAR_TYPES_def Let_def throw_if_def Suc_le_eq split: if_splits)

lemma safe_storage_body:
  assumes "storage_request P operation sensitive params args"
  shows "safe R (\<lambda>_ _. True) (storage_body E operation args) s [] (\<lambda>_ _ v. answer_accepted operation sensitive v)"
proof -
  have clear: "safe R (\<lambda>_ _. True) (clear_storage E params) s [] (\<lambda>_ _ v. answer_accepted ''clear'' False v)"
    if "validateClearParams P params = ok"
    by (rule safe_mono [OF safe_clear_storage]) (use storage_checks(5) [OF that] in simp)
  have reads: "getp (with_values params b) k = getp params k" if "k \<noteq> ''includeValues''" "isObject params" for k b
    using that by (simp add: with_values_members)
  have "operation \<notin> {''list'', ''get'', ''set'', ''remove'', ''cacheMetadata'', ''indexedDBMetadata''} \<Longrightarrow> operation = ''clear''"
    using assms by (simp add: storage_request_def)
  then consider "operation = ''list''" | "operation = ''get''" | "operation \<in> {''set'', ''remove''}" | "operation = ''cacheMetadata''"
    | "operation = ''indexedDBMetadata''" | "operation = ''clear''"
    unfolding insert_iff empty_iff by argo
  then show ?thesis
  proof cases
    case 1
    with assms have "validateListParams P params = ok" "args = with_values params sensitive" by (simp_all add: storage_request_def)
    with 1 show ?thesis unfolding storage_body_def list_items_def
      using storage_checks(1) [of P params] valid_limit [of "getp params ''limit''"]
      by (auto intro!: safe_intros list_accepted simp: with_values_members)
  next
    case 2
    with assms have "validateItemParams P params = ok" "args = with_values params sensitive" by (simp_all add: storage_request_def)
    with 2 show ?thesis unfolding storage_body_def get_item_def
      using storage_checks(2) [of P params] by (auto intro!: safe_intros get_accepted simp: with_values_members)
  next
    case 3
    with assms show ?thesis unfolding storage_request_def storage_body_def
      by (auto intro!: safe_mutate dest: storage_checks)
  next
    case 4
    with assms show ?thesis unfolding storage_request_def storage_body_def
      by (auto intro!: safe_metadata dest: storage_checks valid_limit)
  next
    case 5
    with assms show ?thesis unfolding storage_request_def storage_body_def
      by (auto intro!: safe_metadata dest: storage_checks valid_limit)
  next
    case 6
    with assms show ?thesis unfolding storage_request_def storage_body_def by (auto intro!: clear)
  qed
qed

text \<open>C30: The injected function and the handler agree: on the parameters that the handler injects, every run of the function ends
  with an answer, whatever the page's storage, its quota and its asynchronous APIs do; a failure it reports is passed on with its
  code, and the data of a success pass all of the handler's checks.\<close>

theorem storage_answers_accepted:
  assumes "storage_request P operation sensitive params args" and "exec R (isolatedStorageOperation E operation args) s l r t"
  shows "\<exists>v. r = Inr v \<and> answer_accepted operation sensitive v"
proof -
  have fails: "answer_accepted operation sensitive (fail c m b)" if "c \<in> {STALE_TARGET, INTERNAL_ERROR}" "length m \<le> 500" for c m b
    by (rule fail_accepted) (use that in \<open>auto simp: unwrap_codes_def\<close>)
  from isolated_exec [OF safe_storage_body [OF assms(1)] assms(2)] fails show ?thesis by (auto split: if_splits)
qed

text \<open>C28: A clear empties exactly the storage areas that are named, or reports a failure before it has changed anything; only the
  internal error, for a call of the page that throws, may come after a change. While it runs nothing else writes to the page's
  storage.\<close>

theorem storage_clear_all_or_nothing:
  assumes "exec (=) (isolatedStorageOperation E ''clear'' params) s l r t"
  shows "\<exists>v. r = Inr v \<and> (clear_outcome s (elems (getp params ''types'')) t l v
    \<or> v = fail INTERNAL_ERROR ''The isolated storage operation failed'' False)"
proof -
  have "safe (=) (\<lambda>_ _. True) (storage_body E ''clear'' params) s [] (\<lambda>t l v. clear_outcome s (elems (getp params ''types'')) t l v)"
    using safe_mono [OF safe_clear_storage [of "(=)" E params s]] by (simp add: storage_body_def)
  moreover have "clear_outcome s types s [] (fail STALE_TARGET m True)" for types m
    unfolding clear_outcome_def by (intro disjI2 exI [of _ STALE_TARGET] exI [of _ m]) simp
  ultimately show ?thesis using isolated_exec [OF _ assms] by (smt (verit, best))
qed

lemma map_insert_by: "(\<And>x y. before (f x) (f y) = before' x y) \<Longrightarrow> map f (insert_by before' x ys) = insert_by before (f x) (map f ys)"
  by (induction ys) auto

lemma map_sort_by: "(\<And>x y. before (f x) (f y) = before' x y) \<Longrightarrow> map f (sort_by before' xs) = sort_by before (map f xs)"
  unfolding sort_by_def by (induction xs) (simp_all add: map_insert_by [where before = before and before' = before'])

lemma page_map: "page params (map f xs) = map_option (\<lambda>(vs, n, c). (map f vs, n, c)) (page params xs)"
  by (simp add: page_def Let_def take_map drop_map)

text \<open>What a masked answer may depend on.\<close>

definition item_sizes :: "(jsstr \<times> jsstr) list \<Rightarrow> (jsstr \<times> nat) list" where
  "item_sizes entries = map (\<lambda>(key, v). (key, utf8_length v)) entries"

text \<open>C31: Values do not leave the page unless they are asked for: without \<open>includeValues\<close> the answers to list and get depend only on
  the keys of the area and the byte lengths of its values.\<close>

theorem masked_answers_blind:
  assumes "\<not> truthy (getp params ''includeValues'')" and "item_sizes entries = item_sizes entries'"
  shows "list_answer E params entries = list_answer E params entries' \<and> get_answer params entries = get_answer params entries'"
proof
  let ?f = "\<lambda>(key :: jsstr, v :: jsstr). (key, utf8_length v)"
  let ?item = "\<lambda>(key :: jsstr, n). if utf8_length key > MAX_KEY \<or> n > MAX_OBSERVED then None
         else Some (obj [(''key'', Str key), (''value'', jstr ''[MASKED]''), (''valueIncluded'', Bool False), (''valueLength'', jnum (of_nat n))])"
  have masked: "item params key v = ?item (key, utf8_length v)" for key v
    using assms(1) by (auto simp: item_def Let_def)
  have items: "map (\<lambda>(key, v). item params key v) vs = map ?item (map ?f vs)" for vs
    by (simp add: masked case_prod_unfold comp_def)
  have sizes: "map ?f (sort_by (\<lambda>l r. pe_before E (fst l) (fst r)) es) = sort_by (\<lambda>l r. pe_before E (fst l) (fst r)) (item_sizes es)" for es
    unfolding item_sizes_def by (rule map_sort_by) auto
  let ?sort = "sort_by (\<lambda>l r :: jsstr \<times> jsstr. pe_before E (fst l) (fst r))"
  have len: "length entries' = length entries" using assms(2) unfolding item_sizes_def by (metis length_map)
  have sorted: "map ?f (?sort entries) = map ?f (?sort entries')" by (simp only: sizes assms(2))
  have pages: "map_option (\<lambda>(vs, n, c). (map ?f vs, n, c)) (page params (?sort entries))
      = map_option (\<lambda>(vs, n, c). (map ?f vs, n, c)) (page params (?sort entries'))"
    using sorted by (simp only: page_map [symmetric])
  show "list_answer E params entries = list_answer E params entries'"
  proof (cases "page params (?sort entries)")
    case None
    with pages have "page params (?sort entries') = None" by simp
    with None show ?thesis by (simp add: list_answer_def storageEntries_def len)
  next
    case (Some p)
    obtain vs n c where p: "p = (vs, n, c)" by (cases p)
    from pages Some p obtain vs' where page': "page params (?sort entries') = Some (vs', n, c)" and vs: "map ?f vs = map ?f vs'"
      by (auto simp: map_option_case split: option.splits)
    have "map (\<lambda>(key, v). item params key v) vs = map (\<lambda>(key, v). item params key v) vs'"
      unfolding items vs ..
    then show ?thesis unfolding list_answer_def storageEntries_def len
      by (simp only: Some p page' option.case prod.case if_False split: if_split) simp
  qed
  have "map_option utf8_length (map_of entries key) = map_option utf8_length (map_of entries' key)" for key
    using arg_cong [OF assms(2), of "\<lambda>es. map_of es key"] by (simp add: item_sizes_def map_of_map)
  from this [of "str_of (getp params ''key'')"] show "get_answer params entries = get_answer params entries'"
    unfolding get_answer_def Let_def
    by (cases "map_of entries (str_of (getp params ''key''))"; cases "map_of entries' (str_of (getp params ''key''))") (simp_all add: masked)
qed

section \<open>Witnesses\<close>

definition store_url :: url where
  "store_url = \<lparr>url_protocol = lit ''https:'', url_hostname = lit ''a.b'', url_username = [], url_password = [], url_hash = [],
     url_search = [], url_pathname = lit ''/'', url_origin = lit ''https://a.b'', url_href = lit ''https://a.b/''\<rparr>"

definition store_platform :: platform where
  "store_platform = demo_platform\<lparr>parseURL := (\<lambda>_. Some store_url)\<rparr>"

definition kind_page :: page_env where
  "kind_page = \<lparr>pe_area = (\<lambda>_. True), pe_fits = (\<lambda>_. True), pe_caches = True, pe_databases = True, pe_before = (\<lambda>_ _. False)\<rparr>"

definition small_store :: page_store where
  "small_store = \<lparr>ps_origin = lit ''https://a.b'', ps_local = [(lit ''k'', lit ''v'')], ps_session = [(lit ''s'', lit ''t'')]\<rparr>"

definition get_params :: jsval where
  "get_params = obj [(''origin'', jstr ''https://a.b''), (''storageType'', jstr ''localStorage''), (''key'', jstr ''k'')]"

definition get_run :: "log \<times> jsval res option \<times> page_store" where
  "get_run = play (isolatedStorageOperation kind_page ''get'' (with_values get_params False)) small_store []"

lemmas operation_defs = isolatedStorageOperation_def storage_body_def get_item_def open_area_def get_answer_def item_def storageArea_def clear_storage_def
   await_def lift_res_def entries_of_def set_entries_def 

lemma letter_sizes: "utf8_length (lit ''c'') = 1" "utf8_length (lit ''k'') = 1" "utf8_length (lit ''v'') = 1"
  by code_simp+

lemma get_args: "with_values get_params False = obj [(''origin'', jstr ''https://a.b''), (''storageType'', jstr ''localStorage''), (''key'', jstr ''k''),
    (''includeValues'', Bool False)]"
  by code_simp

lemma get_run_ends: "case get_run of (l, Some (Inr v), t) \<Rightarrow> getp v ''ok'' = Bool True | _ \<Rightarrow> False"
  unfolding get_run_def get_args
  by (simp add: operation_defs small_store_def kind_page_def ok_data_def Let_def letter_sizes MAX_KEY_def MAX_VALUE_def MAX_OBSERVED_def)

theorem storage_answers_accepted_witness:
  "\<exists>v. fst (snd get_run) = Some (Inr v) \<and> getp v ''ok'' = Bool True \<and> answer_accepted ''get'' False v"
proof -
  have "validateItemParams store_platform get_params = ok" by code_simp
  then have request: "storage_request store_platform ''get'' False get_params (with_values get_params False)"
    by (simp add: storage_request_def)
  obtain l v t where run: "get_run = (l, Some (Inr v), t)" and v: "getp v ''ok'' = Bool True"
    using get_run_ends by (auto split: prod.splits option.splits sum.splits)
  from storage_answers_accepted [OF request play_exec [OF run [unfolded get_run_def], of "\<lambda>_ _. True"]] v
  show ?thesis unfolding run by simp
qed

definition clear_params :: jsval where
  "clear_params = obj [(''origin'', jstr ''https://a.b''), (''types'', Arr [jstr ''localStorage'', jstr ''cacheStorage''])]"

definition clear_run :: "log \<times> jsval res option \<times> page_store" where
  "clear_run = play (isolatedStorageOperation kind_page ''clear'' clear_params) small_store [Inr (Arr [jstr ''c'']), Inr Undefined, Inr (Bool True)]"

definition stuck_run :: "log \<times> jsval res option \<times> page_store" where
  "stuck_run = play (isolatedStorageOperation kind_page ''clear'' clear_params) small_store [Inr (Arr [jnum 1])]"

lemmas clear_defs = operation_defs clear_params_def small_store_def kind_page_def ok_data_def js_includes_def storage_areas_def valid_names_def
  MAX_SCAN_def MAX_NAME_def clear_type_def delete_caches_def ask_def letter_sizes

lemma clear_runs_end:
  "case clear_run of (l, Some (Inr v), t) \<Rightarrow> getp v ''ok'' = Bool True \<and> ps_local t = [] \<and> ps_session t = ps_session small_store | _ \<Rightarrow> False"
  "case stuck_run of (l, Some (Inr v), t) \<Rightarrow> getp (getp v ''error'') ''code'' = jstr ''PAYLOAD_TOO_LARGE'' | _ \<Rightarrow> False"
  by (simp_all add: clear_run_def stuck_run_def clear_defs Let_def fail_def)

theorem storage_clear_all_or_nothing_witness:
  "\<exists>l v t. stuck_run = (l, Some (Inr v), t) \<and> t = small_store \<and> harmless l"
proof -
  obtain l v t where run: "stuck_run = (l, Some (Inr v), t)" and v: "getp (getp v ''error'') ''code'' = jstr ''PAYLOAD_TOO_LARGE''"
    using clear_runs_end(2) by (auto split: prod.splits option.splits sum.splits)
  have not_internal: "v \<noteq> fail INTERNAL_ERROR m b" for m b using v by (auto simp: fail_def)
  have not_data: "v \<noteq> ok_data d" for d using v by (auto simp: ok_data_def)
  from storage_clear_all_or_nothing [OF play_exec [OF run [unfolded stuck_run_def], of "(=)"]] not_internal not_data
  have "t = small_store \<and> harmless l" by (auto simp: clear_outcome_def)
  then show ?thesis using run by blast
qed

theorem masked_answers_blind_witness:
  "list_answer kind_page get_params [(lit ''k'', lit ''v'')] = list_answer kind_page get_params [(lit ''k'', lit ''w'')]
   \<and> get_answer get_params [(lit ''k'', lit ''v'')] = get_answer get_params [(lit ''k'', lit ''w'')]"
proof (rule masked_answers_blind)
  show "\<not> truthy (getp get_params ''includeValues'')" by (simp add: get_params_def)
  show "item_sizes [(lit ''k'', lit ''v'')] = item_sizes [(lit ''k'', lit ''w'')]" by code_simp
qed

end
