(* ===== verification/Network_Activity.thy ===== *)
theory Network_Activity
  imports Protocol
begin

text \<open>
  The observer of network activity, \<open>chrome-extension/src/network-activity.js\<close>: which requests of a tab are under way, and
  promises that resolve when a tab has been idle. A step is one callback; the clock stands still during a callback, does not go
  back between two, and a timer does not fire before its time. Delays are whole milliseconds that a timer can have.
\<close>

section \<open>The state\<close>

text \<open>A promise of \<open>waitForIdle\<close> with the variables of its closure; \<open>idleTimer\<close> is the time at which the timer is due.\<close>

record waiter =
  w_tabId :: jsval
  w_idleMs :: rat
  w_startedAt :: rat
  w_idleTimer :: "rat option"
  w_settled :: bool
  w_outcome :: "jsval res option"

text \<open>The maps are in the order of insertion; a subscriber is the number of its promise. \<open>listening\<close>: the events of \<open>webRequest\<close> to
  which the observer has been added.\<close>

record observer =
  activeByTab :: "(jsval \<times> jsval list) list"
  lastActivityByTab :: "(jsval \<times> rat) list"
  subscribersByTab :: "(jsval \<times> nat list) list"
  started :: bool
  listening :: "string list"
  waiters :: "waiter list"
  clock :: rat

definition createNetworkActivityObserver :: "rat \<Rightarrow> observer" where
  "createNetworkActivityObserver now = \<lparr>activeByTab = [], lastActivityByTab = [], subscribersByTab = [], started = False, listening = [],
     waiters = [], clock = now\<rparr>"

text \<open>\<open>map.get(key) || new Set()\<close>; \<open>map.delete(key)\<close>.\<close>

definition set_at :: "(jsval \<times> 'a list) list \<Rightarrow> jsval \<Rightarrow> 'a list" where
  "set_at m k = (case map_of m k of None \<Rightarrow> [] | Some xs \<Rightarrow> xs)"

definition delete_key :: "jsval \<Rightarrow> (jsval \<times> 'a) list \<Rightarrow> (jsval \<times> 'a) list" where
  "delete_key k m = filter (\<lambda>p. fst p \<noteq> k) m"

section \<open>Starting\<close>

definition webRequest_events :: "string list" where
  "webRequest_events = [''onBeforeRequest'', ''onCompleted'', ''onErrorOccurred'']"

text \<open>\<open>available\<close>: which events have an \<open>addListener\<close>. \<open>accepts\<close>: which of these calls return.\<close>

definition activity_available :: "string list \<Rightarrow> bool" where
  "activity_available offered \<longleftrightarrow> set webRequest_events \<subseteq> set offered"

fun add_listeners :: "(string \<Rightarrow> bool) \<Rightarrow> string list \<Rightarrow> observer \<Rightarrow> bool \<times> observer" where
  "add_listeners accepts [] s = (True, s)"
| "add_listeners accepts (e # es) s =
     (if accepts e then add_listeners accepts es (s\<lparr>listening := List.insert e (listening s)\<rparr>) else (False, s))"

definition start :: "bool \<Rightarrow> (string \<Rightarrow> bool) \<Rightarrow> observer \<Rightarrow> bool \<times> observer" where
  "start available accepts s =
     (if \<not> available \<or> started s then (available, s)
      else case add_listeners accepts webRequest_events s of
        (True, s') \<Rightarrow> (True, s'\<lparr>started := True\<rparr>)
      | (False, s') \<Rightarrow> (False, s'))"

section \<open>Promises\<close>

definition set_waiter :: "nat \<Rightarrow> (waiter \<Rightarrow> waiter) \<Rightarrow> observer \<Rightarrow> observer" where
  "set_waiter w f s = s\<lparr>waiters := (waiters s)[w := f (waiters s ! w)]\<rparr>"

text \<open>\<open>Math.max(lastActivityByTab.get(tabId) || startedAt, startedAt)\<close>.\<close>

definition last_activity :: "observer \<Rightarrow> waiter \<Rightarrow> rat" where
  "last_activity s w = max (case map_of (lastActivityByTab s) (w_tabId w) of None \<Rightarrow> w_startedAt w
     | Some t \<Rightarrow> if t = 0 then w_startedAt w else t) (w_startedAt w)"

definition evaluate :: "observer \<Rightarrow> waiter \<Rightarrow> waiter" where
  "evaluate s w =
     (if length (set_at (activeByTab s) (w_tabId w)) \<noteq> 0 then w\<lparr>w_idleTimer := None\<rparr>
      else let remaining = max 0 (w_idleMs w - (clock s - last_activity s w))
        in w\<lparr>w_idleTimer := Some (clock s + remaining)\<rparr>)"

definition notify :: "jsval \<Rightarrow> observer \<Rightarrow> observer" where
  "notify tabId s = fold (\<lambda>w s. set_waiter w (evaluate s) s) (set_at (subscribersByTab s) tabId) s"

definition cleanup :: "nat \<Rightarrow> observer \<Rightarrow> observer" where
  "cleanup w s =
     (let tabId = w_tabId (waiters s ! w); subscribers = removeAll w (set_at (subscribersByTab s) tabId)
      in (set_waiter w (\<lambda>v. v\<lparr>w_idleTimer := None\<rparr>) s)\<lparr>subscribersByTab :=
        if map_of (subscribersByTab s) tabId = None then subscribersByTab s
        else if subscribers = [] then delete_key tabId (subscribersByTab s)
        else assoc_set tabId subscribers (subscribersByTab s)\<rparr>)"

definition finish :: "nat \<Rightarrow> jsval res \<Rightarrow> observer \<Rightarrow> observer" where
  "finish w outcome s =
     (if w_settled (waiters s ! w) then s
      else set_waiter w (\<lambda>v. v\<lparr>w_outcome := Some outcome\<rparr>) (cleanup w (set_waiter w (\<lambda>v. v\<lparr>w_settled := True\<rparr>) s)))"

text \<open>What a promise resolves to; the text of \<open>timestamp\<close> is the platform's.\<close>

definition idle_result :: "(rat \<Rightarrow> jsstr) \<Rightarrow> observer \<Rightarrow> waiter \<Rightarrow> jsval" where
  "idle_result to_iso s w = obj [(''condition'', jstr ''networkIdle''), (''matched'', Bool True), (''idleMs'', jnum (w_idleMs w)),
     (''activeRequests'', jnum 0), (''elapsedMs'', jnum (max 0 (clock s - w_startedAt w))), (''mode'', jstr ''event''),
     (''timestamp'', Str (to_iso (clock s)))]"

definition abortReason :: "platform \<Rightarrow> exn \<Rightarrow> exn" where
  "abortReason P reason = (if is_string (getp (error_value P reason) ''code'') then reason
     else protocolError CANCELLED [Txt ''Command was cancelled''] True Undefined)"

text \<open>The number of the new promise, or the rejection. \<open>aborted\<close>: the reason of a signal that is already aborted.\<close>

definition waitForIdle :: "platform \<Rightarrow> bool \<Rightarrow> (string \<Rightarrow> bool) \<Rightarrow> jsval \<Rightarrow> rat \<Rightarrow> exn option \<Rightarrow> observer \<Rightarrow> nat res \<times> observer" where
  "waitForIdle P available accepts tabId idleMs aborted s =
     (case start available accepts s of
        (False, s1) \<Rightarrow> (Inl (fault CAPABILITY_UNAVAILABLE [Txt ''Network activity observation is unavailable in this browser'']), s1)
      | (True, s1) \<Rightarrow> case aborted of
          Some reason \<Rightarrow> (Inl (abortReason P reason), s1)
        | None \<Rightarrow>
            let w = length (waiters s1);
                waiter = \<lparr>w_tabId = tabId, w_idleMs = idleMs, w_startedAt = clock s1, w_idleTimer = None, w_settled = False, w_outcome = None\<rparr>;
                s2 = s1\<lparr>waiters := waiters s1 @ [waiter],
                  subscribersByTab := assoc_set tabId (set_at (subscribersByTab s1) tabId @ [w]) (subscribersByTab s1)\<rparr>
            in (Inr w, set_waiter w (evaluate s2) s2))"

section \<open>Events\<close>

definition tracked :: "jsval \<Rightarrow> bool" where
  "tracked details \<longleftrightarrow> is_integer (getp details ''tabId'') \<and> \<not> less_than (getp details ''tabId'') 0 \<and> getp details ''type'' \<noteq> jstr ''websocket''"

definition recordActivity :: "jsval \<Rightarrow> observer \<Rightarrow> observer" where
  "recordActivity tabId s = notify tabId (s\<lparr>lastActivityByTab := assoc_set tabId (clock s) (lastActivityByTab s)\<rparr>)"

definition onStarted :: "jsval \<Rightarrow> observer \<Rightarrow> observer" where
  "onStarted details s =
     (if \<not> tracked details then s
      else let tabId = getp details ''tabId'';
               requests = set_at (activeByTab s) tabId;
               added = (if getp details ''requestId'' \<in> set requests then requests else requests @ [getp details ''requestId''])
        in recordActivity tabId (s\<lparr>activeByTab := assoc_set tabId added (activeByTab s)\<rparr>))"

definition onFinished :: "jsval \<Rightarrow> observer \<Rightarrow> observer" where
  "onFinished details s =
     (if \<not> tracked details then s
      else let tabId = getp details ''tabId'';
               active = (case map_of (activeByTab s) tabId of
                   None \<Rightarrow> activeByTab s
                 | Some requests \<Rightarrow> let left = removeAll (getp details ''requestId'') requests
                     in if left = [] then delete_key tabId (activeByTab s) else assoc_set tabId left (activeByTab s))
        in recordActivity tabId (s\<lparr>activeByTab := active\<rparr>))"

definition reset :: "observer \<Rightarrow> observer" where
  "reset s =
     (let tabIds = rev (remdups (rev (map fst (activeByTab s) @ map fst (subscribersByTab s))))
      in fold notify tabIds (s\<lparr>activeByTab := [], lastActivityByTab := []\<rparr>))"

definition activeRequestCount :: "observer \<Rightarrow> jsval \<Rightarrow> nat" where
  "activeRequestCount s tabId = length (set_at (activeByTab s) tabId)"

section \<open>Steps\<close>

datatype activity_event =
    Start "string \<Rightarrow> bool"
  | Wait "string \<Rightarrow> bool" jsval rat "exn option"
  | Request_started jsval
  | Request_finished jsval
  | Timer nat
  | Aborted nat exn
  | Reset
  | Tick rat

text \<open>What can happen: an event to which the observer listens, a timer that is due, a signal that is not yet aborted, the clock.\<close>

definition can_happen :: "activity_event \<Rightarrow> observer \<Rightarrow> bool" where
  "can_happen e s \<longleftrightarrow> (case e of
       Request_started _ \<Rightarrow> ''onBeforeRequest'' \<in> set (listening s)
     | Request_finished _ \<Rightarrow> ''onCompleted'' \<in> set (listening s) \<or> ''onErrorOccurred'' \<in> set (listening s)
     | Timer w \<Rightarrow> w < length (waiters s) \<and> (case w_idleTimer (waiters s ! w) of None \<Rightarrow> False | Some due \<Rightarrow> due \<le> clock s)
     | Aborted w _ \<Rightarrow> w < length (waiters s) \<and> \<not> w_settled (waiters s ! w)
     | Tick t \<Rightarrow> clock s \<le> t
     | _ \<Rightarrow> True)"

definition observer_step :: "platform \<Rightarrow> (rat \<Rightarrow> jsstr) \<Rightarrow> bool \<Rightarrow> activity_event \<Rightarrow> observer \<Rightarrow> observer" where
  "observer_step P to_iso available e s = (case e of
       Start accepts \<Rightarrow> snd (start available accepts s)
     | Wait accepts tabId idleMs aborted \<Rightarrow> snd (waitForIdle P available accepts tabId idleMs aborted s)
     | Request_started details \<Rightarrow> onStarted details s
     | Request_finished details \<Rightarrow> onFinished details s
     | Timer w \<Rightarrow> finish w (Inr (idle_result to_iso s (waiters s ! w))) s
     | Aborted w reason \<Rightarrow> finish w (Inl (abortReason P reason)) s
     | Reset \<Rightarrow> reset s
     | Tick t \<Rightarrow> s\<lparr>clock := t\<rparr>)"

end
