(* ===== verification/Network_Activity_Properties.thy ===== *)
theory Network_Activity_Properties
  imports Network_Activity
begin

text \<open>
  A promise of the network observer resolves only after the tab was idle for the time that was asked for, and it does resolve
  then. The invariant ties the observer's maps to the history of events.
\<close>

section \<open>Histories\<close>

type_synonym activity_history = "(rat \<times> activity_event) list"

text \<open>What the events since the last reset say, the latest first: the requests of a tab that have started and not finished, and the
  times of its activity.\<close>

fun in_flight :: "jsval \<Rightarrow> activity_history \<Rightarrow> jsval set" where
  "in_flight tab [] = {}"
| "in_flight tab ((t, Request_started d) # h) =
     (if tracked d \<and> getp d ''tabId'' = tab then insert (getp d ''requestId'') (in_flight tab h) else in_flight tab h)"
| "in_flight tab ((t, Request_finished d) # h) =
     (if tracked d \<and> getp d ''tabId'' = tab then in_flight tab h - {getp d ''requestId''} else in_flight tab h)"
| "in_flight tab ((t, Reset) # h) = {}"
| "in_flight tab (_ # h) = in_flight tab h"

fun activity_times :: "jsval \<Rightarrow> activity_history \<Rightarrow> rat list" where
  "activity_times tab [] = []"
| "activity_times tab ((t, Request_started d) # h) =
     (if tracked d \<and> getp d ''tabId'' = tab then t # activity_times tab h else activity_times tab h)"
| "activity_times tab ((t, Request_finished d) # h) =
     (if tracked d \<and> getp d ''tabId'' = tab then t # activity_times tab h else activity_times tab h)"
| "activity_times tab ((t, Reset) # h) = []"
| "activity_times tab (_ # h) = activity_times tab h"

inductive observed :: "platform \<Rightarrow> (rat \<Rightarrow> jsstr) \<Rightarrow> bool \<Rightarrow> activity_history \<Rightarrow> observer \<Rightarrow> bool" for P to_iso available where
  created: "0 \<le> now \<Longrightarrow> observed P to_iso available [] (createNetworkActivityObserver now)"
| next_event: "observed P to_iso available h s \<Longrightarrow> can_happen e s \<Longrightarrow> observed P to_iso available ((clock s, e) # h) (observer_step P to_iso available e s)"

section \<open>The invariant\<close>

definition timer_ok :: "observer \<Rightarrow> waiter \<Rightarrow> bool" where
  "timer_ok s v \<longleftrightarrow> (if set_at (activeByTab s) (w_tabId v) \<noteq> [] then w_idleTimer v = None
     else \<exists>due. w_idleTimer v = Some due \<and> last_activity s v + w_idleMs v \<le> due \<and> due \<le> max (clock s) (last_activity s v + w_idleMs v))"

definition waiter_ok :: "observer \<Rightarrow> nat \<Rightarrow> bool" where
  "waiter_ok s w \<longleftrightarrow> (let v = waiters s ! w in 0 \<le> w_startedAt v \<and> (w_settled v \<longleftrightarrow> w_outcome v \<noteq> None)
     \<and> (if w_settled v then w_idleTimer v = None else w \<in> set (set_at (subscribersByTab s) (w_tabId v))))"

definition subscribed_ok :: "observer \<Rightarrow> bool" where
  "subscribed_ok s \<longleftrightarrow> (\<forall>tab w. w \<in> set (set_at (subscribersByTab s) tab) \<longrightarrow>
     w < length (waiters s) \<and> w_tabId (waiters s ! w) = tab \<and> \<not> w_settled (waiters s ! w))"

definition tabs_ok :: "activity_history \<Rightarrow> observer \<Rightarrow> bool" where
  "tabs_ok h s \<longleftrightarrow> 0 \<le> clock s \<and> (\<forall>x \<in> set h. 0 \<le> fst x \<and> fst x \<le> clock s) \<and> sorted_wrt (\<lambda>x y. fst y \<le> fst x) h
     \<and> (\<forall>tab. set (set_at (activeByTab s) tab) = in_flight tab h)
     \<and> (\<forall>tab. map_of (lastActivityByTab s) tab = (case activity_times tab h of [] \<Rightarrow> None | t # _ \<Rightarrow> Some t))"

definition observer_inv :: "activity_history \<Rightarrow> observer \<Rightarrow> bool" where
  "observer_inv h s \<longleftrightarrow> tabs_ok h s \<and> subscribed_ok s
     \<and> (\<forall>w < length (waiters s). waiter_ok s w \<and> (\<not> w_settled (waiters s ! w) \<longrightarrow> timer_ok s (waiters s ! w)))"

section \<open>Maps\<close>

lemma set_at_Nil [simp]: "set_at [] k = []"
  by (simp add: set_at_def)

lemma set_at_set [simp]: "set_at (assoc_set k xs m) l = (if l = k then xs else set_at m l)"
  by (simp add: set_at_def map_of_assoc_set)

lemma map_of_delete [simp]: "map_of (delete_key k m) l = (if l = k then None else map_of m l)"
  unfolding delete_key_def by (induction m) auto

lemma set_at_delete [simp]: "set_at (delete_key k m) l = (if l = k then [] else set_at m l)"
  by (simp add: set_at_def)

section \<open>Evaluating\<close>

lemma set_waiter_simps [simp]:
  "activeByTab (set_waiter w f s) = activeByTab s" "lastActivityByTab (set_waiter w f s) = lastActivityByTab s"
  "subscribersByTab (set_waiter w f s) = subscribersByTab s" "clock (set_waiter w f s) = clock s"
  "length (waiters (set_waiter w f s)) = length (waiters s)"
  by (simp_all add: set_waiter_def)

lemma evaluate_simps [simp]:
  "w_tabId (evaluate s v) = w_tabId v" "w_settled (evaluate s v) = w_settled v" "w_startedAt (evaluate s v) = w_startedAt v"
  "w_outcome (evaluate s v) = w_outcome v" "w_idleMs (evaluate s v) = w_idleMs v"
  by (simp_all add: evaluate_def Let_def)

lemma evaluate_idem: "evaluate s (evaluate s v) = evaluate s v"
  by (auto simp: evaluate_def Let_def last_activity_def split: option.splits)

lemma evaluate_ok: "timer_ok s (evaluate s v)"
  by (auto simp: timer_ok_def evaluate_def Let_def last_activity_def max_def split: option.splits)

text \<open>The waiters that are evaluated.\<close>

definition evaluated :: "nat set \<Rightarrow> observer \<Rightarrow> observer" where
  "evaluated W s = s\<lparr>waiters := map (\<lambda>i. if i \<in> W then evaluate s (waiters s ! i) else waiters s ! i) [0..<length (waiters s)]\<rparr>"

lemma evaluate_cong: "activeByTab s = activeByTab t \<Longrightarrow> lastActivityByTab s = lastActivityByTab t \<Longrightarrow> clock s = clock t \<Longrightarrow> evaluate s = evaluate t"
  by (rule ext) (simp add: evaluate_def last_activity_def)

lemma evaluated_simps [simp]:
  "activeByTab (evaluated W s) = activeByTab s" "lastActivityByTab (evaluated W s) = lastActivityByTab s"
  "subscribersByTab (evaluated W s) = subscribersByTab s" "clock (evaluated W s) = clock s" "length (waiters (evaluated W s)) = length (waiters s)"
  "w < length (waiters s) \<Longrightarrow> waiters (evaluated W s) ! w = (if w \<in> W then evaluate s (waiters s ! w) else waiters s ! w)"
  by (simp_all add: evaluated_def)

lemma evaluate_evaluated: "evaluate (evaluated W s) = evaluate s"
  by (rule evaluate_cong) simp_all

lemma fold_evaluate:
  "(\<forall>w \<in> set ws. w < length (waiters s)) \<Longrightarrow> fold (\<lambda>w s. set_waiter w (evaluate s) s) ws s = evaluated (set ws) s"
proof (induction ws rule: rev_induct)
  case Nil
  have "map ((!) (waiters s)) [0..<length (waiters s)] = waiters s" by (rule map_nth)
  then show ?case by (simp add: evaluated_def)
next
  case (snoc w ws)
  let ?s = "evaluated (set ws) s"
  have "(waiters ?s)[w := evaluate s (waiters ?s ! w)] = waiters (evaluated (set (ws @ [w])) s)"
    using snoc.prems by (auto intro!: nth_equalityI simp: nth_list_update evaluate_idem)
  then have "set_waiter w (evaluate ?s) ?s = evaluated (set (ws @ [w])) s"
    unfolding evaluate_evaluated by (simp add: set_waiter_def) (simp add: evaluated_def)
  with snoc show ?case by simp
qed

lemma subscribed_below: "subscribed_ok s \<Longrightarrow> w \<in> set (set_at (subscribersByTab s) tab) \<Longrightarrow> w < length (waiters s)"
  by (auto simp: subscribed_ok_def)

lemma notify_evaluated: "subscribed_ok s \<Longrightarrow> notify tab s = evaluated (set (set_at (subscribersByTab s) tab)) s"
  unfolding notify_def by (rule fold_evaluate) (auto dest: subscribed_below)

lemma evaluated_twice: "evaluated V (evaluated W s) = evaluated (V \<union> W) s"
proof -
  have "waiters (evaluated V (evaluated W s)) = waiters (evaluated (V \<union> W) s)"
    by (auto simp: evaluate_evaluated evaluate_idem intro!: nth_equalityI)
  then show ?thesis by (simp add: evaluated_def)
qed

lemma timer_ok_cong: "activeByTab s = activeByTab t \<Longrightarrow> lastActivityByTab s = lastActivityByTab t \<Longrightarrow> clock s = clock t \<Longrightarrow> timer_ok s v = timer_ok t v"
  by (simp add: timer_ok_def last_activity_def)

lemma subscribed_evaluated: "subscribed_ok s \<Longrightarrow> subscribed_ok (evaluated W s)"
  by (auto simp: subscribed_ok_def)

lemma waiter_evaluated:
  assumes "w < length (waiters s)" and "waiter_ok s w" and "w \<in> W \<longrightarrow> \<not> w_settled (waiters s ! w)"
  shows "waiter_ok (evaluated W s) w"
  using assms by (auto simp: waiter_ok_def Let_def)

text \<open>After the waiters of every tab that has changed have been evaluated, all timers are right.\<close>

lemma evaluated_inv:
  assumes inv: "tabs_ok h s" "subscribed_ok s" "\<forall>w < length (waiters s). waiter_ok s w"
    and W: "\<forall>w \<in> W. w < length (waiters s) \<longrightarrow> \<not> w_settled (waiters s ! w)"
    and rest: "\<forall>w < length (waiters s). w \<notin> W \<longrightarrow> \<not> w_settled (waiters s ! w) \<longrightarrow> timer_ok s (waiters s ! w)"
  shows "observer_inv h (evaluated W s)"
proof -
  have timer: "timer_ok (evaluated W s) v = timer_ok s v" for v by (rule timer_ok_cong) simp_all
  have "tabs_ok h (evaluated W s)" using inv(1) by (simp add: tabs_ok_def)
  moreover have "waiter_ok (evaluated W s) w" if "w < length (waiters s)" for w
    using that inv(3) W by (intro waiter_evaluated) auto
  ultimately show ?thesis
    using subscribed_evaluated [OF inv(2)] rest by (auto simp: observer_inv_def timer evaluate_ok)
qed

section \<open>Steps keep the invariant\<close>

text \<open>Events that say nothing of requests.\<close>

lemma tabs_ok_log:
  assumes "tabs_ok h s" and "case e of Request_started _ \<Rightarrow> False | Request_finished _ \<Rightarrow> False | Reset \<Rightarrow> False | _ \<Rightarrow> True"
  shows "tabs_ok ((clock s, e) # h) s"
  using assms by (cases e) (auto simp: tabs_ok_def)

lemma start_same:
  assumes "start available accepts s = (b, s')"
  shows "\<exists>l b. s' = s\<lparr>listening := l, started := b\<rparr>"
proof -
  have adds: "\<exists>l. snd (add_listeners accepts es s) = s\<lparr>listening := l\<rparr>" for es s
  proof (induction es arbitrary: s)
    case Nil
    show ?case by (rule exI [of _ "listening s"]) simp
  next
    case (Cons e es)
    show ?case
    proof (cases "accepts e")
      case True
      with Cons.IH [of "s\<lparr>listening := List.insert e (listening s)\<rparr>"] show ?thesis by auto
    next
      case False
      then show ?thesis by (auto intro: exI [of _ "listening s"])
    qed
  qed
  show ?thesis
  proof (cases "\<not> available \<or> started s")
    case True
    with assms have "s' = s" by (simp add: start_def)
    then show ?thesis by (intro exI [of _ "listening s"] exI [of _ "started s"]) simp
  next
    case False
    obtain l where l: "snd (add_listeners accepts webRequest_events s) = s\<lparr>listening := l\<rparr>" using adds by blast
    show ?thesis
    proof (cases "fst (add_listeners accepts webRequest_events s)")
      case True
      with False assms l have "s' = s\<lparr>listening := l, started := True\<rparr>" by (auto simp: start_def split: prod.splits if_splits)
      then show ?thesis by blast
    next
      case failed: False
      with False assms l have "s' = s\<lparr>listening := l, started := started s\<rparr>" by (auto simp: start_def split: prod.splits if_splits)
      then show ?thesis by blast
    qed
  qed
qed

lemma inv_listening: "observer_inv h (s\<lparr>listening := l, started := b\<rparr>) \<longleftrightarrow> observer_inv h s"
  by (simp add: observer_inv_def tabs_ok_def subscribed_ok_def waiter_ok_def timer_ok_def last_activity_def)

lemma inv_log:
  "observer_inv h s \<Longrightarrow> (case e of Request_started _ \<Rightarrow> False | Request_finished _ \<Rightarrow> False | Reset \<Rightarrow> False | _ \<Rightarrow> True)
   \<Longrightarrow> observer_inv ((clock s, e) # h) s"
  using tabs_ok_log [of h s e] by (simp add: observer_inv_def)

lemma timer_ok_other:
  assumes "set_at (activeByTab s) (w_tabId v) = set_at (activeByTab t) (w_tabId v)"
    and "map_of (lastActivityByTab s) (w_tabId v) = map_of (lastActivityByTab t) (w_tabId v)" and "clock s = clock t"
  shows "timer_ok s v = timer_ok t v"
  using assms by (simp add: timer_ok_def last_activity_def)

text \<open>Activity in a tab: its waiters are evaluated, those of other tabs are not concerned.\<close>

lemma inv_activity:
  assumes inv: "observer_inv h s" and s': "s' = s\<lparr>activeByTab := active, lastActivityByTab := assoc_set tab (clock s) (lastActivityByTab s)\<rparr>"
    and tabs: "tabs_ok h' s'" and other: "\<And>t. t \<noteq> tab \<Longrightarrow> set_at active t = set_at (activeByTab s) t"
  shows "observer_inv h' (notify tab s')"
proof -
  have sub: "subscribed_ok s'" and waiters: "\<forall>w < length (waiters s'). waiter_ok s' w"
    using inv by (auto simp: observer_inv_def s' subscribed_ok_def waiter_ok_def Let_def)
  show ?thesis unfolding notify_evaluated [OF sub]
  proof (rule evaluated_inv [OF tabs sub waiters])
    show "\<forall>w \<in> set (set_at (subscribersByTab s') tab). w < length (waiters s') \<longrightarrow> \<not> w_settled (waiters s' ! w)"
      using sub by (auto simp: subscribed_ok_def)
    show "\<forall>w < length (waiters s'). w \<notin> set (set_at (subscribersByTab s') tab) \<longrightarrow> \<not> w_settled (waiters s' ! w) \<longrightarrow> timer_ok s' (waiters s' ! w)"
    proof (intro allI impI)
      fix w
      assume w: "w < length (waiters s')" "w \<notin> set (set_at (subscribersByTab s') tab)" "\<not> w_settled (waiters s' ! w)"
      have "w_tabId (waiters s ! w) \<noteq> tab" using w waiters by (auto simp: waiter_ok_def Let_def s')
      then have "timer_ok s' (waiters s ! w) = timer_ok s (waiters s ! w)"
        by (intro timer_ok_other) (simp_all add: s' other map_of_assoc_set)
      with inv w show "timer_ok s' (waiters s' ! w)" by (simp add: observer_inv_def s')
    qed
  qed
qed

lemma inv_started: "observer_inv h s \<Longrightarrow> observer_inv ((clock s, Request_started d) # h) (onStarted d s)"
proof (cases "tracked d")
  case False
  moreover assume "observer_inv h s"
  ultimately show ?thesis by (auto simp: onStarted_def observer_inv_def tabs_ok_def)
next
  case True
  let ?tab = "getp d ''tabId''"
  let ?old = "set_at (activeByTab s) ?tab"
  let ?new = "if getp d ''requestId'' \<in> set ?old then ?old else ?old @ [getp d ''requestId'']"
  assume inv: "observer_inv h s"
  have "set ?new = insert (getp d ''requestId'') (set ?old)" by auto
  then have "tabs_ok ((clock s, Request_started d) # h) (s\<lparr>activeByTab := assoc_set ?tab ?new (activeByTab s),
      lastActivityByTab := assoc_set ?tab (clock s) (lastActivityByTab s)\<rparr>)"
    using inv True by (auto simp: observer_inv_def tabs_ok_def map_of_assoc_set)
  from inv_activity [OF inv refl this] True show ?thesis
    by (simp add: onStarted_def recordActivity_def Let_def)
qed

lemma inv_finished: "observer_inv h s \<Longrightarrow> observer_inv ((clock s, Request_finished d) # h) (onFinished d s)"
proof (cases "tracked d")
  case False
  moreover assume "observer_inv h s"
  ultimately show ?thesis by (auto simp: onFinished_def observer_inv_def tabs_ok_def)
next
  case True
  let ?tab = "getp d ''tabId''"
  let ?active = "case map_of (activeByTab s) ?tab of None \<Rightarrow> activeByTab s
     | Some requests \<Rightarrow> let left = removeAll (getp d ''requestId'') requests
         in if left = [] then delete_key ?tab (activeByTab s) else assoc_set ?tab left (activeByTab s)"
  assume inv: "observer_inv h s"
  have left: "set_at ?active t = (if t = ?tab then removeAll (getp d ''requestId'') (set_at (activeByTab s) ?tab) else set_at (activeByTab s) t)" for t
    by (auto simp: Let_def set_at_def map_of_assoc_set split: option.splits)
  then have "tabs_ok ((clock s, Request_finished d) # h) (s\<lparr>activeByTab := ?active,
      lastActivityByTab := assoc_set ?tab (clock s) (lastActivityByTab s)\<rparr>)"
    using inv True by (auto simp: observer_inv_def tabs_ok_def map_of_assoc_set)
  from inv_activity [OF inv refl this] left True show ?thesis
    by (simp add: onFinished_def recordActivity_def Let_def)
qed

lemma inv_wait:
  assumes inv: "observer_inv h s"
  shows "observer_inv ((clock s, Wait accepts tab idleMs aborted) # h) (snd (waitForIdle P available accepts tab idleMs aborted s))"
proof -
  let ?e = "Wait accepts tab idleMs aborted"
  obtain b s1 where start: "start available accepts s = (b, s1)" by (cases "start available accepts s")
  obtain l c where s1: "s1 = s\<lparr>listening := l, started := c\<rparr>" using start_same [OF start] by blast
  have inv1: "observer_inv ((clock s1, ?e) # h) s1" using inv by (intro inv_log) (simp_all add: s1 inv_listening)
  let ?w = "length (waiters s1)"
  let ?waiter = "\<lparr>w_tabId = tab, w_idleMs = idleMs, w_startedAt = clock s1, w_idleTimer = None, w_settled = False, w_outcome = None\<rparr>"
  let ?s2 = "s1\<lparr>waiters := waiters s1 @ [?waiter], subscribersByTab := assoc_set tab (set_at (subscribersByTab s1) tab @ [?w]) (subscribersByTab s1)\<rparr>"
  have set: "set_waiter ?w (evaluate ?s2) ?s2 = evaluated {?w} ?s2"
    using fold_evaluate [of "[?w]" ?s2] by simp
  have "observer_inv ((clock s1, ?e) # h) (evaluated {?w} ?s2)"
  proof (rule evaluated_inv)
    show "tabs_ok ((clock s1, ?e) # h) ?s2" using inv1 by (simp add: observer_inv_def tabs_ok_def)
    have "0 \<le> clock s1" using inv1 by (simp add: observer_inv_def tabs_ok_def)
    then show "\<forall>w < length (waiters ?s2). waiter_ok ?s2 w"
      using inv1 by (auto simp: observer_inv_def waiter_ok_def Let_def nth_append less_Suc_eq)
    show "subscribed_ok ?s2"
      using inv1 by (auto simp: observer_inv_def subscribed_ok_def nth_append less_Suc_eq split: if_splits)
    show "\<forall>w \<in> {?w}. w < length (waiters ?s2) \<longrightarrow> \<not> w_settled (waiters ?s2 ! w)" by simp
    have "timer_ok ?s2 v = timer_ok s1 v" for v by (rule timer_ok_cong) simp_all
    then show "\<forall>w < length (waiters ?s2). w \<notin> {?w} \<longrightarrow> \<not> w_settled (waiters ?s2 ! w) \<longrightarrow> timer_ok ?s2 (waiters ?s2 ! w)"
      using inv1 by (auto simp: observer_inv_def nth_append less_Suc_eq)
  qed
  moreover have "snd (waitForIdle P available accepts tab idleMs aborted s) = (if b \<and> aborted = None then evaluated {?w} ?s2 else s1)"
    by (cases b; cases aborted) (simp_all add: waitForIdle_def start Let_def set)
  moreover have clock: "clock s = clock s1" by (simp add: s1)
  ultimately show ?thesis using inv1 unfolding clock by presburger
qed

lemma finish_settled: "w_settled (waiters s ! w) \<Longrightarrow> finish w r s = s"
  by (simp add: finish_def)

lemma finish_simps [simp]:
  "activeByTab (finish w r s) = activeByTab s" "lastActivityByTab (finish w r s) = lastActivityByTab s" "clock (finish w r s) = clock s"
  "length (waiters (finish w r s)) = length (waiters s)"
  by (simp_all add: finish_def cleanup_def Let_def)

lemma finish_waiters: "w < length (waiters s) \<Longrightarrow> \<not> w_settled (waiters s ! w) \<Longrightarrow> waiters (finish w r s) =
    (waiters s)[w := (waiters s ! w)\<lparr>w_settled := True, w_idleTimer := None, w_outcome := Some r\<rparr>]"
  by (simp add: finish_def cleanup_def Let_def set_waiter_def)

lemma finish_subscribers:
  assumes "w < length (waiters s)" and "\<not> w_settled (waiters s ! w)"
  shows "set_at (subscribersByTab (finish w r s)) tab
    = (if tab = w_tabId (waiters s ! w) then removeAll w (set_at (subscribersByTab s) tab) else set_at (subscribersByTab s) tab)"
  using assms by (auto simp: finish_def cleanup_def Let_def set_waiter_def set_at_def map_of_assoc_set split: option.splits)

lemma inv_finish:
  assumes inv: "observer_inv h s" and w: "w < length (waiters s)"
  shows "observer_inv h (finish w r s)"
proof (cases "w_settled (waiters s ! w)")
  case True
  with inv show ?thesis by (simp add: finish_settled)
next
  case False
  have "timer_ok (finish w r s) v = timer_ok s v" for v by (rule timer_ok_cong) simp_all
  moreover have "subscribed_ok (finish w r s)"
    using inv w False by (auto simp: observer_inv_def subscribed_ok_def finish_subscribers finish_waiters nth_list_update split: if_splits)
  moreover have "tabs_ok h (finish w r s)" using inv by (simp add: observer_inv_def tabs_ok_def)
  moreover have "waiter_ok (finish w r s) v" if "v < length (waiters s)" for v
    using inv w False that by (auto simp: observer_inv_def waiter_ok_def Let_def finish_subscribers finish_waiters nth_list_update)
  ultimately show ?thesis using inv w False by (auto simp: observer_inv_def finish_waiters nth_list_update)
qed

lemma fold_notify:
  "subscribed_ok s \<Longrightarrow> fold notify tabs s = evaluated (\<Union>tab \<in> set tabs. set (set_at (subscribersByTab s) tab)) s"
proof (induction tabs rule: rev_induct)
  case Nil
  have "map ((!) (waiters s)) [0..<length (waiters s)] = waiters s" by (rule map_nth)
  then show ?case by (simp add: evaluated_def)
next
  case (snoc tab tabs)
  then show ?case
    by (simp add: notify_evaluated subscribed_evaluated evaluated_twice)
qed

lemma inv_reset:
  assumes inv: "observer_inv h s"
  shows "observer_inv ((clock s, Reset) # h) (reset s)"
proof -
  let ?tabs = "rev (remdups (rev (map fst (activeByTab s) @ map fst (subscribersByTab s))))"
  let ?s = "s\<lparr>activeByTab := [], lastActivityByTab := []\<rparr>"
  let ?W = "\<Union>tab \<in> set ?tabs. set (set_at (subscribersByTab s) tab)"
  have sub: "subscribed_ok ?s" using inv by (simp add: observer_inv_def subscribed_ok_def)
  have W: "w \<in> ?W" if "w \<in> set (set_at (subscribersByTab s) tab)" for w tab
  proof -
    have "map_of (subscribersByTab s) tab \<noteq> None" using that by (cases "map_of (subscribersByTab s) tab") (simp_all add: set_at_def)
    then have "tab \<in> fst ` set (subscribersByTab s)" unfolding map_of_eq_None_iff by blast
    then show ?thesis using that by auto
  qed
  have "observer_inv ((clock s, Reset) # h) (evaluated ?W ?s)"
  proof (rule evaluated_inv [OF _ sub])
    show "tabs_ok ((clock s, Reset) # h) ?s" using inv by (auto simp: observer_inv_def tabs_ok_def)
    show "\<forall>w < length (waiters ?s). waiter_ok ?s w" using inv by (auto simp: observer_inv_def waiter_ok_def Let_def)
    show "\<forall>w \<in> ?W. w < length (waiters ?s) \<longrightarrow> \<not> w_settled (waiters ?s ! w)" using sub by (auto simp: subscribed_ok_def)
    show "\<forall>w < length (waiters ?s). w \<notin> ?W \<longrightarrow> \<not> w_settled (waiters ?s ! w) \<longrightarrow> timer_ok ?s (waiters ?s ! w)"
    proof (intro allI impI)
      fix w
      assume w: "w < length (waiters ?s)" "w \<notin> ?W" "\<not> w_settled (waiters ?s ! w)"
      then have "w \<in> set (set_at (subscribersByTab s) (w_tabId (waiters s ! w)))"
        using inv by (auto simp: observer_inv_def waiter_ok_def Let_def)
      with W w(2) show "timer_ok ?s (waiters ?s ! w)" by blast
    qed
  qed
  then show ?thesis unfolding reset_def Let_def fold_notify [OF sub] by simp
qed

lemma inv_tick:
  assumes inv: "observer_inv h s" and t: "clock s \<le> t"
  shows "observer_inv ((clock s, Tick t) # h) (s\<lparr>clock := t\<rparr>)"
proof -
  have "tabs_ok ((clock s, Tick t) # h) (s\<lparr>clock := t\<rparr>)"
    using inv t by (fastforce simp: observer_inv_def tabs_ok_def)
  moreover have "timer_ok (s\<lparr>clock := t\<rparr>) v" if "timer_ok s v" for v
    using that t by (auto simp: timer_ok_def last_activity_def split: if_splits)
  ultimately show ?thesis using inv by (auto simp: observer_inv_def subscribed_ok_def waiter_ok_def Let_def)
qed

lemma observed_inv: "observed P to_iso available h s \<Longrightarrow> observer_inv h s"
proof (induction rule: observed.induct)
  case (created now)
  then show ?case by (simp add: createNetworkActivityObserver_def observer_inv_def tabs_ok_def subscribed_ok_def)
next
  case (next_event h s e)
  note inv = next_event.IH
  show ?case
  proof (cases e)
    case (Start accepts)
    obtain b s1 where start: "start available accepts s = (b, s1)" by (cases "start available accepts s")
    obtain l c where s1: "s1 = s\<lparr>listening := l, started := c\<rparr>" using start_same [OF start] by blast
    show ?thesis using inv inv_log [of h s1 e] by (simp add: Start observer_step_def start s1 inv_listening)
  next
    case (Wait accepts tab idleMs aborted)
    then show ?thesis using inv_wait [OF inv] by (simp add: observer_step_def)
  next
    case (Request_started d)
    then show ?thesis using inv_started [OF inv] by (simp add: observer_step_def)
  next
    case (Request_finished d)
    then show ?thesis using inv_finished [OF inv] by (simp add: observer_step_def)
  next
    case (Timer w)
    then show ?thesis using inv_finish [OF inv_log [OF inv, of e]] next_event.hyps(2) by (simp add: observer_step_def can_happen_def)
  next
    case (Aborted w reason)
    then show ?thesis using inv_finish [OF inv_log [OF inv, of e]] next_event.hyps(2) by (simp add: observer_step_def can_happen_def)
  next
    case Reset
    then show ?thesis using inv_reset [OF inv] by (simp add: observer_step_def)
  next
    case (Tick t)
    then show ?thesis using inv_tick [OF inv] next_event.hyps(2) by (simp add: observer_step_def can_happen_def)
  qed
qed

section \<open>What the promises mean\<close>

lemma activity_in_history: "t \<in> set (activity_times tab h) \<Longrightarrow> t \<in> fst ` set h"
  by (induction tab h rule: activity_times.induct) (auto split: if_splits)

lemma activity_latest: "sorted_wrt (\<lambda>x y. fst y \<le> fst x) h \<Longrightarrow> activity_times tab h = t # ts \<Longrightarrow> u \<in> set (activity_times tab h) \<Longrightarrow> u \<le> t"
proof (induction tab h arbitrary: t ts rule: activity_times.induct)
  case (2 tab x d h)
  then show ?case by (auto split: if_splits dest!: activity_in_history)
next
  case (3 tab x d h)
  then show ?case by (auto split: if_splits dest!: activity_in_history)
qed auto

lemma last_activity_bound:
  assumes "tabs_ok h s" and "0 \<le> w_startedAt v"
  shows "w_startedAt v \<le> last_activity s v" and "t \<in> set (activity_times (w_tabId v) h) \<Longrightarrow> t \<le> last_activity s v"
    and "last_activity s v = w_startedAt v \<or> last_activity s v \<in> set (activity_times (w_tabId v) h)"
proof -
  have last: "map_of (lastActivityByTab s) (w_tabId v) = (case activity_times (w_tabId v) h of [] \<Rightarrow> None | t # _ \<Rightarrow> Some t)"
    and sorted: "sorted_wrt (\<lambda>x y. fst y \<le> fst x) h"
    using assms(1) by (simp_all add: tabs_ok_def)
  show "w_startedAt v \<le> last_activity s v" by (simp add: last_activity_def)
  show "t \<le> last_activity s v" if t: "t \<in> set (activity_times (w_tabId v) h)"
  proof -
    obtain u us where us: "activity_times (w_tabId v) h = u # us" using t by (cases "activity_times (w_tabId v) h") auto
    then have "t \<le> u" using activity_latest [OF sorted us t] by simp
    then show ?thesis using last us assms(2) by (auto simp: last_activity_def)
  qed
  show "last_activity s v = w_startedAt v \<or> last_activity s v \<in> set (activity_times (w_tabId v) h)"
    using last by (auto simp: last_activity_def max_def split: list.splits)
qed

lemma idle_timer_sound:
  assumes "observed P to_iso available h s" and "can_happen (Timer w) s"
  shows "in_flight (w_tabId (waiters s ! w)) h = {}"
    and "\<forall>t \<in> set (activity_times (w_tabId (waiters s ! w)) h). t + w_idleMs (waiters s ! w) \<le> clock s"
    and "w_startedAt (waiters s ! w) + w_idleMs (waiters s ! w) \<le> clock s"
    and "w_outcome (waiters (observer_step P to_iso available (Timer w) s) ! w) = Some (Inr (idle_result to_iso s (waiters s ! w)))"
proof -
  let ?v = "waiters s ! w"
  have inv: "observer_inv h s" by (rule observed_inv [OF assms(1)])
  obtain due where w: "w < length (waiters s)" and due: "w_idleTimer ?v = Some due" "due \<le> clock s"
    using assms(2) by (auto simp: can_happen_def split: option.splits)
  have pending: "\<not> w_settled ?v" and started: "0 \<le> w_startedAt ?v" and timer: "timer_ok s ?v"
    using inv w due(1) by (auto simp: observer_inv_def waiter_ok_def Let_def split: if_splits)
  have tabs: "tabs_ok h s" using inv by (simp add: observer_inv_def)
  have idle: "set_at (activeByTab s) (w_tabId ?v) = []" and late: "last_activity s ?v + w_idleMs ?v \<le> clock s"
    using timer due by (auto simp: timer_ok_def split: if_splits)
  have "set (set_at (activeByTab s) (w_tabId ?v)) = in_flight (w_tabId ?v) h" using tabs by (simp add: tabs_ok_def)
  with idle show "in_flight (w_tabId ?v) h = {}" by simp
  note bound = last_activity_bound [OF tabs started]
  show "\<forall>t \<in> set (activity_times (w_tabId ?v) h). t + w_idleMs ?v \<le> clock s" using bound(2) late by fastforce
  show "w_startedAt ?v + w_idleMs ?v \<le> clock s" using bound(1) late by linarith
  show "w_outcome (waiters (observer_step P to_iso available (Timer w) s) ! w) = Some (Inr (idle_result to_iso s ?v))"
    using w pending by (simp add: observer_step_def finish_waiters)
qed

text \<open>C24: an unsettled promise whose tab has no request under way is not stuck: its timer is running, and can fire as soon as the
  clock has passed \<open>idleMs\<close> milliseconds after the promise was made and after the last activity of the tab.\<close>

theorem network_idle_live:
  assumes "observed P to_iso available h s" and "w < length (waiters s)" and "w_outcome (waiters s ! w) = None"
    and "in_flight (w_tabId (waiters s ! w)) h = {}" and "clock s \<le> t" and "w_startedAt (waiters s ! w) + w_idleMs (waiters s ! w) \<le> t"
    and "\<forall>a \<in> set (activity_times (w_tabId (waiters s ! w)) h). a + w_idleMs (waiters s ! w) \<le> t"
  shows "can_happen (Timer w) (observer_step P to_iso available (Tick t) s)"
proof -
  let ?v = "waiters s ! w"
  have inv: "observer_inv h s" by (rule observed_inv [OF assms(1)])
  have started: "0 \<le> w_startedAt ?v" and timer: "timer_ok s ?v"
    using inv assms(2,3) by (auto simp: observer_inv_def waiter_ok_def Let_def)
  have tabs: "tabs_ok h s" using inv by (simp add: observer_inv_def)
  have "set (set_at (activeByTab s) (w_tabId ?v)) = in_flight (w_tabId ?v) h" using tabs by (simp add: tabs_ok_def)
  with assms(4) timer obtain due where due: "w_idleTimer ?v = Some due" "due \<le> max (clock s) (last_activity s ?v + w_idleMs ?v)"
    by (auto simp: timer_ok_def split: if_splits)
  have "last_activity s ?v + w_idleMs ?v \<le> t" using last_activity_bound(3) [OF tabs started] assms(6,7) by auto
  with due assms(2,5) show ?thesis by (simp add: can_happen_def observer_step_def)
qed

lemma notify_keeps:
  assumes "subscribed_ok s" and "w < length (waiters s)"
  shows "w_outcome (waiters (notify tab s) ! w) = w_outcome (waiters s ! w)"
  using assms by (simp add: notify_evaluated)

lemma step_keeps:
  assumes inv: "observer_inv h s" and w: "w < length (waiters s)" and settled: "w_settled (waiters s ! w)" and e: "can_happen e s"
  shows "w_outcome (waiters (observer_step P to_iso available e s) ! w) = w_outcome (waiters s ! w)"
proof -
  have sub: "subscribed_ok (s\<lparr>activeByTab := a, lastActivityByTab := l\<rparr>)" for a l
    using inv by (simp add: observer_inv_def subscribed_ok_def)
  have finish: "w_outcome (waiters (finish v r s) ! w) = w_outcome (waiters s ! w)" if "v < length (waiters s)" for v r
    using settled that w by (cases "w_settled (waiters s ! v)") (auto simp: finish_settled finish_waiters nth_list_update)
  have active: "w_outcome (waiters (notify tab (s\<lparr>activeByTab := a, lastActivityByTab := l\<rparr>)) ! w) = w_outcome (waiters s ! w)" for tab a l
    using notify_keeps [OF sub] w by simp
  have start: "waiters (snd (start available accepts s)) = waiters s" for accepts
    using start_same [of available accepts s "fst (start available accepts s)" "snd (start available accepts s)"] by auto
  have wait: "w_outcome (waiters (snd (waitForIdle P available accepts tab idleMs aborted s)) ! w) = w_outcome (waiters s ! w)" for accepts tab idleMs aborted
    using start [of accepts] w unfolding waitForIdle_def
    by (auto simp: Let_def set_waiter_def nth_append split: prod.splits bool.splits option.splits)
  have reset: "w_outcome (waiters (reset s) ! w) = w_outcome (waiters s ! w)"
    using w by (simp add: reset_def Let_def fold_notify [OF sub])
  show ?thesis using e finish start wait active reset
    by (cases e) (auto simp: observer_step_def can_happen_def onStarted_def onFinished_def recordActivity_def Let_def)
qed

text \<open>Only its timer resolves a promise: no other event gives it a result, and a new promise has none.\<close>

lemma step_resolves:
  assumes inv: "observer_inv h s" and e: "can_happen e s" and w: "w < length (waiters (observer_step P to_iso available e s))"
    and result: "w_outcome (waiters (observer_step P to_iso available e s) ! w) = Some (Inr v)"
    and before: "w < length (waiters s) \<Longrightarrow> w_outcome (waiters s ! w) = None"
  shows "e = Timer w"
proof (rule ccontr)
  assume other: "e \<noteq> Timer w"
  have sub: "subscribed_ok (s\<lparr>activeByTab := a, lastActivityByTab := l\<rparr>)" for a l
    using inv by (simp add: observer_inv_def subscribed_ok_def)
  have lengths: "length (waiters (notify tab (s\<lparr>activeByTab := a, lastActivityByTab := l\<rparr>))) = length (waiters s)"
    "length (waiters (reset s)) = length (waiters s)" for tab a l
    by (simp_all add: notify_evaluated [OF sub] reset_def Let_def fold_notify [OF sub])
  have start: "waiters (snd (start available accepts s)) = waiters s" for accepts
    using start_same [of available accepts s "fst (start available accepts s)" "snd (start available accepts s)"] by auto
  have finish: "w_outcome (waiters (finish u r s) ! w) \<noteq> Some (Inr v)" if "u < length (waiters s)" "w < length (waiters s)" "u \<noteq> w \<or> (\<exists>x. r = Inl x)" for u r
    using that before by (cases "w_settled (waiters s ! u)") (auto simp: finish_settled finish_waiters nth_list_update)
  have active: "w_outcome (waiters (notify tab (s\<lparr>activeByTab := a, lastActivityByTab := l\<rparr>)) ! w) \<noteq> Some (Inr v)" if "w < length (waiters s)" for tab a l
    using notify_keeps [OF sub] before that by simp
  have reset: "w_outcome (waiters (reset s) ! w) \<noteq> Some (Inr v)" if "w < length (waiters s)"
    using before that by (simp add: reset_def Let_def fold_notify [OF sub])
  have wait: "w_outcome (waiters (snd (waitForIdle P available accepts tab idleMs aborted s)) ! w) \<noteq> Some (Inr v)"
    if "w < length (waiters (snd (waitForIdle P available accepts tab idleMs aborted s)))" for accepts tab idleMs aborted
    using start [of accepts] that before unfolding waitForIdle_def
    by (auto simp: Let_def set_waiter_def nth_append less_Suc_eq split: prod.splits bool.splits option.splits if_splits)
  show False using e w result other before start finish active reset wait lengths
    by (cases e) (auto simp: observer_step_def can_happen_def onStarted_def onFinished_def recordActivity_def Let_def split: if_splits)
qed

text \<open>C23: a promise of \<open>waitForIdle\<close> resolves only when no request of its tab is under way, and the tab had no activity, and the
  promise existed, for the whole of the last \<open>idleMs\<close> milliseconds (as far as the observer looks back: to the last reset); its
  result tells the time since it was made.\<close>

theorem network_idle_sound:
  assumes "observed P to_iso available h s" and "can_happen e s"
    and "w < length (waiters s) \<Longrightarrow> w_outcome (waiters s ! w) = None"
    and "w < length (waiters (observer_step P to_iso available e s))"
    and "w_outcome (waiters (observer_step P to_iso available e s) ! w) = Some (Inr v)"
  shows "w < length (waiters s) \<and> in_flight (w_tabId (waiters s ! w)) h = {}
    \<and> (\<forall>t \<in> set (activity_times (w_tabId (waiters s ! w)) h). t + w_idleMs (waiters s ! w) \<le> clock s)
    \<and> w_startedAt (waiters s ! w) + w_idleMs (waiters s ! w) \<le> clock s
    \<and> v = idle_result to_iso s (waiters s ! w)"
proof -
  have e: "e = Timer w" by (rule step_resolves [OF observed_inv [OF assms(1)] assms(2,4,5,3)])
  with assms(2) have "w < length (waiters s)" "can_happen (Timer w) s" by (simp_all add: can_happen_def)
  with idle_timer_sound [OF assms(1), of w] assms(5) e show ?thesis by simp
qed

text \<open>A promise is settled at most once, and a settled promise leaves nothing behind: no timer, no subscription.\<close>

theorem network_wait_settled_once:
  assumes "observed P to_iso available h s" and "w < length (waiters s)" and "w_outcome (waiters s ! w) = Some r" and "can_happen e s"
  shows "w_outcome (waiters (observer_step P to_iso available e s) ! w) = Some r \<and> w_idleTimer (waiters s ! w) = None
    \<and> (\<forall>tab. w \<notin> set (set_at (subscribersByTab s) tab))"
proof -
  have inv: "observer_inv h s" by (rule observed_inv [OF assms(1)])
  have settled: "w_settled (waiters s ! w)" and "w_idleTimer (waiters s ! w) = None"
    using inv assms(2,3) by (auto simp: observer_inv_def waiter_ok_def Let_def split: if_splits)
  moreover have "\<forall>tab. w \<notin> set (set_at (subscribersByTab s) tab)" using inv settled by (auto simp: observer_inv_def subscribed_ok_def)
  moreover have "w_outcome (waiters (observer_step P to_iso available e s) ! w) = Some r"
    using step_keeps [OF inv assms(2) settled assms(4)] assms(3) by simp
  ultimately show ?thesis by blast
qed

section \<open>Witnesses\<close>

fun activity_run :: "activity_event list \<Rightarrow> activity_history \<times> observer \<Rightarrow> (activity_history \<times> observer) option" where
  "activity_run [] x = Some x"
| "activity_run (e # es) (h, s) =
     (if can_happen e s then activity_run es ((clock s, e) # h, observer_step demo_platform (\<lambda>_. []) True e s) else None)"

lemma observed_run: "observed demo_platform (\<lambda>_. []) True h s \<Longrightarrow> activity_run es (h, s) = Some (h', s') \<Longrightarrow> observed demo_platform (\<lambda>_. []) True h' s'"
  by (induction es "(h, s)" arbitrary: h s rule: activity_run.induct) (auto split: if_splits intro: observed.next_event)

definition one_request :: jsval where
  "one_request = obj [(''tabId'', jnum 1), (''requestId'', jstr ''r'')]"

definition idle_events :: "activity_event list" where
  "idle_events = [Wait (\<lambda>_. True) (jnum 1) 100 None, Request_started one_request, Tick 50, Request_finished one_request, Tick 200]"

definition idle_history :: activity_history where
  "idle_history = [(50, Tick 200), (50, Request_finished one_request), (5, Tick 50), (5, Request_started one_request),
     (5, Wait (\<lambda>_. True) (jnum 1) 100 None)]"

definition idle_waiter :: waiter where
  "idle_waiter = \<lparr>w_tabId = jnum 1, w_idleMs = 100, w_startedAt = 5, w_idleTimer = Some 150, w_settled = False, w_outcome = None\<rparr>"

definition idle_state :: observer where
  "idle_state = \<lparr>activeByTab = [], lastActivityByTab = [(jnum 1, 50)], subscribersByTab = [(jnum 1, [0])], started = True,
     listening = [''onErrorOccurred'', ''onCompleted'', ''onBeforeRequest''], waiters = [idle_waiter], clock = 200\<rparr>"

lemma whole_one: "is_integer (jnum 1)"
  by code_simp

lemma idle_run: "activity_run idle_events ([], createNetworkActivityObserver 5) = Some (idle_history, idle_state)"
  by (simp add: idle_events_def idle_history_def idle_state_def idle_waiter_def createNetworkActivityObserver_def can_happen_def observer_step_def
    waitForIdle_def start_def webRequest_events_def Let_def set_waiter_def evaluate_def last_activity_def set_at_def onStarted_def onFinished_def
    tracked_def one_request_def whole_one recordActivity_def notify_def delete_key_def List.insert_def)

lemma idle_observed: "observed demo_platform (\<lambda>_. []) True idle_history idle_state"
  by (rule observed_run [OF created idle_run]) simp

theorem network_idle_sound_witness:
  "in_flight (jnum 1) idle_history = {} \<and> list_all (\<lambda>t. t + 100 \<le> 200) (activity_times (jnum 1) idle_history)
   \<and> w_outcome (waiters (observer_step demo_platform (\<lambda>_. []) True (Timer 0) idle_state) ! 0)
       = Some (Inr (idle_result (\<lambda>_. []) idle_state idle_waiter))"
proof -
  have timer: "can_happen (Timer 0) idle_state" by (simp add: can_happen_def idle_state_def idle_waiter_def)
  have waiters: "waiters idle_state = [idle_waiter]" "w_outcome idle_waiter = None" "\<not> w_settled idle_waiter"
    by (simp_all add: idle_state_def idle_waiter_def)
  have step: "length (waiters (observer_step demo_platform (\<lambda>_. []) True (Timer 0) idle_state)) = 1"
    "w_outcome (waiters (observer_step demo_platform (\<lambda>_. []) True (Timer 0) idle_state) ! 0)
       = Some (Inr (idle_result (\<lambda>_. []) idle_state idle_waiter))"
    using waiters by (simp_all add: observer_step_def finish_waiters)
  have "0 < length (waiters (observer_step demo_platform (\<lambda>_. []) True (Timer 0) idle_state))" "w_outcome (waiters idle_state ! 0) = None"
    using step(1) waiters by simp_all
  from network_idle_sound [OF idle_observed timer this(2,1) step(2)]
  show ?thesis unfolding step(2) by (simp add: idle_state_def idle_waiter_def list_all_iff)
qed

theorem network_idle_live_witness:
  "can_happen (Timer 0) (observer_step demo_platform (\<lambda>_. []) True (Tick 200) idle_state)"
  by (rule network_idle_live [OF idle_observed])
    (simp_all add: idle_state_def idle_waiter_def idle_history_def one_request_def tracked_def whole_one)

definition settled_state :: observer where
  "settled_state = observer_step demo_platform (\<lambda>_. []) True (Timer 0) idle_state"

theorem network_wait_settled_once_witness:
  "\<exists>r. w_outcome (waiters settled_state ! 0) = Some r
     \<and> w_outcome (waiters (observer_step demo_platform (\<lambda>_. []) True Reset settled_state) ! 0) = Some r"
proof -
  have timer: "can_happen (Timer 0) idle_state" by (simp add: can_happen_def idle_state_def idle_waiter_def)
  have observed: "observed demo_platform (\<lambda>_. []) True ((clock idle_state, Timer 0) # idle_history) settled_state"
    unfolding settled_state_def by (rule observed.next_event [OF idle_observed timer])
  have "length (waiters settled_state) = 1" and outcome: "\<exists>r. w_outcome (waiters settled_state ! 0) = Some r"
    by (simp_all add: settled_state_def observer_step_def finish_def cleanup_def set_waiter_def Let_def idle_state_def idle_waiter_def)
  then have w: "0 < length (waiters settled_state)" by simp
  obtain r where r: "w_outcome (waiters settled_state ! 0) = Some r" using outcome by blast
  have "can_happen Reset settled_state" by (simp add: can_happen_def)
  from network_wait_settled_once [OF observed w r this] r show ?thesis by blast
qed

end
