(* ===== verification/Spec2Isabelle.thy ===== *)
theory Spec2Isabelle
  imports Router Command_Properties Cdp_Properties Network_Properties Raw_Properties Capabilities Cookie_Properties Download_Properties Personal_Properties Storage_Properties Storage_Answers Network_Activity_Properties
begin

text \<open>
  A model of the browser extension of mcp-browser-control (\<open>chrome-extension/src/\<close>).

  \<^bold>\<open>The program.\<close> A local server sends commands over a WebSocket; the service worker hands each message to
  \<open>CommandRouter.execute\<close> (\<open>command-router.js\<close>), which looks the command up in the table \<open>COMMANDS\<close>,
  validates its parameters and target, asks for the available capabilities, and calls the handler
  registered for the command. Handlers that need the browser's debugger lease a session from the
  CDP session manager (\<open>cdp-session-manager.js\<close>). Messages and errors are those of \<open>protocol.js\<close>.

  \<^bold>\<open>Theories.\<close>
  \<^item> \<open>Prelude\<close>, \<open>Js_Values\<close>: statements that throw, as sums; JavaScript values, strings, numbers.
  \<^item> \<open>Protocol\<close>: \<open>protocol.js\<close>.
  \<^item> \<open>Param_Checks\<close>, \<open>Window_Tab_Commands\<close>, \<open>Page_Commands\<close>, \<open>Inspection_Commands\<close>, \<open>Data_Commands\<close>: the
    parameter validators of \<open>command-router.js\<close>, by their names there; \<open>Command_Properties\<close>: what they
    guarantee (page ranges, PDF margins, cookies, raw CDP, storage).
  \<^item> \<open>Command_Table\<close>: the table, and the handlers that \<open>service-worker.js\<close> registers. \<open>Router\<close>: the class
    \<open>CommandRouter\<close> as a step relation.
  \<^item> \<open>Json\<close>, \<open>Bounded_Buffer\<close>: the size of JSON text; a buffer that evicts its oldest elements, as a locale.
  \<^item> \<open>Cdp_Consumers\<close>, \<open>Cdp_Targets\<close>, \<open>Cdp_Sessions\<close>: the CDP session manager: consumers and their event
    queues, child targets and frame contexts, sessions and leases. \<open>Cdp_Invariants\<close>: what every step
    keeps; \<open>Cdp_Properties\<close>: what that gives.
  \<^item> \<open>Capabilities\<close>: \<open>capabilities.js\<close> and \<open>permission-profiles.js\<close>: which commands are offered.
  \<^item> \<open>Regex\<close>, \<open>Network_Redaction\<close>, \<open>Network_Buffer\<close>, \<open>Network_Read\<close>: the network capture
    (\<open>handlers/network.js\<close>): redaction, the buffer under the debugger's events, pages, bodies, HAR archives.
    \<open>Network_Invariants\<close>, \<open>Network_Laws\<close>, \<open>Network_Events\<close>, \<open>Network_Reading\<close>, \<open>Network_Properties\<close>: what holds of them.
  \<^item> \<open>Browser_Calls\<close>, \<open>Handler_Support\<close>: asynchronous handlers, and what the handler files repeat (deadlines, the
    target tab, site access, the document, debugger sessions).
  \<^item> \<open>Raw_Cdp\<close>, \<open>Raw_Properties\<close>: \<open>handlers/raw-cdp.js\<close>. \<open>Cookies\<close>, \<open>Cookie_Properties\<close>: \<open>handlers/cookies.js\<close>.
    \<open>Downloads\<close>, \<open>Download_Properties\<close>: \<open>handlers/downloads.js\<close>. \<open>Personal_Data\<close>,
    \<open>Personal_Properties\<close>: \<open>handlers/personal-data.js\<close>. \<open>Storage\<close>, \<open>Storage_Properties\<close>:
    \<open>handlers/storage.js\<close>; \<open>Page_Storage\<close>: the function it injects into the page; \<open>Storage_Answers\<close>: both together. \<open>Paging\<close>: the pages of these lists.
  \<^item> \<open>Network_Activity\<close>, \<open>Network_Activity_Properties\<close>: \<open>network-activity.js\<close> as a state machine over its callbacks: what it means that a wait for
    an idle network ends.

  \<^bold>\<open>Correspondence.\<close> A function of the code is a definition of the same name. A function that throws returns
  a sum (\<open>Inl\<close> the error). A class is a record of its fields; references to shared objects are
  numbers into a store. An asynchronous function is cut at its \<open>await\<close>s: a step is one synchronous
  piece, and what is awaited comes with an event of the environment, in any order. Logs of calls and
  responses are history variables. A handler that only calls the browser and continues with the answers is a value of
  type \<open>io\<close>: \<open>exec\<close> gives its runs, in which the environment answers anything and changes the shared state
  whenever the handler waits; \<open>exec_total\<close> says that each has an end. Answers have the types the browser documents. Where the code races an operation
  against its abort signal, a run logs the rest of the operation before the clean-up.

  \<^bold>\<open>Conventions.\<close> Strings are lists of UTF-16 code units; objects are association lists in the order of
  their keys, without \<open>toString\<close> and \<open>valueOf\<close> of their own but where a header value is made a string (\<open>string_throws\<close>); numbers are exact rationals, infinities or
  NaN, with rounding (\<open>fl\<close>) where the code adds fractions; JSON values are finite trees. The parser of
  URLs, \<open>Date.parse\<close>, Unicode lower-casing and the shortest decimal of a fraction are parameters
  (record \<open>platform\<close>). Texts of errors are templates (\<open>msg\<close>). Callbacks of consumers do not throw
  synchronously and do not call back into the manager before they return. Loops have a measure (\<open>make_room\<close>,
  \<open>remove_pending\<close>); only the recursion over the dependencies of permission profiles has fuel, one unit more than there
  are profiles, and \<open>request_returns\<close> shows that it is enough.

  \<^bold>\<open>Lemmas.\<close> \<open>accept_simps\<close> and \<open>fault_intros\<close> say when validators accept and which errors they throw. The
  router's \<open>router_ok\<close> and the manager's \<open>manager_inv\<close> are invariants by induction on the reachable states;
  \<open>same_manager\<close> and \<open>local_to\<close> say what a step leaves alone. Calls of handlers are checked with the rules \<open>safe_intros\<close>, a verification-condition
  generator for guards on calls and postconditions on logs. The locale \<open>bounded_buffer\<close> is interpreted on the
  consumers' queues, \<open>command_table\<close> on the table of commands, \<open>paged\<close> (pages fit together) on the lists of cookies, downloads
  and personal data.

  \<^bold>\<open>Not modelled.\<close> The content scripts, the popup and options pages, which are code over the DOM; the handlers of pages,
  windows, tabs, evaluation, accessibility, performance, emulation and the console; the
  connection and pairing of the service worker; the map of network captures and the waiting of its commands; the moment at which \<open>acquire\<close> rejects after its clean-up; reports of errors of callbacks.
\<close>

end
